(* ===== verification/Prelude.thy ===== *)
theory Prelude
  imports Main "HOL-Library.Word" "HOL-Library.AList"
begin

text \<open>
  Shared vocabulary of the development: how a fallible C++ call is represented, the type names of
  the fixed-width integers, and the generic facts on lists, loops over indices and machine words
  that the component theories rest on.

  A call of the provider fails in one of three ways.  It returns an \<open>Ort::Status\<close> that is not OK
  (\<open>Status_Fail\<close>), it throws an exception (\<open>Thrown\<close>), or it leaves defined behaviour, for instance by
  indexing a vector outside its bounds (\<open>Undefined_Behaviour\<close>).
\<close>

named_theorems loop_simps \<open>index loops rewritten to the list functions they compute\<close>
named_theorems word_ranges \<open>masks and casts that leave a value in range unchanged\<close>

unbundle bit_operations_syntax

type_synonym byte = "8 word"
type_synonym uint32 = "32 word"
type_synonym uint64 = "64 word"

datatype error =
    Status_Fail string
  | Thrown string
  | Undefined_Behaviour string

type_synonym 'a result = "error + 'a"

abbreviation Ok :: "'a \<Rightarrow> 'a result" where
  "Ok \<equiv> Inr"

definition is_ok :: "'a result \<Rightarrow> bool" where
  "is_ok r = (case r of Inr _ \<Rightarrow> True | Inl _ \<Rightarrow> False)"

definition and_then :: "'a result \<Rightarrow> ('a \<Rightarrow> 'b result) \<Rightarrow> 'b result" where
  "and_then r f = (case r of Inl e \<Rightarrow> Inl e | Inr x \<Rightarrow> f x)"

definition require :: "bool \<Rightarrow> error \<Rightarrow> unit result" where
  "require c e = (if c then Inr () else Inl e)"

text \<open>
  An operation on a state that returns a status yields both, because a failing C++ call keeps the changes it has
  already made.  \<open>then_s\<close> is \<open>RETURN_IF_ERROR(r); f\<close>.
\<close>

definition then_s :: "'a result \<times> 's \<Rightarrow> ('a \<Rightarrow> 's \<Rightarrow> 'b result \<times> 's) \<Rightarrow> 'b result \<times> 's" where
  "then_s r f = (case r of (Inl e, s) \<Rightarrow> (Inl e, s) | (Inr x, s) \<Rightarrow> f x s)"

primrec traverse :: "('a \<Rightarrow> 'b result) \<Rightarrow> 'a list \<Rightarrow> 'b list result" where
  "traverse f [] = Inr []"
| "traverse f (x # xs) = and_then (f x) (\<lambda>y. and_then (traverse f xs) (\<lambda>ys. Inr (y # ys)))"

text \<open>A call that keeps to the status contract: it neither throws nor leaves defined behaviour.\<close>

definition no_throw :: "'a result \<Rightarrow> bool" where
  "no_throw r = (case r of Inl (Status_Fail _) \<Rightarrow> True | Inl _ \<Rightarrow> False | Inr _ \<Rightarrow> True)"

lemma no_throw_simps [simp]: "no_throw (Inr x)" "no_throw (Inl (Status_Fail m))"
  by (simp_all add: no_throw_def)

lemma is_ok_simps [simp]: "is_ok (Inr x)" "\<not> is_ok (Inl e)"
  by (simp_all add: is_ok_def)

lemma and_then_simps [simp]: "and_then (Inl e) f = Inl e" "and_then (Inr x) f = f x"
  by (simp_all add: and_then_def)

lemma and_then_eq_Inr_iff: "and_then r f = Inr y \<longleftrightarrow> (\<exists>x. r = Inr x \<and> f x = Inr y)"
  by (cases r) auto

lemma then_s_simps [simp]: "then_s (Inl e, s) f = (Inl e, s)" "then_s (Inr x, s) f = f x s"
  by (simp_all add: then_s_def)

text \<open>
  \<open>yields I m Q\<close>: whatever the call \<open>m\<close> returns, its state satisfies the invariant \<open>I\<close>, and if it returns a value, the value and
  the state satisfy \<open>Q\<close>.  The rules follow the structure of a handler written with \<open>then_s\<close>.
\<close>

definition yields :: "('s \<Rightarrow> bool) \<Rightarrow> 'a result \<times> 's \<Rightarrow> ('a \<Rightarrow> 's \<Rightarrow> bool) \<Rightarrow> bool" where
  "yields I m Q \<longleftrightarrow> I (snd m) \<and> (\<forall>x. fst m = Inr x \<longrightarrow> Q x (snd m))"

lemma yields_Inr [simp]: "yields I (Inr x, s) Q \<longleftrightarrow> I s \<and> Q x s"
  by (simp add: yields_def)

lemma yields_Inl [simp]: "yields I (Inl e, s) Q \<longleftrightarrow> I s"
  by (simp add: yields_def)

lemma yields_then:
  assumes "yields I m P" "\<And>x s. I s \<Longrightarrow> P x s \<Longrightarrow> yields I (f x s) Q"
  shows "yields I (then_s m f) Q"
proof -
  obtain r s where m: "m = (r, s)" by (cases m)
  show ?thesis using assms by (cases r) (auto simp: m yields_def)
qed

lemma yields_mono: "yields I m P \<Longrightarrow> (\<And>x s. I s \<Longrightarrow> P x s \<Longrightarrow> Q x s) \<Longrightarrow> yields I m Q"
  by (simp add: yields_def)

lemma yieldsD: "yields I m Q \<Longrightarrow> m = (r, s) \<Longrightarrow> I s \<and> (\<forall>x. r = Inr x \<longrightarrow> Q x s)"
  by (simp add: yields_def)

lemma no_throw_and_then [simp]: "no_throw r \<Longrightarrow> (\<And>x. no_throw (f x)) \<Longrightarrow> no_throw (and_then r f)"
  by (cases r) (auto simp: no_throw_def)

lemma no_throw_traverse [simp]: "(\<And>x. no_throw (f x)) \<Longrightarrow> no_throw (traverse f xs)"
  by (induction xs) auto

lemma require_simps [simp]: "require True e = Inr ()" "require False e = Inl e"
  by (simp_all add: require_def)

lemma require_eq_Inr_iff [simp]: "require c e = Inr u \<longleftrightarrow> c"
  by (simp add: require_def)

lemma traverse_eq_Inr_iff:
  "traverse f xs = Inr ys \<longleftrightarrow> length ys = length xs \<and> (\<forall>i < length xs. f (xs ! i) = Inr (ys ! i))"
proof (induction xs arbitrary: ys)
  case (Cons x xs)
  show ?case
    by (cases ys) (simp_all add: and_then_eq_Inr_iff Cons.IH All_less_Suc2, blast)
qed auto

subsection \<open>Loops over indices\<close>

text \<open>
  A loop \<open>for (i = 0; i < n; ++i) dst[i] = f(i)\<close> is the fold of the list updates in index order.
\<close>

definition fill_loop :: "(nat \<Rightarrow> 'a) \<Rightarrow> nat \<Rightarrow> 'a list \<Rightarrow> 'a list" where
  "fill_loop f n dst = fold (\<lambda>i d. d[i := f i]) [0..<n] dst"

lemma fill_loop_0 [simp]: "fill_loop f 0 dst = dst"
  by (simp add: fill_loop_def)

lemma fill_loop_Suc: "fill_loop f (Suc n) dst = (fill_loop f n dst)[n := f n]"
  by (simp add: fill_loop_def)

lemma length_fill_loop [simp]: "length (fill_loop f n dst) = length dst"
  by (induction n) (simp_all add: fill_loop_Suc)

lemma nth_fill_loop [simp]:
  "i < length dst \<Longrightarrow> fill_loop f n dst ! i = (if i < n then f i else dst ! i)"
  by (induction n) (auto simp: fill_loop_Suc nth_list_update less_Suc_eq)

lemma fill_loop_all [loop_simps]: "fill_loop f (length dst) dst = map f [0..<length dst]"
  by (rule nth_equalityI) auto

lemma length_concat_rows [simp]: "length (concat (map (\<lambda>c. map (f c) [0..<nb]) [0..<nc])) = nc * nb"
  by (induction nc) simp_all

lemma nth_concat_rows:
  "c < nc \<Longrightarrow> b < nb \<Longrightarrow> concat (map (\<lambda>c. map (f c) [0..<nb]) [0..<nc]) ! (c * nb + b) = f c b"
proof (induction nc)
  case (Suc nc)
  show ?case
  proof (cases "c = nc")
    case False
    then have "c < nc" using Suc.prems by simp
    then have "c * nb + b < nc * nb"
      using Suc.prems(2) by (metis add.commute add_less_cancel_right le_add2 less_le_trans mult_Suc mult_le_mono1 Suc_leI)
    with Suc.IH \<open>c < nc\<close> Suc.prems(2) show ?thesis by (simp add: nth_append)
  qed (use Suc.prems in \<open>simp add: nth_append\<close>)
qed simp

lemma takeWhile_first: "x \<notin> set xs \<Longrightarrow> takeWhile (\<lambda>y. y \<noteq> x) (xs @ x # ys) = xs"
  by (induction xs) auto

lemma distinct_map_upt_inj: "inj_on f {..<n} \<Longrightarrow> distinct (map f [0..<n])"
  by (simp add: distinct_map atLeast0LessThan)

subsection \<open>Hash maps\<close>

text \<open>
  A \<open>std::unordered_map\<close> is an association list with distinct keys.  \<open>emplace\<close> (like \<open>insert\<close>) keeps an
  existing entry, \<open>assign\<close> (\<open>m[k] = v\<close>) replaces it, and \<open>subscript\<close> (\<open>m[k]\<close> read) inserts the default first.
\<close>

definition emplace :: "'k \<Rightarrow> 'v \<Rightarrow> ('k \<times> 'v) list \<Rightarrow> ('k \<times> 'v) list" where
  "emplace k v m = (case map_of m k of None \<Rightarrow> (k, v) # m | Some _ \<Rightarrow> m)"

definition assign :: "'k \<Rightarrow> 'v \<Rightarrow> ('k \<times> 'v) list \<Rightarrow> ('k \<times> 'v) list" where
  "assign k v m = AList.update k v m"

definition erase :: "'k \<Rightarrow> ('k \<times> 'v) list \<Rightarrow> ('k \<times> 'v) list" where
  "erase k m = AList.delete k m"

definition keys :: "('k \<times> 'v) list \<Rightarrow> 'k set" where
  "keys m = fst ` set m"

definition wf_map :: "('k \<times> 'v) list \<Rightarrow> bool" where
  "wf_map m = distinct (map fst m)"

lemma map_of_emplace [simp]:
  "map_of (emplace k v m) k' = (if k' = k \<and> map_of m k = None then Some v else map_of m k')"
  by (auto simp: emplace_def split: option.splits)

lemma map_of_assign [simp]: "map_of (assign k v m) k' = (if k' = k then Some v else map_of m k')"
  by (simp add: assign_def update_conv')

lemma map_of_erase [simp]: "map_of (erase k m) k' = (if k' = k then None else map_of m k')"
  by (simp add: erase_def delete_conv')

lemma keys_map_of: "k \<in> keys m \<longleftrightarrow> map_of m k \<noteq> None"
  by (auto simp: keys_def map_of_eq_None_iff)

lemma keys_emplace [simp]: "keys (emplace k v m) = insert k (keys m)"
  by (auto simp: keys_map_of set_eq_iff)

lemma keys_assign [simp]: "keys (assign k v m) = insert k (keys m)"
  by (auto simp: keys_map_of set_eq_iff)

lemma keys_erase [simp]: "keys (erase k m) = keys m - {k}"
  by (auto simp: keys_map_of set_eq_iff)

lemma keys_Nil [simp]: "keys [] = {}"
  by (simp add: keys_def)

lemma wf_map_Nil [simp]: "wf_map []"
  by (simp add: wf_map_def)

lemma wf_map_emplace [simp]: "wf_map m \<Longrightarrow> wf_map (emplace k v m)"
  by (auto simp: wf_map_def emplace_def map_of_eq_None_iff split: option.splits)

lemma wf_map_assign [simp]: "wf_map m \<Longrightarrow> wf_map (assign k v m)"
  by (simp add: wf_map_def assign_def distinct_update)

lemma wf_map_erase [simp]: "wf_map m \<Longrightarrow> wf_map (erase k m)"
  by (simp add: wf_map_def erase_def distinct_delete)

lemma wf_map_size: "wf_map m \<Longrightarrow> length m = card (keys m)"
  by (metis distinct_card keys_def length_map list.set_map wf_map_def)

subsection \<open>Machine words\<close>

lemma signed_take_bit_word_id [word_ranges]:
  fixes v :: "'a::len word"
  assumes "k < LENGTH('a)" "- (2 ^ k) \<le> sint v" "sint v < 2 ^ k"
  shows "signed_take_bit k v = v"
proof (rule bit_word_eqI)
  fix n assume n: "n < LENGTH('a)"
  have e: "signed_take_bit k (sint v) = sint v"
    using assms by (simp add: signed_take_bit_int_eq_self)
  have "bit v n = bit (signed_take_bit k (sint v)) n"
    unfolding e using n by (simp add: bit_sint_iff)
  then show "bit (signed_take_bit k v) n = bit v n"
    using n
    by (simp add: bit_simps min_def split: if_splits)
      (metis Suc_pred assms(1) le_antisym len_gt_0 less_Suc_eq_le)
qed

lemma unat_less_powI: "uint (v :: 'a::len word) < 2 ^ k \<Longrightarrow> unat v < 2 ^ k"
  by (metis nat_less_iff unsigned_greater_eq nat_uint_eq of_nat_numeral of_nat_power)

lemma take_bit_word_id [word_ranges]:
  fixes v :: "'a::len word"
  assumes "unat v < 2 ^ k"
  shows "take_bit k v = v"
  using assms by (metis take_bit_nat_eq_self unsigned_take_bit_eq word_unat_eq_iff)

end
