(* ===== verification/Int_Packing.thy ===== *)
theory Int_Packing
  imports Prelude
begin

text \<open>
  The sub-byte tensor elements of \<open>common/int4.h\<close> and \<open>common/int2.h\<close>.  The templates
  \<open>Int4x2Base<Signed>\<close> and \<open>Int2x4Base<Signed>\<close> keep two 4-bit or four 2-bit elements in one byte;
  the template argument is the first argument of the operations that read it.  An unpacked element
  is an \<open>int8_t\<close> or \<open>uint8_t\<close>; both are the byte that represents them, and \<^const>\<open>sint\<close> or
  \<^const>\<open>unat\<close> read its value.  The locale \<open>packed_format\<close> is the contract of such a
  format.  What \<open>Pack\<close>, \<open>Unpack\<close> and \<open>SetElem\<close> do to whole buffers is proved once from it.
\<close>

section \<open>4-bit elements\<close>

definition Int4_min_val :: "bool \<Rightarrow> int" where
  "Int4_min_val Signed = (if Signed then - 8 else 0)"

definition Int4_max_val :: "bool \<Rightarrow> int" where
  "Int4_max_val Signed = (if Signed then 7 else 15)"

definition Int4x2 :: "byte \<Rightarrow> byte \<Rightarrow> byte" where
  "Int4x2 val0 val1 = push_bit 4 (val1 AND 0xF) OR (val0 AND 0xF)"

definition SignExtendLower4Bits :: "byte \<Rightarrow> byte" where
  "SignExtendLower4Bits bits =
     (let shift = 4 * 8 - 4
      in ucast (signed_drop_bit shift (push_bit shift (ucast bits :: 32 word))))"

definition Int4_GetElem :: "bool \<Rightarrow> byte \<Rightarrow> nat \<Rightarrow> byte" where
  "Int4_GetElem Signed bits index =
     (let shift = 4 * index; val = drop_bit shift bits AND 0xF
      in if Signed then SignExtendLower4Bits val else val)"

definition Int4_SetElem :: "byte \<Rightarrow> nat \<Rightarrow> byte \<Rightarrow> byte" where
  "Int4_SetElem bits index val =
     (let shift = 4 * index; m = drop_bit shift 0xF0
      in (bits AND m) OR push_bit shift (val AND 0xF))"

definition CalcNumInt4Pairs :: "nat \<Rightarrow> nat" where
  "CalcNumInt4Pairs num_int4_elems = (num_int4_elems + 1) div 2"

definition Int4_Unpack :: "bool \<Rightarrow> byte list \<Rightarrow> byte list \<Rightarrow> bool \<times> byte list" where
  "Int4_Unpack Signed dst src =
     (if CalcNumInt4Pairs (length dst) \<noteq> length src then (False, dst)
      else if src = [] then (True, dst)
      else (True, fill_loop (\<lambda>i. Int4_GetElem Signed (src ! (i div 2)) (i mod 2)) (length dst) dst))"

function Int4_Pack_loop :: "byte list \<Rightarrow> nat \<Rightarrow> nat \<Rightarrow> byte list \<Rightarrow> nat \<times> nat \<times> byte list" where
  "Int4_Pack_loop src src_i dst_i dst =
     (if src_i < length src - 1
      then Int4_Pack_loop src (src_i + 2) (dst_i + 1)
             (dst[dst_i := Int4x2 (src ! src_i) (src ! (src_i + 1))])
      else (src_i, dst_i, dst))"
  by pat_completeness auto
termination by (relation "measure (\<lambda>(src, src_i, _). length src - src_i)") auto

declare Int4_Pack_loop.simps [simp del]

definition Int4_Pack :: "byte list \<Rightarrow> byte list \<Rightarrow> bool \<times> byte list" where
  "Int4_Pack dst src =
     (if CalcNumInt4Pairs (length src) \<noteq> length dst then (False, dst)
      else if src = [] then (True, dst)
      else let (src_i, dst_i, dst') = Int4_Pack_loop src 0 0 dst
           in (True, if src_i < length src then dst'[dst_i := Int4x2 (src ! src_i) 0] else dst'))"

definition Int4_GetTensorElemIndices :: "nat \<Rightarrow> nat \<times> nat" where
  "Int4_GetTensorElemIndices index = (index div 2, index mod 2)"

section \<open>2-bit elements\<close>

definition Int2_min_val :: "bool \<Rightarrow> int" where
  "Int2_min_val Signed = (if Signed then - 2 else 0)"

definition Int2_max_val :: "bool \<Rightarrow> int" where
  "Int2_max_val Signed = (if Signed then 1 else 3)"

definition Int2x4 :: "byte \<Rightarrow> byte \<Rightarrow> byte \<Rightarrow> byte \<Rightarrow> byte" where
  "Int2x4 val0 val1 val2 val3 =
     (val0 AND 0x3) OR push_bit 2 (val1 AND 0x3) OR push_bit 4 (val2 AND 0x3) OR push_bit 6 (val3 AND 0x3)"

definition SignExtendLower2Bits :: "byte \<Rightarrow> byte" where
  "SignExtendLower2Bits bits =
     (let shift = 4 * 8 - 2
      in ucast (signed_drop_bit shift (push_bit shift (ucast bits :: 32 word))))"

definition Int2_GetElem :: "bool \<Rightarrow> byte \<Rightarrow> nat \<Rightarrow> byte" where
  "Int2_GetElem Signed bits index =
     (let shift = 2 * index; val = drop_bit shift bits AND 0x3
      in if Signed then SignExtendLower2Bits val else val)"

definition Int2_SetElem :: "byte \<Rightarrow> nat \<Rightarrow> byte \<Rightarrow> byte" where
  "Int2_SetElem bits index val =
     (let shift = 2 * index; clear_mask = NOT (push_bit shift 0x3)
      in (bits AND clear_mask) OR push_bit shift (val AND 0x3))"

definition CalcNumInt2Quads :: "nat \<Rightarrow> nat" where
  "CalcNumInt2Quads num_int2_elems = (num_int2_elems + 3) div 4"

definition Int2_Unpack :: "bool \<Rightarrow> byte list \<Rightarrow> byte list \<Rightarrow> bool \<times> byte list" where
  "Int2_Unpack Signed dst src =
     (if CalcNumInt2Quads (length dst) \<noteq> length src then (False, dst)
      else if src = [] then (True, dst)
      else (True, fill_loop (\<lambda>i. Int2_GetElem Signed (src ! (i div 4)) (i mod 4)) (length dst) dst))"

function Int2_Pack_loop :: "byte list \<Rightarrow> nat \<Rightarrow> nat \<Rightarrow> byte list \<Rightarrow> nat \<times> nat \<times> byte list" where
  "Int2_Pack_loop src src_i dst_i dst =
     (if dst_i < length src div 4
      then Int2_Pack_loop src (src_i + 4) (dst_i + 1)
             (dst[dst_i := Int2x4 (src ! src_i) (src ! (src_i + 1)) (src ! (src_i + 2)) (src ! (src_i + 3))])
      else (src_i, dst_i, dst))"
  by pat_completeness auto
termination by (relation "measure (\<lambda>(src, _, dst_i, _). length src div 4 - dst_i)") auto

declare Int2_Pack_loop.simps [simp del]

definition Int2_Pack :: "byte list \<Rightarrow> byte list \<Rightarrow> bool \<times> byte list" where
  "Int2_Pack dst src =
     (if CalcNumInt2Quads (length src) \<noteq> length dst then (False, dst)
      else if src = [] then (True, dst)
      else let (src_i, dst_i, dst') = Int2_Pack_loop src 0 0 dst
           in (True,
               if src_i < length src
               then let remaining = length src - src_i;
                        vals = fill_loop (\<lambda>j. src ! (src_i + j)) remaining [0, 0, 0, 0]
                    in dst'[dst_i := Int2x4 (vals ! 0) (vals ! 1) (vals ! 2) (vals ! 3)]
               else dst'))"

definition Int2_GetTensorElemIndices :: "nat \<Rightarrow> nat \<times> nat" where
  "Int2_GetTensorElemIndices index = (index div 4, index mod 4)"

section \<open>The contract of a packed format\<close>

locale packed_format =
  fixes k :: nat
    and mk :: "byte list \<Rightarrow> byte"
    and get :: "byte \<Rightarrow> nat \<Rightarrow> byte"
    and set_elem :: "byte \<Rightarrow> nat \<Rightarrow> byte \<Rightarrow> byte"
    and ok :: "byte \<Rightarrow> bool"
  assumes k_pos: "0 < k"
    and get_mk: "length vs = k \<Longrightarrow> j < k \<Longrightarrow> ok (vs ! j) \<Longrightarrow> get (mk vs) j = vs ! j"
    and get_set: "i < k \<Longrightarrow> j < k \<Longrightarrow> ok v \<Longrightarrow> get (set_elem b i v) j = (if j = i then v else get b j)"
begin

definition elems :: "nat \<Rightarrow> byte list \<Rightarrow> byte list" where
  "elems n src = map (\<lambda>i. get (src ! (i div k)) (i mod k)) [0..<n]"

definition chunk :: "byte list \<Rightarrow> nat \<Rightarrow> byte" where
  "chunk src q = mk (map (\<lambda>j. if q * k + j < length src then src ! (q * k + j) else 0) [0..<k])"

definition packed :: "byte list \<Rightarrow> byte list" where
  "packed src = map (chunk src) [0..<(length src + k - 1) div k]"

lemma block_index_lt:
  assumes "i < n"
  shows "i div k < (n + k - 1) div k"
proof -
  have "i div k * k \<le> i" "(i div k + 1) * k = i div k * k + k" by simp_all
  then have "(i div k + 1) * k \<le> n + k - 1"
    using assms by linarith
  then have "i div k + 1 \<le> (n + k - 1) div k"
    using k_pos by (simp add: less_eq_div_iff_mult_less_eq)
  then show ?thesis by simp
qed

lemma elems_packed:
  assumes "\<forall>v \<in> set src. ok v"
  shows "elems (length src) (packed src) = src"
proof (rule nth_equalityI)
  fix i assume "i < length (elems (length src) (packed src))"
  then have i: "i < length src" by (simp add: elems_def)
  have "get (chunk src (i div k)) (i mod k) = src ! i"
    unfolding chunk_def by (subst get_mk) (use i assms k_pos in auto)
  then show "elems (length src) (packed src) ! i = src ! i"
    using i block_index_lt [OF i] by (simp add: elems_def packed_def)
qed (simp add: elems_def)

lemma elems_set_elem:
  assumes "i < n" "ok v" "length src = (n + k - 1) div k"
  shows "elems n (src[i div k := set_elem (src ! (i div k)) (i mod k) v]) = (elems n src)[i := v]"
proof (rule nth_equalityI)
  fix j assume "j < length (elems n (src[i div k := set_elem (src ! (i div k)) (i mod k) v]))"
  then have j: "j < n" by (simp add: elems_def)
  have "i div k < length src" "j div k < length src"
    using assms j block_index_lt by auto
  moreover have "i = j" if "i div k = j div k" "i mod k = j mod k"
    using that by (metis div_mult_mod_eq)
  ultimately show "elems n (src[i div k := set_elem (src ! (i div k)) (i mod k) v]) ! j = (elems n src)[i := v] ! j"
    using j assms(2) k_pos by (cases "i = j") (auto simp: elems_def nth_list_update get_set)
qed (simp add: elems_def)

end

section \<open>The formats satisfy the contract\<close>

definition Int4_in_range :: "bool \<Rightarrow> byte \<Rightarrow> bool" where
  "Int4_in_range Signed v =
     (let x = if Signed then sint v else uint v in Int4_min_val Signed \<le> x \<and> x \<le> Int4_max_val Signed)"

definition Int2_in_range :: "bool \<Rightarrow> byte \<Rightarrow> bool" where
  "Int2_in_range Signed v =
     (let x = if Signed then sint v else uint v in Int2_min_val Signed \<le> x \<and> x \<le> Int2_max_val Signed)"

definition Int4_mk :: "byte list \<Rightarrow> byte" where
  "Int4_mk vs = Int4x2 (vs ! 0) (vs ! 1)"

definition Int2_mk :: "byte list \<Rightarrow> byte" where
  "Int2_mk vs = Int2x4 (vs ! 0) (vs ! 1) (vs ! 2) (vs ! 3)"

lemma byte_masks [word_ranges]:
  "(0xF :: byte) = mask 4" "(0x3 :: byte) = mask 2" "(0xF0 :: byte) = push_bit 4 (mask 4)"
  by (simp_all add: mask_eq_exp_minus_1 push_bit_eq_mult)

lemma SignExtendLower4Bits_eq: "SignExtendLower4Bits b = signed_take_bit 3 b"
proof (rule bit_word_eqI)
  fix n assume "n < LENGTH(8)"
  then show "bit (SignExtendLower4Bits b) n = bit (signed_take_bit 3 b) n"
    by (cases "n = 3") (auto simp: SignExtendLower4Bits_def bit_simps min_def)
qed

lemma SignExtendLower2Bits_eq: "SignExtendLower2Bits b = signed_take_bit 1 b"
proof (rule bit_word_eqI)
  fix n assume "n < LENGTH(8)"
  then show "bit (SignExtendLower2Bits b) n = bit (signed_take_bit 1 b) n"
    by (cases "n = 1") (auto simp: SignExtendLower2Bits_def bit_simps min_def)
qed

lemma Int4_GetElem_eq:
  "Int4_GetElem Signed b i =
     (if Signed then signed_take_bit 3 (drop_bit (4 * i) b) else take_bit 4 (drop_bit (4 * i) b))"
  by (rule bit_word_eqI)
    (auto simp: Int4_GetElem_def SignExtendLower4Bits_eq word_ranges Let_def bit_simps)

lemma Int2_GetElem_eq:
  "Int2_GetElem Signed b i =
     (if Signed then signed_take_bit 1 (drop_bit (2 * i) b) else take_bit 2 (drop_bit (2 * i) b))"
  by (rule bit_word_eqI)
    (auto simp: Int2_GetElem_def SignExtendLower2Bits_eq word_ranges Let_def bit_simps)

lemma Int4_in_range_id:
  assumes "Int4_in_range Signed v"
  shows "(if Signed then signed_take_bit 3 v else take_bit 4 v) = v"
proof (cases Signed)
  case True
  then show ?thesis
    using assms by (simp add: Int4_in_range_def Int4_min_val_def Int4_max_val_def Let_def
        signed_take_bit_word_id)
next
  case False
  then have "uint v < 2 ^ 4"
    using assms by (simp add: Int4_in_range_def Int4_max_val_def Let_def)
  then have "unat v < 2 ^ 4" by (rule unat_less_powI)
  with False show ?thesis by (simp add: take_bit_word_id)
qed

lemma Int2_in_range_id:
  assumes "Int2_in_range Signed v"
  shows "(if Signed then signed_take_bit 1 v else take_bit 2 v) = v"
proof (cases Signed)
  case True
  then show ?thesis
    using assms by (simp add: Int2_in_range_def Int2_min_val_def Int2_max_val_def Let_def
        signed_take_bit_word_id)
next
  case False
  then have "uint v < 2 ^ 2"
    using assms by (simp add: Int2_in_range_def Int2_max_val_def Let_def)
  then have "unat v < 2 ^ 2" by (rule unat_less_powI)
  with False show ?thesis by (simp add: take_bit_word_id)
qed

lemma Int4_GetElem_Int4x2:
  "Int4_GetElem Signed (Int4x2 a b) 0 = (if Signed then signed_take_bit 3 a else take_bit 4 a)"
  "Int4_GetElem Signed (Int4x2 a b) (Suc 0) = (if Signed then signed_take_bit 3 b else take_bit 4 b)"
  by (rule bit_word_eqI, auto simp: Int4_GetElem_eq Int4x2_def word_ranges bit_simps min_def)+

lemma Int2_GetElem_Int2x4:
  "Int2_GetElem Signed (Int2x4 a b c d) 0 = (if Signed then signed_take_bit 1 a else take_bit 2 a)"
  "Int2_GetElem Signed (Int2x4 a b c d) (Suc 0) = (if Signed then signed_take_bit 1 b else take_bit 2 b)"
  "Int2_GetElem Signed (Int2x4 a b c d) 2 = (if Signed then signed_take_bit 1 c else take_bit 2 c)"
  "Int2_GetElem Signed (Int2x4 a b c d) 3 = (if Signed then signed_take_bit 1 d else take_bit 2 d)"
  by (rule bit_word_eqI, auto simp: Int2_GetElem_eq Int2x4_def word_ranges bit_simps min_def)+

lemma Int4_GetElem_SetElem:
  assumes "i < 2" "j < 2"
  shows "Int4_GetElem Signed (Int4_SetElem b i v) j =
           (if j = i then (if Signed then signed_take_bit 3 v else take_bit 4 v) else Int4_GetElem Signed b j)"
  using assms
  by (intro bit_word_eqI)
    (auto simp: Int4_GetElem_eq Int4_SetElem_def word_ranges Let_def bit_simps min_def less_2_cases_iff)

lemma Int2_GetElem_SetElem:
  assumes "i < 4" "j < 4"
  shows "Int2_GetElem Signed (Int2_SetElem b i v) j =
           (if j = i then (if Signed then signed_take_bit 1 v else take_bit 2 v) else Int2_GetElem Signed b j)"
proof (rule bit_word_eqI)
  fix n assume n: "n < LENGTH(8)"
  have "i \<in> {0, 1, 2, 3}" "j \<in> {0, 1, 2, 3}" using assms by auto
  then show "bit (Int2_GetElem Signed (Int2_SetElem b i v) j) n =
      bit (if j = i then (if Signed then signed_take_bit 1 v else take_bit 2 v) else Int2_GetElem Signed b j) n"
    using n by (elim insertE emptyE; hypsubst)
      (auto simp: Int2_GetElem_eq Int2_SetElem_def word_ranges Let_def bit_simps min_def)
qed

interpretation int4: packed_format 2 Int4_mk "Int4_GetElem Signed" Int4_SetElem "Int4_in_range Signed"
  for Signed
proof (unfold_locales, goal_cases)
  case (2 vs j)
  then show ?case
    using Int4_in_range_id [of Signed "vs ! j"] by (auto simp: Int4_mk_def Int4_GetElem_Int4x2 less_2_cases_iff)
next
  case (3 i j v b)
  then show ?case
    using Int4_in_range_id [of Signed v] by (simp add: Int4_GetElem_SetElem)
qed simp

interpretation int2: packed_format 4 Int2_mk "Int2_GetElem Signed" Int2_SetElem "Int2_in_range Signed"
  for Signed
proof (unfold_locales, goal_cases)
  case (2 vs j)
  then have "j \<in> {0, Suc 0, 2, 3}" by auto
  with 2 show ?case
    using Int2_in_range_id [of Signed "vs ! j"] by (auto simp: Int2_mk_def Int2_GetElem_Int2x4)
next
  case (3 i j v b)
  then show ?case
    using Int2_in_range_id [of Signed v] by (simp add: Int2_GetElem_SetElem)
qed simp

lemma Int4_Pack_loop_eq:
  assumes "d \<le> length src div 2"
  shows "Int4_Pack_loop src (2 * d) d dst =
           (2 * (length src div 2), length src div 2,
            fold (\<lambda>q ds. ds[q := Int4x2 (src ! (2 * q)) (src ! (2 * q + 1))]) [d..<length src div 2] dst)"
  using assms
proof (induction "length src div 2 - d" arbitrary: d dst)
  case 0
  then show ?case by (subst Int4_Pack_loop.simps) auto
next
  case (Suc m)
  then have "d < length src div 2" "2 * d < length src - 1" by linarith+
  then show ?case
    using Suc(1) [of "Suc d"] Suc(2) by (subst Int4_Pack_loop.simps) (simp add: upt_conv_Cons)
qed

lemma Int2_Pack_loop_eq:
  assumes "d \<le> length src div 4"
  shows "Int2_Pack_loop src (4 * d) d dst =
           (4 * (length src div 4), length src div 4,
            fold (\<lambda>q ds. ds[q := Int2x4 (src ! (4 * q)) (src ! (4 * q + 1)) (src ! (4 * q + 2)) (src ! (4 * q + 3))])
              [d..<length src div 4] dst)"
  using assms
proof (induction "length src div 4 - d" arbitrary: d dst)
  case 0
  then show ?case by (subst Int2_Pack_loop.simps) auto
next
  case (Suc m)
  then have "d < length src div 4" by linarith
  then show ?case
    using Suc(1) [of "Suc d"] Suc(2) by (subst Int2_Pack_loop.simps) (simp add: upt_conv_Cons add.commute [of _ 4])
qed

lemma Int4_packed_nth:
  assumes "q < CalcNumInt4Pairs (length src)"
  shows "int4.packed src ! q =
           (if q < length src div 2 then Int4x2 (src ! (2 * q)) (src ! (2 * q + 1)) else Int4x2 (src ! (2 * q)) 0)"
proof -
  have "2 * q < length src" "2 * q + 1 < length src \<longleftrightarrow> q < length src div 2"
    using assms by (auto simp: CalcNumInt4Pairs_def)
  then show ?thesis
    using assms by (simp add: int4.packed_def int4.chunk_def Int4_mk_def CalcNumInt4Pairs_def mult.commute)
qed

lemma Int4_Pack_eq:
  assumes len: "length dst = CalcNumInt4Pairs (length src)"
  shows "Int4_Pack dst src = (True, int4.packed src)"
proof (cases "src = []")
  case True
  then show ?thesis using len by (simp add: Int4_Pack_def CalcNumInt4Pairs_def int4.packed_def)
next
  case False
  let ?n = "length src div 2"
  let ?d = "fill_loop (\<lambda>q. Int4x2 (src ! (2 * q)) (src ! (2 * q + 1))) ?n dst"
  have loop: "Int4_Pack_loop src 0 0 dst = (2 * ?n, ?n, ?d)"
    using Int4_Pack_loop_eq [of 0 src dst] by (simp add: fill_loop_def)
  have "(if 2 * ?n < length src then ?d[?n := Int4x2 (src ! (2 * ?n)) 0] else ?d) = int4.packed src"
    (is "?r = _")
  proof (rule nth_equalityI)
    show "length ?r = length (int4.packed src)"
      using len by (simp add: int4.packed_def CalcNumInt4Pairs_def)
    fix q assume "q < length ?r"
    then have q: "q < length dst" by (simp split: if_splits)
    then have "\<not> q < ?n \<Longrightarrow> q = ?n \<and> 2 * ?n < length src"
      using len by (simp add: CalcNumInt4Pairs_def, presburger)
    then show "?r ! q = int4.packed src ! q"
      using q len by (cases "q < ?n") (simp_all add: Int4_packed_nth)
  qed
  then show ?thesis using False len by (simp add: Int4_Pack_def loop del: One_nat_def split del: if_split)
qed

lemma Int2_packed_nth:
  assumes "q < CalcNumInt2Quads (length src)"
  shows "int2.packed src ! q =
           (let v = (\<lambda>j. if 4 * q + j < length src then src ! (4 * q + j) else 0)
            in Int2x4 (v 0) (v 1) (v 2) (v 3))"
  using assms
  by (simp add: int2.packed_def int2.chunk_def Int2_mk_def CalcNumInt2Quads_def mult.commute Let_def)

lemma Int2_Pack_eq:
  assumes len: "length dst = CalcNumInt2Quads (length src)"
  shows "Int2_Pack dst src = (True, int2.packed src)"
proof (cases "src = []")
  case True
  then show ?thesis using len by (simp add: Int2_Pack_def CalcNumInt2Quads_def int2.packed_def)
next
  case False
  let ?n = "length src div 4"
  let ?d = "fill_loop (\<lambda>q. Int2x4 (src ! (4 * q)) (src ! (4 * q + 1)) (src ! (4 * q + 2)) (src ! (4 * q + 3))) ?n dst"
  define vals where "vals = fill_loop (\<lambda>j. src ! (4 * ?n + j)) (length src - 4 * ?n) [0, 0, 0, 0]"
  have loop: "Int2_Pack_loop src 0 0 dst = (4 * ?n, ?n, ?d)"
    using Int2_Pack_loop_eq [of 0 src dst] by (simp add: fill_loop_def)
  have v: "vals ! j = (if 4 * ?n + j < length src then src ! (4 * ?n + j) else 0)" if "j < 4" for j
  proof -
    have "j \<in> {0, 1, 2, 3}" using that by auto
    then have "[0, 0, 0, 0 :: byte] ! j = 0" by auto
    moreover have "j < length src - 4 * ?n \<longleftrightarrow> 4 * ?n + j < length src" by linarith
    ultimately show ?thesis using that by (simp add: vals_def)
  qed
  have "(if 4 * ?n < length src then ?d[?n := Int2x4 (vals ! 0) (vals ! 1) (vals ! 2) (vals ! 3)] else ?d) = int2.packed src"
    (is "?r = _")
  proof (rule nth_equalityI)
    show "length ?r = length (int2.packed src)"
      using len by (simp add: int2.packed_def CalcNumInt2Quads_def)
    fix q assume "q < length ?r"
    then have q: "q < length dst" by (simp split: if_splits)
    have "q < ?n \<Longrightarrow> 4 * q + 3 < length src" by linarith
    moreover from q have "\<not> q < ?n \<Longrightarrow> q = ?n \<and> 4 * ?n < length src"
      using len unfolding CalcNumInt2Quads_def by linarith
    ultimately show "?r ! q = int2.packed src ! q"
      using q len by (cases "q < ?n") (simp_all add: Int2_packed_nth v Let_def)
  qed
  then show ?thesis
    using False len
    by (cases "4 * ?n < length src") (simp_all add: Int2_Pack_def loop vals_def Let_def)
qed

lemma Int4_Unpack_eq:
  assumes "length src = CalcNumInt4Pairs (length dst)"
  shows "Int4_Unpack Signed dst src = (True, int4.elems Signed (length dst) src)"
  using assms by (cases "dst = []") (auto simp: Int4_Unpack_def int4.elems_def CalcNumInt4Pairs_def loop_simps div_eq_0_iff)

lemma Int2_Unpack_eq:
  assumes "length src = CalcNumInt2Quads (length dst)"
  shows "Int2_Unpack Signed dst src = (True, int2.elems Signed (length dst) src)"
  using assms by (cases "dst = []") (auto simp: Int2_Unpack_def int2.elems_def CalcNumInt2Quads_def loop_simps div_eq_0_iff)

section \<open>Properties\<close>

text \<open>
  C37.  Packing then unpacking 4-bit elements is the identity.  For a signed or an unsigned buffer whose
  elements are in the range of the format, \<open>Pack\<close> into a buffer of \<open>CalcNumInt4Pairs\<close> bytes succeeds, and
  \<open>Unpack\<close> of its result into any buffer of the original size succeeds and gives the elements back.
\<close>

theorem Int4_pack_unpack:
  assumes "\<forall>v \<in> set src. Int4_in_range Signed v"
    and "length dst = CalcNumInt4Pairs (length src)"
    and "length out = length src"
  shows "\<exists>packed. Int4_Pack dst src = (True, packed) \<and> Int4_Unpack Signed out packed = (True, src)"
  using assms int4.elems_packed [of src Signed]
  by (simp add: Int4_Pack_eq Int4_Unpack_eq int4.packed_def CalcNumInt4Pairs_def)

theorem Int4_pack_unpack_witness:
  "\<exists>packed. Int4_Pack [0, 0] [0xF9, 7, 3] = (True, packed) \<and> Int4_Unpack True [1, 1, 1] packed = (True, [0xF9, 7, 3])"
  by (rule Int4_pack_unpack) (simp_all add: Int4_in_range_def Int4_min_val_def Int4_max_val_def CalcNumInt4Pairs_def)

text \<open>
  The same round trip for 2-bit elements, including the last byte that holds one to three elements.
\<close>

theorem Int2_pack_unpack:
  assumes "\<forall>v \<in> set src. Int2_in_range Signed v"
    and "length dst = CalcNumInt2Quads (length src)"
    and "length out = length src"
  shows "\<exists>packed. Int2_Pack dst src = (True, packed) \<and> Int2_Unpack Signed out packed = (True, src)"
  using assms int2.elems_packed [of src Signed]
  by (simp add: Int2_Pack_eq Int2_Unpack_eq int2.packed_def CalcNumInt2Quads_def)

theorem Int2_pack_unpack_witness:
  "\<exists>packed. Int2_Pack [0, 0] [0xFE, 1, 0, 0xFF, 1] = (True, packed)
     \<and> Int2_Unpack True [1, 1, 1, 1, 1] packed = (True, [0xFE, 1, 0, 0xFF, 1])"
  by (rule Int2_pack_unpack) (simp_all add: Int2_in_range_def Int2_min_val_def Int2_max_val_def CalcNumInt2Quads_def)

text \<open>
  Writing one 4-bit element of a packed buffer through \<open>GetTensorElemIndices\<close> and \<open>SetElem\<close> changes
  exactly that element: unpacking afterwards gives the old elements with one of them replaced.
\<close>

theorem Int4_SetElem_updates_one:
  assumes "i < length dst" "Int4_in_range Signed v" "length src = CalcNumInt4Pairs (length dst)"
    and "Int4_GetTensorElemIndices i = (r, c)"
  shows "snd (Int4_Unpack Signed dst (src[r := Int4_SetElem (src ! r) c v])) =
           (snd (Int4_Unpack Signed dst src))[i := v]"
  using assms int4.elems_set_elem [of i "length dst" Signed v src]
  by (auto simp: Int4_Unpack_eq Int4_GetTensorElemIndices_def CalcNumInt4Pairs_def)

theorem Int4_SetElem_updates_one_witness:
  "snd (Int4_Unpack True [0, 0, 0] ([0x21, 0x03][1 := Int4_SetElem ([0x21, 0x03] ! 1) 0 0xF8])) =
     (snd (Int4_Unpack True [0, 0, 0] [0x21, 0x03]))[2 := 0xF8]"
  by (rule Int4_SetElem_updates_one)
    (simp_all add: Int4_in_range_def Int4_min_val_def Int4_max_val_def CalcNumInt4Pairs_def Int4_GetTensorElemIndices_def)

end
