(* ===== verification/Partition.thy ===== *)
theory Partition
  imports Prelude "HOL-Library.Multiset"
begin

text \<open>
  Partitioning of the supported nodes of an ONNX graph into the groups that become QNN subgraphs:
  \<open>qnn_ep_partition_utils.cc\<close> and the node-unit queries of \<open>ort_api.cc\<close> it calls.

  The graph belongs to ONNX Runtime.  The record \<open>ort_graph\<close> holds the answers of the C API calls the code makes;
  each call may fail.  A node is its address, a value (\<open>OrtValueInfo\<close>) is its address, and a null pointer
  is \<^const>\<open>None\<close>.  The loop of \<open>CreateSupportedPartitionNodeGroups\<close> is a \<open>partial_function\<close>, so that not
  returning is \<^const>\<open>None\<close>; C++ exceptions and undefined behaviour are error values.
\<close>

section \<open>The graph and its node units\<close>

type_synonym node = nat
type_synonym valueinfo = nat

record ort_graph =
  Graph_GetNodes :: "node list result"
  Node_GetId :: "node \<Rightarrow> nat"
  Node_GetInputs :: "node \<Rightarrow> valueinfo option list result"
  Node_GetOutputs :: "node \<Rightarrow> valueinfo option list result"
  ValueInfo_GetValueProducer :: "valueinfo \<Rightarrow> node option result"
  ValueInfo_GetValueConsumers :: "valueinfo \<Rightarrow> node list result"
  Node_GetEpName :: "node \<Rightarrow> string result"

datatype UnitType = SingleNode | QDQGroup

record OrtNodeUnit =
  dq_nodes :: "node list"
  target_node :: node
  redundant_clip_node :: "node option"
  output_reshape_node :: "node option"
  q_nodes :: "node list"
  unit_type :: UnitType

definition GetAllNodesInGroup :: "OrtNodeUnit \<Rightarrow> node list" where
  "GetAllNodesInGroup u =
     dq_nodes u @ [target_node u]
     @ (case output_reshape_node u of Some r \<Rightarrow> [r] | None \<Rightarrow> [])
     @ (case redundant_clip_node u of Some c \<Rightarrow> [c] | None \<Rightarrow> [])
     @ q_nodes u"

definition count_edges :: "ort_graph \<Rightarrow> node \<Rightarrow> nat" where
  "count_edges g n =
     (case Node_GetInputs g n of
        Inl _ \<Rightarrow> 0
      | Inr inputs \<Rightarrow>
          length (filter (\<lambda>input. case input of
              None \<Rightarrow> False
            | Some v \<Rightarrow> (case ValueInfo_GetValueProducer g v of
                Inl _ \<Rightarrow> False
              | Inr producer_node \<Rightarrow> producer_node \<noteq> None)) inputs))"

definition GetInputEdgesCount :: "ort_graph \<Rightarrow> OrtNodeUnit \<Rightarrow> uint64" where
  "GetInputEdgesCount g u =
     (if unit_type u = SingleNode then of_nat (count_edges g (target_node u))
      else foldl (\<lambda>acc n. acc + of_nat (count_edges g n)) 0 (dq_nodes u)
           + of_nat (count_edges g (target_node u)) - of_nat (length (dq_nodes u)))"

definition get_consumers :: "ort_graph \<Rightarrow> node \<Rightarrow> node list" where
  "get_consumers g n =
     (case Node_GetOutputs g n of
        Inl _ \<Rightarrow> []
      | Inr outputs \<Rightarrow>
          concat (map (\<lambda>output. case output of
              None \<Rightarrow> []
            | Some v \<Rightarrow> (case ValueInfo_GetValueConsumers g v of Inl _ \<Rightarrow> [] | Inr consumers \<Rightarrow> consumers)) outputs))"

definition output_producer :: "OrtNodeUnit \<Rightarrow> node" where
  "output_producer u =
     (case redundant_clip_node u of
        Some c \<Rightarrow> c
      | None \<Rightarrow> (case output_reshape_node u of Some r \<Rightarrow> r | None \<Rightarrow> target_node u))"

definition GetOutputNodes :: "ort_graph \<Rightarrow> OrtNodeUnit \<Rightarrow> node list" where
  "GetOutputNodes g u =
     concat (map (\<lambda>n. if n \<in> set (q_nodes u) then get_consumers g n else [n])
                 (get_consumers g (output_producer u)))"

section \<open>The partitioning loop\<close>

type_synonym node_unit_map = "node \<Rightarrow> OrtNodeUnit option"

record partition_state =
  in_degree :: "(nat \<times> uint64) list"
  nodes_to_process :: "node list"
  nodes_to_process_with_next_group :: "node list"
  supported_groups :: "node list list"
  supported_group :: "node list"
  supported_group_border :: "node set"
  num_nodes_processed :: nat

definition map_at :: "node_unit_map \<Rightarrow> node \<Rightarrow> OrtNodeUnit result" where
  "map_at um n = (case um n of None \<Rightarrow> Inl (Thrown ''out_of_range'') | Some u \<Rightarrow> Inr u)"

definition init_node :: "ort_graph \<Rightarrow> node_unit_map \<Rightarrow> node \<Rightarrow> partition_state \<Rightarrow> partition_state result" where
  "init_node g um n s =
     and_then (map_at um n) (\<lambda>u.
       if target_node u \<noteq> n then Inr s
       else let degree = GetInputEdgesCount g u;
                s' = s\<lparr>in_degree := emplace (Node_GetId g (target_node u)) degree (in_degree s)\<rparr>
            in Inr (if degree = 0 then s'\<lparr>nodes_to_process := nodes_to_process s' @ [n]\<rparr> else s'))"

primrec init_nodes :: "ort_graph \<Rightarrow> node_unit_map \<Rightarrow> node list \<Rightarrow> partition_state \<Rightarrow> partition_state result" where
  "init_nodes g um [] s = Inr s"
| "init_nodes g um (n # ns) s = and_then (init_node g um n s) (init_nodes g um ns)"

definition close_group :: "partition_state \<Rightarrow> partition_state" where
  "close_group s =
     (if supported_group s = [] then s
      else s\<lparr>supported_groups := supported_groups s @ [supported_group s],
             supported_group := [], supported_group_border := {}\<rparr>)"

definition is_node_supported :: "ort_graph \<Rightarrow> node list \<Rightarrow> string \<Rightarrow> node \<Rightarrow> bool result" where
  "is_node_supported g supported_nodes ep_type n =
     (case Node_GetEpName g n of
        Inl _ \<Rightarrow> Inl (Undefined_Behaviour ''node_ep_name read uninitialised'')
      | Inr ep \<Rightarrow> Inr ((ep = '''' \<or> ep = ep_type) \<and> n \<in> set supported_nodes))"

definition add_to_group :: "OrtNodeUnit \<Rightarrow> node \<Rightarrow> partition_state \<Rightarrow> partition_state" where
  "add_to_group u n s =
     (let s1 =
        (if unit_type u = QDQGroup
         then s\<lparr>supported_group := supported_group s @ dq_nodes u @ [n]
                 @ (case output_reshape_node u of Some r \<Rightarrow> [r] | None \<Rightarrow> [])
                 @ (case redundant_clip_node u of Some c \<Rightarrow> [c] | None \<Rightarrow> [])
                 @ q_nodes u,
                supported_group_border := supported_group_border s
                 - (case output_reshape_node u of Some r \<Rightarrow> {r} | None \<Rightarrow> {})
                 - (case redundant_clip_node u of Some c \<Rightarrow> {c} | None \<Rightarrow> {})\<rparr>
         else s\<lparr>supported_group := supported_group s @ [n]\<rparr>)
      in s1\<lparr>supported_group_border := supported_group_border s1 - {n}\<rparr>)"

definition visit_downstream ::
  "ort_graph \<Rightarrow> node_unit_map \<Rightarrow> bool \<Rightarrow> node \<Rightarrow> partition_state \<Rightarrow> partition_state result" where
  "visit_downstream g um supported output_node s =
     and_then (map_at um output_node) (\<lambda>du.
       let downstream_node = target_node du;
           s1 = (if supported then s\<lparr>supported_group_border := insert downstream_node (supported_group_border s)\<rparr> else s);
           k = Node_GetId g (target_node du);
           d = (case map_of (in_degree s1) k of None \<Rightarrow> 0 | Some v \<Rightarrow> v) - 1;
           s2 = s1\<lparr>in_degree := assign k d (in_degree s1)\<rparr>
       in Inr (if d = 0 then s2\<lparr>nodes_to_process := nodes_to_process s2 @ [downstream_node]\<rparr> else s2))"

primrec visit_outputs ::
  "ort_graph \<Rightarrow> node_unit_map \<Rightarrow> bool \<Rightarrow> node list \<Rightarrow> partition_state \<Rightarrow> partition_state result" where
  "visit_outputs g um supported [] s = Inr s"
| "visit_outputs g um supported (n # ns) s =
     and_then (visit_downstream g um supported n s) (visit_outputs g um supported ns)"

definition process_node ::
  "ort_graph \<Rightarrow> node list \<Rightarrow> string \<Rightarrow> node_unit_map \<Rightarrow> node \<Rightarrow> partition_state \<Rightarrow> partition_state result" where
  "process_node g supported_nodes ep_type um n s =
     and_then (map_at um n) (\<lambda>u.
     and_then (is_node_supported g supported_nodes ep_type n) (\<lambda>supported.
       if \<not> supported \<and> n \<in> supported_group_border s
       then Inr (s\<lparr>nodes_to_process_with_next_group := nodes_to_process_with_next_group s @ [n]\<rparr>)
       else and_then (visit_outputs g um supported (GetOutputNodes g u)
                        (if supported then add_to_group u n s else s))
              (\<lambda>s'. Inr (s'\<lparr>num_nodes_processed := num_nodes_processed s' + 1\<rparr>))))"

definition loop_body ::
  "ort_graph \<Rightarrow> node list \<Rightarrow> string \<Rightarrow> node_unit_map \<Rightarrow> partition_state \<Rightarrow> partition_state result" where
  "loop_body g supported_nodes ep_type um s =
     (case nodes_to_process s of
        [] \<Rightarrow> (let s' = close_group s
               in Inr (s'\<lparr>nodes_to_process := nodes_to_process_with_next_group s',
                          nodes_to_process_with_next_group := []\<rparr>))
      | n # rest \<Rightarrow> process_node g supported_nodes ep_type um n (s\<lparr>nodes_to_process := rest\<rparr>))"

partial_function (option) partition_loop ::
  "ort_graph \<Rightarrow> node list \<Rightarrow> string \<Rightarrow> node_unit_map \<Rightarrow> partition_state \<Rightarrow> partition_state result option" where
  "partition_loop g supported_nodes ep_type um s =
     (if nodes_to_process s = [] \<and> nodes_to_process_with_next_group s = [] then Some (Inr s)
      else (case loop_body g supported_nodes ep_type um s of
              Inl e \<Rightarrow> Some (Inl e)
            | Inr s' \<Rightarrow> partition_loop g supported_nodes ep_type um s'))"

declare partition_loop.simps [code]

definition initial_state :: partition_state where
  "initial_state = \<lparr>in_degree = [], nodes_to_process = [], nodes_to_process_with_next_group = [],
     supported_groups = [], supported_group = [], supported_group_border = {}, num_nodes_processed = 0\<rparr>"

definition CreateSupportedPartitionNodeGroups ::
  "ort_graph \<Rightarrow> node list \<Rightarrow> string \<Rightarrow> node_unit_map \<Rightarrow> node list list result option" where
  "CreateSupportedPartitionNodeGroups g supported_nodes ep_type um =
     (case Graph_GetNodes g of
        Inl _ \<Rightarrow> Some (Inr [])
      | Inr graph_nodes \<Rightarrow>
          (case init_nodes g um graph_nodes initial_state of
             Inl e \<Rightarrow> Some (Inl e)
           | Inr s0 \<Rightarrow>
               (case partition_loop g supported_nodes ep_type um s0 of
                  None \<Rightarrow> None
                | Some (Inl e) \<Rightarrow> Some (Inl e)
                | Some (Inr s) \<Rightarrow>
                    (let s' = close_group s
                     in if num_nodes_processed s' \<noteq> length (in_degree s')
                        then Some (Inl (Thrown ''Processed node count differs from the expected count''))
                        else Some (Inr (supported_groups s'))))))"

section \<open>Well-formed graphs\<close>

text \<open>
  What the loop relies on.  Every node belongs to a unit whose target is a node of the graph, the target of a
  unit is mapped to that unit, its other nodes (DQ, Q, absorbed Reshape and Clip) are not targets, the API
  answers for every target, ids identify targets, and the number of edges
  \<open>GetInputEdgesCount\<close> reports for a unit is the number of edges \<open>GetOutputNodes\<close> reports towards it.
\<close>

definition unit_targets :: "node_unit_map \<Rightarrow> node list \<Rightarrow> node list" where
  "unit_targets um ns = filter (\<lambda>n. case um n of Some u \<Rightarrow> target_node u = n | None \<Rightarrow> False) ns"

definition unit_of :: "node_unit_map \<Rightarrow> node \<Rightarrow> OrtNodeUnit" where
  "unit_of um n = the (um n)"

definition downstream :: "ort_graph \<Rightarrow> node_unit_map \<Rightarrow> node \<Rightarrow> node list" where
  "downstream g um n = map (\<lambda>m. target_node (unit_of um m)) (GetOutputNodes g (unit_of um n))"

definition supported :: "ort_graph \<Rightarrow> node list \<Rightarrow> string \<Rightarrow> node \<Rightarrow> bool" where
  "supported g sn ep n = (is_node_supported g sn ep n = Inr True)"

definition members :: "node_unit_map \<Rightarrow> node \<Rightarrow> node list" where
  "members um n =
     (if unit_type (unit_of um n) = QDQGroup then GetAllNodesInGroup (unit_of um n) else [n])"

definition satellites :: "OrtNodeUnit \<Rightarrow> node set" where
  "satellites u = set (dq_nodes u) \<union> set (q_nodes u)
     \<union> set_option (output_reshape_node u) \<union> set_option (redundant_clip_node u)"

definition pending :: "ort_graph \<Rightarrow> node_unit_map \<Rightarrow> node set \<Rightarrow> node \<Rightarrow> nat" where
  "pending g um R t = (\<Sum>s\<in>R. count_list (downstream g um s) t)"

definition wf_unit_graph :: "ort_graph \<Rightarrow> node_unit_map \<Rightarrow> node list \<Rightarrow> bool" where
  "wf_unit_graph g um ns \<longleftrightarrow>
     distinct ns
     \<and> (\<forall>n \<in> set ns. case um n of None \<Rightarrow> False | Some u \<Rightarrow> target_node u \<in> set ns \<and> um (target_node u) = Some u)
     \<and> (\<forall>t \<in> set (unit_targets um ns).
          set (GetOutputNodes g (unit_of um t)) \<subseteq> set ns
          \<and> is_ok (Node_GetEpName g t)
          \<and> satellites (unit_of um t) \<inter> set (unit_targets um ns) = {}
          \<and> pending g um (set (unit_targets um ns)) t < 2 ^ 64
          \<and> unat (GetInputEdgesCount g (unit_of um t)) = pending g um (set (unit_targets um ns)) t)
     \<and> inj_on (Node_GetId g) (set (unit_targets um ns))"

definition topological_rank :: "ort_graph \<Rightarrow> node_unit_map \<Rightarrow> node list \<Rightarrow> (node \<Rightarrow> nat) \<Rightarrow> bool" where
  "topological_rank g um ns rank \<longleftrightarrow>
     (\<forall>s \<in> set (unit_targets um ns). \<forall>t \<in> set (downstream g um s). rank s < rank t)"

lemma unit_targets_unit:
  assumes "t \<in> set (unit_targets um ns)"
  shows "um t = Some (unit_of um t)" "target_node (unit_of um t) = t" "t \<in> set ns"
  using assms by (auto simp: unit_targets_def unit_of_def split: option.splits)

lemma wf_node_unit:
  assumes "wf_unit_graph g um ns" "n \<in> set ns"
  shows "um n = Some (unit_of um n)" "target_node (unit_of um n) \<in> set (unit_targets um ns)"
  using assms by (auto simp: wf_unit_graph_def unit_targets_def unit_of_def split: option.splits dest!: bspec)

lemma distinct_unit_targets: "wf_unit_graph g um ns \<Longrightarrow> distinct (unit_targets um ns)"
  by (simp add: wf_unit_graph_def unit_targets_def)

lemma downstream_targets:
  assumes "wf_unit_graph g um ns" "s \<in> set (unit_targets um ns)"
  shows "set (downstream g um s) \<subseteq> set (unit_targets um ns)"
  using assms wf_node_unit [OF assms(1)] by (fastforce simp: wf_unit_graph_def downstream_def)

lemma pending_remove:
  assumes "finite R" "n \<in> R"
  shows "pending g um R t = count_list (downstream g um n) t + pending g um (R - {n}) t"
  using assms by (simp add: pending_def sum.remove)

lemma pending_eq_0_iff: "finite R \<Longrightarrow> pending g um R t = 0 \<longleftrightarrow> (\<forall>s \<in> R. t \<notin> set (downstream g um s))"
  by (simp add: pending_def count_list_0_iff)

lemma supported_result:
  assumes "wf_unit_graph g um ns" "t \<in> set (unit_targets um ns)"
  shows "is_node_supported g sn ep t = Inr (supported g sn ep t)"
  using assms by (auto simp: wf_unit_graph_def is_node_supported_def supported_def is_ok_def split: sum.splits dest!: bspec)

lemma members_nonempty [simp]: "members um n \<noteq> []"
  by (simp add: members_def GetAllNodesInGroup_def)

section \<open>Visiting the consumers of a unit\<close>

lemma visit_downstream_eq:
  assumes "um m = Some u" "map_of (in_degree s) (Node_GetId g (target_node u)) = Some d"
  shows "visit_downstream g um b m s =
           Inr (s\<lparr>in_degree := assign (Node_GetId g (target_node u)) (d - 1) (in_degree s),
                  nodes_to_process := nodes_to_process s @ (if d = 1 then [target_node u] else []),
                  supported_group_border := supported_group_border s \<union> (if b then {target_node u} else {})\<rparr>)"
  using assms by (simp add: visit_downstream_def map_at_def Let_def)

lemma visit_outputs_spec:
  assumes "inj_on (Node_GetId g) T"
    and "\<forall>m \<in> set ms. um m = Some (unit_of um m) \<and> target_node (unit_of um m) \<in> T"
    and "wf_map (in_degree s)" "keys (in_degree s) = Node_GetId g ` T"
    and "\<forall>t \<in> T. unat (the (map_of (in_degree s) (Node_GetId g t)))
                  = p t + count_list (map (\<lambda>m. target_node (unit_of um m)) ms) t"
  shows "\<exists>deg new. visit_outputs g um b ms s =
            Inr (s\<lparr>in_degree := deg, nodes_to_process := nodes_to_process s @ new,
                   supported_group_border := supported_group_border s
                     \<union> (if b then set (map (\<lambda>m. target_node (unit_of um m)) ms) else {})\<rparr>)
          \<and> wf_map deg \<and> keys deg = Node_GetId g ` T
          \<and> (\<forall>t \<in> T. unat (the (map_of deg (Node_GetId g t))) = p t)
          \<and> distinct new \<and> set new = {t \<in> set (map (\<lambda>m. target_node (unit_of um m)) ms). p t = 0}"
  using assms(2-)
proof (induction ms arbitrary: s)
  case Nil
  then show ?case by (intro exI [of _ "in_degree s"] exI [of _ "[]"]) simp
next
  case (Cons m ms)
  let ?tg = "\<lambda>m. target_node (unit_of um m)"
  let ?t = "?tg m" and ?k = "Node_GetId g (?tg m)"
  have m: "um m = Some (unit_of um m)" "?t \<in> T" using Cons.prems(1) by auto
  have "?k \<in> keys (in_degree s)" using m(2) Cons.prems(3) by auto
  then obtain d where d: "map_of (in_degree s) ?k = Some d" by (auto simp: keys_map_of)
  have ud: "unat d = Suc (p ?t + count_list (map ?tg ms) ?t)"
    using Cons.prems(4) m(2) d by force
  then have ud1: "unat (d - 1) = p ?t + count_list (map ?tg ms) ?t"
    by (metis add_diff_cancel_left' unat_minus_one nat.simps(3) plus_1_eq_Suc unat_0)
  have d1: "d = 1 \<longleftrightarrow> p ?t + count_list (map ?tg ms) ?t = 0"
    using ud by (metis One_nat_def nat.inject unat_1 word_unat_eq_iff)
  define s1 where "s1 = s\<lparr>in_degree := assign ?k (d - 1) (in_degree s),
      nodes_to_process := nodes_to_process s @ (if d = 1 then [?t] else []),
      supported_group_border := supported_group_border s \<union> (if b then {?t} else {})\<rparr>"
  have step: "visit_downstream g um b m s = Inr s1"
    using visit_downstream_eq [of um m "unit_of um m"] m d by (simp add: s1_def)
  have deg1: "\<forall>t \<in> T. unat (the (map_of (in_degree s1) (Node_GetId g t))) = p t + count_list (map ?tg ms) t"
    using Cons.prems(4) assms(1) m(2) ud1 by (auto simp: s1_def inj_on_eq_iff)
  have keys1: "wf_map (in_degree s1)" "keys (in_degree s1) = Node_GetId g ` T"
    using Cons.prems m(2) by (auto simp: s1_def)
  obtain deg new where rest:
    "visit_outputs g um b ms s1 = Inr (s1\<lparr>in_degree := deg, nodes_to_process := nodes_to_process s1 @ new,
        supported_group_border := supported_group_border s1 \<union> (if b then set (map ?tg ms) else {})\<rparr>)"
    "wf_map deg" "keys deg = Node_GetId g ` T" "\<forall>t \<in> T. unat (the (map_of deg (Node_GetId g t))) = p t"
    "distinct new" "set new = {t \<in> set (map ?tg ms). p t = 0}"
    using Cons.IH [of s1] Cons.prems(1) keys1 deg1 by auto
  let ?new = "(if d = 1 then [?t] else []) @ new"
  have "distinct ?new" "set ?new = {t \<in> set (map ?tg (m # ms)). p t = 0}"
    using rest(5,6) d1 by (auto simp: count_list_0_iff)
  then show ?case
    using rest(1-4) step
    by (intro exI [of _ deg] exI [of _ ?new]) (auto simp: s1_def)
qed

section \<open>The invariant of the loop\<close>

text \<open>
  The processed targets, in processing order, fall into segments: one for each closed group and the current
  one.  Within a segment no unsupported unit consumes an output of a supported one.
\<close>

definition group_of :: "ort_graph \<Rightarrow> node list \<Rightarrow> string \<Rightarrow> node_unit_map \<Rightarrow> node list \<Rightarrow> node list" where
  "group_of g sn ep um seg = concat (map (members um) (filter (supported g sn ep) seg))"

definition seg_ok :: "ort_graph \<Rightarrow> node list \<Rightarrow> string \<Rightarrow> node_unit_map \<Rightarrow> node list \<Rightarrow> bool" where
  "seg_ok g sn ep um seg \<longleftrightarrow>
     (\<forall>s \<in> set seg. supported g sn ep s \<longrightarrow> (\<forall>x \<in> set (downstream g um s) \<inter> set seg. supported g sn ep x))"

definition in_order :: "ort_graph \<Rightarrow> node_unit_map \<Rightarrow> node set \<Rightarrow> node list \<Rightarrow> bool" where
  "in_order g um T P \<longleftrightarrow>
     (\<forall>xs t ys. P = xs @ t # ys \<longrightarrow> (\<forall>s \<in> T. t \<in> set (downstream g um s) \<longrightarrow> s \<in> set xs))"

definition degrees_inv :: "ort_graph \<Rightarrow> node_unit_map \<Rightarrow> node set \<Rightarrow> node list \<Rightarrow> partition_state \<Rightarrow> bool" where
  "degrees_inv g um T P s \<longleftrightarrow>
     wf_map (in_degree s) \<and> keys (in_degree s) = Node_GetId g ` T
     \<and> (\<forall>t \<in> T. unat (the (map_of (in_degree s) (Node_GetId g t))) = pending g um (T - set P) t)"

definition queues_inv :: "ort_graph \<Rightarrow> node_unit_map \<Rightarrow> node set \<Rightarrow> node list \<Rightarrow> partition_state \<Rightarrow> bool" where
  "queues_inv g um T P s \<longleftrightarrow>
     distinct (nodes_to_process s @ nodes_to_process_with_next_group s)
     \<and> set (nodes_to_process s @ nodes_to_process_with_next_group s)
        = {t \<in> T - set P. pending g um (T - set P) t = 0}"

definition processed_inv ::
  "ort_graph \<Rightarrow> node_unit_map \<Rightarrow> node set \<Rightarrow> node list \<Rightarrow> partition_state \<Rightarrow> bool" where
  "processed_inv g um T P s \<longleftrightarrow>
     distinct P \<and> set P \<subseteq> T \<and> num_nodes_processed s = length P \<and> in_order g um T P"

definition groups_inv ::
  "ort_graph \<Rightarrow> node list \<Rightarrow> string \<Rightarrow> node_unit_map \<Rightarrow> node set \<Rightarrow> node list list \<Rightarrow> node list \<Rightarrow> partition_state \<Rightarrow> bool" where
  "groups_inv g sn ep um T segs cur s \<longleftrightarrow>
     supported_groups s = map (group_of g sn ep um) segs \<and> (\<forall>seg \<in> set segs. group_of g sn ep um seg \<noteq> [])
     \<and> supported_group s = group_of g sn ep um cur
     \<and> (\<forall>x \<in> T. \<not> supported g sn ep x \<longrightarrow>
          (x \<in> supported_group_border s \<longleftrightarrow>
            (\<exists>n \<in> set cur. supported g sn ep n \<and> x \<in> set (downstream g um n))))
     \<and> (\<forall>seg \<in> set (segs @ [cur]). seg_ok g sn ep um seg)"

definition partition_inv ::
  "ort_graph \<Rightarrow> node list \<Rightarrow> string \<Rightarrow> node_unit_map \<Rightarrow> node list \<Rightarrow> node list list \<Rightarrow> node list \<Rightarrow> partition_state \<Rightarrow> bool" where
  "partition_inv g sn ep um ns segs cur s \<longleftrightarrow>
     (let T = set (unit_targets um ns); P = concat segs @ cur
      in degrees_inv g um T P s \<and> queues_inv g um T P s \<and> processed_inv g um T P s
         \<and> groups_inv g sn ep um T segs cur s)"

lemmas partition_inv_defs = partition_inv_def degrees_inv_def queues_inv_def processed_inv_def groups_inv_def Let_def

lemma in_order_snoc:
  assumes "in_order g um T P" "\<forall>s \<in> T. n \<in> set (downstream g um s) \<longrightarrow> s \<in> set P"
  shows "in_order g um T (P @ [n])"
  unfolding in_order_def
proof (intro allI impI ballI)
  fix xs t ys s assume "P @ [n] = xs @ t # ys" "s \<in> T" "t \<in> set (downstream g um s)"
  then show "s \<in> set xs"
    using assms by (cases ys rule: rev_cases) (auto simp: in_order_def)
qed

lemma group_of_append [simp]: "group_of g sn ep um (xs @ ys) = group_of g sn ep um xs @ group_of g sn ep um ys"
  by (simp add: group_of_def)

lemma group_of_eq_Nil_iff: "group_of g sn ep um seg = [] \<longleftrightarrow> (\<forall>n \<in> set seg. \<not> supported g sn ep n)"
  by (auto simp: group_of_def)

lemma add_to_group_eq:
  assumes "target_node u = n" "um n = Some u"
  shows "\<exists>B \<subseteq> insert n (satellites u).
           add_to_group u n s = s\<lparr>supported_group := supported_group s @ members um n,
                                  supported_group_border := supported_group_border s - B\<rparr>"
proof (cases "unit_type u")
  case SingleNode
  then show ?thesis
    using assms by (intro exI [of _ "{n}"]) (simp add: add_to_group_def members_def unit_of_def)
next
  case QDQGroup
  let ?B = "insert n (set_option (output_reshape_node u) \<union> set_option (redundant_clip_node u))"
  have [simp]: "(case x of None \<Rightarrow> {} | Some r \<Rightarrow> {r}) = set_option x" for x :: "node option"
    by (cases x) auto
  have "A - X - Y - {n} = A - insert n (X \<union> Y)" for A X Y :: "node set" by auto
  then have "add_to_group u n s = s\<lparr>supported_group := supported_group s @ members um n,
      supported_group_border := supported_group_border s - ?B\<rparr>"
    using assms QDQGroup by (simp add: add_to_group_def members_def unit_of_def GetAllNodesInGroup_def)
  then show ?thesis by (intro exI [of _ ?B]) (auto simp: satellites_def)
qed

lemma partition_invD:
  assumes "partition_inv g sn ep um ns segs cur s"
  shows "degrees_inv g um (set (unit_targets um ns)) (concat segs @ cur) s"
    "queues_inv g um (set (unit_targets um ns)) (concat segs @ cur) s"
    "processed_inv g um (set (unit_targets um ns)) (concat segs @ cur) s"
    "groups_inv g sn ep um (set (unit_targets um ns)) segs cur s"
  using assms by (simp_all add: partition_inv_def Let_def)

lemma partition_invI:
  assumes "degrees_inv g um (set (unit_targets um ns)) (concat segs @ cur) s"
    "queues_inv g um (set (unit_targets um ns)) (concat segs @ cur) s"
    "processed_inv g um (set (unit_targets um ns)) (concat segs @ cur) s"
    "groups_inv g sn ep um (set (unit_targets um ns)) segs cur s"
  shows "partition_inv g sn ep um ns segs cur s"
  using assms by (simp add: partition_inv_def Let_def)

lemma close_group_inv:
  assumes "groups_inv g sn ep um T segs cur s"
  shows "\<exists>segs' cur'. groups_inv g sn ep um T segs' cur' (close_group s)
           \<and> concat segs' @ cur' = concat segs @ cur
           \<and> (\<forall>x \<in> T. \<not> supported g sn ep x \<longrightarrow> x \<notin> supported_group_border (close_group s))
           \<and> group_of g sn ep um cur' = []"
proof (cases "supported_group s = []")
  case True
  then have "group_of g sn ep um cur = []" using assms by (simp add: groups_inv_def)
  moreover from this have "\<forall>x \<in> T. \<not> supported g sn ep x \<longrightarrow> x \<notin> supported_group_border s"
    using assms by (auto simp: groups_inv_def group_of_eq_Nil_iff)
  ultimately show ?thesis
    using True assms by (intro exI [of _ segs] exI [of _ cur]) (simp add: close_group_def)
next
  case False
  then show ?thesis
    using assms
    by (intro exI [of _ "segs @ [cur]"] exI [of _ "[]"])
      (auto simp: close_group_def groups_inv_def group_of_def seg_ok_def)
qed

lemma close_group_sel [simp]:
  "in_degree (close_group s) = in_degree s" "nodes_to_process (close_group s) = nodes_to_process s"
  "nodes_to_process_with_next_group (close_group s) = nodes_to_process_with_next_group s"
  "num_nodes_processed (close_group s) = num_nodes_processed s" "supported_group (close_group s) = []"
  by (simp_all add: close_group_def)

lemma swap_inv:
  assumes inv: "partition_inv g sn ep um ns segs cur s"
    and Q: "nodes_to_process s = []"
  shows "\<exists>s' segs' cur'. loop_body g sn ep um s = Inr s' \<and> partition_inv g sn ep um ns segs' cur' s'
           \<and> concat segs' @ cur' = concat segs @ cur
           \<and> nodes_to_process s' = nodes_to_process_with_next_group s \<and> nodes_to_process_with_next_group s' = []
           \<and> (\<forall>x \<in> set (unit_targets um ns). \<not> supported g sn ep x \<longrightarrow> x \<notin> supported_group_border s')"
proof -
  let ?T = "set (unit_targets um ns)"
  obtain segs' cur' where c: "groups_inv g sn ep um ?T segs' cur' (close_group s)"
    "concat segs' @ cur' = concat segs @ cur"
    "\<forall>x \<in> ?T. \<not> supported g sn ep x \<longrightarrow> x \<notin> supported_group_border (close_group s)"
    using close_group_inv [OF partition_invD(4) [OF inv]] by blast
  define s' where "s' = (close_group s)\<lparr>nodes_to_process := nodes_to_process_with_next_group s,
      nodes_to_process_with_next_group := []\<rparr>"
  have "loop_body g sn ep um s = Inr s'"
    using Q by (simp add: loop_body_def s'_def Let_def)
  moreover have "partition_inv g sn ep um ns segs' cur' s'"
  proof (rule partition_invI)
    show "groups_inv g sn ep um ?T segs' cur' s'"
      using c(1) by (simp add: groups_inv_def s'_def)
    show "degrees_inv g um ?T (concat segs' @ cur') s'"
      using partition_invD(1) [OF inv] unfolding c(2) by (simp add: degrees_inv_def s'_def)
    show "queues_inv g um ?T (concat segs' @ cur') s'"
      using partition_invD(2) [OF inv] Q unfolding c(2) by (simp add: queues_inv_def s'_def)
    show "processed_inv g um ?T (concat segs' @ cur') s'"
      using partition_invD(3) [OF inv] unfolding c(2) by (simp add: processed_inv_def s'_def)
  qed
  ultimately show ?thesis using c by (intro exI [of _ s'] exI [of _ segs'] exI [of _ cur']) (simp add: s'_def)
qed

lemma queue_head:
  assumes "queues_inv g um T P s" "nodes_to_process s = n # rest" "finite T"
  shows "n \<in> T" "n \<notin> set P" "pending g um (T - set P) n = 0" "\<forall>m \<in> T. n \<in> set (downstream g um m) \<longrightarrow> m \<in> set P"
proof -
  have "n \<in> {t \<in> T - set P. pending g um (T - set P) t = 0}"
    using assms(1,2) unfolding queues_inv_def by (metis append_Cons list.set_intros(1))
  then show "n \<in> T" "n \<notin> set P" "pending g um (T - set P) n = 0"
    "\<forall>m \<in> T. n \<in> set (downstream g um m) \<longrightarrow> m \<in> set P"
    using assms(3) by (auto simp: pending_eq_0_iff)
qed

lemma defer_inv:
  assumes inv: "partition_inv g sn ep um ns segs cur s" and wf: "wf_unit_graph g um ns"
    and Q: "nodes_to_process s = n # rest"
    and later: "\<not> supported g sn ep n" "n \<in> supported_group_border s"
  defines "s' \<equiv> s\<lparr>nodes_to_process := rest,
      nodes_to_process_with_next_group := nodes_to_process_with_next_group s @ [n]\<rparr>"
  shows "loop_body g sn ep um s = Inr s'" "partition_inv g sn ep um ns segs cur s'"
proof -
  have n: "n \<in> set (unit_targets um ns)" using queue_head(1) [OF partition_invD(2) [OF inv] Q] by simp
  show "loop_body g sn ep um s = Inr s'"
    using Q later supported_result [OF wf n, of sn ep] unit_targets_unit [OF n]
    by (simp add: loop_body_def process_node_def map_at_def s'_def)
  show "partition_inv g sn ep um ns segs cur s'"
  proof (rule partition_invI)
    show "queues_inv g um (set (unit_targets um ns)) (concat segs @ cur) s'"
      using partition_invD(2) [OF inv] Q by (auto simp: queues_inv_def s'_def)
  qed (use partition_invD [OF inv] in \<open>simp_all add: degrees_inv_def processed_inv_def groups_inv_def s'_def\<close>)
qed

lemma process_node_eq:
  assumes wf: "wf_unit_graph g um ns" and n: "n \<in> set (unit_targets um ns)"
    and go: "supported g sn ep n \<or> n \<notin> supported_group_border s"
    and deg: "wf_map (in_degree s)" "keys (in_degree s) = Node_GetId g ` set (unit_targets um ns)"
      "\<forall>t \<in> set (unit_targets um ns).
         unat (the (map_of (in_degree s) (Node_GetId g t))) = p t + count_list (downstream g um n) t"
  shows "\<exists>deg new B. process_node g sn ep um n s =
            Inr (s\<lparr>in_degree := deg, nodes_to_process := nodes_to_process s @ new,
                   supported_group := supported_group s @ (if supported g sn ep n then members um n else []),
                   supported_group_border := (supported_group_border s - B)
                     \<union> (if supported g sn ep n then set (downstream g um n) else {}),
                   num_nodes_processed := num_nodes_processed s + 1\<rparr>)
          \<and> wf_map deg \<and> keys deg = Node_GetId g ` set (unit_targets um ns)
          \<and> (\<forall>t \<in> set (unit_targets um ns). unat (the (map_of deg (Node_GetId g t))) = p t)
          \<and> distinct new \<and> set new = {t \<in> set (downstream g um n). p t = 0}
          \<and> B \<inter> set (unit_targets um ns) \<subseteq> (if supported g sn ep n then {n} else {})"
proof -
  let ?T = "set (unit_targets um ns)" and ?u = "unit_of um n" and ?b = "supported g sn ep n"
  have u: "um n = Some ?u" "target_node ?u = n" using unit_targets_unit [OF n] by auto
  have sat: "satellites ?u \<inter> ?T = {}" and inj: "inj_on (Node_GetId g) ?T"
    and outs: "set (GetOutputNodes g ?u) \<subseteq> set ns"
    using wf n by (auto simp: wf_unit_graph_def)
  define s1 where "s1 = (if ?b then add_to_group ?u n s else s)"
  obtain B where B: "B \<inter> ?T \<subseteq> (if ?b then {n} else {})"
    "s1 = s\<lparr>supported_group := supported_group s @ (if ?b then members um n else []),
            supported_group_border := supported_group_border s - B\<rparr>"
  proof (cases ?b)
    case True
    obtain B where "B \<subseteq> insert n (satellites ?u)" "add_to_group ?u n s =
        s\<lparr>supported_group := supported_group s @ members um n, supported_group_border := supported_group_border s - B\<rparr>"
      using add_to_group_eq [of ?u n um s] u by blast
    with True sat show ?thesis by (intro that [of B]) (auto simp: s1_def)
  next
    case False
    then show ?thesis by (intro that [of "{}"]) (auto simp: s1_def)
  qed
  have "\<forall>m \<in> set (GetOutputNodes g ?u). um m = Some (unit_of um m) \<and> target_node (unit_of um m) \<in> ?T"
    using outs wf_node_unit [OF wf] by blast
  then obtain deg new where v: "visit_outputs g um ?b (GetOutputNodes g ?u) s1 =
      Inr (s1\<lparr>in_degree := deg, nodes_to_process := nodes_to_process s1 @ new,
             supported_group_border := supported_group_border s1 \<union> (if ?b then set (downstream g um n) else {})\<rparr>)"
    "wf_map deg" "keys deg = Node_GetId g ` ?T" "\<forall>t \<in> ?T. unat (the (map_of deg (Node_GetId g t))) = p t"
    "distinct new" "set new = {t \<in> set (downstream g um n). p t = 0}"
    using visit_outputs_spec [OF inj, of "GetOutputNodes g ?u" um s1 p ?b] deg
    unfolding downstream_def B(2) by auto
  have "process_node g sn ep um n s = and_then (visit_outputs g um ?b (GetOutputNodes g ?u) s1)
      (\<lambda>s'. Inr (s'\<lparr>num_nodes_processed := num_nodes_processed s' + 1\<rparr>))"
    using go u supported_result [OF wf n, of sn ep] by (auto simp: process_node_def map_at_def s1_def)
  then have "process_node g sn ep um n s =
      Inr (s\<lparr>in_degree := deg, nodes_to_process := nodes_to_process s @ new,
             supported_group := supported_group s @ (if ?b then members um n else []),
             supported_group_border := (supported_group_border s - B) \<union> (if ?b then set (downstream g um n) else {}),
             num_nodes_processed := num_nodes_processed s + 1\<rparr>)"
    unfolding v(1) by (simp add: B(2))
  with v(2-) B(1) show ?thesis by blast
qed

lemma in_order_closed:
  "in_order g um T P \<Longrightarrow> t \<in> set P \<Longrightarrow> m \<in> T \<Longrightarrow> t \<in> set (downstream g um m) \<Longrightarrow> m \<in> set P"
  unfolding in_order_def by (metis in_set_conv_decomp_first Un_iff set_append)

lemma queues_after_process:
  assumes q: "queues_inv g um T P s" and Q: "nodes_to_process s = n # rest" and fin: "finite T"
    and ord: "in_order g um T P" and sub: "set (downstream g um n) \<subseteq> T"
    and new: "distinct new" "set new = {t \<in> set (downstream g um n). pending g um (T - set P - {n}) t = 0}"
  shows "distinct (rest @ new @ nodes_to_process_with_next_group s)"
    "set (rest @ new @ nodes_to_process_with_next_group s)
       = {t \<in> T - set (P @ [n]). pending g um (T - set (P @ [n])) t = 0}"
proof -
  let ?p = "pending g um (T - set P)" and ?p' = "pending g um (T - set P - {n})"
  let ?old = "rest @ nodes_to_process_with_next_group s"
  note h = queue_head [OF q Q fin]
  have rem: "?p t = count_list (downstream g um n) t + ?p' t" for t
    using pending_remove [of "T - set P" n g um t] h fin by auto
  have old: "distinct ?old" "n \<notin> set ?old" "insert n (set ?old) = {t \<in> T - set P. ?p t = 0}"
    using q Q by (auto simp: queues_inv_def)
  have "?p t \<noteq> 0" if "t \<in> set new" for t
    using that rem [of t] new(2) by (auto simp: count_list_0_iff)
  then have "set ?old \<inter> set new = {}" using old(3) by blast
  then show "distinct (rest @ new @ nodes_to_process_with_next_group s)"
    using old(1) new(1) by auto
  have "t \<notin> set P \<and> t \<noteq> n" if "t \<in> set new" for t
    using that new(2) in_order_closed [OF ord _ h(1)] h by auto
  moreover have "?p' t = 0 \<longleftrightarrow> ?p t = 0 \<or> t \<in> set new" if "t \<in> T" for t
    using rem [of t] new(2) by (auto simp: count_list_0_iff)
  moreover have "set ?old = {t \<in> T - set P. ?p t = 0} - {n}" using old by blast
  moreover have "T - set (P @ [n]) = T - set P - {n}" by auto
  ultimately show "set (rest @ new @ nodes_to_process_with_next_group s)
      = {t \<in> T - set (P @ [n]). pending g um (T - set (P @ [n])) t = 0}"
    using new(2) sub by auto
qed

lemma seg_ok_snoc:
  assumes "seg_ok g sn ep um cur" "set cur \<subseteq> set P" "in_order g um T P"
    and "n \<in> T" "n \<notin> set P" "\<forall>m \<in> T. n \<in> set (downstream g um m) \<longrightarrow> m \<in> set P"
    and "\<not> supported g sn ep n \<longrightarrow> \<not> (\<exists>m \<in> set cur. supported g sn ep m \<and> n \<in> set (downstream g um m))"
  shows "seg_ok g sn ep um (cur @ [n])"
  unfolding seg_ok_def
proof (intro ballI impI)
  fix m x
  assume m: "m \<in> set (cur @ [n])" "supported g sn ep m"
    and x: "x \<in> set (downstream g um m) \<inter> set (cur @ [n])"
  show "supported g sn ep x"
  proof (cases "m = n")
    case True
    have "x \<notin> set P" using in_order_closed [OF assms(3), of x n] x True assms(4,5) by auto
    moreover have "x \<noteq> n" using x True assms(4-6) by auto
    ultimately show ?thesis using x assms(2) by auto
  next
    case False
    then show ?thesis using m x assms(1,7) by (cases "x = n") (auto simp: seg_ok_def)
  qed
qed

lemma process_inv:
  assumes inv: "partition_inv g sn ep um ns segs cur s" and wf: "wf_unit_graph g um ns"
    and Q: "nodes_to_process s = n # rest"
    and go: "supported g sn ep n \<or> n \<notin> supported_group_border s"
  shows "\<exists>s'. loop_body g sn ep um s = Inr s' \<and> partition_inv g sn ep um ns segs (cur @ [n]) s'"
proof -
  let ?T = "set (unit_targets um ns)" and ?P = "concat segs @ cur" and ?b = "supported g sn ep n"
  note I = partition_invD [OF inv]
  note h = queue_head [OF I(2) Q finite_set]
  let ?p = "pending g um (?T - set ?P - {n})"
  have ord: "in_order g um ?T ?P" using I(3) by (simp add: processed_inv_def)
  have "pending g um (?T - set ?P) t = ?p t + count_list (downstream g um n) t" for t
    using pending_remove [of "?T - set ?P" n g um t] h by auto
  then obtain deg new B where r: "process_node g sn ep um n (s\<lparr>nodes_to_process := rest\<rparr>) =
      Inr (s\<lparr>in_degree := deg, nodes_to_process := rest @ new,
             supported_group := supported_group s @ (if ?b then members um n else []),
             supported_group_border := (supported_group_border s - B) \<union> (if ?b then set (downstream g um n) else {}),
             num_nodes_processed := num_nodes_processed s + 1\<rparr>)" (is "_ = Inr ?s'")
    and d: "wf_map deg" "keys deg = Node_GetId g ` ?T" "\<forall>t \<in> ?T. unat (the (map_of deg (Node_GetId g t))) = ?p t"
    and new: "distinct new" "set new = {t \<in> set (downstream g um n). ?p t = 0}"
    and B: "B \<inter> ?T \<subseteq> (if ?b then {n} else {})"
    using process_node_eq [OF wf h(1), of sn ep "s\<lparr>nodes_to_process := rest\<rparr>" ?p] go I(1)
    unfolding degrees_inv_def by auto
  have T': "?T - set (?P @ [n]) = ?T - set ?P - {n}" by auto
  note qs = queues_after_process [OF I(2) Q finite_set ord downstream_targets [OF wf h(1)] new]
  have "partition_inv g sn ep um ns segs (cur @ [n]) ?s'"
  proof (rule partition_invI)
    show "degrees_inv g um ?T (concat segs @ cur @ [n]) ?s'"
      using d T' by (simp add: degrees_inv_def)
    show "queues_inv g um ?T (concat segs @ cur @ [n]) ?s'"
      unfolding queues_inv_def using qs by simp
    show "processed_inv g um ?T (concat segs @ cur @ [n]) ?s'"
      using I(3) h in_order_snoc [OF ord h(4)] by (auto simp: processed_inv_def)
    have "\<forall>x \<in> ?T. \<not> supported g sn ep x \<longrightarrow>
        (x \<in> (supported_group_border s - B) \<union> (if ?b then set (downstream g um n) else {}) \<longleftrightarrow>
         (\<exists>m \<in> set (cur @ [n]). supported g sn ep m \<and> x \<in> set (downstream g um m)))"
      using I(4) B unfolding groups_inv_def by (auto split: if_splits)
    moreover have "seg_ok g sn ep um (cur @ [n])"
      using I(4) go h(1) by (intro seg_ok_snoc [OF _ _ ord h(1,2,4)]) (auto simp: groups_inv_def)
    ultimately show "groups_inv g sn ep um ?T segs (cur @ [n]) ?s'"
      using I(4) by (simp add: groups_inv_def group_of_def)
  qed
  then show ?thesis using Q r by (intro exI [of _ ?s']) (simp add: loop_body_def)
qed

section \<open>Initialisation, termination and result\<close>

lemma init_nodes_spec:
  assumes "\<forall>n \<in> set ns. um n = Some (unit_of um n)" "distinct ns" "wf_map (in_degree s)"
    and "inj_on (Node_GetId g) (set (unit_targets um ns))"
    and "Node_GetId g ` set (unit_targets um ns) \<inter> keys (in_degree s) = {}"
  shows "\<exists>deg. init_nodes g um ns s = Inr (s\<lparr>in_degree := deg, nodes_to_process := nodes_to_process s
             @ filter (\<lambda>t. GetInputEdgesCount g (unit_of um t) = 0) (unit_targets um ns)\<rparr>)
         \<and> wf_map deg \<and> keys deg = keys (in_degree s) \<union> Node_GetId g ` set (unit_targets um ns)
         \<and> (\<forall>t \<in> set (unit_targets um ns). map_of deg (Node_GetId g t) = Some (GetInputEdgesCount g (unit_of um t)))
         \<and> (\<forall>k \<in> keys (in_degree s). map_of deg k = map_of (in_degree s) k)"
  using assms
proof (induction ns arbitrary: s)
  case Nil
  then show ?case by (intro exI [of _ "in_degree s"]) (simp add: unit_targets_def)
next
  case (Cons n ns)
  have u: "um n = Some (unit_of um n)" using Cons.prems(1) by simp
  show ?case
  proof (cases "target_node (unit_of um n) = n")
    case False
    then have "unit_targets um (n # ns) = unit_targets um ns" using u by (simp add: unit_targets_def)
    moreover have "init_node g um n s = Inr s" using False u by (simp add: init_node_def map_at_def)
    ultimately show ?thesis using Cons.IH [of s] Cons.prems by simp
  next
    case True
    let ?k = "Node_GetId g n" and ?d = "GetInputEdgesCount g (unit_of um n)"
    have T: "unit_targets um (n # ns) = n # unit_targets um ns" using True u by (simp add: unit_targets_def)
    have nT: "n \<notin> set (unit_targets um ns)" using Cons.prems(2) by (simp add: unit_targets_def)
    define s1 where "s1 = s\<lparr>in_degree := emplace ?k ?d (in_degree s),
        nodes_to_process := nodes_to_process s @ (if ?d = 0 then [n] else [])\<rparr>"
    have k: "?k \<notin> keys (in_degree s)" "?k \<notin> Node_GetId g ` set (unit_targets um ns)"
      using Cons.prems(4,5) nT by (auto simp: T)
    have step: "init_node g um n s = Inr s1"
      using True u by (simp add: init_node_def map_at_def s1_def Let_def)
    have "Node_GetId g ` set (unit_targets um ns) \<inter> keys (in_degree s1) = {}"
      using Cons.prems(5) k by (auto simp: T s1_def)
    then obtain deg where deg: "init_nodes g um ns s1 = Inr (s1\<lparr>in_degree := deg, nodes_to_process := nodes_to_process s1
          @ filter (\<lambda>t. GetInputEdgesCount g (unit_of um t) = 0) (unit_targets um ns)\<rparr>)"
      "wf_map deg" "keys deg = keys (in_degree s1) \<union> Node_GetId g ` set (unit_targets um ns)"
      "\<forall>t \<in> set (unit_targets um ns). map_of deg (Node_GetId g t) = Some (GetInputEdgesCount g (unit_of um t))"
      "\<forall>k \<in> keys (in_degree s1). map_of deg k = map_of (in_degree s1) k"
      using Cons.IH [of s1] Cons.prems(1-4) by (auto simp: T s1_def)
    have "map_of deg ?k = Some ?d" "\<forall>k \<in> keys (in_degree s). map_of deg k = map_of (in_degree s) k"
      using deg(5) k(1) by (auto simp: s1_def keys_map_of)
    then show ?thesis
      using deg(1-4) step by (intro exI [of _ deg]) (auto simp: T s1_def)
  qed
qed

lemma init_inv:
  assumes wf: "wf_unit_graph g um ns"
  shows "\<exists>s. init_nodes g um ns initial_state = Inr s \<and> partition_inv g sn ep um ns [] [] s"
proof -
  let ?T = "set (unit_targets um ns)"
  have deg: "unat (GetInputEdgesCount g (unit_of um t)) = pending g um ?T t" if "t \<in> ?T" for t
    using wf that by (simp add: wf_unit_graph_def)
  then have zero: "GetInputEdgesCount g (unit_of um t) = 0 \<longleftrightarrow> pending g um ?T t = 0" if "t \<in> ?T" for t
    using that by (metis unat_eq_zero)
  obtain d where d: "init_nodes g um ns initial_state = Inr (initial_state\<lparr>in_degree := d,
        nodes_to_process := filter (\<lambda>t. GetInputEdgesCount g (unit_of um t) = 0) (unit_targets um ns)\<rparr>)"
    "wf_map d" "keys d = Node_GetId g ` ?T"
    "\<forall>t \<in> ?T. map_of d (Node_GetId g t) = Some (GetInputEdgesCount g (unit_of um t))"
    using init_nodes_spec [of ns um initial_state g] wf_node_unit(1) [OF wf] wf
    by (auto simp: wf_unit_graph_def initial_state_def)
  then show ?thesis
    using distinct_unit_targets [OF wf] zero deg
    by (auto simp: partition_inv_defs initial_state_def group_of_def seg_ok_def in_order_def)
qed

definition progress_measure :: "ort_graph \<Rightarrow> node list \<Rightarrow> string \<Rightarrow> node list \<Rightarrow> nat \<Rightarrow> partition_state \<Rightarrow> nat \<times> nat" where
  "progress_measure g sn ep T processed s =
     (length T - processed,
      2 * length (filter (\<lambda>x. x \<in> supported_group_border s \<and> \<not> supported g sn ep x) (nodes_to_process s))
      + length (nodes_to_process_with_next_group s))"

lemma partition_loop_terminates:
  assumes "partition_inv g sn ep um ns segs cur s" and wf: "wf_unit_graph g um ns"
  shows "\<exists>s' segs' cur'. partition_loop g sn ep um s = Some (Inr s') \<and> partition_inv g sn ep um ns segs' cur' s'
           \<and> nodes_to_process s' = [] \<and> nodes_to_process_with_next_group s' = []"
  using assms(1)
proof (induction "progress_measure g sn ep (unit_targets um ns) (length (concat segs @ cur)) s"
    arbitrary: segs cur s rule: wf_induct_rule [OF wf_lex_prod [OF wf_less_than wf_less_than]])
  case 1
  let ?T = "unit_targets um ns" and ?lt = "less_than <*lex*> less_than"
  note IH = 1(1) and inv = 1(2)
  have go: ?case if "loop_body g sn ep um s = Inr s'" "partition_inv g sn ep um ns segs' cur' s'"
      "(progress_measure g sn ep ?T (length (concat segs' @ cur')) s',
        progress_measure g sn ep ?T (length (concat segs @ cur)) s) \<in> ?lt"
      "\<not> (nodes_to_process s = [] \<and> nodes_to_process_with_next_group s = [])" for s' segs' cur'
    using IH [OF that(3,2)] that(1,4) by (subst partition_loop.simps) auto
  show ?case
  proof (cases "nodes_to_process s")
    case Nil
    show ?thesis
    proof (cases "nodes_to_process_with_next_group s = []")
      case True
      with Nil inv show ?thesis by (subst partition_loop.simps) auto
    next
      case False
      obtain s' segs' cur' where r: "loop_body g sn ep um s = Inr s'" "partition_inv g sn ep um ns segs' cur' s'"
        "concat segs' @ cur' = concat segs @ cur" "nodes_to_process s' = nodes_to_process_with_next_group s"
        "nodes_to_process_with_next_group s' = []"
        "\<forall>x \<in> set ?T. \<not> supported g sn ep x \<longrightarrow> x \<notin> supported_group_border s'"
        using swap_inv [OF inv Nil] by blast
      have "set (nodes_to_process s') \<subseteq> set ?T"
        using partition_invD(2) [OF r(2)] r(5) by (auto simp: queues_inv_def)
      then have "filter (\<lambda>x. x \<in> supported_group_border s' \<and> \<not> supported g sn ep x) (nodes_to_process s') = []"
        using r(6) by (auto simp: filter_empty_conv)
      then show ?thesis
        using False Nil by (intro go [OF r(1,2)]) (auto simp: progress_measure_def r(3,5))
    qed
  next
    case (Cons n rest)
    show ?thesis
    proof (cases "supported g sn ep n \<or> n \<notin> supported_group_border s")
      case True
      obtain s' where r: "loop_body g sn ep um s = Inr s'" "partition_inv g sn ep um ns segs (cur @ [n]) s'"
        using process_inv [OF inv wf Cons True] by blast
      have "length (concat segs @ cur @ [n]) \<le> length ?T"
        using partition_invD(3) [OF r(2)] card_mono [of "set ?T"]
        unfolding processed_inv_def by (metis List.finite_set card_length distinct_card le_trans)
      then show ?thesis
        using Cons by (intro go [OF r]) (auto simp: progress_measure_def)
    next
      case False
      then show ?thesis
        using Cons by (intro go [OF defer_inv [OF inv wf Cons]]) (auto simp: progress_measure_def)
    qed
  qed
qed

lemma partition_result:
  assumes ns: "Graph_GetNodes g = Inr ns" and wf: "wf_unit_graph g um ns"
  defines "T \<equiv> set (unit_targets um ns)"
  shows "\<exists>segs. distinct (concat segs) \<and> set (concat segs) \<subseteq> T \<and> in_order g um T (concat segs)
           \<and> (\<forall>seg \<in> set segs. seg_ok g sn ep um seg)
           \<and> (\<forall>t \<in> T - set (concat segs). pending g um (T - set (concat segs)) t \<noteq> 0)
           \<and> CreateSupportedPartitionNodeGroups g sn ep um =
                Some (if set (concat segs) = T
                      then Inr (filter (\<lambda>grp. grp \<noteq> []) (map (group_of g sn ep um) segs))
                      else Inl (Thrown ''Processed node count differs from the expected count''))"
proof -
  obtain s0 where s0: "init_nodes g um ns initial_state = Inr s0" "partition_inv g sn ep um ns [] [] s0"
    using init_inv [OF wf] by blast
  obtain s segs cur where s: "partition_loop g sn ep um s0 = Some (Inr s)" "partition_inv g sn ep um ns segs cur s"
    "nodes_to_process s = []" "nodes_to_process_with_next_group s = []"
    using partition_loop_terminates [OF s0(2) wf] by blast
  note I = partition_invD [OF s(2)]
  let ?P = "concat segs @ cur"
  have len: "length (in_degree s) = card T"
    using I(1) wf by (simp add: degrees_inv_def wf_map_size card_image T_def wf_unit_graph_def)
  have P: "distinct ?P" "set ?P \<subseteq> T" "num_nodes_processed s = length ?P"
    using I(3) by (auto simp: processed_inv_def T_def)
  have "length ?P = card T \<longleftrightarrow> set ?P = T"
    using P(1,2) by (metis T_def List.finite_set card_subset_eq distinct_card)
  moreover have "supported_groups (close_group s) = filter (\<lambda>grp. grp \<noteq> []) (map (group_of g sn ep um) (segs @ [cur]))"
    using I(4) by (auto simp: close_group_def groups_inv_def filter_id_conv intro: sym)
  ultimately have "CreateSupportedPartitionNodeGroups g sn ep um =
      Some (if set ?P = T then Inr (filter (\<lambda>grp. grp \<noteq> []) (map (group_of g sn ep um) (segs @ [cur])))
            else Inl (Thrown ''Processed node count differs from the expected count''))"
    using ns s0(1) s(1) len P(3) by (simp add: CreateSupportedPartitionNodeGroups_def Let_def)
  moreover have "\<forall>t \<in> T - set ?P. pending g um (T - set ?P) t \<noteq> 0"
    using I(2) s(3,4) by (auto simp: queues_inv_def T_def)
  moreover have "in_order g um T ?P" "\<forall>seg \<in> set (segs @ [cur]). seg_ok g sn ep um seg"
    using I(3,4) by (auto simp: processed_inv_def groups_inv_def T_def)
  ultimately show ?thesis
    using P by (intro exI [of _ "segs @ [cur]"]) simp
qed

lemma acyclic_all_processed:
  assumes rank: "topological_rank g um ns rank" and T: "T = set (unit_targets um ns)" and "set P \<subseteq> T"
    and stuck: "\<forall>t \<in> T - set P. pending g um (T - set P) t \<noteq> 0"
  shows "set P = T"
proof (rule ccontr)
  assume "set P \<noteq> T"
  then have "T - set P \<noteq> {}" "finite (T - set P)" using assms(2,3) by auto
  then obtain t where t: "t \<in> T - set P" "\<forall>s \<in> T - set P. rank t \<le> rank s"
    by (metis (no_types, lifting) arg_min_if_finite(1) arg_min_least)
  then have "\<forall>s \<in> T - set P. t \<notin> set (downstream g um s)"
    using rank T unfolding topological_rank_def by (meson DiffD1 leD)
  then show False using stuck t(1) T by (auto simp: pending_eq_0_iff)
qed

lemma in_order_rank:
  assumes "in_order g um (set (unit_targets um ns)) P" "set P = set (unit_targets um ns)" "wf_unit_graph g um ns"
  shows "topological_rank g um ns (\<lambda>t. length (takeWhile (\<lambda>x. x \<noteq> t) P))"
  unfolding topological_rank_def
proof (intro ballI)
  fix s t assume s: "s \<in> set (unit_targets um ns)" and t: "t \<in> set (downstream g um s)"
  have "t \<in> set P" using downstream_targets [OF assms(3) s] t assms(2) by auto
  then obtain xs ys where P: "P = xs @ t # ys" "t \<notin> set xs" by (metis split_list_first)
  then have "s \<in> set xs" using assms(1) s t by (auto simp: in_order_def)
  then obtain as bs where "xs = as @ s # bs" "s \<notin> set as" by (metis split_list_first)
  then have "takeWhile (\<lambda>x. x \<noteq> s) P = as" "takeWhile (\<lambda>x. x \<noteq> t) P = xs" "length as < length xs"
    using P takeWhile_first [of s as "bs @ t # ys"] takeWhile_first [of t xs ys] by auto
  then show "length (takeWhile (\<lambda>x. x \<noteq> s) P) < length (takeWhile (\<lambda>x. x \<noteq> t) P)" by simp
qed

lemma concat_filter_nonempty: "concat (filter (\<lambda>xs. xs \<noteq> []) xss) = concat xss"
  by (induction xss) auto

lemma group_of_concat: "concat (map (group_of g sn ep um) segs) = group_of g sn ep um (concat segs)"
  by (induction segs) (auto simp: group_of_def)

lemma mset_group_of:
  assumes "distinct xs" "distinct ys" "set xs = set ys"
  shows "mset (group_of g sn ep um xs) = mset (group_of g sn ep um ys)"
proof -
  have "mset xs = mset ys" using assms by (simp add: set_eq_iff_mset_eq_distinct)
  then have "mset (map (members um) (filter (supported g sn ep) xs))
      = mset (map (members um) (filter (supported g sn ep) ys))" by simp
  moreover have "mset (concat L) = sum_mset (image_mset mset (mset L))" for L :: "node list list"
    by (induction L) auto
  ultimately show ?thesis by (simp add: group_of_def)
qed

section \<open>Properties\<close>

definition same_group :: "node list list \<Rightarrow> node \<Rightarrow> node \<Rightarrow> bool" where
  "same_group gs s t = (\<exists>grp \<in> set gs. s \<in> set grp \<and> t \<in> set grp)"

lemma seg_index_unique:
  assumes "distinct (concat segs)" "i < length segs" "j < length segs" "x \<in> set (segs ! i)" "x \<in> set (segs ! j)"
  shows "i = j"
proof (rule ccontr)
  have *: False if "i < j" "j < length segs" "x \<in> set (segs ! i)" "x \<in> set (segs ! j)" for i j
  proof -
    have "segs = take i segs @ segs ! i # drop (Suc i) segs" using that by (simp add: id_take_nth_drop)
    then have "set (segs ! i) \<inter> set (concat (drop (Suc i) segs)) = {}"
      using assms(1) by (metis concat.simps(2) concat_append distinct_append)
    moreover have "segs ! j \<in> set (drop (Suc i) segs)"
      using that nth_mem [of "j - Suc i" "drop (Suc i) segs"] by simp
    ultimately show False using that(3,4) by auto
  qed
  assume "i \<noteq> j"
  then show False using * [of i j] * [of j i] assms by (cases "i < j") auto
qed

lemma set_GetAllNodesInGroup: "set (GetAllNodesInGroup u) = insert (target_node u) (satellites u)"
  by (cases "output_reshape_node u"; cases "redundant_clip_node u")
    (auto simp: GetAllNodesInGroup_def satellites_def)

lemma target_in_group:
  assumes wf: "wf_unit_graph g um ns" and "set seg \<subseteq> set (unit_targets um ns)" "t \<in> set (unit_targets um ns)"
  shows "t \<in> set (group_of g sn ep um seg) \<longleftrightarrow> t \<in> set seg \<and> supported g sn ep t"
proof -
  have "t \<in> set (members um s) \<longleftrightarrow> s = t" if "s \<in> set seg" for s
  proof -
    have s: "s \<in> set (unit_targets um ns)" using that assms(2) by blast
    then have "satellites (unit_of um s) \<inter> set (unit_targets um ns) = {}" "target_node (unit_of um s) = s"
      using wf unit_targets_unit(2) by (auto simp: wf_unit_graph_def)
    then show ?thesis
      using assms(3) by (auto simp: members_def set_GetAllNodesInGroup)
  qed
  then show ?thesis by (auto simp: group_of_def)
qed

lemma concat_seg_iff: "x \<in> set (concat segs) \<longleftrightarrow> (\<exists>i < length segs. x \<in> set (segs ! i))"
  by (metis UN_iff in_set_conv_nth set_concat)

lemma seg_of_LEAST:
  assumes "x \<in> set (concat segs)"
  shows "(LEAST i. i < length segs \<and> x \<in> set (segs ! i)) < length segs
       \<and> x \<in> set (segs ! (LEAST i. i < length segs \<and> x \<in> set (segs ! i)))"
  using assms unfolding concat_seg_iff by (rule LeastI_ex)

lemma seg_index_le:
  assumes "in_order g um T (concat segs)" "s \<in> T" "t \<in> set (downstream g um s)" "j < length segs" "t \<in> set (segs ! j)"
  shows "\<exists>i \<le> j. s \<in> set (segs ! i)"
proof -
  obtain as bs where "segs ! j = as @ t # bs" using assms(5) by (meson split_list)
  moreover have "segs = take j segs @ segs ! j # drop (Suc j) segs" using assms(4) by (simp add: id_take_nth_drop)
  ultimately have "concat segs = (concat (take j segs) @ as) @ t # (bs @ concat (drop (Suc j) segs))"
    by (metis append_Cons append_assoc concat.simps(2) concat_append)
  then have "s \<in> set (concat (take j segs) @ as)" using assms(1-3) unfolding in_order_def by blast
  then have "s \<in> set as \<or> (\<exists>i < j. s \<in> set (segs ! i))"
    using assms(4) by (auto simp: concat_seg_iff simp del: set_concat)
  then show ?thesis
    using \<open>segs ! j = as @ t # bs\<close> by (auto intro: less_imp_le)
qed

lemma contraction_order:
  assumes wf: "wf_unit_graph g um ns" and rank: "topological_rank g um ns rank"
    and dist: "distinct (concat segs)" and T: "set (concat segs) = set (unit_targets um ns)"
    and ord: "in_order g um (set (unit_targets um ns)) (concat segs)"
    and ok: "\<forall>seg \<in> set segs. seg_ok g sn ep um seg"
  defines "seg_of \<equiv> \<lambda>t. LEAST i. i < length segs \<and> t \<in> set (segs ! i)"
    and "N \<equiv> Suc (Suc (Max (rank ` set (unit_targets um ns))))"
  defines "pos \<equiv> \<lambda>t. seg_of t * N + (if supported g sn ep t then N - 1 else rank t)"
  assumes s: "s \<in> set (unit_targets um ns)" and t: "t \<in> set (downstream g um s)"
  shows "(seg_of s = seg_of t \<and> supported g sn ep s \<and> supported g sn ep t) \<or> pos s < pos t"
proof -
  let ?T = "set (unit_targets um ns)"
  have in_seg: "seg_of x < length segs \<and> x \<in> set (segs ! seg_of x)" if "x \<in> ?T" for x
    unfolding seg_of_def using that T by (intro seg_of_LEAST) simp
  have tT: "t \<in> ?T" using downstream_targets [OF wf s] t by blast
  obtain i where i: "i \<le> seg_of t" "s \<in> set (segs ! i)"
    using seg_index_le [OF ord s t] in_seg [OF tT] by blast
  have le: "seg_of s \<le> seg_of t"
    using i in_seg [OF tT] in_seg [OF s] seg_index_unique [OF dist, of i "seg_of s" s] by auto
  have small: "rank x < N - 1" if "x \<in> ?T" for x
    using that Max_ge [of "rank ` ?T" "rank x"] by (auto simp: N_def less_Suc_eq_le)
  show ?thesis
  proof (cases "seg_of s = seg_of t")
    case False
    then have "(seg_of s + 1) * N \<le> seg_of t * N" using le by (intro mult_right_mono) auto
    then have "pos s < pos t" using small [OF s] by (auto simp: pos_def)
    then show ?thesis by simp
  next
    case True
    have "seg_ok g sn ep um (segs ! seg_of t)" using ok in_seg [OF tT] by auto
    then have "supported g sn ep s \<Longrightarrow> supported g sn ep t"
      using in_seg [OF s] in_seg [OF tT] t True by (auto simp: seg_ok_def)
    moreover have "rank s < rank t" using rank s t by (auto simp: topological_rank_def)
    ultimately show ?thesis
      using True small [OF s] by (auto simp: pos_def)
  qed
qed

text \<open>
  C14.  On a well-formed graph the partitioner always returns.  It succeeds exactly when the unit graph is
  acyclic (has a topological rank); on a cyclic graph it throws.
\<close>

theorem partition_succeeds_iff_acyclic:
  assumes "Graph_GetNodes g = Inr ns" "wf_unit_graph g um ns"
  shows "if \<exists>rank. topological_rank g um ns rank
         then \<exists>gs. CreateSupportedPartitionNodeGroups g sn ep um = Some (Inr gs)
         else CreateSupportedPartitionNodeGroups g sn ep um =
                Some (Inl (Thrown ''Processed node count differs from the expected count''))"
proof -
  let ?T = "set (unit_targets um ns)"
  obtain segs where segs: "set (concat segs) \<subseteq> ?T" "in_order g um ?T (concat segs)"
    "\<forall>t \<in> ?T - set (concat segs). pending g um (?T - set (concat segs)) t \<noteq> 0"
    "CreateSupportedPartitionNodeGroups g sn ep um = Some (if set (concat segs) = ?T
       then Inr (filter (\<lambda>grp. grp \<noteq> []) (map (group_of g sn ep um) segs))
       else Inl (Thrown ''Processed node count differs from the expected count''))"
    using partition_result [OF assms, of sn ep] by blast
  have "set (concat segs) = ?T \<longleftrightarrow> (\<exists>rank. topological_rank g um ns rank)"
    using acyclic_all_processed [OF _ refl segs(1,3)] in_order_rank [OF segs(2) _ assms(2)] by blast
  then show ?thesis using segs(4) by auto
qed

text \<open>
  C8.  The groups are a partition of the supported units: no group is empty, and together they hold the nodes
  of every supported unit (its DQ, target, absorbed and Q nodes) exactly once and nothing else.
\<close>

theorem partition_covers_supported:
  assumes "Graph_GetNodes g = Inr ns" "wf_unit_graph g um ns"
    and "CreateSupportedPartitionNodeGroups g sn ep um = Some (Inr gs)"
  shows "[] \<notin> set gs
         \<and> mset (concat gs) = mset (concat (map (members um) (filter (supported g sn ep) (unit_targets um ns))))"
proof -
  let ?T = "set (unit_targets um ns)"
  obtain segs where segs: "distinct (concat segs)"
    "CreateSupportedPartitionNodeGroups g sn ep um = Some (if set (concat segs) = ?T
       then Inr (filter (\<lambda>grp. grp \<noteq> []) (map (group_of g sn ep um) segs))
       else Inl (Thrown ''Processed node count differs from the expected count''))"
    using partition_result [OF assms(1,2), of sn ep] by blast
  then have gs: "gs = filter (\<lambda>grp. grp \<noteq> []) (map (group_of g sn ep um) segs)" and T: "set (concat segs) = ?T"
    using assms(3) by (auto split: if_splits)
  have "mset (group_of g sn ep um (concat segs)) = mset (group_of g sn ep um (unit_targets um ns))"
    using mset_group_of [OF segs(1) distinct_unit_targets [OF assms(2)] T] .
  then show ?thesis
    unfolding gs concat_filter_nonempty group_of_concat by (simp add: group_of_def)
qed

text \<open>
  C1.  Fusing every group into a single node leaves an acyclic graph.  There is an order of the units, equal on
  the units of one group, that strictly increases along every edge that does not stay inside a group; so no path
  leaves a group and comes back to it.
\<close>

theorem partition_contraction_acyclic:
  assumes "Graph_GetNodes g = Inr ns" "wf_unit_graph g um ns"
    and "CreateSupportedPartitionNodeGroups g sn ep um = Some (Inr gs)"
  shows "\<exists>pos :: node \<Rightarrow> nat.
           (\<forall>s \<in> set (unit_targets um ns). \<forall>t \<in> set (downstream g um s). same_group gs s t \<or> pos s < pos t)
         \<and> (\<forall>s \<in> set (unit_targets um ns). \<forall>t \<in> set (unit_targets um ns). same_group gs s t \<longrightarrow> pos s = pos t)"
proof -
  let ?T = "set (unit_targets um ns)"
  obtain segs where segs: "distinct (concat segs)" "in_order g um ?T (concat segs)"
    "\<forall>seg \<in> set segs. seg_ok g sn ep um seg"
    "CreateSupportedPartitionNodeGroups g sn ep um = Some (if set (concat segs) = ?T
       then Inr (filter (\<lambda>grp. grp \<noteq> []) (map (group_of g sn ep um) segs))
       else Inl (Thrown ''Processed node count differs from the expected count''))"
    using partition_result [OF assms(1,2), of sn ep] by blast
  then have gs: "gs = filter (\<lambda>grp. grp \<noteq> []) (map (group_of g sn ep um) segs)" and T: "set (concat segs) = ?T"
    using assms(3) by (auto split: if_splits)
  define rank where "rank = (\<lambda>t. length (takeWhile (\<lambda>x. x \<noteq> t) (concat segs)))"
  have rank: "topological_rank g um ns rank"
    unfolding rank_def by (rule in_order_rank [OF segs(2) T assms(2)])
  define seg_of where "seg_of = (\<lambda>t. LEAST i. i < length segs \<and> t \<in> set (segs ! i))"
  define N where "N = Suc (Suc (Max (rank ` ?T)))"
  define pos where "pos = (\<lambda>t. seg_of t * N + (if supported g sn ep t then N - 1 else rank t))"
  note order = contraction_order [OF assms(2) rank segs(1) T segs(2,3), folded N_def]
  have in_seg: "seg_of x < length segs \<and> x \<in> set (segs ! seg_of x)" if "x \<in> ?T" for x
    unfolding seg_of_def using that T by (intro seg_of_LEAST) simp
  have seg_sub: "set (segs ! i) \<subseteq> ?T" if "i < length segs" for i using that T by auto
  have group: "same_group gs s t \<longleftrightarrow> seg_of s = seg_of t \<and> supported g sn ep s \<and> supported g sn ep t"
    if "s \<in> ?T" "t \<in> ?T" for s t
  proof
    assume "same_group gs s t"
    then obtain seg where seg: "seg \<in> set segs" "s \<in> set (group_of g sn ep um seg)" "t \<in> set (group_of g sn ep um seg)"
      by (auto simp: same_group_def gs)
    then obtain i where i: "i < length segs" "seg = segs ! i" by (metis in_set_conv_nth)
    have "s \<in> set seg \<and> supported g sn ep s" "t \<in> set seg \<and> supported g sn ep t"
      using target_in_group [OF assms(2) seg_sub [OF i(1)]] that seg(2,3) by (simp_all add: i(2))
    then show "seg_of s = seg_of t \<and> supported g sn ep s \<and> supported g sn ep t"
      using in_seg that i seg_index_unique [OF segs(1) i(1)] by metis
  next
    assume same: "seg_of s = seg_of t \<and> supported g sn ep s \<and> supported g sn ep t"
    let ?G = "group_of g sn ep um (segs ! seg_of t)"
    have "s \<in> set ?G" "t \<in> set ?G"
      using target_in_group [OF assms(2) seg_sub] that in_seg same by metis+
    moreover from this have "?G \<in> set gs" using in_seg [OF that(2)] by (auto simp: gs)
    ultimately show "same_group gs s t" by (auto simp: same_group_def)
  qed
  show ?thesis
  proof (intro exI [of _ pos] conjI ballI impI)
    fix s t assume st: "s \<in> ?T" "t \<in> set (downstream g um s)"
    have tT: "t \<in> ?T" using downstream_targets [OF assms(2) st(1)] st(2) by blast
    show "same_group gs s t \<or> pos s < pos t" using order [OF st] group [OF st(1) tT] by (simp add: pos_def seg_of_def)
  next
    fix s t assume "s \<in> ?T" "t \<in> ?T" "same_group gs s t"
    then show "pos s = pos t" using group [of s t] by (simp add: pos_def)
  qed
qed

definition example_unit :: OrtNodeUnit where
  "example_unit = \<lparr>dq_nodes = [3], target_node = 2, redundant_clip_node = None, output_reshape_node = None,
     q_nodes = [4], unit_type = QDQGroup\<rparr>"

definition example_units :: node_unit_map where
  "example_units = (\<lambda>n. if n \<in> {2, 3, 4} then Some example_unit
     else if n < 2 then Some \<lparr>dq_nodes = [], target_node = n, redundant_clip_node = None, output_reshape_node = None,
                            q_nodes = [], unit_type = SingleNode\<rparr>
     else None)"

definition example_graph :: ort_graph where
  "example_graph = \<lparr>Graph_GetNodes = Inr [0, 1, 3, 2, 4], Node_GetId = (\<lambda>n. n + 100),
     Node_GetInputs = (\<lambda>n. Inr (if n = 0 then [None] else if n = 2 then [Some 12, Some 11] else if n = 4 then [Some 13] else [Some 10])),
     Node_GetOutputs = (\<lambda>n. Inr [Some (if n = 0 then 10 else if n = 1 then 11 else if n = 3 then 12 else if n = 2 then 13 else 14)]),
     ValueInfo_GetValueProducer = (\<lambda>v. Inr (if v = 10 then Some 0 else if v = 11 then Some 1 else if v = 12 then Some 3
        else if v = 13 then Some 2 else None)),
     ValueInfo_GetValueConsumers = (\<lambda>v. Inr (if v = 10 then [1, 3] else if v = 11 \<or> v = 12 then [2]
        else if v = 13 then [4] else [])),
     Node_GetEpName = (\<lambda>n. Inr [])\<rparr>"

lemma example_targets: "unit_targets example_units [0, 1, 3, 2, 4] = [0, 1, 2]"
  by code_simp

lemma example_downstream:
  "map (downstream example_graph example_units) [0, 1, 2] = [[1, 2], [2], []]"
  by code_simp

lemma example_outputs:
  "map (\<lambda>t. GetOutputNodes example_graph (unit_of example_units t)) [0, 1, 2] = [[1, 3], [2], []]"
  by code_simp

lemma example_edges:
  "map (\<lambda>t. unat (GetInputEdgesCount example_graph (unit_of example_units t))) [0, 1, 2] = [0, 1, 2]"
  by code_simp

lemma example_satellites:
  "map (\<lambda>t. satellites (unit_of example_units t)) [0, 1, 2] = [{}, {}, {3, 4}]"
  by code_simp

lemma example_node_units:
  "\<forall>n \<in> set [0, 1, 3, 2, 4]. case example_units n of None \<Rightarrow> False
     | Some u \<Rightarrow> target_node u \<in> set [0, 1, 3, 2, 4] \<and> example_units (target_node u) = Some u"
  by (simp add: example_units_def example_unit_def)

lemma example_wf: "wf_unit_graph example_graph example_units [0, 1, 3, 2, 4]"
  unfolding wf_unit_graph_def example_targets
  using example_downstream example_outputs example_edges example_satellites example_node_units
  by (simp add: pending_def example_graph_def inj_on_def)

lemma example_nodes: "Graph_GetNodes example_graph = Inr [0, 1, 3, 2, 4]"
  by (simp add: example_graph_def)

lemma example_rank: "topological_rank example_graph example_units [0, 1, 3, 2, 4] id"
  unfolding topological_rank_def example_targets using example_downstream by simp

lemma example_partition:
  "CreateSupportedPartitionNodeGroups example_graph [0, 3, 2, 4] ''QNN'' example_units = Some (Inr [[0], [3, 2, 4]])"
  by code_simp

theorem partition_succeeds_iff_acyclic_witness:
  "\<exists>gs. CreateSupportedPartitionNodeGroups example_graph [0, 3, 2, 4] ''QNN'' example_units = Some (Inr gs)"
  using partition_succeeds_iff_acyclic [OF example_nodes example_wf, of "[0, 3, 2, 4]" "''QNN''"] example_rank
  by (auto split: if_splits)

theorem partition_covers_supported_witness:
  "[] \<notin> set [[0 :: node], [3, 2, 4]]
   \<and> mset (concat [[0], [3, 2, 4]])
     = mset (concat (map (members example_units)
         (filter (supported example_graph [0, 3, 2, 4] ''QNN'') (unit_targets example_units [0, 1, 3, 2, 4]))))"
  using partition_covers_supported [OF example_nodes example_wf example_partition] .

theorem partition_contraction_acyclic_witness:
  "\<exists>pos :: node \<Rightarrow> nat.
     (\<forall>s \<in> set (unit_targets example_units [0, 1, 3, 2, 4]).
        \<forall>t \<in> set (downstream example_graph example_units s). same_group [[0], [3, 2, 4]] s t \<or> pos s < pos t)
   \<and> (\<forall>s \<in> set (unit_targets example_units [0, 1, 3, 2, 4]). \<forall>t \<in> set (unit_targets example_units [0, 1, 3, 2, 4]).
        same_group [[0], [3, 2, 4]] s t \<longrightarrow> pos s = pos t)"
  using partition_contraction_acyclic [OF example_nodes example_wf example_partition] .

end
