(* ===== verification/Timer.thy ===== *)
theory Timer
  imports Prelude
begin

text \<open>
  The release timer of the HTP power manager: \<open>builder/timer.h\<close> and \<open>builder/timer.cc\<close>.

  The background thread \<open>BkgTimer\<close> and the client calls share the fields under \<open>mtx_\<close>.  A step of the model is
  one critical section: from taking the mutex to releasing it, where a wait on the condition variable releases
  it.  \<open>bkg_pc\<close> is the place where the background thread last released the mutex.  Time is a nat in
  microseconds; \<open>now\<close> is the value \<open>steady_clock::now()\<close> returns in that step.
\<close>

datatype threadState = IDLE | LAUNCH | CALLING | DEINIT | FAILED

datatype bkg_pc =
    Not_Started
  | Starting
  | Loop_Head
  | Wait_Timeout
  | In_Callback
  | Exited

record timer =
  thread_status :: threadState
  end_time :: nat
  is_timer_stopped :: bool
  is_timer_deinit :: bool
  is_timer_launched :: bool
  pc :: bkg_pc

definition Timer_new :: timer where
  "Timer_new = \<lparr>thread_status = DEINIT, end_time = 0, is_timer_stopped = False, is_timer_deinit = False,
     is_timer_launched = False, pc = Not_Started\<rparr>"

section \<open>The background thread\<close>

text \<open>
  One critical section of \<open>BkgTimer\<close>; \<^const>\<open>None\<close> means that the thread is blocked.  At the loop head the
  thread waits only when it is idle.
\<close>

definition loop_head :: "timer \<Rightarrow> timer option" where
  "loop_head t =
     (if thread_status t = IDLE \<and> \<not> (is_timer_launched t \<or> is_timer_stopped t \<or> is_timer_deinit t) then None
      else if is_timer_deinit t then Some (t\<lparr>thread_status := DEINIT, is_timer_deinit := False, pc := Exited\<rparr>)
      else let t1 = (if is_timer_stopped t then t\<lparr>thread_status := IDLE, is_timer_stopped := False\<rparr> else t)
           in Some (if thread_status t1 = LAUNCH then t1\<lparr>pc := Wait_Timeout\<rparr> else t1))"

definition wait_timeout :: "nat \<Rightarrow> timer \<Rightarrow> timer option" where
  "wait_timeout now t =
     (if is_timer_stopped t \<or> is_timer_deinit t then Some (t\<lparr>is_timer_launched := False, pc := Loop_Head\<rparr>)
      else if end_time t \<le> now then Some (t\<lparr>thread_status := CALLING, pc := In_Callback\<rparr>)
      else None)"

definition callback_return :: "timer \<Rightarrow> timer" where
  "callback_return t = t\<lparr>thread_status := IDLE, is_timer_launched := False, pc := Loop_Head\<rparr>"

definition BkgTimer :: "nat \<Rightarrow> timer \<Rightarrow> timer option" where
  "BkgTimer now t =
     (case pc t of
        Not_Started \<Rightarrow> None
      | Starting \<Rightarrow> Some (t\<lparr>thread_status := IDLE, pc := Loop_Head\<rparr>)
      | Loop_Head \<Rightarrow> loop_head t
      | Wait_Timeout \<Rightarrow> wait_timeout now t
      | In_Callback \<Rightarrow> Some (callback_return t)
      | Exited \<Rightarrow> None)"

section \<open>The client calls\<close>

text \<open>
  \<open>Initialize\<close> starts the thread (\<open>thread_ok\<close> tells whether \<open>std::thread\<close> could be created); \<open>Initialize\<close> and
  \<open>AbortTimer\<close> then block until the thread is idle, which \<open>wait_idle\<close> expresses.
\<close>

definition Initialize :: "bool \<Rightarrow> timer \<Rightarrow> bool \<times> timer" where
  "Initialize thread_ok t =
     (if thread_ok then (True, t\<lparr>pc := Starting\<rparr>) else (False, t\<lparr>thread_status := FAILED\<rparr>))"

definition wait_idle :: "timer \<Rightarrow> bool" where
  "wait_idle t = (thread_status t = IDLE)"

definition Launch :: "nat \<Rightarrow> nat \<Rightarrow> timer \<Rightarrow> bool \<times> timer" where
  "Launch now timeoutVal t =
     (if thread_status t \<noteq> IDLE then (False, t)
      else (True, t\<lparr>end_time := now + timeoutVal, thread_status := LAUNCH, is_timer_launched := True\<rparr>))"

definition AbortTimer :: "timer \<Rightarrow> bool \<times> timer" where
  "AbortTimer t =
     (if is_timer_deinit t \<or> thread_status t = DEINIT \<or> thread_status t = FAILED then (False, t)
      else (True, t\<lparr>is_timer_stopped := True\<rparr>))"

definition DeInitialize :: "timer \<Rightarrow> timer" where
  "DeInitialize t = t\<lparr>is_timer_deinit := True\<rparr>"

definition TimerInUse :: "timer \<Rightarrow> bool" where
  "TimerInUse t = (thread_status t = LAUNCH \<or> thread_status t = CALLING)"

definition RemainingDuration :: "nat \<Rightarrow> timer \<Rightarrow> int option" where
  "RemainingDuration now t =
     (if thread_status t = LAUNCH then Some (int (end_time t) - int now)
      else if thread_status t = CALLING \<or> thread_status t = IDLE then Some 0
      else None)"

section \<open>Interleavings\<close>

datatype timer_event =
    Ev_Bkg nat
  | Ev_Launch nat nat
  | Ev_Abort
  | Ev_DeInit

inductive timer_step :: "timer \<Rightarrow> timer_event \<Rightarrow> timer \<Rightarrow> bool" where
  step_bkg: "BkgTimer now t = Some t' \<Longrightarrow> timer_step t (Ev_Bkg now) t'"
| step_launch: "pc t \<noteq> Not_Started \<Longrightarrow> snd (Launch now d t) = t' \<Longrightarrow> timer_step t (Ev_Launch now d) t'"
| step_abort: "pc t \<noteq> Not_Started \<Longrightarrow> snd (AbortTimer t) = t' \<Longrightarrow> timer_step t Ev_Abort t'"
| step_deinit: "timer_step t Ev_DeInit (DeInitialize t)"

inductive timer_reach :: "timer \<Rightarrow> bool" where
  reach_init: "Initialize True Timer_new = (b, t) \<Longrightarrow> timer_reach t"
| reach_step: "timer_reach t \<Longrightarrow> timer_step t e t' \<Longrightarrow> timer_reach t'"

inductive_cases timer_stepE: "timer_step t e t'"

definition timer_inv :: "timer \<Rightarrow> bool" where
  "timer_inv t =
     (case pc t of
        Not_Started \<Rightarrow> False
      | Starting \<Rightarrow> thread_status t = DEINIT \<and> \<not> is_timer_launched t \<and> \<not> is_timer_stopped t
      | Loop_Head \<Rightarrow> thread_status t \<in> {IDLE, LAUNCH} \<and>
          (thread_status t = LAUNCH \<longrightarrow> is_timer_launched t \<or> is_timer_stopped t \<or> is_timer_deinit t)
      | Wait_Timeout \<Rightarrow> thread_status t = LAUNCH \<and> is_timer_launched t
      | In_Callback \<Rightarrow> thread_status t = CALLING
      | Exited \<Rightarrow> thread_status t = DEINIT)"

lemma timer_inv_bkg: "timer_inv t \<Longrightarrow> BkgTimer now t = Some t' \<Longrightarrow> timer_inv t'"
  by (auto simp: timer_inv_def BkgTimer_def loop_head_def wait_timeout_def callback_return_def Let_def
      split: bkg_pc.splits if_splits)

lemma timer_inv_launch: "timer_inv t \<Longrightarrow> timer_inv (snd (Launch now d t))"
  by (auto simp: timer_inv_def Launch_def split: bkg_pc.splits)

lemma timer_inv_abort: "timer_inv t \<Longrightarrow> timer_inv (snd (AbortTimer t))"
  by (auto simp: timer_inv_def AbortTimer_def split: bkg_pc.splits)

lemma timer_inv_deinit: "timer_inv t \<Longrightarrow> timer_inv (DeInitialize t)"
  by (auto simp: timer_inv_def DeInitialize_def split: bkg_pc.splits)

lemma timer_reach_inv: "timer_reach t \<Longrightarrow> timer_inv t"
proof (induction rule: timer_reach.induct)
  case (reach_init b t)
  then show ?case by (auto simp: Initialize_def Timer_new_def timer_inv_def)
next
  case (reach_step t e t')
  from reach_step(2,3) show ?case
    by (elim timer_stepE) (auto intro: timer_inv_bkg timer_inv_launch timer_inv_abort timer_inv_deinit)
qed

section \<open>Progress\<close>

primrec bkg_run :: "nat \<Rightarrow> nat \<Rightarrow> timer \<Rightarrow> timer option" where
  "bkg_run 0 now t = Some t"
| "bkg_run (Suc n) now t = (case BkgTimer now t of None \<Rightarrow> None | Some t' \<Rightarrow> bkg_run n now t')"

lemmas bkg_defs = BkgTimer_def loop_head_def wait_timeout_def callback_return_def Let_def



section \<open>Properties\<close>

definition started :: timer where
  "started = \<lparr>thread_status = IDLE, end_time = 0, is_timer_stopped = False, is_timer_deinit = False,
     is_timer_launched = False, pc = Loop_Head\<rparr>"

definition in_callback :: timer where
  "in_callback = \<lparr>thread_status = CALLING, end_time = 5, is_timer_stopped = False, is_timer_deinit = False,
     is_timer_launched = True, pc = In_Callback\<rparr>"

lemma reach_bkg: "timer_reach t \<Longrightarrow> BkgTimer now t = Some t' \<Longrightarrow> timer_reach t'"
  by (meson reach_step step_bkg)

lemma reach_launch: "timer_reach t \<Longrightarrow> pc t \<noteq> Not_Started \<Longrightarrow> timer_reach (snd (Launch now d t))"
  by (meson reach_step step_launch)

lemma reach_abort: "timer_reach t \<Longrightarrow> pc t \<noteq> Not_Started \<Longrightarrow> timer_reach (snd (AbortTimer t))"
  by (meson reach_step step_abort)

lemma reach_started: "timer_reach started"
proof -
  have "timer_reach (snd (Initialize True Timer_new))"
    by (rule reach_init) (rule surjective_pairing)
  then show ?thesis
    by (rule reach_bkg) (simp add: Initialize_def Timer_new_def BkgTimer_def started_def)
qed

lemma reach_in_callback: "timer_reach in_callback"
proof -
  have "timer_reach (snd (Launch 0 5 started))"
    by (rule reach_launch [OF reach_started]) (simp add: started_def)
  then have "timer_reach ((snd (Launch 0 5 started))\<lparr>pc := Wait_Timeout\<rparr>)"
    by (rule reach_bkg [of _ 0]) (simp add: Launch_def started_def bkg_defs)
  then show ?thesis
    by (rule reach_bkg [of _ 5]) (simp add: Launch_def started_def bkg_defs in_callback_def)
qed



text \<open>
  C34.  The callback runs exactly when the deadline has passed.  The background thread enters the callback only
  from a launched timer whose end time is reached, with no stop or deinitialisation pending; and a launch that
  finds no such request pending reaches the callback in two critical sections at any time after its deadline.
\<close>

theorem timer_callback_iff_deadline:
  assumes "timer_reach t"
  shows "(BkgTimer now t = Some t' \<and> pc t' = In_Callback \<longrightarrow>
            thread_status t = LAUNCH \<and> end_time t \<le> now \<and> \<not> is_timer_stopped t \<and> \<not> is_timer_deinit t)
       \<and> (pc t = Loop_Head \<and> Launch start d t = (True, t1) \<and> \<not> is_timer_stopped t \<and> \<not> is_timer_deinit t
            \<and> start + d \<le> now \<longrightarrow> (\<exists>t2. bkg_run 2 now t1 = Some t2 \<and> pc t2 = In_Callback \<and> thread_status t2 = CALLING))"
proof (intro conjI impI)
  assume "BkgTimer now t = Some t' \<and> pc t' = In_Callback"
  then show "thread_status t = LAUNCH" "end_time t \<le> now" "\<not> is_timer_stopped t" "\<not> is_timer_deinit t"
    using timer_reach_inv [OF assms]
    by (cases "pc t"; auto simp: timer_inv_def bkg_defs split: if_splits)+
next
  assume "pc t = Loop_Head \<and> Launch start d t = (True, t1) \<and> \<not> is_timer_stopped t \<and> \<not> is_timer_deinit t
      \<and> start + d \<le> now"
  then show "\<exists>t2. bkg_run 2 now t1 = Some t2 \<and> pc t2 = In_Callback \<and> thread_status t2 = CALLING"
    by (auto simp: bkg_defs Launch_def numeral_2_eq_2 split: if_splits)
qed

theorem timer_callback_iff_deadline_witness:
  "\<exists>t2. bkg_run 2 9 (snd (Launch 3 5 started)) = Some t2 \<and> pc t2 = In_Callback \<and> thread_status t2 = CALLING"
  using timer_callback_iff_deadline [OF reach_started, of 9 started 3 5 "snd (Launch 3 5 started)"]
  by (simp add: started_def Launch_def)

text \<open>
  A launch can be lost.  An abort that arrives while the callback runs leaves \<open>is_timer_stopped_\<close> set after
  the timer is idle again and the abort has returned.  If the next \<open>Launch\<close> comes before the background thread
  has cleared the flag, \<open>Launch\<close> reports success, but the thread drops the countdown: it goes back to \<open>IDLE\<close> with
  \<open>is_timer_launched_\<close> set, and from then on every iteration of its loop ends in the same state without waiting.
\<close>

theorem timer_stale_stop_loses_launch:
  "\<exists>t0 t1 t2. timer_reach t0 \<and> wait_idle t0 \<and> Launch 10 5 t0 = (True, t1) \<and> BkgTimer 10 t1 = Some t2
     \<and> thread_status t2 = IDLE \<and> (\<forall>now. BkgTimer now t2 = Some t2)"
proof -
  define t0 where "t0 = callback_return (snd (AbortTimer in_callback))"
  have "timer_reach (snd (AbortTimer in_callback))"
    by (rule reach_abort [OF reach_in_callback]) (simp add: in_callback_def)
  then have "timer_reach t0"
    by (rule reach_bkg [of _ 7]) (simp add: t0_def BkgTimer_def AbortTimer_def in_callback_def)
  moreover define t2 where "t2 = started\<lparr>end_time := 15, is_timer_launched := True\<rparr>"
  moreover have "BkgTimer 10 (snd (Launch 10 5 t0)) = Some t2"
    by (simp add: t0_def t2_def started_def AbortTimer_def in_callback_def bkg_defs Launch_def)
  moreover have "BkgTimer now t2 = Some t2" for now
    by (simp add: t2_def started_def bkg_defs)
  ultimately show ?thesis
    by (intro exI [of _ t0] exI [of _ "snd (Launch 10 5 t0)"] exI [of _ t2])
      (simp add: t0_def started_def AbortTimer_def in_callback_def callback_return_def Launch_def wait_idle_def)
qed

end
