(* ===== verification/Power_Manager.thy ===== *)
theory Power_Manager
  imports Timer
begin

text \<open>
  \<open>HtpPowerConfigManager\<close> of \<open>builder/qnn_htp_power_config_manager.cc\<close>: staging of power configurations, the
  votes that each graph state makes, and the release timer shared by all sessions.

  The QNN performance infrastructure is the record \<open>perf_infra\<close>, a parameter.  The field \<open>votes\<close> of the state
  lists the configurations that \<open>setPowerConfig\<close> accepted, by client id, in order.  Each call of the manager is one
  step; \<open>AbortTimer\<close> returns when the timer is idle, which \<open>Timer\<close> shows it does.  A client id, a time and a
  latency is a \<open>uint32_t\<close> that the code only copies and compares.
\<close>

section \<open>Votes\<close>

datatype HtpPerformanceMode =
    kHtpDefault
  | kHtpSustainedHighPerformance
  | kHtpBurst
  | kHtpHighPerformance
  | kHtpPowerSaver
  | kHtpLowPowerSaver
  | kHtpHighPowerSaver
  | kHtpLowBalanced
  | kHtpBalanced
  | kHtpExtremePowerSaver

datatype voltage_corner =
    CORNER_DISABLE
  | VCORNER_MIN_VOLTAGE_CORNER
  | VCORNER_SVS2
  | VCORNER_SVS
  | VCORNER_SVS_PLUS
  | VCORNER_NOM
  | VCORNER_NOM_PLUS
  | VCORNER_TURBO
  | VCORNER_MAX_VOLTAGE_CORNER

datatype power_mode = PERFORMANCE_MODE | POWER_SAVER_MODE

record dcvs_v3 =
  contextId :: nat
  setDcvsEnable :: nat
  dcvsEnable :: nat
  powerMode :: power_mode
  setSleepLatency :: nat
  sleepLatency :: nat
  setSleepDisable :: nat
  sleepDisable :: nat
  setBusParams :: nat
  busVoltageCornerMin :: voltage_corner
  busVoltageCornerTarget :: voltage_corner
  busVoltageCornerMax :: voltage_corner
  setCoreParams :: nat
  coreVoltageCornerMin :: voltage_corner
  coreVoltageCornerTarget :: voltage_corner
  coreVoltageCornerMax :: voltage_corner

datatype power_config =
    RPC_POLLING_TIME nat
  | RPC_CONTROL_LATENCY nat
  | DCVS_V3 dcvs_v3

definition kSleepMinLatency :: nat where "kSleepMinLatency = 40"
definition kSleepLowLatency :: nat where "kSleepLowLatency = 100"
definition kSleepMediumLatency :: nat where "kSleepMediumLatency = 1000"
definition kSleepHighLatency :: nat where "kSleepHighLatency = 2000"
definition kSleepHigherLatency :: nat where "kSleepHigherLatency = 65535"
definition kDcvsDisable :: nat where "kDcvsDisable = 0"
definition kDcvsEnable :: nat where "kDcvsEnable = 1"
definition kDisableRpcPolling :: nat where "kDisableRpcPolling = 0"
definition kDisableRpcControlLatency :: nat where "kDisableRpcControlLatency = 0"
definition kMaxRpcPolling :: nat where "kMaxRpcPolling = 9999"
definition kDefaultTimerTimeoutUs :: nat where "kDefaultTimerTimeoutUs = 300000"

definition dcvs_vote ::
  "nat \<Rightarrow> power_mode \<Rightarrow> nat \<Rightarrow> nat \<Rightarrow> voltage_corner \<Rightarrow> voltage_corner \<Rightarrow> voltage_corner \<Rightarrow> dcvs_v3" where
  "dcvs_vote client mode latency enable cmin ctarget cmax =
     \<lparr>contextId = client, setDcvsEnable = 1, dcvsEnable = enable, powerMode = mode,
      setSleepLatency = 1, sleepLatency = latency, setSleepDisable = 0, sleepDisable = 0,
      setBusParams = 1, busVoltageCornerMin = cmin, busVoltageCornerTarget = ctarget, busVoltageCornerMax = cmax,
      setCoreParams = 1, coreVoltageCornerMin = cmin, coreVoltageCornerTarget = ctarget, coreVoltageCornerMax = cmax\<rparr>"

definition SetHtpPerformancePowerConfig :: "nat \<Rightarrow> HtpPerformanceMode \<Rightarrow> power_config result" where
  "SetHtpPerformancePowerConfig client mode =
     (let vote = (\<lambda>latency enable c. Inr (DCVS_V3 (dcvs_vote client PERFORMANCE_MODE latency enable c c c)))
      in case mode of
        kHtpBurst \<Rightarrow> vote kSleepMinLatency kDcvsDisable VCORNER_MAX_VOLTAGE_CORNER
      | kHtpSustainedHighPerformance \<Rightarrow> vote kSleepMinLatency kDcvsDisable VCORNER_MAX_VOLTAGE_CORNER
      | kHtpHighPerformance \<Rightarrow> vote kSleepLowLatency kDcvsDisable VCORNER_TURBO
      | kHtpBalanced \<Rightarrow> vote kSleepMediumLatency kDcvsEnable VCORNER_NOM_PLUS
      | kHtpLowBalanced \<Rightarrow> vote kSleepMediumLatency kDcvsEnable VCORNER_NOM
      | kHtpHighPowerSaver \<Rightarrow> vote kSleepMediumLatency kDcvsEnable VCORNER_SVS_PLUS
      | kHtpPowerSaver \<Rightarrow> vote kSleepMediumLatency kDcvsEnable VCORNER_SVS
      | kHtpLowPowerSaver \<Rightarrow> vote kSleepMediumLatency kDcvsEnable VCORNER_SVS2
      | kHtpExtremePowerSaver \<Rightarrow>
          Inr (DCVS_V3 (dcvs_vote client POWER_SAVER_MODE kSleepMediumLatency kDcvsEnable
                 CORNER_DISABLE CORNER_DISABLE CORNER_DISABLE))
      | kHtpDefault \<Rightarrow> Inl (Thrown ''Invalid performance profile''))"

definition SetRelaxedPerfPowerConfig :: "nat \<Rightarrow> power_config" where
  "SetRelaxedPerfPowerConfig client =
     DCVS_V3 (dcvs_vote client POWER_SAVER_MODE kSleepHighLatency 1 VCORNER_SVS2 VCORNER_SVS VCORNER_SVS)"

definition SetExtremeLowPerfPowerConfig :: "nat \<Rightarrow> power_config" where
  "SetExtremeLowPerfPowerConfig client =
     DCVS_V3 (dcvs_vote client POWER_SAVER_MODE kSleepHigherLatency 1 CORNER_DISABLE CORNER_DISABLE CORNER_DISABLE)"

definition SetReleasedPerfPowerConfig :: "nat \<Rightarrow> power_config" where
  "SetReleasedPerfPowerConfig client =
     DCVS_V3 (dcvs_vote client POWER_SAVER_MODE kSleepHigherLatency 1
       VCORNER_MIN_VOLTAGE_CORNER VCORNER_MIN_VOLTAGE_CORNER VCORNER_MIN_VOLTAGE_CORNER)"

section \<open>State\<close>

datatype GraphState = INIT_START | INIT_DONE | RUN_START | RUN_DONE | TIMEOUT | NONE

record HtpPerfConfig =
  htp_power_config_client_id :: nat
  perf_mode :: HtpPerformanceMode
  rpc_polling_time :: nat
  rpc_control_latency :: nat

record perf_infra =
  deviceGetInfrastructure_ok :: bool
  infraType_is_perf :: bool
  setPowerConfig_ok :: "nat \<Rightarrow> power_config list \<Rightarrow> bool"

record power_manager =
  last_set_rpc_polling_time :: nat
  last_set_rpc_control_latency :: nat
  rpc_polling_time_set :: bool
  rpc_control_latency_set :: bool
  htp_performance_mode_set :: bool
  power_configs :: "power_config list"
  qnn_interface :: "perf_infra option"
  mgr_timer :: "timer option"
  timer_callback_arg :: "nat option"
  inflight_run_count :: nat
  timer_active :: bool
  graph_state :: GraphState
  boosted_config_ids :: "nat list"
  votes :: "(nat \<times> power_config list) list"

definition HtpPowerConfigManager_new :: power_manager where
  "HtpPowerConfigManager_new =
     \<lparr>last_set_rpc_polling_time = kDisableRpcPolling, last_set_rpc_control_latency = kDisableRpcControlLatency,
      rpc_polling_time_set = False, rpc_control_latency_set = False, htp_performance_mode_set = False,
      power_configs = [], qnn_interface = None, mgr_timer = None, timer_callback_arg = None, inflight_run_count = 0,
      timer_active = False, graph_state = NONE, boosted_config_ids = [], votes = []\<rparr>"

definition Init :: "perf_infra \<Rightarrow> power_manager \<Rightarrow> power_manager" where
  "Init infra s = s\<lparr>qnn_interface := Some infra\<rparr>"

section \<open>Staging and committing\<close>

definition AddRpcPollingTime :: "nat \<Rightarrow> power_manager \<Rightarrow> unit result \<times> power_manager" where
  "AddRpcPollingTime time s =
     (if time > kMaxRpcPolling then (Inl (Status_Fail ''Cannot set RPC polling time''), s)
      else if rpc_polling_time_set s then (Inl (Status_Fail ''There is already a pending RPC polling time config''), s)
      else if time = last_set_rpc_polling_time s then (Inr (), s)
      else (Inr (), s\<lparr>power_configs := power_configs s @ [RPC_POLLING_TIME time],
                      last_set_rpc_polling_time := time, rpc_polling_time_set := True\<rparr>))"

definition AddRpcControlLatency :: "nat \<Rightarrow> power_manager \<Rightarrow> unit result \<times> power_manager" where
  "AddRpcControlLatency latency s =
     (if rpc_control_latency_set s then (Inl (Status_Fail ''There is already a pending RPC control latency config''), s)
      else if latency = last_set_rpc_control_latency s then (Inr (), s)
      else (Inr (), s\<lparr>power_configs := power_configs s @ [RPC_CONTROL_LATENCY latency],
                      last_set_rpc_control_latency := latency, rpc_control_latency_set := True\<rparr>))"

definition AddHtpPerformanceConfig :: "power_config \<Rightarrow> power_manager \<Rightarrow> unit result \<times> power_manager" where
  "AddHtpPerformanceConfig cfg s =
     (Inr (), s\<lparr>power_configs := power_configs s @ [cfg], htp_performance_mode_set := True\<rparr>)"

definition AddHtpPerformanceMode :: "HtpPerformanceMode \<Rightarrow> nat \<Rightarrow> power_manager \<Rightarrow> unit result \<times> power_manager" where
  "AddHtpPerformanceMode mode client s =
     (if htp_performance_mode_set s
      then (Inl (Status_Fail ''There is already a pending HTP performance mode config''), s)
      else case SetHtpPerformancePowerConfig client mode of
             Inl e \<Rightarrow> (Inl e, s)
           | Inr cfg \<Rightarrow> (Inr (), s\<lparr>power_configs := power_configs s @ [cfg], htp_performance_mode_set := True\<rparr>))"

definition SetPowerConfig :: "nat \<Rightarrow> perf_infra \<Rightarrow> power_manager \<Rightarrow> unit result \<times> power_manager" where
  "SetPowerConfig client infra s =
     (if power_configs s = [] then (Inr (), s)
      else if \<not> deviceGetInfrastructure_ok infra then (Inl (Status_Fail ''backendGetPerfInfrastructure failed.''), s)
      else if \<not> infraType_is_perf infra then (Inl (Status_Fail ''HTP infra type is not perf infra type.''), s)
      else (Inr (), s\<lparr>votes := votes s @ (if setPowerConfig_ok infra client (power_configs s)
                                          then [(client, power_configs s)] else []),
                      rpc_polling_time_set := False, rpc_control_latency_set := False,
                      htp_performance_mode_set := False, power_configs := []\<rparr>))"

definition SetHtpPowerConfigs :: "HtpPerfConfig \<Rightarrow> power_manager \<Rightarrow> unit result \<times> power_manager" where
  "SetHtpPowerConfigs config s =
     (case qnn_interface s of
        None \<Rightarrow> (Inl (Status_Fail ''QNN interface is not initialized.''), s)
      | Some infra \<Rightarrow>
          then_s (AddRpcPollingTime (rpc_polling_time config) s) (\<lambda>_ s.
          then_s (AddRpcControlLatency (rpc_control_latency config) s) (\<lambda>_ s.
          then_s (AddHtpPerformanceMode (perf_mode config) (htp_power_config_client_id config) s) (\<lambda>_ s.
            SetPowerConfig (htp_power_config_client_id config) infra s))))"

definition SetHtpPowerCustomConfigs ::
  "nat \<Rightarrow> power_config \<Rightarrow> nat \<Rightarrow> nat \<Rightarrow> power_manager \<Rightarrow> unit result \<times> power_manager" where
  "SetHtpPowerCustomConfigs client cfg polling latency s =
     (case qnn_interface s of
        None \<Rightarrow> (Inl (Status_Fail ''QNN interface is not initialized.''), s)
      | Some infra \<Rightarrow>
          then_s (AddRpcPollingTime polling s) (\<lambda>_ s.
          then_s (AddRpcControlLatency latency s) (\<lambda>_ s.
          then_s (AddHtpPerformanceConfig cfg s) (\<lambda>_ s.
            SetPowerConfig client infra s))))"

section \<open>The boosted ids and the release timer\<close>

definition RegisterBoostedId :: "nat \<Rightarrow> power_manager \<Rightarrow> power_manager" where
  "RegisterBoostedId client s =
     (if client \<in> set (boosted_config_ids s) then s
      else s\<lparr>boosted_config_ids := boosted_config_ids s @ [client]\<rparr>)"

definition RemoveBoostedId :: "nat \<Rightarrow> power_manager \<Rightarrow> power_manager" where
  "RemoveBoostedId client s = s\<lparr>boosted_config_ids := removeAll client (boosted_config_ids s)\<rparr>"

definition DropBoostedPowerConfigId :: "nat \<Rightarrow> power_manager \<Rightarrow> power_manager" where
  "DropBoostedPowerConfigId client s = RemoveBoostedId client s"

definition abort_timer :: "power_manager \<Rightarrow> power_manager" where
  "abort_timer s =
     s\<lparr>mgr_timer := map_option (\<lambda>t. if fst (AbortTimer t) then t\<lparr>thread_status := IDLE\<rparr> else t) (mgr_timer s)\<rparr>"

definition IsTimerThreadRunning :: "nat \<Rightarrow> power_manager \<Rightarrow> bool" where
  "IsTimerThreadRunning now s =
     (case mgr_timer s of
        None \<Rightarrow> False
      | Some t \<Rightarrow>
          TimerInUse t \<and> (case RemainingDuration now t of
            None \<Rightarrow> False
          | Some remain \<Rightarrow> (let remaining_duration = uint (word_of_int remain :: uint64)
                             in 0 < remaining_duration \<and> remaining_duration < int kDefaultTimerTimeoutUs)))"

definition AbortActiveTimerAndDropBoostedId :: "nat \<Rightarrow> power_manager \<Rightarrow> power_manager" where
  "AbortActiveTimerAndDropBoostedId client s =
     (let s' = RemoveBoostedId client s
      in case mgr_timer s of
           Some t \<Rightarrow> if TimerInUse t then abort_timer s' else s'
         | None \<Rightarrow> s')"

definition CreateTimerThread :: "bool \<Rightarrow> nat \<Rightarrow> power_manager \<Rightarrow> power_manager" where
  "CreateTimerThread thread_ok client s =
     (case mgr_timer s of
        Some _ \<Rightarrow> s
      | None \<Rightarrow>
          (if fst (Initialize thread_ok Timer_new)
           then s\<lparr>mgr_timer := Some ((snd (Initialize thread_ok Timer_new))\<lparr>thread_status := IDLE, pc := Loop_Head\<rparr>),
                  timer_callback_arg := Some client, timer_active := True\<rparr>
           else s\<lparr>mgr_timer := None, timer_callback_arg := None\<rparr>))"

definition ReleaseTimerThread :: "power_manager \<Rightarrow> power_manager" where
  "ReleaseTimerThread s =
     s\<lparr>timer_active := False, graph_state := NONE, inflight_run_count := 0,
       mgr_timer := None, timer_callback_arg := None, boosted_config_ids := []\<rparr>"

section \<open>Graph states\<close>

definition is_boost :: "HtpPerformanceMode \<Rightarrow> bool" where
  "is_boost mode = (mode = kHtpSustainedHighPerformance \<or> mode = kHtpBurst)"

definition launch_timer :: "nat \<Rightarrow> power_manager \<Rightarrow> unit result \<times> power_manager" where
  "launch_timer now s =
     (case mgr_timer s of
        None \<Rightarrow> (Inl (Undefined_Behaviour ''timer_ is null''), s)
      | Some t \<Rightarrow> (Inr (), s\<lparr>mgr_timer := Some (snd (Launch now kDefaultTimerTimeoutUs t))\<rparr>))"

definition relax_boosted :: "HtpPerfConfig \<Rightarrow> power_manager \<Rightarrow> power_manager" where
  "relax_boosted config s =
     fold (\<lambda>client s. snd (SetHtpPowerCustomConfigs client (SetRelaxedPerfPowerConfig client)
                           (rpc_polling_time config) (rpc_control_latency config) s))
       (boosted_config_ids s) s"

definition SetSustainedPerformance ::
  "nat \<Rightarrow> bool \<Rightarrow> GraphState \<Rightarrow> HtpPerfConfig \<Rightarrow> power_manager \<Rightarrow> unit result \<times> power_manager" where
  "SetSustainedPerformance now contended state config s =
     (let client = htp_power_config_client_id config
      in case state of
           RUN_DONE \<Rightarrow>
             (let s1 = RegisterBoostedId client s;
                  s2 = (if IsTimerThreadRunning now s1 then abort_timer s1 else s1)
              in launch_timer now s2)
         | RUN_START \<Rightarrow>
             (let s1 = RegisterBoostedId client s
              in if IsTimerThreadRunning now s1 then (Inr (), abort_timer s1) else SetHtpPowerConfigs config s1)
         | INIT_DONE \<Rightarrow>
             SetHtpPowerCustomConfigs client (SetRelaxedPerfPowerConfig client)
               (rpc_polling_time config) (rpc_control_latency config) s
         | INIT_START \<Rightarrow>
             (if IsTimerThreadRunning now s then (Inr (), abort_timer s) else SetHtpPowerConfigs config s)
         | TIMEOUT \<Rightarrow>
             (if contended then (Inr (), s)
              else if inflight_run_count s = 0 then (Inr (), (relax_boosted config s)\<lparr>boosted_config_ids := []\<rparr>)
              else (Inr (), s))
         | NONE \<Rightarrow> (Inr (), s))"

definition SetPerformance :: "GraphState \<Rightarrow> HtpPerfConfig \<Rightarrow> power_manager \<Rightarrow> unit result \<times> power_manager" where
  "SetPerformance state config s =
     (let client = htp_power_config_client_id config;
          custom = (\<lambda>cfg. SetHtpPowerCustomConfigs client (cfg client)
                            (rpc_polling_time config) (rpc_control_latency config) s)
      in if state = RUN_DONE \<or> state = INIT_DONE then
           (case perf_mode config of
              kHtpLowBalanced \<Rightarrow> custom SetRelaxedPerfPowerConfig
            | kHtpBalanced \<Rightarrow> custom SetRelaxedPerfPowerConfig
            | kHtpHighPerformance \<Rightarrow> custom SetRelaxedPerfPowerConfig
            | kHtpExtremePowerSaver \<Rightarrow> custom SetExtremeLowPerfPowerConfig
            | kHtpLowPowerSaver \<Rightarrow> custom SetReleasedPerfPowerConfig
            | kHtpHighPowerSaver \<Rightarrow> custom SetReleasedPerfPowerConfig
            | kHtpPowerSaver \<Rightarrow> custom SetReleasedPerfPowerConfig
            | _ \<Rightarrow> (Inr (), s))
         else if state = RUN_START \<or> state = INIT_START then SetHtpPowerConfigs config s
         else (Inr (), s))"

definition count_state :: "GraphState \<Rightarrow> nat \<Rightarrow> nat" where
  "count_state state n =
     (case state of
        RUN_START \<Rightarrow> n + 1
      | INIT_START \<Rightarrow> n + 1
      | RUN_DONE \<Rightarrow> (if n > 0 then n - 1 else n)
      | INIT_DONE \<Rightarrow> (if n > 0 then n - 1 else n)
      | _ \<Rightarrow> n)"

definition SetState ::
  "nat \<Rightarrow> bool \<Rightarrow> GraphState \<Rightarrow> HtpPerfConfig \<Rightarrow> power_manager \<Rightarrow> unit result \<times> power_manager" where
  "SetState now contended state config s =
     (let s1 = s\<lparr>graph_state := state\<rparr>
      in if is_boost (perf_mode config) \<and> \<not> timer_active s1
         then (Inl (Status_Fail ''Timer is not active. Cannot apply sustained/burst performance config.''), s1)
         else let s2 = s1\<lparr>inflight_run_count := count_state state (inflight_run_count s1)\<rparr>
              in if is_boost (perf_mode config) then SetSustainedPerformance now contended state config s2
                 else if perf_mode config = kHtpDefault
                 then (Inr (), AbortActiveTimerAndDropBoostedId (htp_power_config_client_id config) s2)
                 else SetPerformance state config
                        (AbortActiveTimerAndDropBoostedId (htp_power_config_client_id config) s2))"

definition TimerCallback :: "nat \<Rightarrow> bool \<Rightarrow> power_manager \<Rightarrow> power_manager" where
  "TimerCallback now contended s =
     (case timer_callback_arg s of
        None \<Rightarrow> s
      | Some client \<Rightarrow>
          (if timer_active s
           then snd (SetState now contended TIMEOUT
                  \<lparr>htp_power_config_client_id = client, perf_mode = kHtpSustainedHighPerformance,
                   rpc_polling_time = 0, rpc_control_latency = 0\<rparr> s)
           else s))"

section \<open>Sequences of calls\<close>

text \<open>
  The release timer fires when it is launched and its end time has passed: the timer thread runs the callback and
  goes back to idle.
\<close>

datatype mgr_event =
    Ev_Init perf_infra
  | Ev_CreateTimer bool nat
  | Ev_ReleaseTimer
  | Ev_SetState nat GraphState HtpPerfConfig
  | Ev_Drop nat
  | Ev_Fire nat bool

definition timer_due :: "nat \<Rightarrow> power_manager \<Rightarrow> bool" where
  "timer_due now s = (case mgr_timer s of None \<Rightarrow> False | Some t \<Rightarrow> thread_status t = LAUNCH \<and> end_time t \<le> now)"

definition set_timer_status :: "threadState \<Rightarrow> power_manager \<Rightarrow> power_manager" where
  "set_timer_status st s = s\<lparr>mgr_timer := map_option (\<lambda>t. t\<lparr>thread_status := st\<rparr>) (mgr_timer s)\<rparr>"

fun mgr_step :: "mgr_event \<Rightarrow> power_manager \<Rightarrow> power_manager" where
  "mgr_step (Ev_Init infra) s = Init infra s"
| "mgr_step (Ev_CreateTimer thread_ok client) s = CreateTimerThread thread_ok client s"
| "mgr_step Ev_ReleaseTimer s = ReleaseTimerThread s"
| "mgr_step (Ev_SetState now state config) s = snd (SetState now False state config s)"
| "mgr_step (Ev_Drop client) s = DropBoostedPowerConfigId client s"
| "mgr_step (Ev_Fire now contended) s =
     (if timer_due now s
      then set_timer_status IDLE (TimerCallback now contended (set_timer_status CALLING s))
      else s)"

definition mgr_run :: "mgr_event list \<Rightarrow> power_manager" where
  "mgr_run es = fold mgr_step es HtpPowerConfigManager_new"

section \<open>The invariant\<close>

definition staged_inv :: "power_manager \<Rightarrow> bool" where
  "staged_inv s \<longleftrightarrow>
     (rpc_polling_time_set s \<longleftrightarrow> (\<exists>t. RPC_POLLING_TIME t \<in> set (power_configs s)))
     \<and> (rpc_control_latency_set s \<longleftrightarrow> (\<exists>l. RPC_CONTROL_LATENCY l \<in> set (power_configs s)))
     \<and> (htp_performance_mode_set s \<longleftrightarrow> (\<exists>d. DCVS_V3 d \<in> set (power_configs s)))
     \<and> last_set_rpc_polling_time s \<le> kMaxRpcPolling"

definition mgr_inv :: "power_manager \<Rightarrow> bool" where
  "mgr_inv s \<longleftrightarrow>
     staged_inv s \<and> (timer_active s \<longleftrightarrow> mgr_timer s \<noteq> None) \<and> (timer_active s \<longleftrightarrow> timer_callback_arg s \<noteq> None)
     \<and> distinct (boosted_config_ids s)"

text \<open>Staging and committing touch neither the timer nor the boosted ids.\<close>

definition same_timer :: "power_manager \<Rightarrow> power_manager \<Rightarrow> bool" where
  "same_timer s s' \<longleftrightarrow>
     mgr_timer s' = mgr_timer s \<and> timer_active s' = timer_active s \<and> timer_callback_arg s' = timer_callback_arg s
     \<and> boosted_config_ids s' = boosted_config_ids s \<and> inflight_run_count s' = inflight_run_count s
     \<and> graph_state s' = graph_state s \<and> qnn_interface s' = qnn_interface s"

definition staging_ok :: "power_manager \<Rightarrow> unit result \<times> power_manager \<Rightarrow> bool" where
  "staging_ok s r \<longleftrightarrow> same_timer s (snd r) \<and> (staged_inv s \<longrightarrow> staged_inv (snd r))
     \<and> no_throw (fst r)"

lemma same_timer_trans: "same_timer s s1 \<Longrightarrow> same_timer s1 s2 \<Longrightarrow> same_timer s s2"
  by (simp add: same_timer_def)

lemma staging_ok_refl: "staging_ok s (Inr (), s)" "staging_ok s (Inl (Status_Fail m), s)"
  by (simp_all add: staging_ok_def same_timer_def)

lemma staging_ok_then:
  assumes "staging_ok s r" "\<And>s'. staging_ok s' (f () s')"
  shows "staging_ok s (then_s r f)"
proof (cases r)
  case (Pair x s')
  with assms(1) assms(2) [of s'] show ?thesis
    by (cases x) (auto simp: staging_ok_def same_timer_def)
qed

lemma staging_ok_AddRpcPollingTime: "staging_ok s (AddRpcPollingTime time s)"
  by (auto simp: AddRpcPollingTime_def staging_ok_def same_timer_def staged_inv_def)

lemma staging_ok_AddRpcControlLatency: "staging_ok s (AddRpcControlLatency latency s)"
  by (auto simp: AddRpcControlLatency_def staging_ok_def same_timer_def staged_inv_def)

lemma staging_ok_AddHtpPerformanceConfig: "staging_ok s (AddHtpPerformanceConfig (DCVS_V3 d) s)"
  by (auto simp: AddHtpPerformanceConfig_def staging_ok_def same_timer_def staged_inv_def)

lemma SetHtpPerformancePowerConfig_DCVS:
  "mode \<noteq> kHtpDefault \<Longrightarrow> \<exists>d. SetHtpPerformancePowerConfig client mode = Inr (DCVS_V3 d)"
  by (cases mode) (simp_all add: SetHtpPerformancePowerConfig_def)

lemma staging_ok_AddHtpPerformanceMode:
  assumes "mode \<noteq> kHtpDefault"
  shows "staging_ok s (AddHtpPerformanceMode mode client s)"
proof -
  obtain d where "SetHtpPerformancePowerConfig client mode = Inr (DCVS_V3 d)"
    using SetHtpPerformancePowerConfig_DCVS [OF assms] by blast
  then show ?thesis
    by (auto simp: AddHtpPerformanceMode_def staging_ok_def same_timer_def staged_inv_def)
qed

lemma staging_ok_SetPowerConfig: "staging_ok s (SetPowerConfig client infra s)"
  by (auto simp: SetPowerConfig_def staging_ok_def same_timer_def staged_inv_def)

lemma staging_ok_SetHtpPowerConfigs:
  "perf_mode config \<noteq> kHtpDefault \<Longrightarrow> staging_ok s (SetHtpPowerConfigs config s)"
  unfolding SetHtpPowerConfigs_def
  by (auto split: option.splits intro!: staging_ok_refl staging_ok_then staging_ok_AddRpcPollingTime
      staging_ok_AddRpcControlLatency staging_ok_AddHtpPerformanceMode staging_ok_SetPowerConfig)

lemma staging_ok_SetHtpPowerCustomConfigs:
  "staging_ok s (SetHtpPowerCustomConfigs client (DCVS_V3 d) polling latency s)"
  unfolding SetHtpPowerCustomConfigs_def
  by (auto split: option.splits intro!: staging_ok_refl staging_ok_then staging_ok_AddRpcPollingTime
      staging_ok_AddRpcControlLatency staging_ok_AddHtpPerformanceConfig staging_ok_SetPowerConfig)

definition step_ok :: "unit result \<times> power_manager \<Rightarrow> bool" where
  "step_ok r \<longleftrightarrow> mgr_inv (snd r) \<and> no_throw (fst r)"

lemma step_ok_staging: "staging_ok s r \<Longrightarrow> mgr_inv s \<Longrightarrow> step_ok r"
  by (auto simp: staging_ok_def step_ok_def mgr_inv_def same_timer_def)

lemma step_ok_custom:
  assumes "mgr_inv s"
  shows "step_ok (SetHtpPowerCustomConfigs client (SetRelaxedPerfPowerConfig client) polling latency s)"
    "step_ok (SetHtpPowerCustomConfigs client (SetExtremeLowPerfPowerConfig client) polling latency s)"
    "step_ok (SetHtpPowerCustomConfigs client (SetReleasedPerfPowerConfig client) polling latency s)"
  using assms staging_ok_SetHtpPowerCustomConfigs
  by (auto intro!: step_ok_staging
      simp: SetRelaxedPerfPowerConfig_def SetExtremeLowPerfPowerConfig_def SetReleasedPerfPowerConfig_def)

lemma mgr_inv_RegisterBoostedId [simp]: "mgr_inv s \<Longrightarrow> mgr_inv (RegisterBoostedId client s)"
  by (auto simp: mgr_inv_def staged_inv_def RegisterBoostedId_def)

lemma mgr_inv_RemoveBoostedId [simp]: "mgr_inv s \<Longrightarrow> mgr_inv (RemoveBoostedId client s)"
  by (auto simp: mgr_inv_def staged_inv_def RemoveBoostedId_def distinct_removeAll)

lemma mgr_inv_abort_timer [simp]: "mgr_inv s \<Longrightarrow> mgr_inv (abort_timer s)"
  by (auto simp: mgr_inv_def staged_inv_def abort_timer_def)

lemma mgr_inv_set_timer_status [simp]: "mgr_inv s \<Longrightarrow> mgr_inv (set_timer_status st s)"
  by (auto simp: mgr_inv_def staged_inv_def set_timer_status_def)

lemma mgr_inv_AbortActive [simp]: "mgr_inv s \<Longrightarrow> mgr_inv (AbortActiveTimerAndDropBoostedId client s)"
  by (auto simp: AbortActiveTimerAndDropBoostedId_def Let_def split: option.splits)

lemma mgr_inv_graph_state [simp]: "mgr_inv (s\<lparr>graph_state := g\<rparr>) = mgr_inv s"
  by (simp add: mgr_inv_def staged_inv_def)

lemma mgr_inv_inflight [simp]: "mgr_inv (s\<lparr>inflight_run_count := n\<rparr>) = mgr_inv s"
  by (simp add: mgr_inv_def staged_inv_def)

lemma mgr_inv_no_boosted [simp]: "mgr_inv s \<Longrightarrow> mgr_inv (s\<lparr>boosted_config_ids := []\<rparr>)"
  by (auto simp: mgr_inv_def staged_inv_def)

lemma relax_fold_inv:
  assumes "mgr_inv s"
  shows "mgr_inv (fold (\<lambda>client s. snd (SetHtpPowerCustomConfigs client (SetRelaxedPerfPowerConfig client) p l s)) ids s)"
  using assms
proof (induction ids arbitrary: s)
  case (Cons i ids)
  then show ?case using step_ok_custom(1) [OF Cons.prems] by (simp add: step_ok_def)
qed simp

lemma step_ok_launch:
  assumes "mgr_inv s" "timer_active s"
  shows "step_ok (launch_timer now s)"
  using assms by (auto simp: launch_timer_def step_ok_def mgr_inv_def staged_inv_def split: option.splits)

lemma step_ok_SetSustainedPerformance:
  assumes inv: "mgr_inv s" and act: "timer_active s" and boost: "is_boost (perf_mode config)"
  shows "step_ok (SetSustainedPerformance now contended state config s)"
proof (cases state)
  case RUN_DONE
  have "timer_active (RegisterBoostedId c s)" "timer_active (abort_timer (RegisterBoostedId c s))" for c
    using act by (simp_all add: RegisterBoostedId_def abort_timer_def)
  then show ?thesis
    using RUN_DONE inv by (auto simp: SetSustainedPerformance_def Let_def intro!: step_ok_launch)
next
  case TIMEOUT
  then show ?thesis
    using inv relax_fold_inv by (auto simp: SetSustainedPerformance_def step_ok_def relax_boosted_def)
qed (use inv boost step_ok_custom(1) in
    \<open>auto simp: SetSustainedPerformance_def Let_def step_ok_def is_boost_def
       dest!: staging_ok_SetHtpPowerConfigs
       intro: step_ok_staging [unfolded step_ok_def, OF staging_ok_SetHtpPowerConfigs, THEN conjunct1]
         step_ok_staging [unfolded step_ok_def, OF staging_ok_SetHtpPowerConfigs, THEN conjunct2]\<close>)

lemma step_ok_SetPerformance:
  assumes inv: "mgr_inv s" and mode: "perf_mode config \<noteq> kHtpDefault"
  shows "step_ok (SetPerformance state config s)"
proof -
  have "step_ok (SetHtpPowerConfigs config s)"
    using step_ok_staging [OF staging_ok_SetHtpPowerConfigs [OF mode] inv] .
  then show ?thesis
    using inv step_ok_custom [OF inv]
    by (auto simp: SetPerformance_def Let_def step_ok_def split: HtpPerformanceMode.splits)
qed

lemma step_ok_SetState:
  assumes "mgr_inv s"
  shows "step_ok (SetState now contended state config s)"
proof (cases "is_boost (perf_mode config)")
  case True
  then show ?thesis
    using assms by (auto simp: SetState_def Let_def step_ok_def [of "(_, _)"] intro!: step_ok_SetSustainedPerformance)
next
  case False
  then show ?thesis
    using assms by (auto simp: SetState_def Let_def step_ok_def [of "(_, _)"] intro!: step_ok_SetPerformance)
qed

lemma mgr_inv_TimerCallback [simp]: "mgr_inv s \<Longrightarrow> mgr_inv (TimerCallback now contended s)"
  using step_ok_SetState [of s] by (auto simp: TimerCallback_def step_ok_def split: option.splits)

lemma mgr_inv_step: "mgr_inv s \<Longrightarrow> mgr_inv (mgr_step e s)"
proof (induction e s rule: mgr_step.induct)
  case (1 infra s)
  then show ?case by (auto simp: Init_def mgr_inv_def staged_inv_def)
next
  case (2 thread_ok client s)
  then show ?case
    by (auto simp: CreateTimerThread_def mgr_inv_def staged_inv_def split: option.splits)
next
  case (3 s)
  then show ?case by (simp add: ReleaseTimerThread_def mgr_inv_def staged_inv_def)
next
  case (4 now state config s)
  then show ?case using step_ok_SetState by (simp add: step_ok_def)
qed (simp_all add: DropBoostedPowerConfigId_def)

lemma mgr_inv_run: "mgr_inv (mgr_run es)"
proof -
  have "mgr_inv (fold mgr_step es s)" if "mgr_inv s" for s
    using that by (induction es arbitrary: s) (auto intro: mgr_inv_step)
  moreover have "mgr_inv HtpPowerConfigManager_new"
    by (simp add: HtpPowerConfigManager_new_def mgr_inv_def staged_inv_def kDisableRpcPolling_def)
  ultimately show ?thesis by (simp add: mgr_run_def)
qed

section \<open>Votes of the release timer\<close>

definition infra_ok :: "perf_infra \<Rightarrow> bool" where
  "infra_ok infra \<longleftrightarrow> deviceGetInfrastructure_ok infra \<and> infraType_is_perf infra
     \<and> (\<forall>client cfgs. setPowerConfig_ok infra client cfgs)"

definition nothing_staged :: "power_manager \<Rightarrow> bool" where
  "nothing_staged s \<longleftrightarrow> power_configs s = [] \<and> \<not> rpc_polling_time_set s \<and> \<not> rpc_control_latency_set s
     \<and> \<not> htp_performance_mode_set s"

definition staged_rpc :: "nat \<Rightarrow> nat \<Rightarrow> power_manager \<Rightarrow> power_config list" where
  "staged_rpc polling latency s =
     (if polling = last_set_rpc_polling_time s then [] else [RPC_POLLING_TIME polling])
     @ (if latency = last_set_rpc_control_latency s then [] else [RPC_CONTROL_LATENCY latency])"


lemma mode_commit:
  assumes "qnn_interface s = Some infra" "infra_ok infra" "nothing_staged s" "rpc_polling_time config \<le> kMaxRpcPolling"
    and "SetHtpPerformancePowerConfig (htp_power_config_client_id config) (perf_mode config) = Inr cfg"
  shows "SetHtpPowerConfigs config s =
           (Inr (), s\<lparr>last_set_rpc_polling_time := rpc_polling_time config,
                      last_set_rpc_control_latency := rpc_control_latency config,
                      votes := votes s @ [(htp_power_config_client_id config,
                        staged_rpc (rpc_polling_time config) (rpc_control_latency config) s @ [cfg])]\<rparr>)"
  using assms
  by (simp add: SetHtpPowerConfigs_def AddRpcPollingTime_def AddRpcControlLatency_def
      AddHtpPerformanceMode_def SetPowerConfig_def infra_ok_def nothing_staged_def staged_rpc_def)



section \<open>Properties\<close>

definition good_infra :: perf_infra where
  "good_infra = \<lparr>deviceGetInfrastructure_ok = True, infraType_is_perf = True, setPowerConfig_ok = (\<lambda>_ _. True)\<rparr>"

definition no_infra :: perf_infra where
  "no_infra = \<lparr>deviceGetInfrastructure_ok = False, infraType_is_perf = True, setPowerConfig_ok = (\<lambda>_ _. True)\<rparr>"

definition perf_config :: "nat \<Rightarrow> HtpPerformanceMode \<Rightarrow> nat \<Rightarrow> HtpPerfConfig" where
  "perf_config client mode polling =
     \<lparr>htp_power_config_client_id = client, perf_mode = mode, rpc_polling_time = polling, rpc_control_latency = 100\<rparr>"

definition burst_run :: "nat \<Rightarrow> nat \<Rightarrow> mgr_event list" where
  "burst_run now client = [Ev_SetState now RUN_START (perf_config client kHtpBurst 9999),
     Ev_SetState (now + 10) RUN_DONE (perf_config client kHtpBurst 9999)]"

lemmas mgr_eval = mgr_run_def HtpPowerConfigManager_new_def Init_def CreateTimerThread_def SetState_def
  SetSustainedPerformance_def SetPerformance_def is_boost_def count_state_def RegisterBoostedId_def
  IsTimerThreadRunning_def SetHtpPowerConfigs_def SetHtpPowerCustomConfigs_def AddRpcPollingTime_def
  AddRpcControlLatency_def AddHtpPerformanceMode_def AddHtpPerformanceConfig_def SetPowerConfig_def
  SetHtpPerformancePowerConfig_def launch_timer_def Launch_def Initialize_def Timer_new_def TimerInUse_def
  RemainingDuration_def AbortActiveTimerAndDropBoostedId_def RemoveBoostedId_def abort_timer_def AbortTimer_def
  DropBoostedPowerConfigId_def TimerCallback_def relax_boosted_def timer_due_def set_timer_status_def
  good_infra_def no_infra_def perf_config_def burst_run_def
  kMaxRpcPolling_def kDisableRpcPolling_def kDisableRpcControlLatency_def kDefaultTimerTimeoutUs_def Let_def

text \<open>
  C20.  After any sequence of calls and timeouts, \<open>SetState\<close> neither throws nor dereferences a missing timer: it
  returns OK or a failed status.  The boosted ids stay distinct, the timer exists exactly when \<open>timer_active_\<close>
  says so, and each pending flag agrees with the staged configurations.
\<close>

theorem SetState_safe_after_any_calls:
  "mgr_inv (mgr_run es) \<and> no_throw (fst (SetState now contended state config (mgr_run es)))"
  using step_ok_SetState [OF mgr_inv_run] mgr_inv_run by (simp add: step_ok_def)



text \<open>
  A failed commit blocks the manager for good.  Once a commit has failed with an RPC polling time staged,
  every later call that should apply a performance mode fails and changes nothing, even when the
  infrastructure works again.
\<close>

theorem failed_commit_is_permanent:
  assumes "rpc_polling_time_set s"
  shows "\<not> is_ok (fst (SetHtpPowerConfigs config s)) \<and> snd (SetHtpPowerConfigs config s) = s
         \<and> \<not> is_ok (fst (SetHtpPowerCustomConfigs client cfg polling latency s))
         \<and> snd (SetHtpPowerCustomConfigs client cfg polling latency s) = s"
  using assms
  by (auto simp: SetHtpPowerConfigs_def SetHtpPowerCustomConfigs_def AddRpcPollingTime_def split: option.splits)

theorem failed_commit_is_permanent_witness:
  "let s = mgr_run [Ev_Init no_infra, Ev_SetState 0 RUN_START (perf_config 1 kHtpBalanced 500), Ev_Init good_infra]
   in \<not> is_ok (fst (SetHtpPowerConfigs (perf_config 2 kHtpPowerSaver 0) s))"
proof -
  define s where "s = mgr_run [Ev_Init no_infra, Ev_SetState 0 RUN_START (perf_config 1 kHtpBalanced 500), Ev_Init good_infra]"
  have "rpc_polling_time_set s" unfolding s_def by (simp add: mgr_eval)
  then have "\<not> is_ok (fst (SetHtpPowerConfigs (perf_config 2 kHtpPowerSaver 0) s))"
    using failed_commit_is_permanent [of s "perf_config 2 kHtpPowerSaver 0"] by blast
  then show ?thesis unfolding s_def Let_def .
qed

lemma SetPerformance_same_timer:
  assumes "perf_mode config \<noteq> kHtpDefault"
  shows "same_timer s (snd (SetPerformance state config s))"
proof -
  have "same_timer s (snd (SetHtpPowerConfigs config s))"
    using staging_ok_SetHtpPowerConfigs [OF assms, of s] by (simp add: staging_ok_def)
  moreover have "same_timer s (snd (SetHtpPowerCustomConfigs c (DCVS_V3 d) p l s))" for c d p l
    using staging_ok_SetHtpPowerCustomConfigs by (simp add: staging_ok_def)
  moreover have "same_timer s s" by (simp add: same_timer_def)
  ultimately show ?thesis
    by (simp add: SetPerformance_def Let_def SetRelaxedPerfPowerConfig_def SetExtremeLowPerfPowerConfig_def
        SetReleasedPerfPowerConfig_def split: HtpPerformanceMode.splits)
qed

text \<open>
  A state change of a session with a non-boosted mode aborts the release timer of every session.  An id of
  another session that holds a boosted vote keeps it, and no timer is left that would relax it.
\<close>

theorem non_boosted_state_strands_other_boosts:
  assumes "\<not> is_boost (perf_mode config)" "c \<in> set (boosted_config_ids s)" "c \<noteq> htp_power_config_client_id config"
    and "mgr_timer s = Some t" "TimerInUse t" "\<not> is_timer_deinit t"
  shows "c \<in> set (boosted_config_ids (snd (SetState now contended state config s)))
         \<and> (\<forall>later. \<not> timer_due later (snd (SetState now contended state config s)))"
proof -
  let ?s = "AbortActiveTimerAndDropBoostedId (htp_power_config_client_id config)
      (s\<lparr>graph_state := state, inflight_run_count := count_state state (inflight_run_count s)\<rparr>)"
  have "same_timer ?s (snd (SetState now contended state config s))"
    using assms(1) SetPerformance_same_timer [of config ?s state]
    by (cases "perf_mode config = kHtpDefault") (simp_all add: SetState_def Let_def, simp add: same_timer_def)
  moreover have "c \<in> set (boosted_config_ids ?s)" "\<not> timer_due later ?s" for later
    using assms
    by (auto simp: AbortActiveTimerAndDropBoostedId_def RemoveBoostedId_def abort_timer_def timer_due_def
        AbortTimer_def TimerInUse_def Let_def)
  ultimately show ?thesis by (auto simp: same_timer_def timer_due_def)
qed

theorem non_boosted_state_strands_other_boosts_witness:
  "let s = mgr_run ([Ev_Init good_infra, Ev_CreateTimer True 1] @ burst_run 5 1);
       s' = snd (SetState 20 False RUN_START (perf_config 2 kHtpPowerSaver 0) s)
   in 1 \<in> set (boosted_config_ids s') \<and> (\<forall>later. \<not> timer_due later s')"
proof -
  define s where "s = mgr_run ([Ev_Init good_infra, Ev_CreateTimer True 1] @ burst_run 5 1)"
  obtain t where "boosted_config_ids s = [1]" "mgr_timer s = Some t" "TimerInUse t" "\<not> is_timer_deinit t"
    unfolding s_def by (simp add: mgr_eval)
  then have "1 \<in> set (boosted_config_ids (snd (SetState 20 False RUN_START (perf_config 2 kHtpPowerSaver 0) s)))
      \<and> (\<forall>later. \<not> timer_due later (snd (SetState 20 False RUN_START (perf_config 2 kHtpPowerSaver 0) s)))"
    by (intro non_boosted_state_strands_other_boosts) (simp_all add: is_boost_def perf_config_def)
  then show ?thesis unfolding s_def Let_def .
qed

text \<open>
  A burst run can start without its vote.  When session 2 starts a burst run while the release timer that
  session 1 armed is counting down, the manager aborts the timer instead of voting: id 2 is recorded as boosted,
  but no configuration was ever set for client id 2.
\<close>

theorem burst_start_skips_vote_of_second_session:
  "let s = mgr_run ([Ev_Init good_infra, Ev_CreateTimer True 1] @ burst_run 5 1
                    @ [Ev_SetState 50 RUN_START (perf_config 2 kHtpBurst 9999)])
   in boosted_config_ids s = [1, 2] \<and> inflight_run_count s = 1 \<and> map fst (votes s) = [1]"
  by (simp add: mgr_eval)

end
