(* ===== verification/Text_Utils.thy ===== *)
theory Text_Utils
  imports Prelude
begin

text \<open>
  String helpers: \<open>SplitString\<close> and \<open>GetLowercaseString\<close> of \<open>builder/qnn_utils.h\<close>, and what the code uses of the
  C++ library to print and parse decimal numbers (\<open>std::to_string\<close>, \<open>std::stoll\<close>, \<open>std::isdigit\<close>,
  \<open>std::string::find\<close>).  The locale \<open>text_codec\<close> is the contract between the printer and the parser of one field
  of a record; lists of fields joined by a separator are treated once, from that contract.
\<close>

section \<open>Finding and splitting\<close>

definition find_from :: "string \<Rightarrow> string \<Rightarrow> nat \<Rightarrow> nat option" where
  "find_from s d pos = find (\<lambda>i. take (length d) (drop i s) = d) [pos..<Suc (length s)]"

lemma find_SomeD: "find P xs = Some x \<Longrightarrow> x \<in> set xs \<and> P x"
  by (induction xs) (auto split: if_splits)

function split_loop :: "string \<Rightarrow> string \<Rightarrow> bool \<Rightarrow> nat \<Rightarrow> string list" where
  "split_loop s d keep_empty begin_pos =
     (if d = [] then []
      else case find_from s d begin_pos of
        None \<Rightarrow>
          (if begin_pos = length s \<and> \<not> keep_empty then [] else [drop begin_pos s])
      | Some end_pos \<Rightarrow>
          (if (begin_pos = end_pos \<or> begin_pos = length s) \<and> \<not> keep_empty then []
           else [take (end_pos - begin_pos) (drop begin_pos s)])
          @ split_loop s d keep_empty (end_pos + length d))"
  by pat_completeness auto
termination
proof (relation "measure (\<lambda>(s, d, k, b). Suc (length s) - b)", goal_cases)
  case (2 s d k b e)
  then have "e \<in> set [b..<Suc (length s)]" unfolding find_from_def by (metis find_SomeD)
  with 2 show ?case by (cases d) (auto split: if_splits)
qed simp

declare split_loop.simps [simp del]

definition SplitString :: "string \<Rightarrow> string \<Rightarrow> bool \<Rightarrow> string list result" where
  "SplitString s delimiter keep_empty =
     (if delimiter = [] then Inl (Thrown ''delimiter must not be empty'')
      else Inr (split_loop s delimiter keep_empty 0))"

definition tolower :: "char \<Rightarrow> char" where
  "tolower c = (if 65 \<le> (of_char c :: nat) \<and> (of_char c :: nat) \<le> 90 then char_of ((of_char c :: nat) + 32) else c)"

definition GetLowercaseString :: "string \<Rightarrow> string" where
  "GetLowercaseString str = map tolower str"

section \<open>Decimal numbers\<close>

definition digit_char :: "nat \<Rightarrow> char" where
  "digit_char d = char_of (48 + d)"

definition is_digit :: "char \<Rightarrow> bool" where
  "is_digit c \<longleftrightarrow> 48 \<le> (of_char c :: nat) \<and> (of_char c :: nat) \<le> 57"

definition digit_val :: "char \<Rightarrow> nat" where
  "digit_val c = of_char c - 48"

fun to_string :: "nat \<Rightarrow> string" where
  "to_string n = (if n < 10 then [digit_char n] else to_string (n div 10) @ [digit_char (n mod 10)])"

declare to_string.simps [simp del]

definition dec_value :: "string \<Rightarrow> nat" where
  "dec_value ds = foldl (\<lambda>a c. 10 * a + digit_val c) 0 ds"

text \<open>
  \<open>std::stoll\<close> on a string that starts with a digit: the value of the longest digit prefix and its length, or an
  \<open>out_of_range\<close> exception.
\<close>

definition stoll :: "string \<Rightarrow> (nat \<times> nat) result" where
  "stoll s =
     (let ds = takeWhile is_digit s
      in if dec_value ds > 2 ^ 63 - 1 then Inl (Thrown ''out_of_range'') else Inr (dec_value ds, length ds))"

section \<open>Splitting at a single character\<close>

fun split_on :: "char \<Rightarrow> string \<Rightarrow> string list" where
  "split_on c [] = [[]]"
| "split_on c (x # xs) = (if x = c then [] # split_on c xs else (x # hd (split_on c xs)) # tl (split_on c xs))"

definition drop_empty :: "bool \<Rightarrow> string list \<Rightarrow> string list" where
  "drop_empty keep_empty segs = (if keep_empty then segs else filter (\<lambda>x. x \<noteq> []) segs)"

definition join :: "char \<Rightarrow> string list \<Rightarrow> string" where
  "join c segs = (case segs of [] \<Rightarrow> [] | x # xs \<Rightarrow> x @ concat (map (\<lambda>y. c # y) xs))"

lemma split_on_nonempty [simp]: "split_on c s \<noteq> []"
  by (induction s) auto

lemma split_on_no_sep: "c \<notin> set s \<Longrightarrow> split_on c s = [s]"
  by (induction s) auto

lemma split_on_append: "c \<notin> set xs \<Longrightarrow> split_on c (xs @ c # ys) = xs # split_on c ys"
  by (induction xs) auto

lemma split_on_join:
  assumes "segs \<noteq> []" "\<forall>x \<in> set segs. c \<notin> set x"
  shows "split_on c (join c segs) = segs"
  using assms
proof (induction segs rule: induct_list012)
  case (2 x)
  then show ?case by (simp add: join_def split_on_no_sep)
next
  case (3 x y zs)
  then show ?case using split_on_append [of c x "join c (y # zs)"] by (simp add: join_def)
qed simp

lemma find_from_char_step:
  "b < length s \<Longrightarrow> find_from s [c] b = (if s ! b = c then Some b else find_from s [c] (Suc b))"
  "find_from s [c] (length s) = None"
  by (auto simp: find_from_def upt_conv_Cons take_Suc_conv_app_nth hd_drop_conv_nth take_Suc)

lemma find_from_char:
  "b \<le> length s \<Longrightarrow>
   find_from s [c] b = (if c \<in> set (drop b s) then Some (b + length (takeWhile (\<lambda>x. x \<noteq> c) (drop b s))) else None)"
proof (induction "length s - b" arbitrary: b)
  case 0
  then show ?case using find_from_char_step(2) [of s c] by auto
next
  case (Suc n)
  then have b: "b < length s" "drop b s = s ! b # drop (Suc b) s" by (auto simp: Cons_nth_drop_Suc)
  show ?case
    using Suc(1) [of "Suc b"] Suc(2) b by (auto simp: find_from_char_step(1) [OF b(1)])
qed

lemma split_loop_char:
  "b \<le> length s \<Longrightarrow> split_loop s [c] keep_empty b = drop_empty keep_empty (split_on c (drop b s))"
proof (induction "length s - b" arbitrary: b rule: less_induct)
  case less
  let ?t = "drop b s" and ?w = "takeWhile (\<lambda>x. x \<noteq> c) (drop b s)"
  show ?case
  proof (cases "c \<in> set ?t")
    case False
    then show ?thesis
      using less(2) by (subst split_loop.simps) (auto simp: find_from_char split_on_no_sep drop_empty_def)
  next
    case True
    define e where "e = b + length ?w"
    obtain r where r: "?t = ?w @ c # r" using True by (metis split_list_first takeWhile_first)
    have e: "find_from s [c] b = Some e" using less(2) True by (simp add: find_from_char e_def)
    have "length ?t = length ?w + Suc (length r)" by (subst r) simp
    then have le: "e + 1 \<le> length s" using less(2) by (auto simp: e_def)
    have "drop (e + 1) s = drop (length ?w + 1) ?t" by (simp add: e_def add.commute)
    then have dr: "drop (e + 1) s = r" by (subst (asm) r) simp
    have rec: "split_loop s [c] keep_empty (e + 1) = drop_empty keep_empty (split_on c r)"
      using less(1) [of "e + 1"] le dr by (auto simp: e_def)
    have seg: "take (e - b) ?t = ?w" by (subst r) (simp add: e_def)
    have "split_on c ?t = ?w # split_on c r"
      by (subst r, rule split_on_append) (auto dest: set_takeWhileD)
    moreover have "?w = [] \<longleftrightarrow> b = e \<or> b = length s" using le by (auto simp: e_def)
    ultimately show ?thesis
      using rec by (subst split_loop.simps) (simp add: e seg drop_empty_def)
  qed
qed

lemma SplitString_char: "SplitString s [c] keep_empty = Inr (drop_empty keep_empty (split_on c s))"
  by (simp add: SplitString_def split_loop_char)

lemma SplitString_join:
  assumes "segs \<noteq> []" "\<forall>x \<in> set segs. x \<noteq> [] \<and> c \<notin> set x"
  shows "SplitString (join c segs) [c] False = Inr segs"
  using assms by (simp add: SplitString_char split_on_join drop_empty_def filter_id_conv)

section \<open>Printing and parsing decimals\<close>

lemma digit_char_props [simp]:
  assumes "d < 10"
  shows "is_digit (digit_char d)" "digit_val (digit_char d) = d"
  using assms by (simp_all add: is_digit_def digit_val_def digit_char_def)

lemma to_string_digits: "\<forall>c \<in> set (to_string n). is_digit c"
  by (induction n rule: to_string.induct) (subst to_string.simps, auto)

lemma to_string_nonempty [simp]: "to_string n \<noteq> []"
  by (subst to_string.simps) auto

lemma dec_value_append [simp]: "dec_value (xs @ [c]) = 10 * dec_value xs + digit_val c"
  by (simp add: dec_value_def)

lemma dec_value_to_string [simp]: "dec_value (to_string n) = n"
proof (induction n rule: to_string.induct)
  case (1 n)
  show ?case
  proof (cases "n < 10")
    case True
    then show ?thesis by (subst to_string.simps) (simp add: dec_value_def)
  next
    case False
    then show ?thesis using 1 by (subst to_string.simps) simp
  qed
qed

lemma stoll_to_string: "n < 2 ^ 63 \<Longrightarrow> stoll (to_string n) = Inr (n, length (to_string n))"
  using to_string_digits [of n] by (simp add: stoll_def Let_def takeWhile_eq_all_conv [THEN iffD2])

lemma set_join_subset: "set (join c segs) \<subseteq> insert c (\<Union> (set ` set segs))"
  by (cases segs) (auto simp: join_def)

section \<open>Field codecs\<close>

locale text_codec =
  fixes print :: "'a \<Rightarrow> string"
    and parse :: "string \<Rightarrow> 'a result"
    and valid :: "'a \<Rightarrow> bool"
    and alphabet :: "char set"
  assumes parse_print: "valid x \<Longrightarrow> parse (print x) = Inr x"
    and print_nonempty: "valid x \<Longrightarrow> print x \<noteq> []"
    and print_alphabet: "valid x \<Longrightarrow> set (print x) \<subseteq> alphabet"
begin

lemma print_no_sep: "valid x \<Longrightarrow> c \<notin> alphabet \<Longrightarrow> c \<notin> set (print x)"
  using print_alphabet by blast

lemma split_printed:
  assumes "xs \<noteq> []" "\<forall>x \<in> set xs. valid x" "c \<notin> alphabet"
  shows "SplitString (join c (map print xs)) [c] False = Inr (map print xs)"
  using assms by (intro SplitString_join) (auto simp: print_nonempty print_no_sep)

lemma parse_printed: "\<forall>x \<in> set xs. valid x \<Longrightarrow> traverse parse (map print xs) = Inr xs"
  by (induction xs) (auto simp: parse_print)

lemma join_nonempty: "xs \<noteq> [] \<Longrightarrow> \<forall>x \<in> set xs. valid x \<Longrightarrow> join c (map print xs) \<noteq> []"
  using print_nonempty by (cases xs) (auto simp: join_def)

lemma set_join:
  assumes "\<forall>x \<in> set xs. valid x"
  shows "set (join c (map print xs)) \<subseteq> insert c alphabet"
proof -
  have "\<Union> (set ` set (map print xs)) \<subseteq> alphabet"
    using assms print_alphabet by (simp add: UN_subset_iff)
  then show ?thesis using set_join_subset [of c "map print xs"] by blast
qed

end

locale list_codec = text_codec +
  fixes sep :: char
  assumes sep_not_in_alphabet: "sep \<notin> alphabet"

sublocale list_codec \<subseteq> lst: text_codec "\<lambda>xs. join sep (map print xs)"
  "\<lambda>s. and_then (SplitString s [sep] False) (traverse parse)"
  "\<lambda>xs. xs \<noteq> [] \<and> (\<forall>x \<in> set xs. valid x)" "insert sep alphabet"
proof (unfold_locales, goal_cases)
  case (1 xs)
  then show ?case by (simp add: split_printed sep_not_in_alphabet parse_printed)
next
  case (2 xs)
  then show ?case using join_nonempty by blast
next
  case (3 xs)
  then show ?case using set_join by blast
qed

end
