(* ===== verification/Cache_Compat.thy ===== *)
theory Cache_Compat
  imports Text_Utils
begin

text \<open>
  Compatibility information of compiled context caches: \<open>cache_compatibility/qnn_cache_compatibility_info.h\<close> and
  \<open>qnn_cache_compatibility_manager.cc\<close>.  A record of the backend, SDK and HTP target is written into the cache as
  a string and compared with the machine when the cache is loaded.

  The record \<open>backend_view\<close> holds what the manager reads through the getters of \<open>QnnBackendManager\<close> and through
  \<open>htp_usr_drv\<close>; it is an argument.  A \<open>uint32_t\<close> field is a nat, and the parser rejects anything above its range.
\<close>

section \<open>Records\<close>

record QnnVersion =
  major :: nat
  minor :: nat
  patch :: nat

definition QNN_VERSION_INIT :: QnnVersion where
  "QNN_VERSION_INIT = \<lparr>major = 0, minor = 0, patch = 0\<rparr>"

definition version_eq :: "QnnVersion \<Rightarrow> QnnVersion \<Rightarrow> bool" where
  "version_eq v w \<longleftrightarrow> major v = major w \<and> minor v = minor w"

definition version_lt :: "QnnVersion \<Rightarrow> QnnVersion \<Rightarrow> bool" where
  "version_lt v w = (if major v \<noteq> major w then major v < major w else minor v < minor w)"

definition version_le :: "QnnVersion \<Rightarrow> QnnVersion \<Rightarrow> bool" where
  "version_le v w = (if major v \<noteq> major w then major v \<le> major w else minor v \<le> minor w)"

definition version_gt :: "QnnVersion \<Rightarrow> QnnVersion \<Rightarrow> bool" where
  "version_gt v w = (if major v \<noteq> major w then major v > major w else minor v > minor w)"

definition version_ge :: "QnnVersion \<Rightarrow> QnnVersion \<Rightarrow> bool" where
  "version_ge v w = (if major v \<noteq> major w then major v \<ge> major w else minor v \<ge> minor w)"

record QnnCompatibilityInfoV1 =
  v1_backend_id :: nat
  v1_sdk_version :: QnnVersion
  v1_backend_api_version :: QnnVersion
  v1_context_blob_version :: QnnVersion
  v1_htp_arch :: nat
  v1_is_htp_usr_drv :: bool

record QnnCompatibilityInfoV2 =
  backend_id :: nat
  sdk_version :: QnnVersion
  backend_api_version :: QnnVersion
  htp_archs :: "nat list"
  soc_models :: "nat list"
  vtcm_mbs :: "nat list"
  is_htp_usr_drv :: bool

datatype QnnCompatibilityInfo =
    Info_V1 QnnCompatibilityInfoV1
  | Info_V2 QnnCompatibilityInfoV2

datatype OrtCompiledModelCompatibility =
    EP_NOT_APPLICABLE
  | EP_SUPPORTED_OPTIMAL
  | EP_SUPPORTED_PREFER_RECOMPILATION
  | EP_UNSUPPORTED

definition kHtpV6xAndV7xBreakageArch :: nat where "kHtpV6xAndV7xBreakageArch = 73"
definition kVtcmMbUnset :: nat where "kVtcmMbUnset = 0"

section \<open>Parsing\<close>

definition malformed :: error where
  "malformed = Status_Fail ''Unrecognized compatibility info format: malformed numeric value.''"

definition DeserializeString :: "string \<Rightarrow> nat result" where
  "DeserializeString str =
     (if str = [] \<or> \<not> is_digit (hd str) then Inl malformed
      else case stoll str of
             Inl _ \<Rightarrow> Inl malformed
           | Inr (parsed, pos) \<Rightarrow>
               if pos \<noteq> length str \<or> parsed > 2 ^ 32 - 1 then Inl malformed else Inr parsed)"

definition DeserializeArray :: "string \<Rightarrow> nat list result" where
  "DeserializeArray str = and_then (SplitString str '','' False) (traverse DeserializeString)"

definition DeserializeVersion :: "string \<Rightarrow> QnnVersion result" where
  "DeserializeVersion str =
     and_then (SplitString str ''.'' False) (\<lambda>parts.
       if length parts \<noteq> 3 then Inl (Status_Fail ''Unrecognized compatibility info format: malformed version.'')
       else and_then (DeserializeString (parts ! 0)) (\<lambda>a.
            and_then (DeserializeString (parts ! 1)) (\<lambda>b.
            and_then (DeserializeString (parts ! 2)) (\<lambda>c.
              Inr \<lparr>major = a, minor = b, patch = c\<rparr>))))"

definition DeserializeCompatibilityInfoV1 :: "string \<Rightarrow> QnnCompatibilityInfoV1 result" where
  "DeserializeCompatibilityInfoV1 info_string =
     and_then (SplitString info_string '':'' False) (\<lambda>fs.
       if length fs \<noteq> 6 then Inl (Status_Fail ''Unrecognized compatibility info format: not enough fields.'')
       else and_then (DeserializeString (fs ! 0)) (\<lambda>bid.
            and_then (DeserializeVersion (fs ! 1)) (\<lambda>sdk.
            and_then (DeserializeVersion (fs ! 2)) (\<lambda>api.
            and_then (DeserializeVersion (fs ! 3)) (\<lambda>blob.
            and_then (DeserializeString (fs ! 4)) (\<lambda>arch.
              Inr \<lparr>v1_backend_id = bid, v1_sdk_version = sdk, v1_backend_api_version = api,
                   v1_context_blob_version = blob, v1_htp_arch = arch, v1_is_htp_usr_drv = (fs ! 5 = ''1'')\<rparr>))))))"

definition DeserializeCompatibilityInfoV2 :: "string \<Rightarrow> QnnCompatibilityInfoV2 result" where
  "DeserializeCompatibilityInfoV2 info_string =
     and_then (SplitString info_string '':'' False) (\<lambda>fs.
       if length fs \<noteq> 8 then Inl (Status_Fail ''Unrecognized compatibility info format: not enough fields.'')
       else and_then (DeserializeString (fs ! 1)) (\<lambda>bid.
            and_then (DeserializeVersion (fs ! 2)) (\<lambda>sdk.
            and_then (DeserializeVersion (fs ! 3)) (\<lambda>api.
            and_then (DeserializeArray (fs ! 4)) (\<lambda>archs.
            and_then (DeserializeArray (fs ! 5)) (\<lambda>socs.
            and_then (DeserializeArray (fs ! 6)) (\<lambda>vtcms.
              if length archs = length socs \<and> length archs = length vtcms
              then Inr \<lparr>backend_id = bid, sdk_version = sdk, backend_api_version = api, htp_archs = archs,
                        soc_models = socs, vtcm_mbs = vtcms, is_htp_usr_drv = (fs ! 7 = ''1'')\<rparr>
              else Inl (Status_Fail ''Unrecognized compatibility info format: unequal size in relative fields.''))))))))"

definition DeserializeCompatibilityInfo :: "string \<Rightarrow> QnnCompatibilityInfo result" where
  "DeserializeCompatibilityInfo info_string =
     (case find_from info_string '':'' 0 of
        None \<Rightarrow> Inl (Status_Fail ''Unrecognized compatibility info format.'')
      | Some pos \<Rightarrow>
          (let first_slice = take pos info_string
           in if first_slice = [] \<or> hd first_slice \<noteq> CHR ''v''
              then and_then (DeserializeCompatibilityInfoV1 info_string) (\<lambda>i. Inr (Info_V1 i))
              else if first_slice = ''v2''
              then and_then (DeserializeCompatibilityInfoV2 info_string) (\<lambda>i. Inr (Info_V2 i))
              else Inl (Status_Fail ''Unrecognized compatibility info version'')))"

section \<open>Printing\<close>

definition SerializeVersion :: "QnnVersion \<Rightarrow> string" where
  "SerializeVersion v = to_string (major v) @ ''.'' @ to_string (minor v) @ ''.'' @ to_string (patch v)"

definition SerializeArray :: "nat list \<Rightarrow> string" where
  "SerializeArray arr =
     fold (\<lambda>idx arr_str. (if idx \<noteq> 0 then arr_str @ '','' else arr_str) @ to_string (arr ! idx)) [0..<length arr] []"

definition SerializeCompatibilityInfoV1 :: "QnnCompatibilityInfoV1 \<Rightarrow> string result" where
  "SerializeCompatibilityInfoV1 info =
     (if version_eq (v1_sdk_version info) QNN_VERSION_INIT \<or> version_eq (v1_backend_api_version info) QNN_VERSION_INIT
         \<or> v1_htp_arch info = 0
      then Inl (Status_Fail ''No compatibility info to be serialized.'')
      else Inr (to_string (v1_backend_id info) @ '':'' @ SerializeVersion (v1_sdk_version info) @ '':''
                @ SerializeVersion (v1_backend_api_version info) @ '':''
                @ SerializeVersion (v1_context_blob_version info) @ '':''
                @ to_string (v1_htp_arch info) @ '':'' @ (if v1_is_htp_usr_drv info then ''1'' else ''0'')))"

definition SerializeCompatibilityInfoV2 :: "QnnCompatibilityInfoV2 \<Rightarrow> string result" where
  "SerializeCompatibilityInfoV2 info =
     (if version_eq (sdk_version info) QNN_VERSION_INIT \<or> version_eq (backend_api_version info) QNN_VERSION_INIT
         \<or> htp_archs info = [] \<or> soc_models info = [] \<or> vtcm_mbs info = []
      then Inl (Status_Fail ''No compatibility info to be serialized.'')
      else Inr (''v2:'' @ to_string (backend_id info) @ '':'' @ SerializeVersion (sdk_version info) @ '':''
                @ SerializeVersion (backend_api_version info) @ '':'' @ SerializeArray (htp_archs info) @ '':''
                @ SerializeArray (soc_models info) @ '':'' @ SerializeArray (vtcm_mbs info) @ '':''
                @ (if is_htp_usr_drv info then ''1'' else ''0'')))"

definition SerializeCompatibilityInfo :: "QnnCompatibilityInfo \<Rightarrow> string result" where
  "SerializeCompatibilityInfo info =
     (case info of Info_V1 i \<Rightarrow> SerializeCompatibilityInfoV1 i | Info_V2 i \<Rightarrow> SerializeCompatibilityInfoV2 i)"

section \<open>The machine\<close>

record backend_view =
  GetBackendId :: nat
  GetBackendApiVersion :: QnnVersion
  GetHtpArch :: nat
  GetSocModel :: nat
  GetVtcmSize :: nat
  IsBackendHostMode :: bool
  IsHtpUsrDrvEnabled :: "nat \<Rightarrow> bool result"
  GetHtpUsrDrvVersion :: QnnVersion
  GetSdkVersion :: string

text \<open>\<open>std::stoi\<close> followed by the cast to \<open>uint32_t\<close>.\<close>

definition is_space :: "char \<Rightarrow> bool" where
  "is_space c \<longleftrightarrow> (of_char c :: nat) \<in> {9, 10, 11, 12, 13, 32}"

definition stoi_u32 :: "string \<Rightarrow> nat result" where
  "stoi_u32 s =
     (let t = dropWhile is_space s;
          neg = (t \<noteq> [] \<and> hd t = CHR ''-'');
          u = (if t \<noteq> [] \<and> (hd t = CHR ''-'' \<or> hd t = CHR ''+'') then tl t else t);
          ds = takeWhile is_digit u;
          v = (if neg then - int (dec_value ds) else int (dec_value ds))
      in if ds = [] then Inl (Thrown ''invalid_argument'')
         else if v < - (2 ^ 31) \<or> v > 2 ^ 31 - 1 then Inl (Thrown ''out_of_range'')
         else Inr (nat (v mod 2 ^ 32)))"

definition GetHtpUsrDrvInfo :: "backend_view \<Rightarrow> nat \<Rightarrow> (QnnVersion \<times> bool) result" where
  "GetHtpUsrDrvInfo b htp_arch =
     and_then (if IsBackendHostMode b then Inr False else IsHtpUsrDrvEnabled b htp_arch) (\<lambda>is_drv.
       if is_drv then
         (let v = GetHtpUsrDrvVersion b
          in if major v = 0 \<and> minor v = 0 \<and> patch v = 0
             then Inl (Status_Fail ''Failed to get HtpUsrDrv file version.'')
             else Inr (v, is_drv))
       else
         and_then (SplitString (GetSdkVersion b) ''.'' False) (\<lambda>vs.
           if length vs \<noteq> 4 \<or> take 1 (vs ! 0) \<noteq> ''v''
           then Inl (Status_Fail ''Expected SDK version in vMajor.Minor.Patch.BuildId format.'')
           else and_then (stoi_u32 (drop 1 (vs ! 0))) (\<lambda>a.
                and_then (stoi_u32 (vs ! 1)) (\<lambda>m.
                and_then (stoi_u32 (vs ! 2)) (\<lambda>p.
                  Inr (\<lparr>major = a, minor = m, patch = p\<rparr>, is_drv))))))"

definition GetCompatibilityInfo :: "backend_view \<Rightarrow> QnnCompatibilityInfo \<Rightarrow> QnnCompatibilityInfo result" where
  "GetCompatibilityInfo b info =
     (case info of
        Info_V1 _ \<Rightarrow> Inl (Status_Fail ''Support getting V2 compatibility info only.'')
      | Info_V2 i0 \<Rightarrow>
          (let i = i0\<lparr>backend_id := GetBackendId b, backend_api_version := GetBackendApiVersion b\<rparr>;
               archs = (if htp_archs i = [] then [GetHtpArch b] else htp_archs i);
               socs = (if soc_models i = [] then [GetSocModel b] else soc_models i);
               vtcms = (if vtcm_mbs i = [] then replicate (length archs) kVtcmMbUnset else vtcm_mbs i)
           in if soc_models i \<noteq> [] \<and> length (soc_models i) \<noteq> length archs
              then Inl (Status_Fail ''Unequal size of `htp_archs` and `soc_models` in the given compatibility info.'')
              else if vtcm_mbs i \<noteq> [] \<and> length (vtcm_mbs i) \<noteq> length archs
              then Inl (Status_Fail ''Unequal size of `htp_archs` and `vtcm_mbs` in the given compatibility info.'')
              else and_then (GetHtpUsrDrvInfo b (archs ! 0)) (\<lambda>(sdk, drv).
                     Inr (Info_V2 (i\<lparr>htp_archs := archs, soc_models := socs, vtcm_mbs := vtcms,
                                     sdk_version := sdk, is_htp_usr_drv := drv\<rparr>)))))"

definition GetRuntimeCompatibilityInfoV1 :: "backend_view \<Rightarrow> QnnCompatibilityInfoV1 result" where
  "GetRuntimeCompatibilityInfoV1 b =
     (if GetHtpArch b = 0 then Inl (Status_Fail ''Unable to acquire runtime HTP arch.'')
      else and_then (GetHtpUsrDrvInfo b (GetHtpArch b)) (\<lambda>(sdk, drv).
        Inr \<lparr>v1_backend_id = GetBackendId b, v1_sdk_version = sdk, v1_backend_api_version = GetBackendApiVersion b,
             v1_context_blob_version = QNN_VERSION_INIT, v1_htp_arch = GetHtpArch b, v1_is_htp_usr_drv = drv\<rparr>))"

definition GetRuntimeCompatibilityInfoV2 :: "backend_view \<Rightarrow> QnnCompatibilityInfoV2 result" where
  "GetRuntimeCompatibilityInfoV2 b =
     (if GetHtpArch b = 0 then Inl (Status_Fail ''Unable to acquire runtime HTP arch.'')
      else if GetVtcmSize b = 0 then Inl (Status_Fail ''Unable to acquire runtime VTCM size.'')
      else and_then (GetHtpUsrDrvInfo b (GetHtpArch b)) (\<lambda>(sdk, drv).
        Inr \<lparr>backend_id = GetBackendId b, sdk_version = sdk, backend_api_version = GetBackendApiVersion b,
             htp_archs = [GetHtpArch b], soc_models = [], vtcm_mbs = [GetVtcmSize b], is_htp_usr_drv = drv\<rparr>))"

section \<open>Validation\<close>

definition compat_rank :: "OrtCompiledModelCompatibility \<Rightarrow> nat" where
  "compat_rank c = (case c of EP_NOT_APPLICABLE \<Rightarrow> 0 | EP_SUPPORTED_OPTIMAL \<Rightarrow> 1
     | EP_SUPPORTED_PREFER_RECOMPILATION \<Rightarrow> 2 | EP_UNSUPPORTED \<Rightarrow> 3)"

text \<open>
  \<open>ValidateCompatibilityWithCallback\<close> is a template over the info type; its arguments here are the fields it reads
  and the result of the callback.
\<close>

definition ValidateCompatibilityWithCallback ::
  "nat \<times> bool \<times> QnnVersion \<times> QnnVersion \<Rightarrow> nat \<times> bool \<times> QnnVersion \<times> QnnVersion
   \<Rightarrow> OrtCompiledModelCompatibility \<Rightarrow> OrtCompiledModelCompatibility" where
  "ValidateCompatibilityWithCallback cache runtime callback =
     (case (cache, runtime) of ((cid, cdrv, csdk, capi), (rid, rdrv, rsdk, rapi)) \<Rightarrow>
       if cid \<noteq> rid then EP_UNSUPPORTED
       else if \<not> cdrv \<and> \<not> rdrv then (if version_le capi rapi then callback else EP_UNSUPPORTED)
       else if \<not> cdrv \<and> rdrv then (if version_le csdk rsdk then callback else EP_UNSUPPORTED)
       else if cdrv \<and> \<not> rdrv then EP_UNSUPPORTED
       else (if version_le csdk rsdk then callback else EP_UNSUPPORTED))"

definition validate_htp_v1 :: "nat \<Rightarrow> nat \<Rightarrow> OrtCompiledModelCompatibility" where
  "validate_htp_v1 cache_arch runtime_arch =
     (if cache_arch < runtime_arch then EP_SUPPORTED_PREFER_RECOMPILATION
      else if cache_arch = runtime_arch then EP_SUPPORTED_OPTIMAL
      else EP_UNSUPPORTED)"

definition ValidateCompatibilityInfoV1 ::
  "backend_view \<Rightarrow> QnnCompatibilityInfoV1 \<Rightarrow> OrtCompiledModelCompatibility result" where
  "ValidateCompatibilityInfoV1 b info =
     and_then (GetRuntimeCompatibilityInfoV1 b) (\<lambda>r.
       Inr (ValidateCompatibilityWithCallback
         (v1_backend_id info, v1_is_htp_usr_drv info, v1_sdk_version info, v1_backend_api_version info)
         (v1_backend_id r, v1_is_htp_usr_drv r, v1_sdk_version r, v1_backend_api_version r)
         (validate_htp_v1 (v1_htp_arch info) (v1_htp_arch r))))"

definition cache_compatibility :: "nat \<Rightarrow> nat \<Rightarrow> nat \<Rightarrow> nat \<Rightarrow> OrtCompiledModelCompatibility" where
  "cache_compatibility cache_arch cache_vtcm runtime_arch runtime_vtcm =
     (if (cache_arch \<noteq> 0 \<and> cache_arch < kHtpV6xAndV7xBreakageArch \<and> runtime_arch \<ge> kHtpV6xAndV7xBreakageArch)
         \<or> cache_arch > runtime_arch \<or> cache_vtcm > runtime_vtcm
      then EP_UNSUPPORTED
      else if cache_arch = runtime_arch \<and> cache_vtcm = runtime_vtcm then EP_SUPPORTED_OPTIMAL
      else EP_SUPPORTED_PREFER_RECOMPILATION)"

definition validate_htp_v2 :: "QnnCompatibilityInfoV2 \<Rightarrow> QnnCompatibilityInfoV2 \<Rightarrow> OrtCompiledModelCompatibility" where
  "validate_htp_v2 cache runtime =
     fold (\<lambda>idx best.
         let c = cache_compatibility (htp_archs cache ! idx)
                   (if vtcm_mbs cache \<noteq> [] then vtcm_mbs cache ! idx else kVtcmMbUnset)
                   (htp_archs runtime ! 0) (vtcm_mbs runtime ! 0)
         in if compat_rank c < compat_rank best then c else best)
       [0..<length (htp_archs cache)] EP_UNSUPPORTED"

definition ValidateCompatibilityInfoV2 ::
  "backend_view \<Rightarrow> QnnCompatibilityInfoV2 \<Rightarrow> OrtCompiledModelCompatibility result" where
  "ValidateCompatibilityInfoV2 b info =
     (if vtcm_mbs info \<noteq> [] \<and> length (vtcm_mbs info) \<noteq> length (htp_archs info)
      then Inl (Status_Fail ''Unequal size of `htp_archs` and `vtcm_mbs` in the given compatibility info.'')
      else and_then (GetRuntimeCompatibilityInfoV2 b) (\<lambda>r.
        Inr (ValidateCompatibilityWithCallback
          (backend_id info, is_htp_usr_drv info, sdk_version info, backend_api_version info)
          (backend_id r, is_htp_usr_drv r, sdk_version r, backend_api_version r)
          (validate_htp_v2 info r))))"

definition ValidateCompatibilityInfo ::
  "backend_view \<Rightarrow> QnnCompatibilityInfo \<Rightarrow> OrtCompiledModelCompatibility result" where
  "ValidateCompatibilityInfo b info =
     (case info of Info_V1 i \<Rightarrow> ValidateCompatibilityInfoV1 b i | Info_V2 i \<Rightarrow> ValidateCompatibilityInfoV2 b i)"

section \<open>Codecs of the fields\<close>

definition u32 :: "nat \<Rightarrow> bool" where
  "u32 n \<longleftrightarrow> n < 2 ^ 32"

definition valid_version :: "QnnVersion \<Rightarrow> bool" where
  "valid_version v \<longleftrightarrow> u32 (major v) \<and> u32 (minor v) \<and> u32 (patch v)"

definition digits :: "char set" where
  "digits = {c. is_digit c}"

lemma separators_not_digits [simp]:
  "\<not> is_digit CHR '',''" "\<not> is_digit CHR ''.''" "\<not> is_digit CHR '':''" "\<not> is_digit CHR ''v''"
  by (simp_all add: is_digit_def)

interpretation num: list_codec to_string DeserializeString u32 digits "CHR '',''"
proof (unfold_locales, goal_cases)
  case (1 n)
  then have "n < 2 ^ 63" "n \<le> 2 ^ 32 - 1" by (auto simp: u32_def)
  then show ?case
    using to_string_digits [of n] by (simp add: DeserializeString_def stoll_to_string)
next
  case (3 n)
  then show ?case using to_string_digits by (auto simp: digits_def)
qed (simp_all add: digits_def)

lemma SerializeVersion_join:
  "SerializeVersion v = join CHR ''.'' (map to_string [major v, minor v, patch v])"
  by (simp add: SerializeVersion_def join_def)

interpretation ver: text_codec SerializeVersion DeserializeVersion valid_version "insert CHR ''.'' digits"
proof (unfold_locales, goal_cases)
  case (1 v)
  then have "SplitString (SerializeVersion v) ''.'' False = Inr (map to_string [major v, minor v, patch v])"
    unfolding SerializeVersion_join by (intro num.split_printed) (auto simp: valid_version_def digits_def)
  with 1 show ?case
    by (simp add: DeserializeVersion_def num.parse_print valid_version_def)
next
  case (2 v)
  then show ?case by (simp add: SerializeVersion_def)
next
  case (3 v)
  then show ?case
    unfolding SerializeVersion_join by (intro num.set_join) (auto simp: valid_version_def)
qed

lemma SerializeArray_join: "SerializeArray arr = join CHR '','' (map to_string arr)"
proof -
  have "fold (\<lambda>idx arr_str. (if idx \<noteq> 0 then arr_str @ '','' else arr_str) @ to_string (arr ! idx)) [0..<n] []
      = join CHR '','' (map to_string (take n arr))" if "n \<le> length arr" for n
    using that
  proof (induction n)
    case (Suc n)
    then have "take (Suc n) arr = take n arr @ [arr ! n]" by (simp add: take_Suc_conv_app_nth)
    moreover have "n \<noteq> 0 \<longleftrightarrow> take n arr \<noteq> []" using Suc.prems by auto
    ultimately show ?case using Suc by (cases "take n arr") (auto simp: join_def)
  qed (simp add: join_def)
  then show ?thesis by (simp add: SerializeArray_def)
qed

lemma DeserializeArray_SerializeArray:
  "arr \<noteq> [] \<Longrightarrow> \<forall>x \<in> set arr. u32 x \<Longrightarrow> DeserializeArray (SerializeArray arr) = Inr arr"
  using num.lst.parse_print [of arr] by (simp add: DeserializeArray_def SerializeArray_join)

lemma SerializeArray_field:
  assumes "arr \<noteq> []" "\<forall>x \<in> set arr. u32 x"
  shows "SerializeArray arr \<noteq> []" "CHR '':'' \<notin> set (SerializeArray arr)"
  using assms num.lst.print_nonempty [of arr] num.lst.print_no_sep [of arr "CHR '':''"]
  by (auto simp: SerializeArray_join digits_def)

lemma number_field: "u32 n \<Longrightarrow> to_string n \<noteq> [] \<and> CHR '':'' \<notin> set (to_string n)"
  using num.print_no_sep [of n "CHR '':''"] by (simp add: digits_def)

lemma version_field: "valid_version v \<Longrightarrow> SerializeVersion v \<noteq> [] \<and> CHR '':'' \<notin> set (SerializeVersion v)"
  using ver.print_no_sep [of v "CHR '':''"] ver.print_nonempty [of v] by (simp add: digits_def)

definition fields_fit :: "QnnCompatibilityInfoV2 \<Rightarrow> bool" where
  "fields_fit i \<longleftrightarrow> u32 (backend_id i) \<and> valid_version (sdk_version i) \<and> valid_version (backend_api_version i)
     \<and> (\<forall>x \<in> set (htp_archs i @ soc_models i @ vtcm_mbs i). u32 x)"

definition valid_info :: "QnnCompatibilityInfo \<Rightarrow> bool" where
  "valid_info info \<longleftrightarrow>
     (case info of
        Info_V1 i \<Rightarrow> u32 (v1_backend_id i) \<and> u32 (v1_htp_arch i) \<and> valid_version (v1_sdk_version i)
          \<and> valid_version (v1_backend_api_version i) \<and> valid_version (v1_context_blob_version i)
      | Info_V2 i \<Rightarrow> fields_fit i \<and> length (htp_archs i) = length (soc_models i) \<and> length (htp_archs i) = length (vtcm_mbs i))"

lemma v1_fields:
  assumes "SerializeCompatibilityInfoV1 i = Inr s"
  shows "s = join CHR '':'' [to_string (v1_backend_id i), SerializeVersion (v1_sdk_version i),
    SerializeVersion (v1_backend_api_version i), SerializeVersion (v1_context_blob_version i),
    to_string (v1_htp_arch i), if v1_is_htp_usr_drv i then ''1'' else ''0'']"
  using assms by (simp add: SerializeCompatibilityInfoV1_def join_def split: if_splits)

lemma v2_fields:
  assumes "SerializeCompatibilityInfoV2 i = Inr s"
  shows "s = join CHR '':'' [''v2'', to_string (backend_id i), SerializeVersion (sdk_version i),
    SerializeVersion (backend_api_version i), SerializeArray (htp_archs i), SerializeArray (soc_models i),
    SerializeArray (vtcm_mbs i), if is_htp_usr_drv i then ''1'' else ''0'']"
    "htp_archs i \<noteq> [] \<and> soc_models i \<noteq> [] \<and> vtcm_mbs i \<noteq> []"
  using assms by (simp_all add: SerializeCompatibilityInfoV2_def join_def split: if_splits)

lemma find_first_field:
  assumes "CHR '':'' \<notin> set x"
  shows "find_from (join CHR '':'' (x # y # zs)) '':'' 0 = Some (length x)"
  using assms takeWhile_first [of "CHR '':''" x "join CHR '':'' (y # zs)"]
  by (simp add: find_from_char join_def)

lemma Deserialize_v1:
  assumes v: "valid_info (Info_V1 i)" and s: "SerializeCompatibilityInfoV1 i = Inr s"
  shows "DeserializeCompatibilityInfo s = Inr (Info_V1 i)"
proof -
  let ?fs = "[to_string (v1_backend_id i), SerializeVersion (v1_sdk_version i),
    SerializeVersion (v1_backend_api_version i), SerializeVersion (v1_context_blob_version i),
    to_string (v1_htp_arch i), if v1_is_htp_usr_drv i then ''1'' else ''0'']"
  have split: "SplitString s '':'' False = Inr ?fs"
    unfolding v1_fields [OF s] using v
    by (intro SplitString_join) (auto simp: valid_info_def number_field version_field)
  have "hd (to_string (v1_backend_id i)) \<noteq> CHR ''v''"
    using to_string_digits [of "v1_backend_id i"] hd_in_set [OF to_string_nonempty] separators_not_digits(4) by metis
  moreover have "find_from s '':'' 0 = Some (length (to_string (v1_backend_id i)))"
    unfolding v1_fields [OF s] using v by (intro find_first_field) (auto simp: valid_info_def number_field)
  moreover have "take (length (to_string (v1_backend_id i))) s = to_string (v1_backend_id i)"
    unfolding v1_fields [OF s] by (simp add: join_def)
  moreover have "DeserializeCompatibilityInfoV1 s = Inr i"
    using v by (simp add: DeserializeCompatibilityInfoV1_def split num.parse_print ver.parse_print valid_info_def)
  ultimately show ?thesis by (simp add: DeserializeCompatibilityInfo_def)
qed

lemma Deserialize_v2:
  assumes v: "fields_fit i" and s: "SerializeCompatibilityInfoV2 i = Inr s"
  shows "DeserializeCompatibilityInfo s =
    (if length (htp_archs i) = length (soc_models i) \<and> length (htp_archs i) = length (vtcm_mbs i)
     then Inr (Info_V2 i)
     else Inl (Status_Fail ''Unrecognized compatibility info format: unequal size in relative fields.''))"
proof -
  let ?fs = "[''v2'', to_string (backend_id i), SerializeVersion (sdk_version i),
    SerializeVersion (backend_api_version i), SerializeArray (htp_archs i), SerializeArray (soc_models i),
    SerializeArray (vtcm_mbs i), if is_htp_usr_drv i then ''1'' else ''0'']"
  note ne = v2_fields(2) [OF s]
  have split: "SplitString s '':'' False = Inr ?fs"
    unfolding v2_fields(1) [OF s] using v ne
    by (intro SplitString_join) (auto simp: fields_fit_def number_field version_field SerializeArray_field)
  have "find_from s '':'' 0 = Some (length ''v2'')"
    unfolding v2_fields(1) [OF s] by (intro find_first_field) simp
  moreover have "take (length ''v2'') s = ''v2''"
    unfolding v2_fields(1) [OF s] by (simp add: join_def)
  moreover have "DeserializeCompatibilityInfoV2 s =
    (if length (htp_archs i) = length (soc_models i) \<and> length (htp_archs i) = length (vtcm_mbs i) then Inr i
     else Inl (Status_Fail ''Unrecognized compatibility info format: unequal size in relative fields.''))"
    using v ne
    by (simp add: DeserializeCompatibilityInfoV2_def split num.parse_print ver.parse_print fields_fit_def
        DeserializeArray_SerializeArray)
  ultimately show ?thesis by (simp add: DeserializeCompatibilityInfo_def)
qed

section \<open>What the parser accepts\<close>

lemma DeserializeString_u32: "DeserializeString str = Inr n \<Longrightarrow> u32 n"
  by (auto simp: DeserializeString_def u32_def split: if_splits sum.splits prod.splits)

lemma DeserializeVersion_valid: "DeserializeVersion str = Inr v \<Longrightarrow> valid_version v"
  by (auto simp: DeserializeVersion_def valid_version_def and_then_eq_Inr_iff DeserializeString_u32 split: if_splits)

lemma DeserializeArray_u32: "DeserializeArray str = Inr arr \<Longrightarrow> \<forall>x \<in> set arr. u32 x"
  unfolding DeserializeArray_def and_then_eq_Inr_iff traverse_eq_Inr_iff
  by (metis DeserializeString_u32 in_set_conv_nth)

lemma no_throw_malformed [simp]: "no_throw (Inl malformed)"
  by (simp add: malformed_def)

lemma no_throw_DeserializeString [simp]: "no_throw (DeserializeString str)"
  by (auto simp: DeserializeString_def split: sum.splits prod.splits)

lemma no_throw_DeserializeVersion [simp]: "no_throw (DeserializeVersion str)"
  unfolding DeserializeVersion_def SplitString_char by simp

lemma no_throw_DeserializeArray [simp]: "no_throw (DeserializeArray str)"
  unfolding DeserializeArray_def SplitString_char by simp

lemma no_throw_v1: "no_throw (DeserializeCompatibilityInfoV1 str)"
  unfolding DeserializeCompatibilityInfoV1_def SplitString_char by simp

lemma no_throw_v2: "no_throw (DeserializeCompatibilityInfoV2 str)"
  unfolding DeserializeCompatibilityInfoV2_def SplitString_char by simp

lemma DeserializeV1_valid: "DeserializeCompatibilityInfoV1 str = Inr i \<Longrightarrow> valid_info (Info_V1 i)"
  by (auto simp: DeserializeCompatibilityInfoV1_def and_then_eq_Inr_iff valid_info_def DeserializeString_u32
      DeserializeVersion_valid split: if_splits)

lemma DeserializeV2_valid: "DeserializeCompatibilityInfoV2 str = Inr i \<Longrightarrow> valid_info (Info_V2 i)"
  by (auto simp: DeserializeCompatibilityInfoV2_def and_then_eq_Inr_iff valid_info_def fields_fit_def DeserializeString_u32
      DeserializeVersion_valid DeserializeArray_u32 split: if_splits dest: DeserializeArray_u32)

section \<open>What validation decides\<close>

definition cache_vtcm :: "QnnCompatibilityInfoV2 \<Rightarrow> nat \<Rightarrow> nat" where
  "cache_vtcm info idx = (if vtcm_mbs info \<noteq> [] then vtcm_mbs info ! idx else kVtcmMbUnset)"

definition version_gate :: "QnnCompatibilityInfoV2 \<Rightarrow> QnnCompatibilityInfoV2 \<Rightarrow> bool" where
  "version_gate info r \<longleftrightarrow>
     backend_id info = backend_id r
     \<and> (if is_htp_usr_drv r then version_le (sdk_version info) (sdk_version r)
        else \<not> is_htp_usr_drv info \<and> version_le (backend_api_version info) (backend_api_version r))"

lemma fold_min_rank:
  fixes f :: "nat \<Rightarrow> OrtCompiledModelCompatibility"
  shows "fold (\<lambda>i best. if compat_rank (f i) < compat_rank best then f i else best) xs best \<in> insert best (f ` set xs)
       \<and> (\<forall>c \<in> insert best (f ` set xs).
            compat_rank (fold (\<lambda>i best. if compat_rank (f i) < compat_rank best then f i else best) xs best) \<le> compat_rank c)"
proof (induction xs arbitrary: best)
  case (Cons x xs)
  show ?case using Cons [of "if compat_rank (f x) < compat_rank best then f x else best"] by (auto split: if_splits)
qed simp

lemma compat_rank_inj [simp]: "compat_rank c = compat_rank d \<longleftrightarrow> c = d"
  by (cases c; cases d) (simp_all add: compat_rank_def)

lemma validate_htp_v2_cases:
  fixes info r :: QnnCompatibilityInfoV2
  defines "f \<equiv> \<lambda>idx. cache_compatibility (htp_archs info ! idx) (cache_vtcm info idx) (htp_archs r ! 0) (vtcm_mbs r ! 0)"
  shows "validate_htp_v2 info r = EP_SUPPORTED_OPTIMAL \<longleftrightarrow> (\<exists>idx < length (htp_archs info). f idx = EP_SUPPORTED_OPTIMAL)"
    "validate_htp_v2 info r = EP_UNSUPPORTED \<longleftrightarrow> (\<forall>idx < length (htp_archs info). f idx = EP_UNSUPPORTED)"
    "validate_htp_v2 info r \<noteq> EP_NOT_APPLICABLE"
proof -
  let ?S = "insert EP_UNSUPPORTED (f ` {0..<length (htp_archs info)})"
  have v: "validate_htp_v2 info r = fold (\<lambda>i best. if compat_rank (f i) < compat_rank best then f i else best)
      [0..<length (htp_archs info)] EP_UNSUPPORTED"
    unfolding f_def validate_htp_v2_def cache_vtcm_def Let_def by (rule refl)
  have m: "validate_htp_v2 info r \<in> ?S" "\<forall>c \<in> ?S. compat_rank (validate_htp_v2 info r) \<le> compat_rank c"
    unfolding v using fold_min_rank [of f "[0..<length (htp_archs info)]" EP_UNSUPPORTED] by simp_all
  have na: "f idx \<noteq> EP_NOT_APPLICABLE" for idx by (simp add: f_def cache_compatibility_def)
  show "validate_htp_v2 info r \<noteq> EP_NOT_APPLICABLE" using m(1) na by auto
  then show "validate_htp_v2 info r = EP_SUPPORTED_OPTIMAL \<longleftrightarrow> (\<exists>idx < length (htp_archs info). f idx = EP_SUPPORTED_OPTIMAL)"
    using m by (cases "validate_htp_v2 info r") (force simp: compat_rank_def)+
  show "validate_htp_v2 info r = EP_UNSUPPORTED \<longleftrightarrow> (\<forall>idx < length (htp_archs info). f idx = EP_UNSUPPORTED)"
  proof
    assume u: "validate_htp_v2 info r = EP_UNSUPPORTED"
    show "\<forall>idx < length (htp_archs info). f idx = EP_UNSUPPORTED"
    proof (intro allI impI)
      fix idx assume "idx < length (htp_archs info)"
      then have "compat_rank EP_UNSUPPORTED \<le> compat_rank (f idx)" using m(2) u by auto
      then show "f idx = EP_UNSUPPORTED" by (cases "f idx") (simp_all add: compat_rank_def)
    qed
  qed (use m(1) in auto)
qed

section \<open>Properties\<close>

text \<open>
  C27.  A compatibility record that was written into a cache is read back unchanged, in both versions of the
  format, whenever its fields fit in 32 bits and its arrays have equal sizes.
\<close>

theorem compatibility_info_roundtrip:
  assumes "valid_info info" "SerializeCompatibilityInfo info = Inr s"
  shows "DeserializeCompatibilityInfo s = Inr info"
proof (cases info)
  case (Info_V1 i)
  with assms show ?thesis by (simp add: SerializeCompatibilityInfo_def Deserialize_v1)
next
  case (Info_V2 i)
  with assms have "fields_fit i" "length (htp_archs i) = length (soc_models i)" "length (htp_archs i) = length (vtcm_mbs i)"
    "SerializeCompatibilityInfoV2 i = Inr s"
    by (simp_all add: valid_info_def SerializeCompatibilityInfo_def)
  with Info_V2 show ?thesis using Deserialize_v2 by metis
qed

definition example_info :: QnnCompatibilityInfoV2 where
  "example_info = \<lparr>backend_id = 6, sdk_version = \<lparr>major = 2, minor = 31, patch = 0\<rparr>,
     backend_api_version = \<lparr>major = 5, minor = 40, patch = 1\<rparr>, htp_archs = [73, 81], soc_models = [60, 88],
     vtcm_mbs = [8, 0], is_htp_usr_drv = True\<rparr>"

theorem compatibility_info_roundtrip_witness:
  "SerializeCompatibilityInfo (Info_V2 example_info) = Inr ''v2:6:2.31.0:5.40.1:73,81:60,88:8,0:1''
   \<and> DeserializeCompatibilityInfo ''v2:6:2.31.0:5.40.1:73,81:60,88:8,0:1'' = Inr (Info_V2 example_info)"
proof -
  have s: "SerializeCompatibilityInfo (Info_V2 example_info) = Inr ''v2:6:2.31.0:5.40.1:73,81:60,88:8,0:1''"
    by code_simp
  have "valid_info (Info_V2 example_info)"
    by (simp add: valid_info_def fields_fit_def valid_version_def u32_def example_info_def)
  then show ?thesis using compatibility_info_roundtrip [OF _ s] s by blast
qed

text \<open>
  C29.  Reading a compatibility string never throws, whatever the string.  It fails with a status or yields a record
  whose numbers fit in 32 bits and whose arrays have equal sizes.
\<close>

theorem DeserializeCompatibilityInfo_robust:
  "no_throw (DeserializeCompatibilityInfo s)
   \<and> (case DeserializeCompatibilityInfo s of Inl _ \<Rightarrow> True | Inr info \<Rightarrow> valid_info info)"
proof -
  have "valid_info info" if "DeserializeCompatibilityInfo s = Inr info" for info
    using that
    by (auto simp: DeserializeCompatibilityInfo_def Let_def and_then_eq_Inr_iff DeserializeV1_valid DeserializeV2_valid
        split: option.splits if_splits)
  moreover have "no_throw (DeserializeCompatibilityInfo s)"
    by (auto simp: DeserializeCompatibilityInfo_def Let_def no_throw_v1 no_throw_v2 split: option.splits)
  ultimately show ?thesis by (simp split: sum.splits)
qed

text \<open>
  C28.  The verdict on a V2 cache.  It is optimal exactly when backend and version agree and one entry of the cache has
  the runtime's HTP arch and VTCM size.  It is unsupported exactly when the backend or version disagrees or every
  entry has a newer arch or a larger VTCM than the runtime or lies below the v73 boundary that the runtime is above.
\<close>

theorem ValidateCompatibilityInfoV2_verdict:
  assumes "GetRuntimeCompatibilityInfoV2 b = Inr r" "ValidateCompatibilityInfoV2 b info = Inr c"
  shows "(c = EP_SUPPORTED_OPTIMAL \<longleftrightarrow>
            version_gate info r
            \<and> (\<exists>idx < length (htp_archs info). htp_archs info ! idx = GetHtpArch b \<and> cache_vtcm info idx = GetVtcmSize b))
       \<and> (c = EP_UNSUPPORTED \<longleftrightarrow>
            \<not> version_gate info r
            \<or> (\<forall>idx < length (htp_archs info).
                 htp_archs info ! idx > GetHtpArch b \<or> cache_vtcm info idx > GetVtcmSize b
                 \<or> htp_archs info ! idx \<noteq> 0 \<and> htp_archs info ! idx < 73 \<and> 73 \<le> GetHtpArch b))
       \<and> c \<noteq> EP_NOT_APPLICABLE"
proof -
  have r: "htp_archs r = [GetHtpArch b]" "vtcm_mbs r = [GetVtcmSize b]"
    using assms(1) by (auto simp: GetRuntimeCompatibilityInfoV2_def and_then_eq_Inr_iff split: if_splits)
  have c: "c = (if version_gate info r then validate_htp_v2 info r else EP_UNSUPPORTED)"
    using assms by (auto simp: ValidateCompatibilityInfoV2_def ValidateCompatibilityWithCallback_def version_gate_def
        split: if_splits)
  let ?f = "\<lambda>idx. cache_compatibility (htp_archs info ! idx) (cache_vtcm info idx) (GetHtpArch b) (GetVtcmSize b)"
  have u: "?f idx = EP_UNSUPPORTED \<longleftrightarrow>
      htp_archs info ! idx > GetHtpArch b \<or> cache_vtcm info idx > GetVtcmSize b
      \<or> htp_archs info ! idx \<noteq> 0 \<and> htp_archs info ! idx < 73 \<and> 73 \<le> GetHtpArch b" for idx
    by (auto simp: cache_compatibility_def kHtpV6xAndV7xBreakageArch_def)
  have o: "?f idx = EP_SUPPORTED_OPTIMAL \<longleftrightarrow>
      htp_archs info ! idx = GetHtpArch b \<and> cache_vtcm info idx = GetVtcmSize b" for idx
    by (auto simp: cache_compatibility_def kHtpV6xAndV7xBreakageArch_def)
  show ?thesis
    using validate_htp_v2_cases [of info r] unfolding c r nth_Cons_0 u o by simp
qed

definition example_machine :: backend_view where
  "example_machine = \<lparr>GetBackendId = 6, GetBackendApiVersion = \<lparr>major = 5, minor = 41, patch = 0\<rparr>, GetHtpArch = 81,
     GetSocModel = 88, GetVtcmSize = 8, IsBackendHostMode = True, IsHtpUsrDrvEnabled = (\<lambda>_. Inr False),
     GetHtpUsrDrvVersion = QNN_VERSION_INIT, GetSdkVersion = ''v2.31.0.250130''\<rparr>"

definition example_runtime :: QnnCompatibilityInfoV2 where
  "example_runtime = \<lparr>backend_id = 6, sdk_version = \<lparr>major = 2, minor = 31, patch = 0\<rparr>,
     backend_api_version = \<lparr>major = 5, minor = 41, patch = 0\<rparr>, htp_archs = [81], soc_models = [],
     vtcm_mbs = [8], is_htp_usr_drv = False\<rparr>"

theorem ValidateCompatibilityInfoV2_verdict_witness:
  "ValidateCompatibilityInfoV2 example_machine (example_info\<lparr>is_htp_usr_drv := False\<rparr>) = Inr EP_SUPPORTED_PREFER_RECOMPILATION
   \<and> EP_SUPPORTED_PREFER_RECOMPILATION \<noteq> EP_NOT_APPLICABLE
   \<and> \<not> (\<exists>idx < 2. htp_archs example_info ! idx = 81 \<and> cache_vtcm example_info idx = 8)"
proof -
  have r: "GetRuntimeCompatibilityInfoV2 example_machine = Inr example_runtime"
    by code_simp
  have v: "ValidateCompatibilityInfoV2 example_machine (example_info\<lparr>is_htp_usr_drv := False\<rparr>) = Inr EP_SUPPORTED_PREFER_RECOMPILATION"
    by code_simp
  show ?thesis
    using ValidateCompatibilityInfoV2_verdict [OF r v] v
    by (auto simp: version_gate_def example_info_def example_runtime_def example_machine_def version_le_def cache_vtcm_def)
qed

text \<open>
  For a cache of several SoCs whose SoC models the caller leaves empty, \<open>GetCompatibilityInfo\<close> fills in a single
  SoC model.  Serialisation accepts the record, and reading the string back fails.
\<close>

theorem multi_arch_info_without_soc_models_is_unreadable:
  assumes "GetCompatibilityInfo b (Info_V2 i) = Inr (Info_V2 j)" "soc_models i = []" "length (htp_archs i) > 1"
    and "fields_fit j" "SerializeCompatibilityInfo (Info_V2 j) = Inr s"
  shows "DeserializeCompatibilityInfo s
       = Inl (Status_Fail ''Unrecognized compatibility info format: unequal size in relative fields.'')"
proof -
  have "length (soc_models j) = 1" "htp_archs j = htp_archs i"
    using assms(1-3) by (auto simp: GetCompatibilityInfo_def Let_def and_then_eq_Inr_iff split: if_splits)
  with assms(3-5) show ?thesis by (simp add: SerializeCompatibilityInfo_def Deserialize_v2)
qed

definition multi_arch_info :: QnnCompatibilityInfoV2 where
  "multi_arch_info = \<lparr>backend_id = 6, sdk_version = \<lparr>major = 2, minor = 31, patch = 0\<rparr>,
     backend_api_version = \<lparr>major = 5, minor = 41, patch = 0\<rparr>, htp_archs = [73, 81], soc_models = [88],
     vtcm_mbs = [0, 0], is_htp_usr_drv = False\<rparr>"

theorem multi_arch_info_without_soc_models_is_unreadable_witness:
  "GetCompatibilityInfo example_machine (Info_V2 (example_info\<lparr>soc_models := [], vtcm_mbs := []\<rparr>)) = Inr (Info_V2 multi_arch_info)
   \<and> DeserializeCompatibilityInfo ''v2:6:2.31.0:5.41.0:73,81:88:0,0:0''
       = Inl (Status_Fail ''Unrecognized compatibility info format: unequal size in relative fields.'')"
proof -
  have g: "GetCompatibilityInfo example_machine (Info_V2 (example_info\<lparr>soc_models := [], vtcm_mbs := []\<rparr>))
      = Inr (Info_V2 multi_arch_info)"
    by code_simp
  have s: "SerializeCompatibilityInfo (Info_V2 multi_arch_info) = Inr ''v2:6:2.31.0:5.41.0:73,81:88:0,0:0''" by code_simp
  have f: "fields_fit multi_arch_info"
    by (simp add: fields_fit_def valid_version_def u32_def multi_arch_info_def)
  show ?thesis
    using multi_arch_info_without_soc_models_is_unreadable [OF g _ _ f s] g by (simp add: example_info_def)
qed

end
