(* ===== verification/Qnn_Types.thy ===== *)
theory Qnn_Types
  imports Prelude
begin

text \<open>
  Element types of ONNX and QNN tensors, the mapping between them and the sizes in bytes that the provider computes
  from a shape (\<open>builder/qnn_utils.cc\<close>), and the backend and allocator kinds of \<open>builder/qnn_def.h\<close>.

  The enumerations list the constants the sources name.  A value outside that list, which the C enumerations admit, is
  the last constructor with its number.  Sizes are \<open>size_t\<close>, so a natural number below \<open>2 ^ 64\<close>; the arithmetic is
  \<open>SafeInt\<close> and throws when a result does not fit.
\<close>

section \<open>Element types\<close>

datatype Qnn_DataType_t =
    QNN_DATATYPE_INT_8 | QNN_DATATYPE_INT_16 | QNN_DATATYPE_INT_32 | QNN_DATATYPE_INT_64
  | QNN_DATATYPE_UINT_8 | QNN_DATATYPE_UINT_16 | QNN_DATATYPE_UINT_32 | QNN_DATATYPE_UINT_64
  | QNN_DATATYPE_FLOAT_16 | QNN_DATATYPE_FLOAT_32 | QNN_DATATYPE_FLOAT_64 | QNN_DATATYPE_BFLOAT_16
  | QNN_DATATYPE_BOOL_8
  | QNN_DATATYPE_SFIXED_POINT_4 | QNN_DATATYPE_SFIXED_POINT_8 | QNN_DATATYPE_SFIXED_POINT_16
  | QNN_DATATYPE_SFIXED_POINT_32
  | QNN_DATATYPE_UFIXED_POINT_4 | QNN_DATATYPE_UFIXED_POINT_8 | QNN_DATATYPE_UFIXED_POINT_16
  | QNN_DATATYPE_UFIXED_POINT_32
  | QNN_DATATYPE_STRING | QNN_DATATYPE_UNDEFINED | Qnn_Other_Type nat

datatype ONNXTensorElementDataType =
    ONNX_UNDEFINED | ONNX_FLOAT | ONNX_UINT8 | ONNX_INT8 | ONNX_UINT16 | ONNX_INT16 | ONNX_INT32 | ONNX_INT64
  | ONNX_STRING | ONNX_BOOL | ONNX_FLOAT16 | ONNX_DOUBLE | ONNX_UINT32 | ONNX_UINT64 | ONNX_BFLOAT16
  | ONNX_FLOAT8E4M3FN | ONNX_FLOAT8E4M3FNUZ | ONNX_FLOAT8E5M2 | ONNX_FLOAT8E5M2FNUZ
  | ONNX_UINT4 | ONNX_INT4 | ONNX_UINT2 | ONNX_INT2 | Onnx_Other_Type nat

datatype QnnBackendType = CPU | GPU | DSP | HTP | HTP_FP16 | SERIALIZER

datatype QnnAllocatorType = NO_ALLOCATOR | HTP_SHARED | DX12_SHARED

definition IsIrBackend :: "QnnBackendType \<Rightarrow> bool" where
  "IsIrBackend backend_type \<longleftrightarrow> backend_type = SERIALIZER"

definition IsNpuBackend :: "QnnBackendType \<Rightarrow> bool" where
  "IsNpuBackend backend_type \<longleftrightarrow> backend_type = HTP \<or> backend_type = DSP"

definition IsGpuBackend :: "QnnBackendType \<Rightarrow> bool" where
  "IsGpuBackend backend_type \<longleftrightarrow> backend_type = GPU"

definition IsCpuBackend :: "QnnBackendType \<Rightarrow> bool" where
  "IsCpuBackend backend_type \<longleftrightarrow> backend_type = CPU"

definition IsQpuBackend :: "QnnBackendType \<Rightarrow> bool" where
  "IsQpuBackend backend_type \<longleftrightarrow> IsNpuBackend backend_type \<or> IsGpuBackend backend_type"

definition IsHtpSharedMemoryAllocator :: "QnnAllocatorType \<Rightarrow> bool" where
  "IsHtpSharedMemoryAllocator allocator_type \<longleftrightarrow> allocator_type = HTP_SHARED"

definition IsDx12SharedMemoryAllocator :: "QnnAllocatorType \<Rightarrow> bool" where
  "IsDx12SharedMemoryAllocator allocator_type \<longleftrightarrow> allocator_type = DX12_SHARED"

definition QnnAllocatorTypeToString :: "QnnAllocatorType \<Rightarrow> string" where
  "QnnAllocatorTypeToString allocator_type =
     (case allocator_type of NO_ALLOCATOR \<Rightarrow> ''None'' | HTP_SHARED \<Rightarrow> ''HtpShared'' | DX12_SHARED \<Rightarrow> ''Dx12Shared'')"

definition QnnBackendTypeToString :: "QnnBackendType \<Rightarrow> string" where
  "QnnBackendTypeToString backend_type =
     (case backend_type of CPU \<Rightarrow> ''cpu'' | GPU \<Rightarrow> ''gpu'' | DSP \<Rightarrow> ''dsp'' | HTP \<Rightarrow> ''htp''
        | HTP_FP16 \<Rightarrow> ''htp_fp16'' | SERIALIZER \<Rightarrow> ''ir'')"

definition qnn_type_sizes :: "(Qnn_DataType_t \<times> nat) list" where
  "qnn_type_sizes =
     [(QNN_DATATYPE_INT_8, 1), (QNN_DATATYPE_INT_16, 2), (QNN_DATATYPE_INT_32, 4), (QNN_DATATYPE_INT_64, 8),
      (QNN_DATATYPE_UINT_8, 1), (QNN_DATATYPE_UINT_16, 2), (QNN_DATATYPE_UINT_32, 4), (QNN_DATATYPE_UINT_64, 8),
      (QNN_DATATYPE_FLOAT_16, 2), (QNN_DATATYPE_FLOAT_32, 4), (QNN_DATATYPE_FLOAT_64, 8),
      (QNN_DATATYPE_BFLOAT_16, 2), (QNN_DATATYPE_BOOL_8, 1),
      (QNN_DATATYPE_SFIXED_POINT_4, 1), (QNN_DATATYPE_SFIXED_POINT_8, 1), (QNN_DATATYPE_SFIXED_POINT_16, 2),
      (QNN_DATATYPE_SFIXED_POINT_32, 4),
      (QNN_DATATYPE_UFIXED_POINT_4, 1), (QNN_DATATYPE_UFIXED_POINT_8, 1), (QNN_DATATYPE_UFIXED_POINT_16, 2),
      (QNN_DATATYPE_UFIXED_POINT_32, 4),
      (QNN_DATATYPE_UNDEFINED, 1)]"

definition GetElementSizeByType :: "Qnn_DataType_t \<Rightarrow> nat result" where
  "GetElementSizeByType data_type =
     (case map_of qnn_type_sizes data_type of
        None \<Rightarrow> Inl (Thrown ''Unknown QNN data type'') | Some sz \<Rightarrow> Inr sz)"

definition onnx_type_sizes :: "(ONNXTensorElementDataType \<times> nat) list" where
  "onnx_type_sizes =
     [(ONNX_INT2, 1), (ONNX_UINT2, 1), (ONNX_INT4, 1), (ONNX_UINT4, 1),
      (ONNX_INT8, 1), (ONNX_INT16, 2), (ONNX_INT32, 4), (ONNX_INT64, 8),
      (ONNX_UINT8, 1), (ONNX_UINT16, 2), (ONNX_UINT32, 4), (ONNX_UINT64, 8),
      (ONNX_FLOAT8E4M3FN, 1), (ONNX_FLOAT8E4M3FNUZ, 1), (ONNX_FLOAT8E5M2, 1), (ONNX_FLOAT8E5M2FNUZ, 1),
      (ONNX_FLOAT16, 2), (ONNX_BFLOAT16, 2), (ONNX_FLOAT, 4), (ONNX_DOUBLE, 8), (ONNX_BOOL, 1)]"

definition GetElementSizeByType_onnx :: "ONNXTensorElementDataType \<Rightarrow> nat result" where
  "GetElementSizeByType_onnx elem_type =
     (case map_of onnx_type_sizes elem_type of
        None \<Rightarrow> Inl (Thrown ''Unknown element type'') | Some sz \<Rightarrow> Inr sz)"

definition onnx_type_names :: "(ONNXTensorElementDataType \<times> string) list" where
  "onnx_type_names =
     [(ONNX_INT2, ''int2_t''), (ONNX_UINT2, ''uint2_t''), (ONNX_INT4, ''int4_t''), (ONNX_UINT4, ''uint4_t''),
      (ONNX_INT8, ''int8_t''), (ONNX_INT16, ''int16_t''), (ONNX_INT32, ''int32_t''), (ONNX_INT64, ''int64_t''),
      (ONNX_UINT8, ''uint8_t''), (ONNX_UINT16, ''uint16_t''), (ONNX_UINT32, ''uint32_t''), (ONNX_UINT64, ''uint64_t''),
      (ONNX_FLOAT16, ''float16''), (ONNX_FLOAT, ''float32''), (ONNX_DOUBLE, ''double''), (ONNX_BOOL, ''bool'')]"

definition GetElementNameByType :: "ONNXTensorElementDataType \<Rightarrow> string result" where
  "GetElementNameByType elem_type =
     (case map_of onnx_type_names elem_type of
        None \<Rightarrow> Inl (Thrown ''Unknown element type'') | Some name \<Rightarrow> Inr name)"

section \<open>Checked size arithmetic\<close>

definition size_max :: nat where
  "size_max = 2 ^ 64 - 1"

definition safe_size :: "int \<Rightarrow> nat result" where
  "safe_size x = (if 0 \<le> x \<and> x \<le> int size_max then Inr (nat x) else Inl (Thrown ''Integer overflow''))"

fun safe_product :: "nat \<Rightarrow> int list \<Rightarrow> nat result" where
  "safe_product acc [] = Inr acc"
| "safe_product acc (d # ds) = and_then (safe_size (int acc * d)) (\<lambda>p. safe_product p ds)"

definition GetOnnxTensorDataSizeInBytes_elems :: "nat \<Rightarrow> ONNXTensorElementDataType \<Rightarrow> nat result" where
  "GetOnnxTensorDataSizeInBytes_elems num_elements element_type =
     (if element_type = ONNX_UINT2 \<or> element_type = ONNX_INT2
      then and_then (safe_size (int num_elements + 3)) (\<lambda>n. Inr (n div 4))
      else if element_type = ONNX_UINT4 \<or> element_type = ONNX_INT4
      then and_then (safe_size (int num_elements + 1)) (\<lambda>n. Inr (n div 2))
      else and_then (GetElementSizeByType_onnx element_type) (\<lambda>sz. safe_size (int num_elements * int sz)))"

definition GetOnnxTensorDataSizeInBytes :: "int list \<Rightarrow> ONNXTensorElementDataType \<Rightarrow> nat result" where
  "GetOnnxTensorDataSizeInBytes shape element_type =
     (if shape = [] then GetOnnxTensorDataSizeInBytes_elems 1 element_type
      else and_then (safe_product 1 shape) (\<lambda>n. GetOnnxTensorDataSizeInBytes_elems n element_type))"

definition GetQnnTensorDataSizeInBytes_elems :: "nat \<Rightarrow> Qnn_DataType_t \<Rightarrow> nat result" where
  "GetQnnTensorDataSizeInBytes_elems num_elements element_type =
     (if element_type = QNN_DATATYPE_SFIXED_POINT_4 \<or> element_type = QNN_DATATYPE_UFIXED_POINT_4
      then and_then (safe_size (int num_elements + 1)) (\<lambda>n. Inr (n div 2))
      else and_then (GetElementSizeByType element_type) (\<lambda>sz. safe_size (int num_elements * int sz)))"

definition GetQnnTensorDataSizeInBytes_shape :: "nat list \<Rightarrow> Qnn_DataType_t \<Rightarrow> nat result" where
  "GetQnnTensorDataSizeInBytes_shape shape element_type =
     (if shape = [] then GetQnnTensorDataSizeInBytes_elems 1 element_type
      else and_then (safe_product 1 (map int shape)) (\<lambda>n. GetQnnTensorDataSizeInBytes_elems n element_type))"

section \<open>ONNX to QNN types\<close>

definition CreateMap_base :: "(ONNXTensorElementDataType \<times> Qnn_DataType_t) list" where
  "CreateMap_base =
     [(ONNX_INT8, QNN_DATATYPE_INT_8), (ONNX_INT16, QNN_DATATYPE_INT_16), (ONNX_INT32, QNN_DATATYPE_INT_32),
      (ONNX_INT64, QNN_DATATYPE_INT_64), (ONNX_UINT8, QNN_DATATYPE_UINT_8), (ONNX_UINT16, QNN_DATATYPE_UINT_16),
      (ONNX_UINT32, QNN_DATATYPE_UINT_32), (ONNX_UINT64, QNN_DATATYPE_UINT_64), (ONNX_FLOAT16, QNN_DATATYPE_FLOAT_16),
      (ONNX_FLOAT, QNN_DATATYPE_FLOAT_32), (ONNX_DOUBLE, QNN_DATATYPE_FLOAT_64), (ONNX_BOOL, QNN_DATATYPE_BOOL_8)]"

definition CreateMapQuantize_base :: "(ONNXTensorElementDataType \<times> Qnn_DataType_t) list" where
  "CreateMapQuantize_base =
     [(ONNX_INT2, QNN_DATATYPE_SFIXED_POINT_8), (ONNX_INT4, QNN_DATATYPE_SFIXED_POINT_8),
      (ONNX_INT8, QNN_DATATYPE_SFIXED_POINT_8), (ONNX_INT16, QNN_DATATYPE_SFIXED_POINT_16),
      (ONNX_INT32, QNN_DATATYPE_SFIXED_POINT_32), (ONNX_INT64, QNN_DATATYPE_INT_64),
      (ONNX_UINT4, QNN_DATATYPE_UFIXED_POINT_8), (ONNX_UINT2, QNN_DATATYPE_UFIXED_POINT_8),
      (ONNX_UINT8, QNN_DATATYPE_UFIXED_POINT_8), (ONNX_UINT16, QNN_DATATYPE_UFIXED_POINT_16),
      (ONNX_UINT32, QNN_DATATYPE_UFIXED_POINT_32), (ONNX_UINT64, QNN_DATATYPE_UINT_64),
      (ONNX_FLOAT16, QNN_DATATYPE_FLOAT_16), (ONNX_FLOAT, QNN_DATATYPE_FLOAT_32), (ONNX_DOUBLE, QNN_DATATYPE_FLOAT_64),
      (ONNX_BOOL, QNN_DATATYPE_BOOL_8)]"

definition gpu_override ::
  "(ONNXTensorElementDataType \<times> Qnn_DataType_t) list \<Rightarrow> (ONNXTensorElementDataType \<times> Qnn_DataType_t) list" where
  "gpu_override m =
     assign ONNX_UINT4 QNN_DATATYPE_UFIXED_POINT_4 (assign ONNX_INT4 QNN_DATATYPE_SFIXED_POINT_4 m)"

definition CreateMap :: "QnnBackendType \<Rightarrow> (ONNXTensorElementDataType \<times> Qnn_DataType_t) list" where
  "CreateMap backend_type = (if IsGpuBackend backend_type then gpu_override CreateMap_base else CreateMap_base)"

definition CreateMapQuantize :: "QnnBackendType \<Rightarrow> (ONNXTensorElementDataType \<times> Qnn_DataType_t) list" where
  "CreateMapQuantize backend_type =
     (if IsGpuBackend backend_type then gpu_override CreateMapQuantize_base else CreateMapQuantize_base)"

definition OnnxDataTypeToQnnDataType ::
  "ONNXTensorElementDataType \<Rightarrow> bool \<Rightarrow> QnnBackendType \<Rightarrow> Qnn_DataType_t option" where
  "OnnxDataTypeToQnnDataType onnx_data_type is_quantized backend_type =
     map_of (if is_quantized then CreateMapQuantize backend_type else CreateMap backend_type) onnx_data_type"

definition GetQnnDataType ::
  "bool \<Rightarrow> ONNXTensorElementDataType \<Rightarrow> QnnBackendType \<Rightarrow> Qnn_DataType_t result" where
  "GetQnnDataType is_quantized_tensor onnx_data_type backend_type =
     (case OnnxDataTypeToQnnDataType onnx_data_type is_quantized_tensor backend_type of
        None \<Rightarrow> Inl (Status_Fail ''Failed to map Onnx data type to Qnn data type!'')
      | Some t \<Rightarrow> Inr t)"

section \<open>Facts on sizes\<close>

lemma safe_size_eq_Inr_iff: "safe_size x = Inr n \<longleftrightarrow> 0 \<le> x \<and> x \<le> int size_max \<and> n = nat x"
  by (auto simp: safe_size_def)

lemma safe_size_nat [simp]: "safe_size (int n) = (if n \<le> size_max then Inr n else Inl (Thrown ''Integer overflow''))"
  by (simp add: safe_size_def)

lemma safe_product_Inr: "safe_product acc ds = Inr n \<Longrightarrow> int n = int acc * prod_list ds"
  by (induction ds arbitrary: acc) (auto simp: and_then_eq_Inr_iff safe_size_eq_Inr_iff mult.assoc)

lemma safe_product_int:
  "safe_product acc (map int ds) =
     (if \<forall>i < length ds. acc * prod_list (take (Suc i) ds) \<le> size_max then Inr (acc * prod_list ds)
      else Inl (Thrown ''Integer overflow''))"
proof (induction ds arbitrary: acc)
  case (Cons d ds)
  have "safe_size (int acc * int d) = (if acc * d \<le> size_max then Inr (acc * d) else Inl (Thrown ''Integer overflow''))"
    by (metis of_nat_mult safe_size_nat)
  then show ?case by (auto simp: Cons.IH All_less_Suc2 mult.assoc)
qed simp

lemma GetElementSizeByType_pos: "GetElementSizeByType t = Inr sz \<Longrightarrow> 0 < sz"
  by (cases t) (simp_all add: GetElementSizeByType_def qnn_type_sizes_def)

text \<open>The element sizes agree through the type mapping, except where sub-byte values are widened to a byte.\<close>

definition widened :: "ONNXTensorElementDataType \<Rightarrow> Qnn_DataType_t \<Rightarrow> bool" where
  "widened t u \<longleftrightarrow> t \<in> {ONNX_INT2, ONNX_UINT2, ONNX_INT4, ONNX_UINT4}
     \<and> u \<in> {QNN_DATATYPE_SFIXED_POINT_8, QNN_DATATYPE_UFIXED_POINT_8}"

lemma type_mapping_sizes:
  assumes "OnnxDataTypeToQnnDataType t q b = Some u"
  shows "if widened t u then GetElementSizeByType u = Inr 1
         else GetOnnxTensorDataSizeInBytes_elems n t = GetQnnTensorDataSizeInBytes_elems n u"
  using assms
  by (cases "b = GPU"; cases q; cases t)
    (simp_all add: OnnxDataTypeToQnnDataType_def CreateMap_def CreateMapQuantize_def IsGpuBackend_def gpu_override_def
      CreateMap_base_def CreateMapQuantize_base_def widened_def GetElementSizeByType_def qnn_type_sizes_def
      GetOnnxTensorDataSizeInBytes_elems_def GetQnnTensorDataSizeInBytes_elems_def GetElementSizeByType_onnx_def
      onnx_type_sizes_def assign_def)

section \<open>Properties\<close>

text \<open>
  C32.  The byte size of an initializer does not change when its element type is mapped to QNN, for every backend and
  shape, unless the mapping widens 2-bit or 4-bit values to a byte.  Then the QNN tensor has one byte per element.
\<close>

theorem data_size_preserved_by_type_mapping:
  assumes "OnnxDataTypeToQnnDataType t q b = Some u"
  shows "if widened t u
         then GetQnnTensorDataSizeInBytes_shape shape u =
                (if shape = [] then Inr 1 else safe_product 1 (map int shape))
         else GetQnnTensorDataSizeInBytes_shape shape u = GetOnnxTensorDataSizeInBytes (map int shape) t"
proof (cases "widened t u")
  case False
  then have "GetOnnxTensorDataSizeInBytes_elems n t = GetQnnTensorDataSizeInBytes_elems n u" for n
    using type_mapping_sizes [OF assms, of n] by simp
  with False show ?thesis
    by (simp add: GetQnnTensorDataSizeInBytes_shape_def GetOnnxTensorDataSizeInBytes_def)
next
  case True
  then have u: "GetElementSizeByType u = Inr 1" "u \<noteq> QNN_DATATYPE_SFIXED_POINT_4" "u \<noteq> QNN_DATATYPE_UFIXED_POINT_4"
    using type_mapping_sizes [OF assms, of 0] by (auto simp: widened_def)
  have "and_then (safe_product 1 (map int shape)) (\<lambda>n. safe_size (int n)) = safe_product 1 (map int shape)" if "shape \<noteq> []"
  proof (cases "safe_product 1 (map int shape)")
    case (Inr n)
    then have "n = prod_list shape" "\<forall>i < length shape. prod_list (take (Suc i) shape) \<le> size_max"
      unfolding safe_product_int by (auto split: if_splits)
    then have "n \<le> size_max"
      using that by (auto dest: spec [of _ "length shape - 1"])
    then show ?thesis unfolding Inr by simp
  qed simp
  with True u show ?thesis
    by (simp add: GetQnnTensorDataSizeInBytes_shape_def GetQnnTensorDataSizeInBytes_elems_def size_max_def)
qed

theorem data_size_preserved_by_type_mapping_witness:
  "OnnxDataTypeToQnnDataType ONNX_INT4 True HTP = Some QNN_DATATYPE_SFIXED_POINT_8
   \<and> GetQnnTensorDataSizeInBytes_shape [3, 5] QNN_DATATYPE_SFIXED_POINT_8 = Inr 15"
proof -
  have m: "OnnxDataTypeToQnnDataType ONNX_INT4 True HTP = Some QNN_DATATYPE_SFIXED_POINT_8" by code_simp
  show ?thesis
    using data_size_preserved_by_type_mapping [OF m, of "[3, 5]"] m
    by (simp add: widened_def safe_size_def size_max_def)
qed

end
