(* ===== verification/Quant_Params.thy ===== *)
theory Quant_Params
  imports Qnn_Types Complex_Main
begin

text \<open>
  Quantization parameters: \<open>QnnQuantParamsWrapper\<close> (\<open>builder/qnn_quant_params_wrapper.h\<close> and \<open>.cc\<close>) and the scale
  conversion \<open>ConvertBlockQuantScalesToLpbq\<close> of \<open>builder/qnn_utils.cc\<close> that it calls.

  A wrapper owns buffers, and the raw \<open>Qnn_QuantizeParams_t\<close> inside it points into them, so the model has an explicit
  store.  A \<open>qheap\<close> maps addresses to buffers; \<open>std::make_unique\<close> takes a new address and releasing a \<open>unique_ptr\<close> removes
  the buffer.  Reading through a null or dangling pointer, or past the end of a buffer, is undefined behaviour.

  The tagged union of the SDK is one datatype whose constructor is both the value of \<open>quantizationEncoding\<close> and the
  active union member.  A float is its real value or \<open>Non_Finite\<close>; float division is exact division of reals.
\<close>

section \<open>Data\<close>

datatype float32 = Fin real | Non_Finite

type_synonym addr = nat
type_synonym scale_offset = "float32 \<times> int"

record Qnn_BlockwiseExpansion_t =
  bwe_axis :: int
  scaleOffsets :: "addr option"
  numBlocksPerAxis :: nat
  blockScaleBitwidth :: nat
  blocksScale8 :: "addr option"

datatype buffer =
    Scale_Offsets (scale_offsets: "scale_offset list")
  | Scales_And_Zps (bw_scales: "float32 list") (bw_zps: "int list")
  | Expansion (expansion: Qnn_BlockwiseExpansion_t)
  | Bytes (bytes: "nat list")
  | Dims (dims: "nat list")
  | Float_Scale_Offsets (float_scale_offsets: "(float32 \<times> float32) list")

record qheap =
  next_addr :: addr
  cell_at :: "addr \<Rightarrow> buffer option"

datatype Qnn_Definition_t = QNN_DEFINITION_DEFINED | QNN_DEFINITION_UNDEFINED | Other_Definition nat

datatype Qnn_QuantizationEncoding_t =
    ENCODING_UNDEFINED
  | SCALE_OFFSET float32 int
  | AXIS_SCALE_OFFSET int nat "addr option"
  | BW_SCALE_OFFSET nat float32 int
  | BW_AXIS_SCALE_OFFSET nat int nat "addr option" "addr option"
  | BLOCK "addr option" "addr option"
  | BLOCKWISE_EXPANSION "addr option"
  | BW_FLOAT_BLOCK nat "addr option" "addr option"
  | Other_Encoding nat

record Qnn_QuantizeParams_t =
  encodingDefinition :: Qnn_Definition_t
  quantizationEncoding :: Qnn_QuantizationEncoding_t

definition QNN_QUANTIZE_PARAMS_INIT :: Qnn_QuantizeParams_t where
  "QNN_QUANTIZE_PARAMS_INIT =
     \<lparr>encodingDefinition = QNN_DEFINITION_UNDEFINED, quantizationEncoding = ENCODING_UNDEFINED\<rparr>"

record QnnQuantParamsWrapper =
  params :: Qnn_QuantizeParams_t
  per_channel_data :: "addr option"
  per_channel_scales_size :: nat
  block_scales_data :: "addr option"
  blockwise_expansion_data :: "addr option"
  block_encoding_tensor_rank :: nat
  num_blocks :: nat
  block_encoding_axis_data :: "addr option"
  block_encoding_scale_offsets_data :: "addr option"
  bw_float_block_encoding_scale_offsets_data :: "addr option"

definition QnnQuantParamsWrapper_new :: QnnQuantParamsWrapper where
  "QnnQuantParamsWrapper_new =
     \<lparr>params = QNN_QUANTIZE_PARAMS_INIT, per_channel_data = None, per_channel_scales_size = 0, block_scales_data = None,
      blockwise_expansion_data = None, block_encoding_tensor_rank = 0, num_blocks = 0, block_encoding_axis_data = None,
      block_encoding_scale_offsets_data = None, bw_float_block_encoding_scale_offsets_data = None\<rparr>"

section \<open>The store\<close>

definition make_unique :: "buffer \<Rightarrow> qheap \<Rightarrow> addr \<times> qheap" where
  "make_unique b h = (next_addr h, \<lparr>next_addr = Suc (next_addr h), cell_at = (cell_at h)(next_addr h \<mapsto> b)\<rparr>)"

definition release :: "addr option \<Rightarrow> qheap \<Rightarrow> qheap" where
  "release p h = (case p of None \<Rightarrow> h | Some a \<Rightarrow> h\<lparr>cell_at := (cell_at h)(a := None)\<rparr>)"

definition ub :: "'a result" where
  "ub = Inl (Undefined_Behaviour ''invalid pointer'')"

definition deref :: "qheap \<Rightarrow> addr option \<Rightarrow> buffer result" where
  "deref h p = (case p of None \<Rightarrow> ub | Some a \<Rightarrow> (case cell_at h a of None \<Rightarrow> ub | Some b \<Rightarrow> Inr b))"

definition first_n :: "nat \<Rightarrow> 'a list \<Rightarrow> 'a list result" where
  "first_n n xs = (if n \<le> length xs then Inr (take n xs) else ub)"

definition read_scale_offsets :: "qheap \<Rightarrow> addr option \<Rightarrow> nat \<Rightarrow> scale_offset list result" where
  "read_scale_offsets h p n =
     and_then (deref h p) (\<lambda>b. case b of Scale_Offsets xs \<Rightarrow> first_n n xs | _ \<Rightarrow> ub)"

definition read_scales :: "qheap \<Rightarrow> addr option \<Rightarrow> nat \<Rightarrow> float32 list result" where
  "read_scales h p n = and_then (deref h p) (\<lambda>b. case b of Scales_And_Zps xs _ \<Rightarrow> first_n n xs | _ \<Rightarrow> ub)"

definition read_zps :: "qheap \<Rightarrow> addr option \<Rightarrow> nat \<Rightarrow> int list result" where
  "read_zps h p n = and_then (deref h p) (\<lambda>b. case b of Scales_And_Zps _ zs \<Rightarrow> first_n n zs | _ \<Rightarrow> ub)"

definition read_expansion :: "qheap \<Rightarrow> addr option \<Rightarrow> Qnn_BlockwiseExpansion_t result" where
  "read_expansion h p = and_then (deref h p) (\<lambda>b. case b of Expansion e \<Rightarrow> Inr e | _ \<Rightarrow> ub)"

definition read_bytes :: "qheap \<Rightarrow> addr option \<Rightarrow> nat \<Rightarrow> nat list result" where
  "read_bytes h p n = and_then (deref h p) (\<lambda>b. case b of Bytes xs \<Rightarrow> first_n n xs | _ \<Rightarrow> ub)"

definition read_dims :: "qheap \<Rightarrow> addr option \<Rightarrow> nat \<Rightarrow> nat list result" where
  "read_dims h p n = and_then (deref h p) (\<lambda>b. case b of Dims xs \<Rightarrow> first_n n xs | _ \<Rightarrow> ub)"

definition read_float_scale_offsets :: "qheap \<Rightarrow> addr option \<Rightarrow> nat \<Rightarrow> (float32 \<times> float32) list result" where
  "read_float_scale_offsets h p n =
     and_then (deref h p) (\<lambda>b. case b of Float_Scale_Offsets xs \<Rightarrow> first_n n xs | _ \<Rightarrow> ub)"

section \<open>Queries\<close>

definition defined_encoding :: "QnnQuantParamsWrapper \<Rightarrow> bool" where
  "defined_encoding w \<longleftrightarrow> encodingDefinition (params w) = QNN_DEFINITION_DEFINED"

definition IsPerTensor :: "bool \<Rightarrow> QnnQuantParamsWrapper \<Rightarrow> bool" where
  "IsPerTensor include_bw w \<longleftrightarrow> defined_encoding w
     \<and> (case quantizationEncoding (params w) of SCALE_OFFSET _ _ \<Rightarrow> True | BW_SCALE_OFFSET _ _ _ \<Rightarrow> include_bw | _ \<Rightarrow> False)"

definition GetPerTensorScaleOffset :: "QnnQuantParamsWrapper \<Rightarrow> scale_offset result" where
  "GetPerTensorScaleOffset w =
     (case quantizationEncoding (params w) of
        SCALE_OFFSET scale offset \<Rightarrow> Inr (scale, offset)
      | BW_SCALE_OFFSET _ scale offset \<Rightarrow> Inr (scale, offset)
      | _ \<Rightarrow> Inl (Status_Fail ''GetPerTensorScaleOffset: encoding is not per-tensor.''))"

definition IsPerChannel :: "QnnQuantParamsWrapper \<Rightarrow> bool" where
  "IsPerChannel w \<longleftrightarrow> defined_encoding w
     \<and> (case quantizationEncoding (params w) of
          AXIS_SCALE_OFFSET _ _ _ \<Rightarrow> True | BW_AXIS_SCALE_OFFSET _ _ _ _ _ \<Rightarrow> True | _ \<Rightarrow> False)"

definition IsLPBQ :: "QnnQuantParamsWrapper \<Rightarrow> bool" where
  "IsLPBQ w \<longleftrightarrow> defined_encoding w
     \<and> (case quantizationEncoding (params w) of BLOCKWISE_EXPANSION _ \<Rightarrow> True | _ \<Rightarrow> False)"

definition IsBlockQuantized :: "QnnQuantParamsWrapper \<Rightarrow> bool" where
  "IsBlockQuantized w \<longleftrightarrow> defined_encoding w
     \<and> (case quantizationEncoding (params w) of BLOCK _ _ \<Rightarrow> True | BW_FLOAT_BLOCK _ _ _ \<Rightarrow> True | _ \<Rightarrow> False)"

definition GetScales :: "qheap \<Rightarrow> QnnQuantParamsWrapper \<Rightarrow> float32 list result" where
  "GetScales h w =
     (if \<not> defined_encoding w then Inl (Status_Fail ''Unquantized qparams does not have scales'')
      else case quantizationEncoding (params w) of
        SCALE_OFFSET scale _ \<Rightarrow> Inr [scale]
      | BW_SCALE_OFFSET _ scale _ \<Rightarrow> Inr [scale]
      | AXIS_SCALE_OFFSET _ num_elems p \<Rightarrow>
          (if num_elems > 0 then and_then (read_scale_offsets h p num_elems) (\<lambda>xs. Inr (map fst xs)) else Inr [])
      | BW_AXIS_SCALE_OFFSET _ _ num_elems p _ \<Rightarrow> (if num_elems > 0 then read_scales h p num_elems else Inr [])
      | BLOCK _ p \<Rightarrow>
          (if num_blocks w > 0 then and_then (read_scale_offsets h p (num_blocks w)) (\<lambda>xs. Inr (map fst xs)) else Inr [])
      | _ \<Rightarrow> Inl (Status_Fail ''Unsupported QNN quantization encoding''))"

section \<open>Factories\<close>

text \<open>
  The factories assert that they are given as many offsets as scales, so \<open>zip\<close> is their copying loop.
\<close>

definition qdef :: "Qnn_QuantizationEncoding_t \<Rightarrow> Qnn_QuantizeParams_t" where
  "qdef e = \<lparr>encodingDefinition = QNN_DEFINITION_DEFINED, quantizationEncoding = e\<rparr>"

definition PerTensor :: "float32 \<Rightarrow> int \<Rightarrow> QnnQuantParamsWrapper" where
  "PerTensor scale offset = QnnQuantParamsWrapper_new\<lparr>params := qdef (SCALE_OFFSET scale offset)\<rparr>"

definition PerTensorBw :: "float32 \<Rightarrow> int \<Rightarrow> nat \<Rightarrow> QnnQuantParamsWrapper" where
  "PerTensorBw scale offset bitwidth = QnnQuantParamsWrapper_new\<lparr>params := qdef (BW_SCALE_OFFSET bitwidth scale offset)\<rparr>"

definition PerChannel :: "float32 list \<Rightarrow> int list \<Rightarrow> int \<Rightarrow> qheap \<Rightarrow> QnnQuantParamsWrapper \<times> qheap" where
  "PerChannel scales offsets axis h =
     (let num_elems = length scales
      in if num_elems > 0 then
           (let (a, h) = make_unique (Scale_Offsets (zip scales offsets)) h
            in (QnnQuantParamsWrapper_new\<lparr>params := qdef (AXIS_SCALE_OFFSET axis num_elems (Some a)),
                  per_channel_scales_size := num_elems, per_channel_data := Some a\<rparr>, h))
         else (QnnQuantParamsWrapper_new\<lparr>params := qdef (AXIS_SCALE_OFFSET axis num_elems None)\<rparr>, h))"

definition PerChannelBw :: "float32 list \<Rightarrow> int list \<Rightarrow> int \<Rightarrow> nat \<Rightarrow> qheap \<Rightarrow> QnnQuantParamsWrapper \<times> qheap" where
  "PerChannelBw scales offsets axis bitwidth h =
     (let num_elems = length scales
      in if num_elems > 0 then
           (let (a, h) = make_unique (Scales_And_Zps scales offsets) h
            in (QnnQuantParamsWrapper_new\<lparr>params := qdef (BW_AXIS_SCALE_OFFSET bitwidth axis num_elems (Some a) (Some a)),
                  per_channel_scales_size := num_elems, per_channel_data := Some a\<rparr>, h))
         else (QnnQuantParamsWrapper_new\<lparr>params := qdef (BW_AXIS_SCALE_OFFSET bitwidth axis num_elems None None)\<rparr>, h))"

text \<open>
  Without channels \<open>LowPowerBlockwise\<close> divides by zero.
\<close>

definition LowPowerBlockwise ::
  "float32 list \<Rightarrow> nat list \<Rightarrow> int list \<Rightarrow> int \<Rightarrow> nat \<Rightarrow> qheap \<Rightarrow> (QnnQuantParamsWrapper \<times> qheap) result" where
  "LowPowerBlockwise per_channel_float_scales per_block_int_scales offsets axis block_scale_bitwidth h =
     (let num_elems = length per_channel_float_scales
      in if num_elems = 0 then Inl (Undefined_Behaviour ''division by zero'')
         else
           (let (so, h1) = make_unique (Scale_Offsets (zip per_channel_float_scales offsets)) h;
                (bs, h2) = make_unique (Bytes per_block_int_scales) h1;
                (e, h3) = make_unique (Expansion \<lparr>bwe_axis = axis, scaleOffsets = Some so,
                            numBlocksPerAxis = length per_block_int_scales div num_elems,
                            blockScaleBitwidth = block_scale_bitwidth, blocksScale8 = Some bs\<rparr>) h2
            in Inr (QnnQuantParamsWrapper_new\<lparr>params := qdef (BLOCKWISE_EXPANSION (Some e)),
                      per_channel_scales_size := num_elems, per_channel_data := Some so,
                      block_scales_data := Some bs, blockwise_expansion_data := Some e\<rparr>, h3)))"

definition Block :: "float32 list \<Rightarrow> int list \<Rightarrow> nat list \<Rightarrow> qheap \<Rightarrow> QnnQuantParamsWrapper \<times> qheap" where
  "Block scales offsets block_sizes h =
     (let (d, h1) = make_unique (Dims block_sizes) h;
          qp = QnnQuantParamsWrapper_new\<lparr>num_blocks := length scales, block_encoding_tensor_rank := length block_sizes,
                 block_encoding_axis_data := Some d\<rparr>
      in if length scales > 0 then
           (let (s, h2) = make_unique (Scale_Offsets (zip scales offsets)) h1
            in (qp\<lparr>params := qdef (BLOCK (Some d) (Some s)), block_encoding_scale_offsets_data := Some s\<rparr>, h2))
         else (qp\<lparr>params := qdef (BLOCK (Some d) None)\<rparr>, h1))"

definition BwFloatBlock ::
  "float32 list \<Rightarrow> float32 list \<Rightarrow> nat \<Rightarrow> nat list \<Rightarrow> qheap \<Rightarrow> QnnQuantParamsWrapper \<times> qheap" where
  "BwFloatBlock scales offsets bitwidth block_sizes h =
     (let (d, h1) = make_unique (Dims block_sizes) h;
          (s, h2) = make_unique (Float_Scale_Offsets (zip scales offsets)) h1
      in (QnnQuantParamsWrapper_new\<lparr>params := qdef (BW_FLOAT_BLOCK bitwidth (Some d) (Some s)),
            block_encoding_tensor_rank := length block_sizes, block_encoding_axis_data := Some d,
            num_blocks := length scales, bw_float_block_encoding_scale_offsets_data := Some s\<rparr>, h2))"

section \<open>Copying from raw parameters\<close>

type_synonym qstate = "QnnQuantParamsWrapper \<times> qheap"

definition q_then :: "'a result \<Rightarrow> qstate \<Rightarrow> ('a \<Rightarrow> unit result \<times> qstate) \<Rightarrow> unit result \<times> qstate" where
  "q_then r s f = (case r of Inl e \<Rightarrow> (Inl e, s) | Inr x \<Rightarrow> f x)"

definition reset_per_channel :: "qstate \<Rightarrow> qstate" where
  "reset_per_channel s =
     (let (w, h) = s
      in if per_channel_data w \<noteq> None
         then (w\<lparr>per_channel_data := None, params := QNN_QUANTIZE_PARAMS_INIT\<rparr>, release (per_channel_data w) h)
         else (w, h))"

definition Init_axis :: "int \<Rightarrow> nat \<Rightarrow> addr option \<Rightarrow> qstate \<Rightarrow> unit result \<times> qstate" where
  "Init_axis axis num_elems src s =
     (let (w, h) = s
      in if num_elems > 0 then
           q_then (read_scale_offsets h src num_elems) s (\<lambda>xs.
             let (a, h) = make_unique (Scale_Offsets xs) h
             in (Inr (), w\<lparr>per_channel_data := Some a, params := qdef (AXIS_SCALE_OFFSET axis num_elems (Some a))\<rparr>, h))
         else (Inr (), w\<lparr>params := qdef (AXIS_SCALE_OFFSET axis num_elems None)\<rparr>, h))"

definition Init_bw_axis :: "nat \<Rightarrow> int \<Rightarrow> nat \<Rightarrow> addr option \<Rightarrow> addr option \<Rightarrow> qstate \<Rightarrow> unit result \<times> qstate" where
  "Init_bw_axis bitwidth axis num_elems src_scales src_offsets s =
     (let (w, h) = s
      in if num_elems > 0 then
           q_then (read_scales h src_scales num_elems) s (\<lambda>xs.
           q_then (read_zps h src_offsets num_elems) s (\<lambda>zs.
             let (a, h) = make_unique (Scales_And_Zps xs zs) h
             in (Inr (), w\<lparr>per_channel_data := Some a,
                   params := qdef (BW_AXIS_SCALE_OFFSET bitwidth axis num_elems (Some a) (Some a))\<rparr>, h)))
         else (Inr (), w\<lparr>params := qdef (BW_AXIS_SCALE_OFFSET bitwidth axis num_elems None None)\<rparr>, h))"

text \<open>
  The members are replaced one after the other: a new buffer is taken, the old one released, then the source read.
\<close>

definition Init_expansion :: "addr option \<Rightarrow> nat \<Rightarrow> qstate \<Rightarrow> unit result \<times> qstate" where
  "Init_expansion src num_scaleoffsets s =
     (let (w, h0) = s;
          h1 = release (blockwise_expansion_data w) h0
      in q_then (read_expansion h1 src) s (\<lambda>e.
         q_then (read_scale_offsets h1 (scaleOffsets e) num_scaleoffsets) s (\<lambda>so.
           let h2 = release (block_scales_data w) h1
           in q_then (read_bytes h2 (blocksScale8 e) (num_scaleoffsets * numBlocksPerAxis e)) s (\<lambda>bs.
                let (a, h3) = make_unique (Scale_Offsets so) h2;
                    (b, h4) = make_unique (Bytes bs) h3;
                    (c, h5) = make_unique (Expansion (e\<lparr>scaleOffsets := Some a, blocksScale8 := Some b\<rparr>)) h4
                in (Inr (), w\<lparr>per_channel_scales_size := num_scaleoffsets, per_channel_data := Some a,
                      block_scales_data := Some b, blockwise_expansion_data := Some c,
                      params := qdef (BLOCKWISE_EXPANSION (Some c))\<rparr>, h5)))))"

definition Init_block :: "addr option \<Rightarrow> addr option \<Rightarrow> nat \<Rightarrow> nat \<Rightarrow> qstate \<Rightarrow> unit result \<times> qstate" where
  "Init_block src_sizes src_scales num_scaleoffsets tensor_rank s =
     (let (w, h0) = s;
          h1 = release (block_encoding_axis_data w) h0
      in q_then (read_dims h1 src_sizes tensor_rank) s (\<lambda>ds.
           let h2 = release (block_encoding_scale_offsets_data w) h1
           in q_then (read_scale_offsets h2 src_scales num_scaleoffsets) s (\<lambda>so.
                let (d, h3) = make_unique (Dims ds) h2;
                    (a, h4) = make_unique (Scale_Offsets so) h3
                in (Inr (), w\<lparr>num_blocks := num_scaleoffsets, block_encoding_tensor_rank := tensor_rank,
                      block_encoding_axis_data := Some d, block_encoding_scale_offsets_data := Some a,
                      params := qdef (BLOCK (Some d) (Some a))\<rparr>, h4))))"

definition Init_bw_float_block :: "nat \<Rightarrow> addr option \<Rightarrow> addr option \<Rightarrow> nat \<Rightarrow> nat \<Rightarrow> qstate \<Rightarrow> unit result \<times> qstate" where
  "Init_bw_float_block bitwidth src_sizes src_scales num_scaleoffsets tensor_rank s =
     (let (w, h0) = s;
          h1 = release (block_encoding_axis_data w) h0
      in q_then (read_dims h1 src_sizes tensor_rank) s (\<lambda>ds.
           let h2 = release (bw_float_block_encoding_scale_offsets_data w) h1
           in q_then (read_float_scale_offsets h2 src_scales num_scaleoffsets) s (\<lambda>so.
                let (d, h3) = make_unique (Dims ds) h2;
                    (a, h4) = make_unique (Float_Scale_Offsets so) h3
                in (Inr (), w\<lparr>block_encoding_tensor_rank := tensor_rank,
                      block_encoding_axis_data := Some d, bw_float_block_encoding_scale_offsets_data := Some a,
                      params := qdef (BW_FLOAT_BLOCK bitwidth (Some d) (Some a))\<rparr>, h4))))"

definition Init_raw :: "Qnn_QuantizeParams_t \<Rightarrow> nat \<Rightarrow> nat \<Rightarrow> qstate \<Rightarrow> unit result \<times> qstate" where
  "Init_raw src num_scaleoffsets tensor_rank s0 =
     (let (w, h) = reset_per_channel s0
      in if encodingDefinition src \<noteq> QNN_DEFINITION_DEFINED then (Inr (), w\<lparr>params := src\<rparr>, h)
         else case quantizationEncoding src of
             SCALE_OFFSET _ _ \<Rightarrow> (Inr (), w\<lparr>params := src\<rparr>, h)
           | BW_SCALE_OFFSET _ _ _ \<Rightarrow> (Inr (), w\<lparr>params := src\<rparr>, h)
           | AXIS_SCALE_OFFSET axis num_elems p \<Rightarrow> Init_axis axis num_elems p (w, h)
           | BW_AXIS_SCALE_OFFSET bitwidth axis num_elems ps pz \<Rightarrow> Init_bw_axis bitwidth axis num_elems ps pz (w, h)
           | BLOCKWISE_EXPANSION p \<Rightarrow> Init_expansion p num_scaleoffsets (w, h)
           | BLOCK ps pq \<Rightarrow> Init_block ps pq num_scaleoffsets tensor_rank (w, h)
           | BW_FLOAT_BLOCK bitwidth ps pq \<Rightarrow> Init_bw_float_block bitwidth ps pq num_scaleoffsets tensor_rank (w, h)
           | _ \<Rightarrow> (Inl (Status_Fail ''Unsupported QNN quantization encoding''), (w, h)))"

definition assign_from :: "QnnQuantParamsWrapper \<Rightarrow> qstate \<Rightarrow> unit result \<times> qstate" where
  "assign_from other s =
     (let (w, h) = s;
          num_scaleoffsets = (if IsLPBQ other then per_channel_scales_size other
                              else if IsBlockQuantized other then num_blocks other else 0);
          w = (if \<not> IsLPBQ other \<and> IsBlockQuantized other
               then w\<lparr>block_encoding_tensor_rank := block_encoding_tensor_rank other\<rparr> else w)
      in Init_raw (params other) num_scaleoffsets (block_encoding_tensor_rank w) (w, h))"

definition Copy :: "QnnQuantParamsWrapper \<Rightarrow> qheap \<Rightarrow> unit result \<times> qstate" where
  "Copy other h = assign_from other (QnnQuantParamsWrapper_new, h)"

section \<open>Following a tensor through transpose and unsqueeze\<close>

definition static_cast_size_t :: "int \<Rightarrow> nat" where
  "static_cast_size_t i = nat (i mod 2 ^ 64)"

definition HandleTranspose :: "nat list \<Rightarrow> qstate \<Rightarrow> unit result \<times> qstate" where
  "HandleTranspose perm s =
     (let (w, h) = s
      in if \<not> IsPerChannel w \<and> \<not> IsLPBQ w then (Inr (), s)
         else case quantizationEncoding (params w) of
           AXIS_SCALE_OFFSET axis n p \<Rightarrow>
             (if static_cast_size_t axis < length perm
              then (Inr (), w\<lparr>params := qdef (AXIS_SCALE_OFFSET (int (perm ! static_cast_size_t axis)) n p)\<rparr>, h)
              else (Inl (Status_Fail ''Axis value is out of range of the provided permutation''), s))
         | BW_AXIS_SCALE_OFFSET bw axis n p q \<Rightarrow>
             (if static_cast_size_t axis < length perm
              then (Inr (), w\<lparr>params := qdef (BW_AXIS_SCALE_OFFSET bw (int (perm ! static_cast_size_t axis)) n p q)\<rparr>, h)
              else (Inl (Status_Fail ''Axis value is out of range of the provided permutation''), s))
         | BLOCKWISE_EXPANSION (Some a) \<Rightarrow>
             q_then (read_expansion h (Some a)) s (\<lambda>e.
               if static_cast_size_t (bwe_axis e) < length perm
               then (Inr (), w, h\<lparr>cell_at := (cell_at h)
                      (a \<mapsto> Expansion (e\<lparr>bwe_axis := int (perm ! static_cast_size_t (bwe_axis e))\<rparr>))\<rparr>)
               else (Inl (Status_Fail ''LPBQ axis value is out of range of the provided permutation''), s))
         | _ \<Rightarrow> (Inr (), s))"

text \<open>
  The nested loop that looks for the axis in the unsqueezed shape: \<open>skip_to\<close> is the inner loop, which stops at a
  dimension equal to the wanted one and reads past the end when there is none.
\<close>

function skip_to :: "nat \<Rightarrow> nat list \<Rightarrow> nat \<Rightarrow> nat result" where
  "skip_to d new_shape j =
     (if j \<ge> length new_shape then Inl (Undefined_Behaviour ''new_shape index out of range'')
      else if d \<noteq> new_shape ! j then skip_to d new_shape (Suc j)
      else Inr j)"
  by auto
termination by (relation "measure (\<lambda>(d, ns, j). length ns - j)") auto
declare skip_to.simps [simp del]

fun find_axis :: "nat list \<Rightarrow> nat list \<Rightarrow> int \<Rightarrow> nat \<Rightarrow> nat \<Rightarrow> nat result" where
  "find_axis [] new_shape axis num_found j = Inr j"
| "find_axis (d # ds) new_shape axis num_found j =
     (if j \<ge> length new_shape then Inr j
      else and_then (skip_to d new_shape j) (\<lambda>j.
        if num_found = static_cast_size_t axis then Inr j
        else find_axis ds new_shape axis (num_found + 1) (j + 1)))"

definition unsqueezed_axis :: "int \<Rightarrow> nat list \<Rightarrow> nat list \<Rightarrow> int result" where
  "unsqueezed_axis axis orig_shape new_shape =
     and_then (find_axis orig_shape new_shape axis 0 0) (\<lambda>j. Inr (if j = static_cast_size_t axis then axis else int j))"

definition HandleUnsqueeze :: "nat list \<Rightarrow> nat list \<Rightarrow> qstate \<Rightarrow> unit result \<times> qstate" where
  "HandleUnsqueeze orig_shape new_shape s =
     (let (w, h) = s
      in if \<not> IsPerChannel w \<and> \<not> IsLPBQ w then (Inr (), s)
         else if \<not> length orig_shape < length new_shape
         then (Inl (Status_Fail ''Expected unsqueezed shape to have a greater rank.''), s)
         else case quantizationEncoding (params w) of
           AXIS_SCALE_OFFSET axis n p \<Rightarrow>
             q_then (unsqueezed_axis axis orig_shape new_shape) s (\<lambda>axis.
               (Inr (), w\<lparr>params := qdef (AXIS_SCALE_OFFSET axis n p)\<rparr>, h))
         | BW_AXIS_SCALE_OFFSET bw axis n p q \<Rightarrow>
             q_then (unsqueezed_axis axis orig_shape new_shape) s (\<lambda>axis.
               (Inr (), w\<lparr>params := qdef (BW_AXIS_SCALE_OFFSET bw axis n p q)\<rparr>, h))
         | BLOCKWISE_EXPANSION (Some a) \<Rightarrow>
             q_then (read_expansion h (Some a)) s (\<lambda>e.
             q_then (unsqueezed_axis (bwe_axis e) orig_shape new_shape) s (\<lambda>axis.
               (Inr (), w, h\<lparr>cell_at := (cell_at h)(a \<mapsto> Expansion (e\<lparr>bwe_axis := axis\<rparr>))\<rparr>)))
         | _ \<Rightarrow> (Inl (Status_Fail ''Unhandled quantization encoding''), s))"

section \<open>Block scales\<close>

definition val :: "float32 \<Rightarrow> real" where
  "val x = (case x of Fin r \<Rightarrow> r | Non_Finite \<Rightarrow> 0)"

definition bad_scale :: "float32 \<Rightarrow> bool" where
  "bad_scale x = (case x of Fin r \<Rightarrow> r < 0 | Non_Finite \<Rightarrow> True)"

text \<open>\<open>std::round\<close> on a value that is not negative: ties go up.\<close>

definition round_up_half :: "real \<Rightarrow> nat" where
  "round_up_half x = nat \<lfloor>x + 1 / 2\<rfloor>"

definition channel_max :: "real list \<Rightarrow> nat \<Rightarrow> nat \<Rightarrow> nat \<Rightarrow> real" where
  "channel_max bq num_blocks_per_channel num_channels c =
     fold (\<lambda>b max_scale. let s = bq ! (b * num_channels + c) in if s > max_scale then s else max_scale)
       [0..<num_blocks_per_channel] 0"

definition block_int_scale :: "nat \<Rightarrow> real \<Rightarrow> real \<Rightarrow> nat" where
  "block_int_scale max_int_scale pc_scale raw_scale =
     (if pc_scale \<le> 0 then 1 else max 1 (min (round_up_half (raw_scale / pc_scale)) max_int_scale))"

definition ConvertBlockQuantScalesToLpbq ::
  "float32 list \<Rightarrow> int list \<Rightarrow> nat \<Rightarrow> nat \<Rightarrow> nat \<Rightarrow> (float32 list \<times> nat list \<times> int list) result" where
  "ConvertBlockQuantScalesToLpbq bq_scales bq_offsets num_blocks_per_channel num_channels bitwidth =
     (if length bq_scales \<noteq> num_blocks_per_channel * num_channels
      then Inl (Status_Fail ''BQ scales size does not match num_blocks_per_channel * num_channels'')
      else if bq_offsets \<noteq> [] \<and> length bq_offsets \<noteq> length bq_scales
      then Inl (Status_Fail ''BQ offsets size must be empty or equal to bq_scales size'')
      else if bitwidth \<noteq> 4 then Inl (Status_Fail ''BQ to LPBQ conversion is only supported for 4-bit'')
      else if list_ex (\<lambda>z. z \<noteq> 0) bq_offsets
      then Inl (Status_Fail ''LPBQ conversion requires symmetric quantization (all block zero-points must be 0)'')
      else if list_ex bad_scale bq_scales then Inl (Status_Fail ''BQ scales must be non-negative and finite'')
      else
        (let max_int_scale = 2 ^ bitwidth;
             bq = map val bq_scales;
             pc = map (\<lambda>c. channel_max bq num_blocks_per_channel num_channels c / real max_int_scale) [0..<num_channels]
         in Inr (map Fin pc,
                 concat (map (\<lambda>c. map (\<lambda>b. block_int_scale max_int_scale (pc ! c) (bq ! (b * num_channels + c)))
                           [0..<num_blocks_per_channel]) [0..<num_channels]),
                 replicate num_channels 0)))"

section \<open>Parameters of an ONNX tensor\<close>

text \<open>
  An \<open>Init\<close> that fails leaves the raw parameters partly written and its callers drop the wrapper; the model then keeps
  the parameters from before.

  \<open>QuantParam\<close> is what the ONNX graph says of a tensor: the scales and zero points its initializers unpack to
  (\<open>None\<close> where the zero point is absent), the axis, the block size and the shape of the scale tensor.
\<close>

record QuantParam =
  unpacked_scales :: "float32 list result"
  unpacked_zero_points :: "(int list \<times> ONNXTensorElementDataType) result option"
  quant_axis :: "int option"
  block_size :: "int option"
  scale_shape :: "int list"

definition normalized_axis :: "int option \<Rightarrow> nat \<Rightarrow> int" where
  "normalized_axis a io_rank =
     (let axis = (case a of None \<Rightarrow> 1 | Some x \<Rightarrow> x) in if axis < 0 then axis + int io_rank else axis)"

definition zps_or_zeros :: "int list \<Rightarrow> nat \<Rightarrow> int list" where
  "zps_or_zeros zero_points num_elems = (if zero_points = [] then replicate num_elems 0 else zero_points)"

definition Init_per_tensor :: "bool \<Rightarrow> float32 \<Rightarrow> QuantParam \<Rightarrow> int list \<Rightarrow> qstate \<Rightarrow> unit result \<times> qstate" where
  "Init_per_tensor is_int4 scale q zero_points s =
     (let (w, h) = s;
          enc = (\<lambda>offset. if is_int4 then BW_SCALE_OFFSET 4 scale offset else SCALE_OFFSET scale offset)
      in if unpacked_zero_points q \<noteq> None then
           (if length zero_points \<noteq> 1 then (Inl (Status_Fail ''Expected one zero-point value''), s)
            else (Inr (), w\<lparr>params := qdef (enc (zero_points ! 0))\<rparr>, h))
         else (Inr (), w\<lparr>params := qdef (enc 0)\<rparr>, h))"

definition Init_per_channel ::
  "bool \<Rightarrow> float32 list \<Rightarrow> QuantParam \<Rightarrow> int list \<Rightarrow> nat list option \<Rightarrow> qstate \<Rightarrow> unit result \<times> qstate" where
  "Init_per_channel is_int4 scales q zero_points io_shape s =
     (case io_shape of
        None \<Rightarrow> (Inl (Status_Fail ''Cannot get shape''), s)
      | Some shape \<Rightarrow>
          (let (w, h) = s;
               axis = normalized_axis (quant_axis q) (length shape);
               num_elems = length scales
           in if \<not> (axis \<ge> 0 \<and> axis < int (length shape))
              then (Inl (Status_Fail ''Quantization axis must be within the range [0, rank - 1]''), s)
              else if \<not> num_elems > 1 then (Inl (Status_Fail ''Expected more than one scale value''), s)
              else if \<not> (zero_points = [] \<or> length zero_points = num_elems)
              then (Inl (Status_Fail ''Expected the same number of zero-points and scales for per-channel quantization''), s)
              else if is_int4 then
                (let (a, h) = make_unique (Scales_And_Zps scales (zps_or_zeros zero_points num_elems)) h
                 in (Inr (), w\<lparr>per_channel_data := Some a,
                       params := qdef (BW_AXIS_SCALE_OFFSET 4 axis num_elems (Some a) (Some a))\<rparr>, h))
              else
                (let (a, h) = make_unique (Scale_Offsets (zip scales (zps_or_zeros zero_points num_elems))) h
                 in (Inr (), w\<lparr>per_channel_data := Some a,
                       params := qdef (AXIS_SCALE_OFFSET axis num_elems (Some a))\<rparr>, h))))"

definition effective_scale_shape :: "int list \<Rightarrow> nat list \<Rightarrow> nat \<Rightarrow> int list" where
  "effective_scale_shape sh io_shape axis =
     (if length sh = 1 \<and> length io_shape > 1 \<and> io_shape ! (1 - axis) > 0 \<and> sh ! 0 mod int (io_shape ! (1 - axis)) = 0
      then [int (io_shape ! (1 - axis)), sh ! 0 div int (io_shape ! (1 - axis))]
      else sh)"

definition block_major :: "nat \<Rightarrow> nat \<Rightarrow> nat \<Rightarrow> 'a list \<Rightarrow> 'a list" where
  "block_major axis num_blocks_per_channel num_channels scales =
     (if axis = 0 then scales
      else concat (map (\<lambda>b. map (\<lambda>c. scales ! (c * num_blocks_per_channel + b)) [0..<num_channels])
             [0..<num_blocks_per_channel]))"

definition move_assign :: "QnnQuantParamsWrapper \<Rightarrow> qstate \<Rightarrow> qstate" where
  "move_assign src s =
     (let (w, h) = s
      in (src, release (per_channel_data w) (release (block_scales_data w) (release (blockwise_expansion_data w)
               (release (block_encoding_axis_data w) (release (block_encoding_scale_offsets_data w)
               (release (bw_float_block_encoding_scale_offsets_data w) h)))))))"

definition Init_block_quant ::
  "bool \<Rightarrow> float32 list \<Rightarrow> QuantParam \<Rightarrow> int list \<Rightarrow> ONNXTensorElementDataType \<Rightarrow> nat list option
   \<Rightarrow> qstate \<Rightarrow> unit result \<times> qstate" where
  "Init_block_quant optimize scales q zero_points io_type io_shape s =
     (if \<not> optimize \<or> io_type \<noteq> ONNX_INT4 \<or> list_ex (\<lambda>z. z \<noteq> 0) zero_points then (Inr (), s)
      else case io_shape of
        None \<Rightarrow> (Inl (Status_Fail ''Cannot get shape''), s)
      | Some shape \<Rightarrow>
          (let axis = normalized_axis (quant_axis q) (length shape)
           in if \<not> (axis = 0 \<or> axis = 1)
              then (Inl (Status_Fail ''Only axis 0 or 1 is supported for block quantization LPBQ conversion''), s)
              else
                (let ax = nat axis;
                     eff = effective_scale_shape (scale_shape q) shape ax
                 in if \<not> (length eff \<ge> 2 \<and> length eff \<le> 4)
                    then (Inl (Status_Fail ''Block quantization scale tensors must have rank between 2 and 4 for LPBQ conversion''), s)
                    else if \<not> (eff ! 0 > 0 \<and> eff ! 1 > 0)
                    then (Inl (Status_Fail ''Block quantization scale tensor dimensions must be positive''), s)
                    else if eff ! 0 * eff ! 1 \<noteq> int (length scales)
                    then (Inl (Status_Fail ''Block quantization scale tensor shape product must equal number of scales''), s)
                    else
                      (let nb = nat (eff ! ax); nc = nat (eff ! (1 - ax))
                       in case ConvertBlockQuantScalesToLpbq (block_major ax nb nc scales) zero_points nb nc 4 of
                            Inl _ \<Rightarrow> (Inr (), s)
                          | Inr (pcs, ints, offs) \<Rightarrow>
                              q_then (LowPowerBlockwise pcs ints offs (1 - axis) 4 (snd s)) s (\<lambda>(w', h').
                                (Inr (), move_assign w' (fst s, h')))))))"

definition Init_onnx ::
  "bool \<Rightarrow> ONNXTensorElementDataType \<Rightarrow> nat list option \<Rightarrow> QuantParam option \<Rightarrow> qstate \<Rightarrow> unit result \<times> qstate" where
  "Init_onnx optimize io_type io_shape ort_quant_params s0 =
     (let s = reset_per_channel s0
      in case ort_quant_params of
           None \<Rightarrow> (Inr (), (fst s)\<lparr>params := QNN_QUANTIZE_PARAMS_INIT\<rparr>, snd s)
         | Some q \<Rightarrow>
             q_then (unpacked_scales q) s (\<lambda>scales.
             q_then (case unpacked_zero_points q of None \<Rightarrow> Inr ([], ONNX_UNDEFINED) | Some r \<Rightarrow> r) s (\<lambda>(zero_points, zp_type).
               let is_int4 = (zp_type = ONNX_INT4 \<or> zp_type = ONNX_UINT4);
                   is_block_quant = (case block_size q of None \<Rightarrow> False | Some b \<Rightarrow> b > 0);
                   is_per_channel = (length scales > 1 \<and> \<not> is_block_quant);
                   is_per_tensor = (length scales = 1 \<and> \<not> is_block_quant)
               in if is_per_tensor then Init_per_tensor is_int4 (scales ! 0) q zero_points s
                  else if is_per_channel then Init_per_channel is_int4 scales q zero_points io_shape s
                  else if is_block_quant then Init_block_quant optimize scales q zero_points io_type io_shape s
                  else (Inl (Status_Fail ''Unexpected tensor kind for QuantParamsWrapper::Init()''), s))))"

section \<open>What a wrapper denotes\<close>

datatype qvalue =
    V_Plain Qnn_QuantizeParams_t
  | V_Channels int "scale_offset list"
  | V_ChannelsBw nat int "float32 list" "int list"
  | V_Expansion int nat nat "scale_offset list" "nat list"
  | V_Blocks "nat list" "scale_offset list"
  | V_FloatBlocks nat "nat list" "(float32 \<times> float32) list"

definition denote_expansion :: "qheap \<Rightarrow> nat \<Rightarrow> Qnn_BlockwiseExpansion_t \<Rightarrow> qvalue result" where
  "denote_expansion h n e =
     and_then (read_scale_offsets h (scaleOffsets e) n) (\<lambda>so.
     and_then (read_bytes h (blocksScale8 e) (n * numBlocksPerAxis e)) (\<lambda>bs.
       Inr (V_Expansion (bwe_axis e) (numBlocksPerAxis e) (blockScaleBitwidth e) so bs)))"

definition denote :: "qheap \<Rightarrow> QnnQuantParamsWrapper \<Rightarrow> qvalue result" where
  "denote h w =
     (if \<not> defined_encoding w then Inr (V_Plain (params w))
      else case quantizationEncoding (params w) of
        SCALE_OFFSET _ _ \<Rightarrow> Inr (V_Plain (params w))
      | BW_SCALE_OFFSET _ _ _ \<Rightarrow> Inr (V_Plain (params w))
      | AXIS_SCALE_OFFSET axis n p \<Rightarrow>
          (if n = 0 then Inr (V_Channels axis [])
           else and_then (read_scale_offsets h p n) (\<lambda>xs. Inr (V_Channels axis xs)))
      | BW_AXIS_SCALE_OFFSET bw axis n p q \<Rightarrow>
          (if n = 0 then Inr (V_ChannelsBw bw axis [] [])
           else and_then (read_scales h p n) (\<lambda>xs. and_then (read_zps h q n) (\<lambda>zs. Inr (V_ChannelsBw bw axis xs zs))))
      | BLOCKWISE_EXPANSION p \<Rightarrow> and_then (read_expansion h p) (denote_expansion h (per_channel_scales_size w))
      | BLOCK p q \<Rightarrow>
          and_then (read_dims h p (block_encoding_tensor_rank w)) (\<lambda>ds.
          and_then (read_scale_offsets h q (num_blocks w)) (\<lambda>so. Inr (V_Blocks ds so)))
      | BW_FLOAT_BLOCK bw p q \<Rightarrow>
          and_then (read_dims h p (block_encoding_tensor_rank w)) (\<lambda>ds.
          and_then (read_float_scale_offsets h q (num_blocks w)) (\<lambda>so. Inr (V_FloatBlocks bw ds so)))
      | _ \<Rightarrow> Inl (Status_Fail ''Unsupported QNN quantization encoding''))"

definition owned :: "QnnQuantParamsWrapper \<Rightarrow> addr set" where
  "owned w = set_option (per_channel_data w) \<union> set_option (block_scales_data w) \<union> set_option (blockwise_expansion_data w)
     \<union> set_option (block_encoding_axis_data w) \<union> set_option (block_encoding_scale_offsets_data w)
     \<union> set_option (bw_float_block_encoding_scale_offsets_data w)"

definition pointers :: "qheap \<Rightarrow> QnnQuantParamsWrapper \<Rightarrow> addr set" where
  "pointers h w =
     (if \<not> defined_encoding w then {}
      else case quantizationEncoding (params w) of
        AXIS_SCALE_OFFSET _ n p \<Rightarrow> (if n = 0 then {} else set_option p)
      | BW_AXIS_SCALE_OFFSET _ _ n p q \<Rightarrow> (if n = 0 then {} else set_option p \<union> set_option q)
      | BLOCKWISE_EXPANSION p \<Rightarrow> set_option p \<union>
          (case read_expansion h p of Inl _ \<Rightarrow> {} | Inr e \<Rightarrow> set_option (scaleOffsets e) \<union> set_option (blocksScale8 e))
      | BLOCK p q \<Rightarrow> set_option p \<union> set_option q
      | BW_FLOAT_BLOCK _ p q \<Rightarrow> set_option p \<union> set_option q
      | _ \<Rightarrow> {})"

definition heap_ok :: "qheap \<Rightarrow> bool" where
  "heap_ok h \<longleftrightarrow> (\<forall>a. cell_at h a \<noteq> None \<longrightarrow> a < next_addr h)"

lemmas reads = read_scale_offsets_def read_scales_def read_zps_def read_expansion_def read_bytes_def read_dims_def
  read_float_scale_offsets_def

lemma deref_agree: "(\<forall>a \<in> set_option p. cell_at h' a = cell_at h a) \<Longrightarrow> deref h' p = deref h p"
  by (cases p) (simp_all add: deref_def)

lemma deref_None [simp]: "deref h None = ub"
  by (simp add: deref_def)

lemma deref_Some: "cell_at h a = Some b \<Longrightarrow> deref h (Some a) = Inr b"
  by (simp add: deref_def)

lemma deref_eq_Inr_iff: "deref h p = Inr b \<longleftrightarrow> (\<exists>a. p = Some a \<and> cell_at h a = Some b)"
  by (auto simp: deref_def ub_def split: option.splits)

lemma first_n_self [simp]: "n = length xs \<Longrightarrow> first_n n xs = Inr xs"
  by (simp add: first_n_def)

lemma first_n_eq_Inr_iff: "first_n n xs = Inr ys \<longleftrightarrow> n \<le> length xs \<and> ys = take n xs"
  by (auto simp: first_n_def ub_def)

lemma ub_neq [simp]: "ub \<noteq> Inr x"
  by (simp add: ub_def)

lemma read_Some:
  "cell_at h a = Some (Scale_Offsets so) \<Longrightarrow> read_scale_offsets h (Some a) n = first_n n so"
  "cell_at h a = Some (Scales_And_Zps xs zs) \<Longrightarrow> read_scales h (Some a) n = first_n n xs"
  "cell_at h a = Some (Scales_And_Zps xs zs) \<Longrightarrow> read_zps h (Some a) n = first_n n zs"
  "cell_at h a = Some (Expansion e) \<Longrightarrow> read_expansion h (Some a) = Inr e"
  "cell_at h a = Some (Bytes bs) \<Longrightarrow> read_bytes h (Some a) n = first_n n bs"
  "cell_at h a = Some (Dims ds) \<Longrightarrow> read_dims h (Some a) n = first_n n ds"
  "cell_at h a = Some (Float_Scale_Offsets fs) \<Longrightarrow> read_float_scale_offsets h (Some a) n = first_n n fs"
  by (simp_all add: reads deref_Some)

lemma read_length:
  "read_scale_offsets h p n = Inr so \<Longrightarrow> length so = n"
  "read_scales h p n = Inr xs \<Longrightarrow> length xs = n"
  "read_zps h p n = Inr zs \<Longrightarrow> length zs = n"
  "read_bytes h p n = Inr bs \<Longrightarrow> length bs = n"
  "read_dims h p n = Inr ds \<Longrightarrow> length ds = n"
  "read_float_scale_offsets h p n = Inr fs \<Longrightarrow> length fs = n"
  by (auto simp: reads and_then_def first_n_eq_Inr_iff split: sum.split_asm buffer.split_asm)

lemma read_cell:
  "read_expansion h p = Inr e \<Longrightarrow> \<exists>a. p = Some a \<and> cell_at h a = Some (Expansion e)"
  "read_scale_offsets h p n = Inr so \<Longrightarrow> \<exists>a xs. p = Some a \<and> cell_at h a = Some (Scale_Offsets xs)"
  "read_bytes h p n = Inr bs \<Longrightarrow> \<exists>a xs. p = Some a \<and> cell_at h a = Some (Bytes xs)"
  by (auto simp: reads and_then_def deref_eq_Inr_iff split: sum.split_asm buffer.split_asm)

lemma denote_expansion_agree:
  assumes "\<forall>a \<in> set_option (scaleOffsets e) \<union> set_option (blocksScale8 e). cell_at h' a = cell_at h a"
  shows "denote_expansion h' n e = denote_expansion h n e"
  using assms by (simp add: denote_expansion_def reads deref_agree [of "scaleOffsets e" h' h] deref_agree [of "blocksScale8 e" h' h])

text \<open>What a wrapper denotes depends on the buffers it points to and on nothing else in the store.\<close>

lemma denote_agree:
  assumes "\<forall>a \<in> pointers h w. cell_at h' a = cell_at h a"
  shows "denote h' w = denote h w"
proof (cases "defined_encoding w")
  case True
  show ?thesis
  proof (cases "quantizationEncoding (params w)")
    case (BLOCKWISE_EXPANSION p)
    have "deref h' p = deref h p"
      using assms True BLOCKWISE_EXPANSION by (intro deref_agree) (simp add: pointers_def ball_Un)
    then have p: "read_expansion h' p = read_expansion h p" by (simp add: reads)
    show ?thesis
    proof (cases "read_expansion h p")
      case (Inr e)
      then have "denote_expansion h' n e = denote_expansion h n e" for n
        using assms True BLOCKWISE_EXPANSION by (intro denote_expansion_agree) (simp add: pointers_def)
      then show ?thesis using True BLOCKWISE_EXPANSION p by (simp add: denote_def Inr)
    qed (use True BLOCKWISE_EXPANSION p in \<open>simp add: denote_def\<close>)
  qed (use assms True in \<open>simp_all add: denote_def pointers_def reads deref_agree [of _ h' h] split: if_splits\<close>)
qed (simp add: denote_def)

section \<open>Copies\<close>

lemma make_unique_simps:
  "fst (make_unique b h) = next_addr h"
  "next_addr (snd (make_unique b h)) = Suc (next_addr h)"
  "cell_at (snd (make_unique b h)) a = (if a = next_addr h then Some b else cell_at h a)"
  by (simp_all add: make_unique_def)

lemma q_then_Inr [simp]: "q_then (Inr x) s f = f x"
  by (simp add: q_then_def)

lemma release_None [simp]: "release None h = h"
  by (simp add: release_def)

text \<open>The state after a copy, seen from the store before it.\<close>

definition separate :: "qheap \<Rightarrow> qstate \<Rightarrow> bool" where
  "separate h s \<longleftrightarrow> pointers (snd s) (fst s) \<subseteq> owned (fst s) \<and> owned (fst s) \<subseteq> {next_addr h..<next_addr (snd s)}
     \<and> (\<forall>a < next_addr h. cell_at (snd s) a = cell_at h a) \<and> next_addr h \<le> next_addr (snd s)"

definition float_block :: "QnnQuantParamsWrapper \<Rightarrow> bool" where
  "float_block w = (case quantizationEncoding (params w) of BW_FLOAT_BLOCK _ _ _ \<Rightarrow> defined_encoding w | _ \<Rightarrow> False)"

lemma Copy_cases:
  assumes "denote h w = Inr v" "\<not> float_block w"
  shows "fst (Copy w h) = Inr () \<and> denote (snd (snd (Copy w h))) (fst (snd (Copy w h))) = Inr v
    \<and> separate h (snd (Copy w h))"
proof (cases "defined_encoding w")
  case False
  then show ?thesis
    using assms
    by (simp add: Copy_def assign_from_def Init_raw_def reset_per_channel_def QnnQuantParamsWrapper_new_def
        defined_encoding_def denote_def IsLPBQ_def IsBlockQuantized_def separate_def pointers_def owned_def)
next
  case True
  note defs = Copy_def assign_from_def Init_raw_def reset_per_channel_def QnnQuantParamsWrapper_new_def
    IsLPBQ_def IsBlockQuantized_def separate_def pointers_def owned_def denote_def defined_encoding_def qdef_def
  show ?thesis
  proof (cases "quantizationEncoding (params w)")
    case (AXIS_SCALE_OFFSET axis n p)
    show ?thesis
    proof (cases "n = 0")
      case False
      then obtain xs where "read_scale_offsets h p n = Inr xs" "v = V_Channels axis xs"
        using assms(1) True AXIS_SCALE_OFFSET by (auto simp: denote_def and_then_eq_Inr_iff)
      then show ?thesis
        using AXIS_SCALE_OFFSET True False read_length(1) [of h p n xs]
        by (auto simp: defs Init_axis_def make_unique_def read_Some)
    qed (use AXIS_SCALE_OFFSET True assms(1) in \<open>simp add: defs Init_axis_def\<close>)
  next
    case (BW_AXIS_SCALE_OFFSET bw axis n p q)
    show ?thesis
    proof (cases "n = 0")
      case False
      then obtain xs zs where "read_scales h p n = Inr xs" "read_zps h q n = Inr zs" "v = V_ChannelsBw bw axis xs zs"
        using assms(1) True BW_AXIS_SCALE_OFFSET by (auto simp: denote_def and_then_eq_Inr_iff)
      then show ?thesis
        using BW_AXIS_SCALE_OFFSET True False read_length(2) [of h p n xs] read_length(3) [of h q n zs]
        by (auto simp: defs Init_bw_axis_def make_unique_def read_Some)
    qed (use BW_AXIS_SCALE_OFFSET True assms(1) in \<open>simp add: defs Init_bw_axis_def\<close>)
  next
    case (BLOCK p q)
    then obtain ds so where "read_dims h p (block_encoding_tensor_rank w) = Inr ds"
      "read_scale_offsets h q (num_blocks w) = Inr so" "v = V_Blocks ds so"
      using assms(1) True by (auto simp: denote_def and_then_eq_Inr_iff)
    then show ?thesis
      using BLOCK True read_length(5) [of h p _ ds] read_length(1) [of h q _ so]
      by (auto simp: defs Init_block_def make_unique_def read_Some)
  next
    case (BLOCKWISE_EXPANSION p)
    then obtain e so bs where "read_expansion h p = Inr e"
      "read_scale_offsets h (scaleOffsets e) (per_channel_scales_size w) = Inr so"
      "read_bytes h (blocksScale8 e) (per_channel_scales_size w * numBlocksPerAxis e) = Inr bs"
      "v = V_Expansion (bwe_axis e) (numBlocksPerAxis e) (blockScaleBitwidth e) so bs"
      using assms(1) True by (auto simp: denote_def denote_expansion_def and_then_eq_Inr_iff)
    then show ?thesis
      using BLOCKWISE_EXPANSION True read_length(1) [of h _ _ so] read_length(4) [of h _ _ bs]
      by (auto simp: defs Init_expansion_def make_unique_def read_Some denote_expansion_def)
  next
    case (BW_FLOAT_BLOCK bw p q)
    then show ?thesis using assms True by (simp add: float_block_def)
  qed (use assms True in \<open>simp_all add: defs\<close>)
qed

lemma separate_original:
  assumes "separate h s" "pointers h w \<subseteq> {..<next_addr h}"
  shows "denote (snd s) w = denote h w"
  using assms by (intro denote_agree) (auto simp: separate_def)

section \<open>Transpose\<close>

definition axis_of :: "qvalue \<Rightarrow> int option" where
  "axis_of v = (case v of V_Channels a _ \<Rightarrow> Some a | V_ChannelsBw _ a _ _ \<Rightarrow> Some a
     | V_Expansion a _ _ _ _ \<Rightarrow> Some a | _ \<Rightarrow> None)"

definition with_axis :: "int \<Rightarrow> qvalue \<Rightarrow> qvalue" where
  "with_axis a v = (case v of V_Channels _ xs \<Rightarrow> V_Channels a xs | V_ChannelsBw bw _ xs zs \<Rightarrow> V_ChannelsBw bw a xs zs
     | V_Expansion _ n b so bs \<Rightarrow> V_Expansion a n b so bs | _ \<Rightarrow> v)"

lemma static_cast_size_t_small [simp]: "0 \<le> a \<Longrightarrow> a < 2 ^ 31 \<Longrightarrow> static_cast_size_t a = nat a"
  by (simp add: static_cast_size_t_def)

lemma denote_axis_cases:
  assumes "denote h w = Inr v" "axis_of v = Some a"
  obtains (axis) n p where "quantizationEncoding (params w) = AXIS_SCALE_OFFSET a n p" "defined_encoding w"
  | (bw_axis) bw n p q where "quantizationEncoding (params w) = BW_AXIS_SCALE_OFFSET bw a n p q" "defined_encoding w"
  | (expansion) c e where "quantizationEncoding (params w) = BLOCKWISE_EXPANSION (Some c)" "defined_encoding w"
      "cell_at h c = Some (Expansion e)" "bwe_axis e = a"
  using assms
  by (auto simp: denote_def axis_of_def denote_expansion_def and_then_eq_Inr_iff
      split: if_splits Qnn_QuantizationEncoding_t.splits dest!: read_cell(1))

text \<open>Writing the axis of an expansion leaves the arrays it points to as they are.\<close>

lemma denote_set_expansion_axis:
  assumes "quantizationEncoding (params w) = BLOCKWISE_EXPANSION (Some c)" "defined_encoding w"
    and "cell_at h c = Some (Expansion e)" "denote h w = Inr v"
  shows "denote (h\<lparr>cell_at := (cell_at h)(c \<mapsto> Expansion (e\<lparr>bwe_axis := b\<rparr>))\<rparr>) w = Inr (with_axis b v)"
proof -
  let ?h = "h\<lparr>cell_at := (cell_at h)(c \<mapsto> Expansion (e\<lparr>bwe_axis := b\<rparr>))\<rparr>"
  obtain so bs where v: "read_scale_offsets h (scaleOffsets e) (per_channel_scales_size w) = Inr so"
    "read_bytes h (blocksScale8 e) (per_channel_scales_size w * numBlocksPerAxis e) = Inr bs"
    "v = V_Expansion (bwe_axis e) (numBlocksPerAxis e) (blockScaleBitwidth e) so bs"
    using assms by (auto simp: denote_def denote_expansion_def and_then_eq_Inr_iff read_Some)
  have "deref ?h (scaleOffsets e) = deref h (scaleOffsets e)" "deref ?h (blocksScale8 e) = deref h (blocksScale8 e)"
    using read_cell(2) [OF v(1)] read_cell(3) [OF v(2)] assms(3) by (auto intro!: deref_agree)
  then have "read_scale_offsets ?h (scaleOffsets e) n = read_scale_offsets h (scaleOffsets e) n"
    "read_bytes ?h (blocksScale8 e) n = read_bytes h (blocksScale8 e) n" for n by (simp_all add: reads)
  then show ?thesis
    using assms(1,2) v by (simp add: denote_def denote_expansion_def with_axis_def read_Some)
qed

lemma HandleTranspose_denote:
  assumes v: "denote h w = Inr v" and a: "axis_of v = Some a" "0 \<le> a" "a < 2 ^ 31" "nat a < length perm"
  shows "\<exists>s'. HandleTranspose perm (w, h) = (Inr (), s') \<and> denote (snd s') (fst s') = Inr (with_axis (int (perm ! nat a)) v)
    \<and> (\<forall>c. c \<notin> pointers h w \<longrightarrow> cell_at (snd s') c = cell_at h c)"
  using v a(1)
proof (cases rule: denote_axis_cases)
  case (expansion c e)
  then show ?thesis
    using a denote_set_expansion_axis [OF expansion(1,2,3) v, of "int (perm ! nat a)"]
    by (auto simp: HandleTranspose_def IsLPBQ_def read_expansion_def deref_def pointers_def)
qed (use v a in \<open>auto simp: HandleTranspose_def IsPerChannel_def denote_def defined_encoding_def qdef_def with_axis_def
      axis_of_def and_then_eq_Inr_iff split: if_splits\<close>)

section \<open>Unsqueeze\<close>

inductive unsqueezes :: "nat list \<Rightarrow> nat list \<Rightarrow> bool" where
  unsq_Nil: "unsqueezes [] []"
| unsq_one: "unsqueezes ds ns \<Longrightarrow> unsqueezes ds (1 # ns)"
| unsq_dim: "unsqueezes ds ns \<Longrightarrow> unsqueezes (d # ds) (d # ns)"

inductive_cases unsqueezes_ConsE: "unsqueezes (d # ds) (n # ns)"
inductive_cases unsqueezes_NilE: "unsqueezes (d # ds) []"

lemma unsqueezes_prod: "unsqueezes ds ns \<Longrightarrow> prod_list ns = prod_list ds"
  by (induction rule: unsqueezes.induct) simp_all

lemma unsqueezes_drop_one: "unsqueezes ds' ns \<Longrightarrow> ds' = 1 # ds \<Longrightarrow> unsqueezes ds ns"
  by (induction rule: unsqueezes.induct) (auto intro: unsqueezes.intros unsq_one [simplified])

lemma skip_to_finds:
  assumes "unsqueezes (d # ds) ns"
  shows "\<exists>m rest. ns = replicate m 1 @ d # rest \<and> unsqueezes ds rest
    \<and> skip_to d (pre @ ns) (length pre) = Inr (length pre + m)"
  using assms
proof (induction ns arbitrary: pre rule: list.induct)
  case (Cons n ns)
  show ?case
  proof (cases "n = d")
    case True
    then have "unsqueezes ds ns" using Cons.prems unsqueezes_drop_one [of "1 # ds" ns] by (auto elim: unsqueezes_ConsE)
    with True show ?thesis
      by (intro exI [of _ 0] exI [of _ ns]) (simp add: skip_to.simps [of d "pre @ d # ns" "length pre"])
  next
    case False
    then have n: "n = 1" "unsqueezes (d # ds) ns" using Cons.prems by (auto elim: unsqueezes_ConsE)
    from Cons.IH [OF n(2), of "pre @ [n]"] obtain m rest where
      "ns = replicate m 1 @ d # rest" "unsqueezes ds rest" "skip_to d (pre @ n # ns) (Suc (length pre)) = Inr (Suc (length pre + m))"
      by auto
    moreover have "skip_to d (pre @ n # ns) (length pre) = skip_to d (pre @ n # ns) (Suc (length pre))"
      using False by (subst skip_to.simps) auto
    ultimately show ?thesis
      using n by (intro exI [of _ "Suc m"] exI [of _ rest]) simp
  qed
qed (auto elim: unsqueezes_NilE)

lemma find_axis_correct:
  assumes "unsqueezes ds ns" "nf \<le> a" "a < nf + length ds" "a < 2 ^ 31"
  shows "\<exists>xs rest. ns = xs @ (ds ! (a - nf)) # rest \<and> prod_list xs = prod_list (take (a - nf) ds)
    \<and> unsqueezes (drop (Suc (a - nf)) ds) rest
    \<and> find_axis ds (pre @ ns) (int a) nf (length pre) = Inr (length pre + length xs)"
  using assms
proof (induction ds arbitrary: ns pre nf)
  case (Cons d ds)
  obtain m rest where m: "ns = replicate m 1 @ d # rest" "unsqueezes ds rest"
    "skip_to d (pre @ ns) (length pre) = Inr (length pre + m)"
    using skip_to_finds [OF Cons.prems(1), of pre] by blast
  show ?case
  proof (cases "nf = a")
    case True
    with m Cons.prems(4) show ?thesis
      by (intro exI [of _ "replicate m 1"] exI [of _ rest]) simp
  next
    case False
    then obtain k where k: "a - nf = Suc k" "a - Suc nf = k" "Suc nf \<le> a" "a < Suc nf + length ds"
      using Cons.prems by (cases "a - nf") auto
    obtain xs rest' where x: "rest = xs @ (ds ! k) # rest'" "prod_list xs = prod_list (take k ds)"
      "unsqueezes (drop (Suc k) ds) rest'"
      "find_axis ds ((pre @ replicate m 1 @ [d]) @ rest) (int a) (Suc nf) (length (pre @ replicate m 1 @ [d]))
         = Inr (length (pre @ replicate m 1 @ [d]) + length xs)"
      using Cons.IH [OF m(2) k(3,4) Cons.prems(4), of "pre @ replicate m 1 @ [d]"] k(2) by auto
    show ?thesis
      using False m(1,3) x k Cons.prems(4)
      by (intro exI [of _ "replicate m 1 @ d # xs"] exI [of _ rest']) simp
  qed
qed simp

lemma unsqueezed_axis_correct:
  assumes "unsqueezes orig new" "0 \<le> a" "nat a < length orig" "a < 2 ^ 31"
  shows "\<exists>j < length new. unsqueezed_axis a orig new = Inr (int j) \<and> new ! j = orig ! nat a
    \<and> prod_list (take j new) = prod_list (take (nat a) orig)
    \<and> prod_list (drop (Suc j) new) = prod_list (drop (Suc (nat a)) orig)"
proof -
  obtain xs rest where x: "new = xs @ (orig ! nat a) # rest" "prod_list xs = prod_list (take (nat a) orig)"
    "unsqueezes (drop (Suc (nat a)) orig) rest" "find_axis orig new a 0 0 = Inr (length xs)"
    using find_axis_correct [OF assms(1), of 0 "nat a" "[]"] assms(2,3,4) by (auto simp: nat_less_iff)
  show ?thesis
    using x assms(2,4) unsqueezes_prod [OF x(3)]
    by (intro exI [of _ "length xs"]) (auto simp: unsqueezed_axis_def)
qed

lemma HandleUnsqueeze_denote:
  assumes v: "denote h w = Inr v" "axis_of v = Some a" and r: "length orig < length new"
    and j: "unsqueezed_axis a orig new = Inr b"
  shows "\<exists>s'. HandleUnsqueeze orig new (w, h) = (Inr (), s') \<and> denote (snd s') (fst s') = Inr (with_axis b v)"
  using v
proof (cases rule: denote_axis_cases)
  case (expansion c e)
  then show ?thesis
    using r j denote_set_expansion_axis [OF expansion(1,2,3) v(1), of b]
    by (auto simp: HandleUnsqueeze_def IsLPBQ_def read_Some)
qed (use v r j in \<open>auto simp: HandleUnsqueeze_def IsPerChannel_def denote_def defined_encoding_def qdef_def with_axis_def
      axis_of_def and_then_eq_Inr_iff split: if_splits\<close>)

section \<open>Block scale conversion\<close>







section \<open>Properties\<close>


definition empty_heap :: qheap where
  "empty_heap = \<lparr>next_addr = 0, cell_at = \<lambda>_. None\<rparr>"

definition example_lpbq :: qstate where
  "example_lpbq = (case LowPowerBlockwise [Fin (1 / 4), Fin 2] [1, 16, 3, 7] [0, 0] 1 4 empty_heap of Inr s \<Rightarrow> s)"

lemma example_lpbq_denotes:
  "denote (snd example_lpbq) (fst example_lpbq) = Inr (V_Expansion 1 2 4 [(Fin (1 / 4), 0), (Fin 2, 0)] [1, 16, 3, 7])"
  "\<not> float_block (fst example_lpbq)" "next_addr (snd example_lpbq) = 3"
  "pointers (snd example_lpbq) (fst example_lpbq) \<subseteq> {..<next_addr (snd example_lpbq)}"
  by (simp_all add: example_lpbq_def LowPowerBlockwise_def make_unique_def empty_heap_def QnnQuantParamsWrapper_new_def
      denote_def denote_expansion_def defined_encoding_def qdef_def read_Some float_block_def pointers_def
      flip: numeral_2_eq_2)


text \<open>
  C23.  Transposing a copy moves the quantization axis of the copy to the entry of the given permutation and does not
  change what the original denotes, for per-channel and expansion encodings alike.
\<close>

theorem transposed_copy_is_independent:
  assumes "denote h w = Inr v" "pointers h w \<subseteq> {..<next_addr h}"
    and "axis_of v = Some a" "0 \<le> a" "a < 2 ^ 31" "nat a < length perm"
  shows "\<exists>w1 h1 w2 h2. Copy w h = (Inr (), w1, h1) \<and> HandleTranspose perm (w1, h1) = (Inr (), w2, h2)
    \<and> denote h2 w2 = Inr (with_axis (int (perm ! nat a)) v) \<and> denote h2 w = Inr v"
proof -
  have "\<not> float_block w"
    using assms(1,3) by (auto simp: float_block_def denote_def axis_of_def and_then_eq_Inr_iff
        split: Qnn_QuantizationEncoding_t.splits)
  from Copy_cases [OF assms(1) this] obtain w1 h1 where c: "Copy w h = (Inr (), w1, h1)" "denote h1 w1 = Inr v"
    "separate h (w1, h1)" by (cases "Copy w h") auto
  obtain w2 h2 where t: "HandleTranspose perm (w1, h1) = (Inr (), w2, h2)"
    "denote h2 w2 = Inr (with_axis (int (perm ! nat a)) v)" "\<forall>c. c \<notin> pointers h1 w1 \<longrightarrow> cell_at h2 c = cell_at h1 c"
    using HandleTranspose_denote [OF c(2) assms(3-6)] by auto
  have "cell_at h2 c = cell_at h c" if "c \<in> pointers h w" for c
  proof -
    have "c < next_addr h" using that assms(2) by auto
    then have "c \<notin> pointers h1 w1" "cell_at h1 c = cell_at h c" using c(3) by (auto simp: separate_def)
    then show ?thesis using t(3) by metis
  qed
  then have "denote h2 w = Inr v" using assms(1) denote_agree [of h w h2] by simp
  with c(1) t show ?thesis by blast
qed

theorem transposed_copy_is_independent_witness:
  "\<exists>w1 h1 w2 h2. Copy (fst example_lpbq) (snd example_lpbq) = (Inr (), w1, h1) \<and> HandleTranspose [1, 0] (w1, h1) = (Inr (), w2, h2)
    \<and> denote h2 w2 = Inr (V_Expansion 0 2 4 [(Fin (1 / 4), 0), (Fin 2, 0)] [1, 16, 3, 7])"
  using transposed_copy_is_independent [OF example_lpbq_denotes(1,4), of 1 "[1, 0]"]
  by (auto simp: axis_of_def with_axis_def)

text \<open>
  C24.  When a shape is unsqueezed, the quantization axis is moved to a dimension of the same size, with the same number
  of elements before and after it, so every element keeps its channel.  The search never reads past the new shape.
\<close>

theorem HandleUnsqueeze_keeps_channels:
  assumes "denote h w = Inr v" "axis_of v = Some a" "0 \<le> a" "a < 2 ^ 31" "nat a < length orig"
    and "unsqueezes orig new" "length orig < length new"
  shows "\<exists>w' h' j. HandleUnsqueeze orig new (w, h) = (Inr (), w', h') \<and> denote h' w' = Inr (with_axis (int j) v)
    \<and> j < length new \<and> new ! j = orig ! nat a
    \<and> prod_list (take j new) = prod_list (take (nat a) orig)
    \<and> prod_list (drop (Suc j) new) = prod_list (drop (Suc (nat a)) orig)"
proof -
  obtain j where j: "j < length new" "unsqueezed_axis a orig new = Inr (int j)" "new ! j = orig ! nat a"
    "prod_list (take j new) = prod_list (take (nat a) orig)"
    "prod_list (drop (Suc j) new) = prod_list (drop (Suc (nat a)) orig)"
    using unsqueezed_axis_correct [OF assms(6,3,5,4)] by blast
  obtain s' where "HandleUnsqueeze orig new (w, h) = (Inr (), s')" "denote (snd s') (fst s') = Inr (with_axis (int j) v)"
    using HandleUnsqueeze_denote [OF assms(1,2,7) j(2)] by blast
  with j show ?thesis by (cases s') auto
qed

theorem HandleUnsqueeze_keeps_channels_witness:
  "\<exists>w' h' j. HandleUnsqueeze [5, 2] [1, 5, 1, 2] example_lpbq = (Inr (), w', h')
    \<and> denote h' w' = Inr (with_axis (int j) (V_Expansion 1 2 4 [(Fin (1 / 4), 0), (Fin 2, 0)] [1, 16, 3, 7]))
    \<and> j < 4 \<and> [1, 5, 1, 2] ! j = (2 :: nat)"
proof -
  have u: "unsqueezes [5, 2] [1, 5, 1, 2]"
    by (intro unsq_one unsq_dim unsq_Nil)
  obtain w' h' j where "HandleUnsqueeze [5, 2] [1, 5, 1, 2] example_lpbq = (Inr (), w', h')"
    "denote h' w' = Inr (with_axis (int j) (V_Expansion 1 2 4 [(Fin (1 / 4), 0), (Fin 2, 0)] [1, 16, 3, 7]))"
    "j < 4" "[1, 5, 1, 2] ! j = (2 :: nat)"
    using HandleUnsqueeze_keeps_channels [OF example_lpbq_denotes(1), of 1 "[5, 2]" "[1, 5, 1, 2]"] u
    by (auto simp: axis_of_def)
  then show ?thesis by blast
qed



text \<open>
  Copying a copy of float block parameters loses the blocks: the first copy does not record how many blocks it
  holds, so the second one has an empty array of scales and offsets.
\<close>

theorem second_copy_of_float_blocks_is_empty:
  assumes "BwFloatBlock scales offsets bitwidth block_sizes h = (w, h0)" "length offsets = length scales"
  shows "\<exists>w1 h1 w2 h2 d1 p1 d2 p2. Copy w h0 = (Inr (), w1, h1) \<and> Copy w1 h1 = (Inr (), w2, h2)
    \<and> params w1 = qdef (BW_FLOAT_BLOCK bitwidth (Some d1) (Some p1))
    \<and> cell_at h1 p1 = Some (Float_Scale_Offsets (zip scales offsets))
    \<and> params w2 = qdef (BW_FLOAT_BLOCK bitwidth (Some d2) (Some p2))
    \<and> cell_at h2 p2 = Some (Float_Scale_Offsets [])"
proof -
  note defs = Copy_def assign_from_def Init_raw_def reset_per_channel_def Init_bw_float_block_def make_unique_def
    IsLPBQ_def IsBlockQuantized_def defined_encoding_def qdef_def QnnQuantParamsWrapper_new_def
  define n where "n = next_addr h"
  have w: "w = QnnQuantParamsWrapper_new\<lparr>params := qdef (BW_FLOAT_BLOCK bitwidth (Some n) (Some (Suc n))),
      block_encoding_tensor_rank := length block_sizes, block_encoding_axis_data := Some n,
      num_blocks := length scales, bw_float_block_encoding_scale_offsets_data := Some (Suc n)\<rparr>"
    "next_addr h0 = Suc (Suc n)" "cell_at h0 n = Some (Dims block_sizes)"
    "cell_at h0 (Suc n) = Some (Float_Scale_Offsets (zip scales offsets))"
    using assms(1) by (auto simp: BwFloatBlock_def make_unique_def n_def)
  obtain w1 h1 where c1: "Copy w h0 = (Inr (), w1, h1)" "next_addr h1 = n + 4" "num_blocks w1 = 0"
    "params w1 = qdef (BW_FLOAT_BLOCK bitwidth (Some (n + 2)) (Some (n + 3)))"
    "block_encoding_tensor_rank w1 = length block_sizes"
    "cell_at h1 (n + 2) = Some (Dims block_sizes)" "cell_at h1 (n + 3) = Some (Float_Scale_Offsets (zip scales offsets))"
    using w assms(2) by (auto simp: defs read_Some eval_nat_numeral)
  obtain w2 h2 where c2: "Copy w1 h1 = (Inr (), w2, h2)" "params w2 = qdef (BW_FLOAT_BLOCK bitwidth (Some (n + 4)) (Some (n + 5)))"
    "cell_at h2 (n + 5) = Some (Float_Scale_Offsets [])"
    using c1 by (auto simp: defs read_Some first_n_def eval_nat_numeral)
  show ?thesis using c1 c2 by blast
qed

theorem second_copy_of_float_blocks_is_empty_witness:
  "\<exists>w h0 w1 h1 w2 h2 d p. BwFloatBlock [Fin 1] [Fin 0] 4 [1, 1] empty_heap = (w, h0)
    \<and> Copy w h0 = (Inr (), w1, h1) \<and> Copy w1 h1 = (Inr (), w2, h2)
    \<and> params w2 = qdef (BW_FLOAT_BLOCK 4 (Some d) (Some p)) \<and> cell_at h2 p = Some (Float_Scale_Offsets [])"
proof -
  obtain w h0 where b: "BwFloatBlock [Fin 1] [Fin 0] 4 [1, 1] empty_heap = (w, h0)" by (metis surj_pair)
  obtain w1 h1 w2 h2 d2 p2 where "Copy w h0 = (Inr (), w1, h1)" "Copy w1 h1 = (Inr (), w2, h2)"
    "params w2 = qdef (BW_FLOAT_BLOCK 4 (Some d2) (Some p2))" "cell_at h2 p2 = Some (Float_Scale_Offsets [])"
    using second_copy_of_float_blocks_is_empty [OF b] by auto
  with b show ?thesis by blast
qed

text \<open>
  Block scales given as a flat list, with blocks along the first axis of the weight: the conversion takes the
  number of channels for the number of blocks.  A weight with \<open>n\<close> channels and \<open>nb\<close> blocks each gets \<open>nb\<close> channel
  scales instead of \<open>n\<close>.
\<close>

theorem flat_scales_on_axis_0_swap_blocks_and_channels:
  assumes "io_shape = [k, n]" "0 < n" "0 < nb" "length scales = n * nb" "\<not> list_ex bad_scale scales"
    and "q = \<lparr>unpacked_scales = Inr scales, unpacked_zero_points = None, quant_axis = Some 0, block_size = Some bs,
              scale_shape = [int (n * nb)]\<rparr>" "0 < bs"
  shows "\<exists>w h'. Init_onnx True ONNX_INT4 (Some io_shape) (Some q) (QnnQuantParamsWrapper_new, h) = (Inr (), w, h')
    \<and> per_channel_scales_size w = nb"
proof -
  have e: "effective_scale_shape [int n * int nb] [k, n] 0 = [int n, int nb]"
    using assms(2) by (simp add: effective_scale_shape_def)
  obtain pcs ints offs where c: "ConvertBlockQuantScalesToLpbq scales [] n nb 4 = Inr (pcs, ints, offs)" "length pcs = nb"
    using assms(3,4,5) by (auto simp: ConvertBlockQuantScalesToLpbq_def Let_def)
  show ?thesis
    using assms(2,3,4) c
    by (simp add: assms(1,6,7) Init_onnx_def reset_per_channel_def QnnQuantParamsWrapper_new_def Init_block_quant_def
        normalized_axis_def e block_major_def LowPowerBlockwise_def make_unique_def move_assign_def Let_def)
      auto
qed

theorem flat_scales_on_axis_0_swap_blocks_and_channels_witness:
  "\<exists>w h'. Init_onnx True ONNX_INT4 (Some [64, 3])
      (Some \<lparr>unpacked_scales = Inr (replicate 6 (Fin 1)), unpacked_zero_points = None, quant_axis = Some 0,
             block_size = Some 32, scale_shape = [6]\<rparr>) (QnnQuantParamsWrapper_new, empty_heap) = (Inr (), w, h')
    \<and> per_channel_scales_size w = 2"
  using flat_scales_on_axis_0_swap_blocks_and_channels [of "[64, 3]" 64 3 2 "replicate 6 (Fin 1)" _ 32 empty_heap]
  by (simp add: bad_scale_def list_ex_iff)

end
