(* ===== verification/Qnn_Tensor.thy ===== *)
theory Qnn_Tensor
  imports Quant_Params Text_Utils
begin

text \<open>
  QNN tensors, parameters and op configurations: the accessors and the tensor creation of \<open>builder/qnn_def.cc\<close>, and the
  classes \<open>QnnTensorWrapper\<close>, \<open>QnnParamWrapper\<close>, \<open>QnnOpConfigWrapper\<close>, \<open>QnnOpProperty\<close> and \<open>GraphInfo\<close> of
  \<open>builder/qnn_def.h\<close>.

  \<open>Qnn_Tensor_t\<close> is a versioned struct of the SDK.  Its names, dimensions and client buffers are pointers to members of
  the wrapper that holds it; here such a pointer is the value it refers to.  \<open>clientBuf\<close> and \<open>memHandle\<close> share a union, so the
  storage is a datatype with the active member.  \<open>uint32_t\<close> fields that are filled by a cast from \<open>size_t\<close> are reduced modulo
  \<open>2 ^ 32\<close>.

  The QNN library is a parameter: \<open>qnn_interface\<close> holds its entry points.  They see the history of the graph, so a reply
  may depend on everything the provider did before.
\<close>

section \<open>The SDK structs\<close>

datatype Qnn_TensorType_t =
    QNN_TENSOR_TYPE_APP_WRITE | QNN_TENSOR_TYPE_APP_READ | QNN_TENSOR_TYPE_APP_READWRITE | QNN_TENSOR_TYPE_NATIVE
  | QNN_TENSOR_TYPE_STATIC | QNN_TENSOR_TYPE_NULL | Other_Tensor_Type nat

datatype Qnn_TensorMemType_t =
    QNN_TENSORMEMTYPE_RAW | QNN_TENSORMEMTYPE_MEMHANDLE | QNN_TENSORMEMTYPE_UNDEFINED | Other_Mem_Type nat

datatype data_ptr = Nullptr | Vector_Data "byte list" | Address nat

record Qnn_ClientBuffer_t =
  buf_data :: data_ptr
  dataSize :: nat

datatype tensor_storage = Client_Buf Qnn_ClientBuffer_t | Mem_Handle nat

record tensor_body =
  t_id :: nat
  t_name :: "string option"
  t_type :: Qnn_TensorType_t
  t_dataFormat :: nat
  t_dataType :: Qnn_DataType_t
  t_quantizeParams :: Qnn_QuantizeParams_t
  t_rank :: nat
  t_dimensions :: "nat list option"
  t_memType :: Qnn_TensorMemType_t
  t_storage :: tensor_storage

datatype Qnn_Tensor_t =
    Tensor_V1 tensor_body
  | Tensor_V2 tensor_body "byte list option"
  | Tensor_Version nat

definition QNN_TENSOR_INIT :: Qnn_Tensor_t where
  "QNN_TENSOR_INIT =
     Tensor_V1 \<lparr>t_id = 0, t_name = None, t_type = Other_Tensor_Type 0, t_dataFormat = 0, t_dataType = QNN_DATATYPE_UNDEFINED,
       t_quantizeParams = QNN_QUANTIZE_PARAMS_INIT, t_rank = 0, t_dimensions = None,
       t_memType = QNN_TENSORMEMTYPE_UNDEFINED, t_storage = Client_Buf \<lparr>buf_data = Nullptr, dataSize = 0\<rparr>\<rparr>"

datatype Qnn_Scalar_t =
    Scalar_Float float32
  | Scalar_UInt32 "32 word"
  | Scalar_Int32 "32 word"
  | Scalar_Int64 "64 word"
  | Scalar_Bool8 byte
  | Scalar_String string

datatype Qnn_Param_t =
    Param_Scalar (param_name: string) Qnn_Scalar_t
  | Param_Tensor (param_name: string) Qnn_Tensor_t
  | Param_Undefined (param_name: string)

record Qnn_OpConfig_t =
  opc_version :: nat
  opc_name :: string
  packageName :: string
  typeName :: string
  numOfInputs :: nat
  numOfOutputs :: nat
  numOfParams :: nat
  inputTensors :: "Qnn_Tensor_t list"
  outputTensors :: "Qnn_Tensor_t list"
  opc_params :: "Qnn_Param_t list"

definition QNN_OPCONFIG_INIT :: Qnn_OpConfig_t where
  "QNN_OPCONFIG_INIT =
     \<lparr>opc_version = 1, opc_name = [], packageName = [], typeName = [], numOfInputs = 0, numOfOutputs = 0, numOfParams = 0,
      inputTensors = [], outputTensors = [], opc_params = []\<rparr>"

definition u32 :: "nat \<Rightarrow> nat" where
  "u32 n = n mod 2 ^ 32"

section \<open>Accessors\<close>

definition version_error :: "'a result" where
  "version_error = Inl (Thrown ''QNN tensor version not supported'')"

definition set_field :: "(tensor_body \<Rightarrow> tensor_body) \<Rightarrow> Qnn_Tensor_t \<Rightarrow> Qnn_Tensor_t result" where
  "set_field f t = (case t of Tensor_V1 b \<Rightarrow> Inr (Tensor_V1 (f b)) | Tensor_V2 b d \<Rightarrow> Inr (Tensor_V2 (f b) d)
                    | Tensor_Version _ \<Rightarrow> version_error)"

definition get_field :: "(tensor_body \<Rightarrow> 'a) \<Rightarrow> Qnn_Tensor_t \<Rightarrow> 'a result" where
  "get_field f t = (case t of Tensor_V1 b \<Rightarrow> Inr (f b) | Tensor_V2 b _ \<Rightarrow> Inr (f b) | Tensor_Version _ \<Rightarrow> version_error)"

definition SetQnnTensorType :: "Qnn_Tensor_t \<Rightarrow> Qnn_TensorType_t \<Rightarrow> Qnn_Tensor_t result" where
  "SetQnnTensorType t tensor_type = set_field (\<lambda>b. b\<lparr>t_type := tensor_type\<rparr>) t"

definition SetQnnTensorName :: "Qnn_Tensor_t \<Rightarrow> string option \<Rightarrow> Qnn_Tensor_t result" where
  "SetQnnTensorName t name = set_field (\<lambda>b. b\<lparr>t_name := name\<rparr>) t"

definition SetQnnTensorDataFormat :: "Qnn_Tensor_t \<Rightarrow> nat \<Rightarrow> Qnn_Tensor_t result" where
  "SetQnnTensorDataFormat t data_format = set_field (\<lambda>b. b\<lparr>t_dataFormat := data_format\<rparr>) t"

definition SetQnnTensorDataType :: "Qnn_Tensor_t \<Rightarrow> Qnn_DataType_t \<Rightarrow> Qnn_Tensor_t result" where
  "SetQnnTensorDataType t data_type = set_field (\<lambda>b. b\<lparr>t_dataType := data_type\<rparr>) t"

definition SetQnnTensorDim :: "Qnn_Tensor_t \<Rightarrow> nat list \<Rightarrow> Qnn_Tensor_t result" where
  "SetQnnTensorDim t dimensions = set_field (\<lambda>b. b\<lparr>t_rank := u32 (length dimensions), t_dimensions := Some dimensions\<rparr>) t"

definition SetQnnTensorMemType :: "Qnn_Tensor_t \<Rightarrow> Qnn_TensorMemType_t \<Rightarrow> Qnn_Tensor_t result" where
  "SetQnnTensorMemType t mem_type = set_field (\<lambda>b. b\<lparr>t_memType := mem_type\<rparr>) t"

definition SetQnnTensorClientBuf :: "Qnn_Tensor_t \<Rightarrow> byte list \<Rightarrow> Qnn_Tensor_t result" where
  "SetQnnTensorClientBuf t client_buf =
     set_field (\<lambda>b. b\<lparr>t_storage := Client_Buf \<lparr>buf_data = Vector_Data client_buf, dataSize = u32 (length client_buf)\<rparr>\<rparr>) t"

definition SetQnnTensorClientBuf_ptr :: "Qnn_Tensor_t \<Rightarrow> data_ptr \<Rightarrow> nat \<Rightarrow> Qnn_Tensor_t result" where
  "SetQnnTensorClientBuf_ptr t p n = set_field (\<lambda>b. b\<lparr>t_storage := Client_Buf \<lparr>buf_data = p, dataSize = n\<rparr>\<rparr>) t"

text \<open>
  The two setters of one half of the client buffer leave the other half as it is; after a memory handle was stored that half
  is indeterminate, which is undefined behaviour.
\<close>

definition client_buf_of :: "tensor_body \<Rightarrow> Qnn_ClientBuffer_t result" where
  "client_buf_of b = (case t_storage b of Client_Buf c \<Rightarrow> Inr c | Mem_Handle _ \<Rightarrow> Inl (Undefined_Behaviour ''inactive union member''))"

definition SetQnnTensorClientBufSize :: "Qnn_Tensor_t \<Rightarrow> nat \<Rightarrow> Qnn_Tensor_t result" where
  "SetQnnTensorClientBufSize t n =
     and_then (get_field client_buf_of t) (\<lambda>r. and_then r (\<lambda>c. set_field (\<lambda>b. b\<lparr>t_storage := Client_Buf (c\<lparr>dataSize := n\<rparr>)\<rparr>) t))"

definition SetQnnTensorClientBufData :: "Qnn_Tensor_t \<Rightarrow> data_ptr \<Rightarrow> Qnn_Tensor_t result" where
  "SetQnnTensorClientBufData t p =
     and_then (get_field client_buf_of t) (\<lambda>r. and_then r (\<lambda>c. set_field (\<lambda>b. b\<lparr>t_storage := Client_Buf (c\<lparr>buf_data := p\<rparr>)\<rparr>) t))"

definition SetQnnTensorMemHandle :: "Qnn_Tensor_t \<Rightarrow> nat \<Rightarrow> Qnn_Tensor_t result" where
  "SetQnnTensorMemHandle t mem_handle = set_field (\<lambda>b. b\<lparr>t_storage := Mem_Handle mem_handle\<rparr>) t"

definition SetQnnTensorQParams :: "Qnn_Tensor_t \<Rightarrow> Qnn_QuantizeParams_t \<Rightarrow> Qnn_Tensor_t result" where
  "SetQnnTensorQParams t quantize_params = set_field (\<lambda>b. b\<lparr>t_quantizeParams := quantize_params\<rparr>) t"

definition SetQnnTensorID :: "Qnn_Tensor_t \<Rightarrow> nat \<Rightarrow> Qnn_Tensor_t result" where
  "SetQnnTensorID t i = set_field (\<lambda>b. b\<lparr>t_id := i\<rparr>) t"

definition GetQnnTensorID :: "Qnn_Tensor_t \<Rightarrow> nat result" where
  "GetQnnTensorID = get_field t_id"

definition GetQnnTensorType :: "Qnn_Tensor_t \<Rightarrow> Qnn_TensorType_t result" where
  "GetQnnTensorType = get_field t_type"

definition GetQnnTensorName :: "Qnn_Tensor_t \<Rightarrow> string option result" where
  "GetQnnTensorName = get_field t_name"

definition GetQnnTensorDataFormat :: "Qnn_Tensor_t \<Rightarrow> nat result" where
  "GetQnnTensorDataFormat = get_field t_dataFormat"

definition GetQnnTensorDataType :: "Qnn_Tensor_t \<Rightarrow> Qnn_DataType_t result" where
  "GetQnnTensorDataType = get_field t_dataType"

definition GetQnnTensorMemType :: "Qnn_Tensor_t \<Rightarrow> Qnn_TensorMemType_t result" where
  "GetQnnTensorMemType = get_field t_memType"

definition GetQnnTensorRank :: "Qnn_Tensor_t \<Rightarrow> nat result" where
  "GetQnnTensorRank = get_field t_rank"

definition GetQnnTensorDims :: "Qnn_Tensor_t \<Rightarrow> nat list option result" where
  "GetQnnTensorDims = get_field t_dimensions"

definition GetQnnTensorClientBuf :: "Qnn_Tensor_t \<Rightarrow> Qnn_ClientBuffer_t result" where
  "GetQnnTensorClientBuf t = and_then (get_field client_buf_of t) (\<lambda>r. r)"

definition GetQnnTensorMemHandle :: "Qnn_Tensor_t \<Rightarrow> nat result" where
  "GetQnnTensorMemHandle t =
     and_then (get_field t_storage t)
       (\<lambda>s. case s of Mem_Handle h \<Rightarrow> Inr h | Client_Buf _ \<Rightarrow> Inl (Undefined_Behaviour ''inactive union member''))"

definition GetQnnTensorQParams :: "Qnn_Tensor_t \<Rightarrow> Qnn_QuantizeParams_t result" where
  "GetQnnTensorQParams = get_field t_quantizeParams"

definition GetQnnTensorIsDynamicDimensions :: "Qnn_Tensor_t \<Rightarrow> byte list option result" where
  "GetQnnTensorIsDynamicDimensions t =
     (case t of Tensor_V1 _ \<Rightarrow> Inr None | Tensor_V2 _ d \<Rightarrow> Inr d | Tensor_Version _ \<Rightarrow> version_error)"

definition dims_span :: "Qnn_Tensor_t \<Rightarrow> nat list result" where
  "dims_span t =
     and_then (GetQnnTensorRank t) (\<lambda>rank.
     and_then (GetQnnTensorDims t) (\<lambda>ds.
       if rank = 0 then Inr [] else case ds of None \<Rightarrow> ub | Some xs \<Rightarrow> first_n rank xs))"

definition GetQnnTensorDataSizeInBytes :: "Qnn_Tensor_t \<Rightarrow> nat result" where
  "GetQnnTensorDataSizeInBytes t =
     and_then (dims_span t) (\<lambda>shape.
     and_then (GetQnnTensorDataType t) (\<lambda>dt. GetQnnTensorDataSizeInBytes_shape shape dt))"

definition QnnTensorHasDynamicShape :: "Qnn_Tensor_t \<Rightarrow> bool result" where
  "QnnTensorHasDynamicShape t =
     and_then (GetQnnTensorIsDynamicDimensions t) (\<lambda>d.
       case d of None \<Rightarrow> Inr False
       | Some flags \<Rightarrow> and_then (GetQnnTensorRank t) (\<lambda>rank. and_then (first_n rank flags) (\<lambda>fs. Inr (list_ex (\<lambda>f. f \<noteq> 0) fs))))"

definition CalcQnnTensorNumElems :: "Qnn_Tensor_t \<Rightarrow> 32 word result" where
  "CalcQnnTensorNumElems t =
     and_then (dims_span t) (\<lambda>ds. Inr (fold (\<lambda>d acc. acc * of_nat d) ds (1 :: 32 word)))"

definition CompareQnnQuantParams :: "Qnn_QuantizeParams_t \<Rightarrow> Qnn_QuantizeParams_t \<Rightarrow> (float32 \<times> int) result" where
  "CompareQnnQuantParams q0 q1 =
     (let same_kind = (case (quantizationEncoding q0, quantizationEncoding q1) of
            (ENCODING_UNDEFINED, ENCODING_UNDEFINED) \<Rightarrow> True
          | (SCALE_OFFSET _ _, SCALE_OFFSET _ _) \<Rightarrow> True
          | (AXIS_SCALE_OFFSET _ _ _, AXIS_SCALE_OFFSET _ _ _) \<Rightarrow> True
          | (BW_SCALE_OFFSET _ _ _, BW_SCALE_OFFSET _ _ _) \<Rightarrow> True
          | (BW_AXIS_SCALE_OFFSET _ _ _ _ _, BW_AXIS_SCALE_OFFSET _ _ _ _ _) \<Rightarrow> True
          | (BLOCK _ _, BLOCK _ _) \<Rightarrow> True
          | (BLOCKWISE_EXPANSION _, BLOCKWISE_EXPANSION _) \<Rightarrow> True
          | (BW_FLOAT_BLOCK _ _ _, BW_FLOAT_BLOCK _ _ _) \<Rightarrow> True
          | (Other_Encoding a, Other_Encoding b) \<Rightarrow> a = b
          | _ \<Rightarrow> False)
      in and_then (require (encodingDefinition q0 = encodingDefinition q1 \<and> same_kind)
                    (Status_Fail ''Expected quantization parameters to be the same type.'')) (\<lambda>_.
           if encodingDefinition q0 = QNN_DEFINITION_DEFINED then
             (case (quantizationEncoding q0, quantizationEncoding q1) of
                (SCALE_OFFSET s0 o0, SCALE_OFFSET s1 o1) \<Rightarrow>
                  (if \<bar>o0 - o1\<bar> < 2 ^ 31
                   then Inr (case (s0, s1) of (Fin a, Fin b) \<Rightarrow> Fin \<bar>a - b\<bar> | _ \<Rightarrow> Non_Finite, \<bar>o0 - o1\<bar>)
                   else Inl (Undefined_Behaviour ''signed overflow''))
              | _ \<Rightarrow> Inl (Status_Fail ''Unsupported quantization encoding''))
           else Inr (Fin 0, 0)))"

section \<open>Creating tensors in a QNN graph\<close>

datatype graph_event = Tensor_Created Qnn_Tensor_t | Node_Added Qnn_OpConfig_t

text \<open>
  \<open>tensorCreateGraphTensor\<close> returns an error code or the id it wrote into the tensor, \<open>graphAddNode\<close> and
  \<open>backendValidateOpConfig\<close> an error code (0 is success).
\<close>

record qnn_interface =
  tensorCreateGraphTensor :: "graph_event list \<Rightarrow> Qnn_Tensor_t \<Rightarrow> nat + nat"
  graphAddNode :: "graph_event list \<Rightarrow> Qnn_OpConfig_t \<Rightarrow> nat"
  backendValidateOpConfig :: "Qnn_OpConfig_t \<Rightarrow> nat"

type_synonym id_table = "(string \<times> nat) list"
type_synonym graph_state = "id_table \<times> graph_event list"

definition CreateTensor :: "qnn_interface \<Rightarrow> Qnn_Tensor_t \<Rightarrow> graph_event list \<Rightarrow> Qnn_Tensor_t result \<times> graph_event list" where
  "CreateTensor qnn t ev =
     (case tensorCreateGraphTensor qnn ev t of
        Inl err \<Rightarrow> (Inl (Status_Fail ''Failed to create tensor for node''), ev)
      | Inr i \<Rightarrow>
          (case SetQnnTensorID t i of
             Inl e \<Rightarrow> (Inl e, ev)
           | Inr t' \<Rightarrow> (Inr t', ev @ [Tensor_Created t'])))"

definition static_tensor_ok :: "Qnn_Tensor_t \<Rightarrow> unit result" where
  "static_tensor_ok t =
     and_then (GetQnnTensorMemType t) (\<lambda>mt.
     and_then (require (mt = QNN_TENSORMEMTYPE_RAW) (Status_Fail ''Expected raw memType in provided static tensor'')) (\<lambda>_.
     and_then (GetQnnTensorDataSizeInBytes t) (\<lambda>sz.
     and_then (GetQnnTensorClientBuf t) (\<lambda>cb.
       require (sz = dataSize cb) (Status_Fail ''Data length mismatch for static tensor'')))))"

text \<open>
  The result is the tensor after the call when the code returns true, and the error message when it returns false.
\<close>

definition CreateTensorInQnnGraph ::
  "qnn_interface \<Rightarrow> string \<Rightarrow> Qnn_Tensor_t \<Rightarrow> graph_state \<Rightarrow> Qnn_Tensor_t result \<times> graph_state" where
  "CreateTensorInQnnGraph qnn tensor_name t s =
     (let (table, ev) = s
      in case map_of table tensor_name of
           Some i \<Rightarrow> (SetQnnTensorID t i, s)
         | None \<Rightarrow>
             (let checks =
                and_then (GetQnnTensorDataType t) (\<lambda>dt.
                and_then (GetElementSizeByType dt) (\<lambda>n.
                and_then (require (n \<noteq> 0) (Status_Fail ''Invalid QNN data type provided'')) (\<lambda>_.
                and_then (GetQnnTensorType t) (\<lambda>ty.
                  if ty = QNN_TENSOR_TYPE_STATIC then static_tensor_ok t else Inr ()))))
              in case checks of
                   Inl e \<Rightarrow> (Inl e, s)
                 | Inr _ \<Rightarrow>
                     (case CreateTensor qnn t ev of
                        (Inl e, ev') \<Rightarrow> (Inl e, (table, ev'))
                      | (Inr t', ev') \<Rightarrow>
                          (case GetQnnTensorID t' of
                             Inl e \<Rightarrow> (Inl e, (table, ev'))
                           | Inr i \<Rightarrow> (Inr t', (emplace tensor_name i table, ev'))))))"

section \<open>Tensor wrappers\<close>

record QnnTensorWrapper =
  tensor_name :: string
  tensor_name_override :: string
  dimensions :: "nat list"
  client_buf :: "byte list"
  qnn_tensor :: Qnn_Tensor_t
  quant_params :: QnnQuantParamsWrapper

definition QnnTensorWrapper_default :: QnnTensorWrapper where
  "QnnTensorWrapper_default =
     \<lparr>tensor_name = [], tensor_name_override = [], dimensions = [], client_buf = [], qnn_tensor = QNN_TENSOR_INIT,
      quant_params = QnnQuantParamsWrapper_new\<rparr>"

text \<open>
  Values in a buffer are little endian.  \<open>static_cast<int32_t>\<close> of an \<open>int64_t\<close> keeps the low 32 bits; the cast of a double to
  a float is the parameter \<open>to_float\<close> on the bit patterns.
\<close>

definition of_bytes :: "byte list \<Rightarrow> 'a::len word" where
  "of_bytes bs = foldr (\<lambda>b acc. push_bit 8 acc OR ucast b) bs 0"

definition to_bytes :: "nat \<Rightarrow> 'a::len word \<Rightarrow> byte list" where
  "to_bytes n v = map (\<lambda>i. ucast (drop_bit (8 * i) v)) [0..<n]"

definition span_of :: "nat \<Rightarrow> byte list \<Rightarrow> 'a::len word list" where
  "span_of w bs = map (\<lambda>i. of_bytes (take w (drop (w * i) bs))) [0..<length bs div w]"

definition narrow_buffer :: "(64 word \<Rightarrow> 32 word) \<Rightarrow> byte list \<Rightarrow> byte list" where
  "narrow_buffer f bs = concat (map (\<lambda>v. to_bytes 4 (f v)) (span_of 8 bs))"

definition narrowed ::
  "(64 word \<Rightarrow> 32 word) \<Rightarrow> Qnn_TensorType_t \<Rightarrow> Qnn_DataType_t \<Rightarrow> byte list \<Rightarrow> Qnn_DataType_t \<times> byte list" where
  "narrowed to_float tensor_type data_type buf =
     (if data_type = QNN_DATATYPE_INT_64 then
        (if buf \<noteq> [] then (QNN_DATATYPE_INT_32, narrow_buffer ucast buf)
         else (if tensor_type = QNN_TENSOR_TYPE_NATIVE then QNN_DATATYPE_INT_32 else data_type, buf))
      else if data_type = QNN_DATATYPE_FLOAT_64 then
        (if buf \<noteq> [] then (QNN_DATATYPE_FLOAT_32, narrow_buffer to_float buf)
         else (if tensor_type = QNN_TENSOR_TYPE_NATIVE then QNN_DATATYPE_FLOAT_32 else data_type, buf))
      else (data_type, buf))"

definition fill_tensor ::
  "Qnn_TensorType_t \<Rightarrow> string \<Rightarrow> Qnn_DataType_t \<Rightarrow> nat list \<Rightarrow> Qnn_TensorMemType_t \<Rightarrow> byte list \<Rightarrow> Qnn_QuantizeParams_t
   \<Rightarrow> Qnn_Tensor_t \<Rightarrow> Qnn_Tensor_t result" where
  "fill_tensor tensor_type name data_type shape mem_type buf qp t =
     and_then (SetQnnTensorType t tensor_type) (\<lambda>t.
     and_then (SetQnnTensorName t (Some name)) (\<lambda>t.
     and_then (SetQnnTensorDataType t data_type) (\<lambda>t.
     and_then (SetQnnTensorDim t shape) (\<lambda>t.
     and_then (SetQnnTensorMemType t mem_type) (\<lambda>t.
     and_then (if tensor_type = QNN_TENSOR_TYPE_STATIC then SetQnnTensorClientBuf t buf else Inr t) (\<lambda>t.
       SetQnnTensorQParams t qp))))))"

definition QnnTensorWrapper_new ::
  "(64 word \<Rightarrow> 32 word) \<Rightarrow> string \<Rightarrow> Qnn_TensorType_t \<Rightarrow> Qnn_DataType_t \<Rightarrow> QnnQuantParamsWrapper \<Rightarrow> nat list \<Rightarrow> byte list
   \<Rightarrow> Qnn_TensorMemType_t \<Rightarrow> qheap \<Rightarrow> QnnTensorWrapper result \<times> qheap" where
  "QnnTensorWrapper_new to_float name tensor_type data_type quantize_params shape buf mem_type h =
     (let (_, (qp, h)) = Copy quantize_params h;
          (dt, buf') = narrowed to_float tensor_type data_type buf
      in (and_then (fill_tensor tensor_type name dt shape mem_type buf' (params qp) QNN_TENSOR_INIT) (\<lambda>t.
            Inr \<lparr>tensor_name = name, tensor_name_override = [], dimensions = shape, client_buf = buf', qnn_tensor = t,
                 quant_params = qp\<rparr>), h))"

definition MakeNull :: "(64 word \<Rightarrow> 32 word) \<Rightarrow> string \<Rightarrow> qheap \<Rightarrow> QnnTensorWrapper result \<times> qheap" where
  "MakeNull to_float name h =
     QnnTensorWrapper_new to_float name QNN_TENSOR_TYPE_NULL QNN_DATATYPE_FLOAT_32 QnnQuantParamsWrapper_new [0] []
       QNN_TENSORMEMTYPE_RAW h"

text \<open>
  \<open>Init\<close> assigns its members one after the other and returns at the first error with the earlier assignments done.
\<close>

definition Init_shape :: "Qnn_Tensor_t \<Rightarrow> QnnTensorWrapper \<Rightarrow> unit result \<times> QnnTensorWrapper" where
  "Init_shape src tw =
     (case (GetQnnTensorRank src, GetQnnTensorDims src, GetQnnTensorMemType src) of
        (Inr rank, Inr data, Inr mt) \<Rightarrow>
          (if rank > 32 then (Inl (Status_Fail ''Cached context tensor rank exceeds the supported limit''), tw)
           else if rank > 0 \<and> data = None then (Inl (Status_Fail ''Cached context tensor dimensions are null''), tw)
           else case dims_span src of
                  Inl e \<Rightarrow> (Inl e, tw)
                | Inr ds \<Rightarrow>
                    (case and_then (SetQnnTensorDim (qnn_tensor tw) ds) (\<lambda>t. SetQnnTensorMemType t mt) of
                       Inl e \<Rightarrow> (Inl e, tw\<lparr>dimensions := ds\<rparr>)
                     | Inr t \<Rightarrow> (Inr (), tw\<lparr>dimensions := ds, qnn_tensor := t\<rparr>)))
      | _ \<Rightarrow> (version_error, tw))"

definition QnnTensorWrapper_Init ::
  "Qnn_Tensor_t \<Rightarrow> QnnTensorWrapper \<times> qheap \<Rightarrow> unit result \<times> (QnnTensorWrapper \<times> qheap)" where
  "QnnTensorWrapper_Init src s =
     (let (tw, h) = s
      in case and_then (GetQnnTensorType src) (\<lambda>ty.
              and_then (require (ty \<noteq> QNN_TENSOR_TYPE_STATIC) (Status_Fail ''Init does not support static initializers'')) (\<lambda>_.
              and_then (GetQnnTensorName src) (\<lambda>n. case n of None \<Rightarrow> Inl (Status_Fail ''Cached context tensor name is null'') | Some n \<Rightarrow> Inr n))) of
           Inl e \<Rightarrow> (Inl e, s)
         | Inr name \<Rightarrow>
             (let tw1 = tw\<lparr>tensor_name := name, client_buf := [], qnn_tensor := src\<rparr>
              in case and_then (SetQnnTensorName src (Some name)) (\<lambda>t. and_then (GetQnnTensorQParams src) (\<lambda>qp. Inr (t, qp))) of
                   Inl e \<Rightarrow> (Inl e, (tw1, h))
                 | Inr (t, qp) \<Rightarrow>
                     (case Init_raw qp 0 0 (quant_params tw1, h) of
                        (Inl e, (q, h')) \<Rightarrow> (Inl e, (tw1\<lparr>qnn_tensor := t, quant_params := q\<rparr>, h'))
                      | (Inr _, (q, h')) \<Rightarrow>
                          (case SetQnnTensorQParams t (params q) of
                             Inl e \<Rightarrow> (Inl e, (tw1\<lparr>qnn_tensor := t, quant_params := q\<rparr>, h'))
                           | Inr t' \<Rightarrow>
                               (let (r, tw2) = Init_shape src (tw1\<lparr>qnn_tensor := t', quant_params := q\<rparr>)
                                in (r, (tw2, h')))))))"

definition GetResolvedTensorName :: "QnnTensorWrapper \<Rightarrow> string" where
  "GetResolvedTensorName tw = (if tensor_name_override tw = [] then tensor_name tw else tensor_name_override tw)"

definition SetResolvedTensorName :: "string \<Rightarrow> QnnTensorWrapper \<Rightarrow> QnnTensorWrapper result" where
  "SetResolvedTensorName resolved_name tw =
     (if resolved_name = [] \<or> tensor_name_override tw = resolved_name then Inr tw
      else and_then (SetQnnTensorName (qnn_tensor tw) (Some resolved_name)) (\<lambda>t.
             Inr (tw\<lparr>tensor_name_override := resolved_name, qnn_tensor := t\<rparr>)))"

definition GetTensorType_tw :: "QnnTensorWrapper \<Rightarrow> Qnn_TensorType_t result" where
  "GetTensorType_tw tw = GetQnnTensorType (qnn_tensor tw)"

definition GetTensorDataType :: "QnnTensorWrapper \<Rightarrow> Qnn_DataType_t result" where
  "GetTensorDataType tw = GetQnnTensorDataType (qnn_tensor tw)"

definition GetTensorRank :: "QnnTensorWrapper \<Rightarrow> nat" where
  "GetTensorRank tw = u32 (length (dimensions tw))"

definition CreateQnnGraphTensor ::
  "qnn_interface \<Rightarrow> QnnTensorWrapper \<Rightarrow> graph_state \<Rightarrow> QnnTensorWrapper result \<times> graph_state" where
  "CreateQnnGraphTensor qnn tw s =
     (let (r, s') = CreateTensorInQnnGraph qnn (GetResolvedTensorName tw) (qnn_tensor tw) s
      in (and_then r (\<lambda>t. Inr (tw\<lparr>qnn_tensor := t\<rparr>)), s'))"

text \<open>
  Moving a wrapper swaps every member and then points the raw tensor of the target to the target's own members.
  The second component is what the source holds afterwards.  The move is \<open>noexcept\<close>: an unsupported version would terminate
  the program.
\<close>

definition SwapOther :: "QnnTensorWrapper \<Rightarrow> QnnTensorWrapper \<Rightarrow> (QnnTensorWrapper \<times> QnnTensorWrapper) result" where
  "SwapOther this other =
     and_then (SetQnnTensorName (qnn_tensor other) (Some (GetResolvedTensorName other))) (\<lambda>t.
     and_then (SetQnnTensorDim t (dimensions other)) (\<lambda>t.
     and_then (SetQnnTensorClientBuf t (client_buf other)) (\<lambda>t.
     and_then (SetQnnTensorQParams t (params (quant_params other))) (\<lambda>t.
       Inr (other\<lparr>qnn_tensor := t\<rparr>, this)))))"

definition move_construct :: "QnnTensorWrapper \<Rightarrow> QnnTensorWrapper result" where
  "move_construct other = and_then (SwapOther QnnTensorWrapper_default other) (\<lambda>(this, _). Inr this)"

section \<open>Op parameters\<close>

record QnnParamWrapper =
  pw_name :: string
  pw_tensor_name :: string
  pw_shape :: "nat list"
  pw_data :: "byte list"
  qnn_param :: Qnn_Param_t

definition param_tensor_name :: "nat \<Rightarrow> string \<Rightarrow> string \<Rightarrow> string" where
  "param_tensor_name node_index node_name name = node_name @ ''_'' @ to_string node_index @ ''_'' @ name"

definition QnnParamWrapper_scalar :: "nat \<Rightarrow> string \<Rightarrow> string \<Rightarrow> Qnn_Scalar_t \<Rightarrow> QnnParamWrapper" where
  "QnnParamWrapper_scalar node_index node_name name scalar =
     \<lparr>pw_name = name, pw_tensor_name = param_tensor_name node_index node_name name, pw_shape = [], pw_data = [],
      qnn_param = Param_Scalar name scalar\<rparr>"

definition param_tensor :: "string \<Rightarrow> Qnn_DataType_t \<Rightarrow> nat list \<Rightarrow> byte list \<Rightarrow> Qnn_Tensor_t result" where
  "param_tensor name data_type shape data =
     and_then (SetQnnTensorType QNN_TENSOR_INIT QNN_TENSOR_TYPE_STATIC) (\<lambda>t.
     and_then (SetQnnTensorName t (Some name)) (\<lambda>t.
     and_then (SetQnnTensorDataType t data_type) (\<lambda>t.
     and_then (SetQnnTensorDim t shape) (\<lambda>t.
     and_then (SetQnnTensorMemType t QNN_TENSORMEMTYPE_RAW) (\<lambda>t.
       SetQnnTensorClientBuf t data)))))"

definition QnnParamWrapper_bytes ::
  "nat \<Rightarrow> string \<Rightarrow> string \<Rightarrow> Qnn_DataType_t \<Rightarrow> nat list \<Rightarrow> byte list \<Rightarrow> QnnParamWrapper result" where
  "QnnParamWrapper_bytes node_index node_name name data_type shape data =
     (let tn = param_tensor_name node_index node_name name
      in and_then (param_tensor tn data_type shape data) (\<lambda>t.
           Inr \<lparr>pw_name = name, pw_tensor_name = tn, pw_shape = shape, pw_data = data, qnn_param = Param_Tensor name t\<rparr>))"

definition QnnParamWrapper_u32 ::
  "nat \<Rightarrow> string \<Rightarrow> string \<Rightarrow> nat list \<Rightarrow> 32 word list \<Rightarrow> bool \<Rightarrow> QnnParamWrapper result" where
  "QnnParamWrapper_u32 node_index node_name name shape data is_signed =
     QnnParamWrapper_bytes node_index node_name name (if is_signed then QNN_DATATYPE_INT_32 else QNN_DATATYPE_UINT_32) shape
       (concat (map (to_bytes 4) data))"

definition param_move_construct :: "QnnParamWrapper \<Rightarrow> QnnParamWrapper result" where
  "param_move_construct other =
     (case qnn_param other of
        Param_Tensor _ t \<Rightarrow>
          and_then (SetQnnTensorName t (Some (pw_tensor_name other))) (\<lambda>t.
          and_then (SetQnnTensorDim t (pw_shape other)) (\<lambda>t.
          and_then (SetQnnTensorClientBuf t (pw_data other)) (\<lambda>t.
            Inr (other\<lparr>qnn_param := Param_Tensor (pw_name other) t\<rparr>))))
      | Param_Scalar _ v \<Rightarrow> Inr (other\<lparr>qnn_param := Param_Scalar (pw_name other) v\<rparr>)
      | Param_Undefined _ \<Rightarrow> Inr (other\<lparr>qnn_param := Param_Undefined (pw_name other)\<rparr>))"

datatype param_elems =
    Float_Elems "32 word list"
  | UInt32_Elems "32 word list"
  | Int32_Elems "32 word list"
  | Int64_Elems "64 word list"
  | Bool_Elems "byte list"

definition createQnnParamWrapper :: "nat \<Rightarrow> string \<Rightarrow> string \<Rightarrow> nat list \<Rightarrow> param_elems \<Rightarrow> QnnParamWrapper result" where
  "createQnnParamWrapper node_index node_name name shape data =
     (case data of
        Float_Elems vs \<Rightarrow> QnnParamWrapper_bytes node_index node_name name QNN_DATATYPE_FLOAT_32 shape (concat (map (to_bytes 4) vs))
      | UInt32_Elems vs \<Rightarrow> QnnParamWrapper_bytes node_index node_name name QNN_DATATYPE_UINT_32 shape (concat (map (to_bytes 4) vs))
      | Int32_Elems vs \<Rightarrow> QnnParamWrapper_bytes node_index node_name name QNN_DATATYPE_INT_32 shape (concat (map (to_bytes 4) vs))
      | Int64_Elems vs \<Rightarrow> QnnParamWrapper_bytes node_index node_name name QNN_DATATYPE_INT_64 shape (concat (map (to_bytes 8) vs))
      | Bool_Elems vs \<Rightarrow> QnnParamWrapper_bytes node_index node_name name QNN_DATATYPE_BOOL_8 shape vs)"

definition CreateQnnGraphParam ::
  "qnn_interface \<Rightarrow> QnnParamWrapper \<Rightarrow> graph_state \<Rightarrow> QnnParamWrapper result \<times> graph_state" where
  "CreateQnnGraphParam qnn pw s =
     (case qnn_param pw of
        Param_Tensor n t \<Rightarrow>
          (let (r, s') = CreateTensorInQnnGraph qnn (pw_tensor_name pw) t s
           in (and_then r (\<lambda>t. Inr (pw\<lparr>qnn_param := Param_Tensor n t\<rparr>)), s'))
      | Param_Scalar _ _ \<Rightarrow> (Inr pw, s)
      | Param_Undefined _ \<Rightarrow> (Inr pw, s))"

section \<open>Op configurations\<close>

record QnnOpConfigWrapper =
  oc_name :: string
  oc_package_name :: string
  oc_type_name :: string
  oc_inputs :: "Qnn_Tensor_t list"
  oc_outputs :: "Qnn_Tensor_t list"
  oc_params :: "Qnn_Param_t list"
  op_config :: Qnn_OpConfig_t

definition SetNames :: "string \<Rightarrow> string \<Rightarrow> string \<Rightarrow> Qnn_OpConfig_t \<Rightarrow> Qnn_OpConfig_t result" where
  "SetNames op_name package_name type_name c =
     (if opc_version c = 1 then Inr (c\<lparr>opc_name := op_name, packageName := package_name, typeName := type_name\<rparr>)
      else Inl (Thrown ''QNN OpConfig version not supported''))"

definition SetNums :: "nat \<Rightarrow> nat \<Rightarrow> nat \<Rightarrow> Qnn_OpConfig_t \<Rightarrow> Qnn_OpConfig_t result" where
  "SetNums num_inputs num_outputs num_params c =
     (if opc_version c = 1 then Inr (c\<lparr>numOfInputs := num_inputs, numOfOutputs := num_outputs, numOfParams := num_params\<rparr>)
      else Inl (Thrown ''QNN OpConfig version not supported''))"

definition SetData :: "Qnn_Tensor_t list \<Rightarrow> Qnn_Tensor_t list \<Rightarrow> Qnn_Param_t list \<Rightarrow> Qnn_OpConfig_t \<Rightarrow> Qnn_OpConfig_t result" where
  "SetData input_tensors output_tensors ps c =
     (if opc_version c = 1 then Inr (c\<lparr>inputTensors := input_tensors, outputTensors := output_tensors, opc_params := ps\<rparr>)
      else Inl (Thrown ''QNN OpConfig version not supported''))"

definition QnnOpConfigWrapper_new ::
  "string \<Rightarrow> string \<Rightarrow> string \<Rightarrow> Qnn_Tensor_t list \<Rightarrow> Qnn_Tensor_t list \<Rightarrow> Qnn_Param_t list \<Rightarrow> QnnOpConfigWrapper result" where
  "QnnOpConfigWrapper_new name package_name type_name ins outs ps =
     and_then (SetNames name package_name type_name QNN_OPCONFIG_INIT) (\<lambda>c.
     and_then (SetNums (u32 (length ins)) (u32 (length outs)) (u32 (length ps)) c) (\<lambda>c.
     and_then (SetData ins outs ps c) (\<lambda>c.
       Inr \<lparr>oc_name = name, oc_package_name = package_name, oc_type_name = type_name, oc_inputs = ins, oc_outputs = outs,
            oc_params = ps, op_config = c\<rparr>)))"

definition QnnGraphOpValidation :: "qnn_interface \<Rightarrow> QnnOpConfigWrapper \<Rightarrow> unit result" where
  "QnnGraphOpValidation qnn w =
     require (backendValidateOpConfig qnn (op_config w) = 0) (Status_Fail ''QNN.backendValidateOpConfig() failed for node'')"

definition CreateQnnGraphOp :: "qnn_interface \<Rightarrow> QnnOpConfigWrapper \<Rightarrow> graph_event list \<Rightarrow> unit result \<times> graph_event list" where
  "CreateQnnGraphOp qnn w ev =
     (if graphAddNode qnn ev (op_config w) = 0 then (Inr (), ev @ [Node_Added (op_config w)])
      else (Inl (Status_Fail ''QNN.graphAddNode() failed for node''), ev))"

record QnnOpProperty =
  qnn_node_name :: string
  package_name :: string
  qnn_node_type :: string
  input_names :: "string list"
  output_names :: "string list"
  param_tensor_names :: "string list"

record GraphInfo =
  gi_name :: string
  gi_graph :: nat
  gi_context :: nat
  gi_inputs :: "QnnTensorWrapper list"
  gi_outputs :: "QnnTensorWrapper list"

definition ResetHandles :: "nat \<Rightarrow> nat \<Rightarrow> GraphInfo \<Rightarrow> GraphInfo" where
  "ResetHandles graph context g = g\<lparr>gi_graph := graph, gi_context := context\<rparr>"

section \<open>Consistent tensors\<close>

text \<open>
  A wrapper is consistent when the raw tensor describes the members of the wrapper: it has a supported version, the resolved
  name, the dimensions and the quantization parameters of the wrapper.
\<close>

named_theorems tensor_defs \<open>accessors of the versioned tensor struct\<close>

lemmas accessor_defs [tensor_defs] =
  SetQnnTensorType_def SetQnnTensorName_def SetQnnTensorDataFormat_def SetQnnTensorDataType_def SetQnnTensorDim_def
  SetQnnTensorMemType_def SetQnnTensorClientBuf_def SetQnnTensorClientBuf_ptr_def SetQnnTensorMemHandle_def
  SetQnnTensorQParams_def SetQnnTensorID_def GetQnnTensorID_def GetQnnTensorType_def GetQnnTensorName_def
  GetQnnTensorDataFormat_def GetQnnTensorDataType_def GetQnnTensorMemType_def GetQnnTensorRank_def GetQnnTensorDims_def
  GetQnnTensorQParams_def GetQnnTensorClientBuf_def

definition body_of :: "Qnn_Tensor_t \<Rightarrow> tensor_body option" where
  "body_of t = (case t of Tensor_V1 b \<Rightarrow> Some b | Tensor_V2 b _ \<Rightarrow> Some b | Tensor_Version _ \<Rightarrow> None)"

definition supported :: "Qnn_Tensor_t \<Rightarrow> bool" where
  "supported t \<longleftrightarrow> body_of t \<noteq> None"

definition map_body :: "(tensor_body \<Rightarrow> tensor_body) \<Rightarrow> Qnn_Tensor_t \<Rightarrow> Qnn_Tensor_t" where
  "map_body f t = (case t of Tensor_V1 b \<Rightarrow> Tensor_V1 (f b) | Tensor_V2 b d \<Rightarrow> Tensor_V2 (f b) d | Tensor_Version v \<Rightarrow> Tensor_Version v)"

definition wf_tensor :: "QnnTensorWrapper \<Rightarrow> bool" where
  "wf_tensor tw \<longleftrightarrow>
     (case body_of (qnn_tensor tw) of
        None \<Rightarrow> False
      | Some b \<Rightarrow> t_name b = Some (GetResolvedTensorName tw) \<and> t_dimensions b = Some (dimensions tw)
                  \<and> t_rank b = u32 (length (dimensions tw)) \<and> t_quantizeParams b = params (quant_params tw))"

lemma body_of_map_body [simp]: "body_of (map_body f t) = map_option f (body_of t)"
  by (cases t) (simp_all add: map_body_def body_of_def)

lemma supported_map_body [simp]: "supported (map_body f t) = supported t"
  by (simp add: supported_def)

lemma set_field_eq [simp]: "set_field f t = (if supported t then Inr (map_body f t) else version_error)"
  by (cases t) (simp_all add: set_field_def map_body_def supported_def body_of_def)

lemma get_field_eq [simp]: "get_field f t = (case body_of t of None \<Rightarrow> version_error | Some b \<Rightarrow> Inr (f b))"
  by (cases t) (simp_all add: get_field_def body_of_def)

lemma map_body_map_body [simp]: "map_body f (map_body g t) = map_body (\<lambda>b. f (g b)) t"
  by (cases t) (simp_all add: map_body_def)

lemma version_error_neq [simp]: "version_error \<noteq> Inr x" "Inr x \<noteq> version_error"
  by (simp_all add: version_error_def)

lemma and_then_version_error [simp]: "and_then version_error f = version_error"
  by (simp add: version_error_def)

lemma body_of_INIT: "\<exists>b. body_of QNN_TENSOR_INIT = Some b \<and> t_id b = 0"
  by (simp add: QNN_TENSOR_INIT_def body_of_def)

lemma supported_INIT [simp]: "supported QNN_TENSOR_INIT"
  using body_of_INIT by (auto simp: supported_def)

lemma wf_tensor_supported: "wf_tensor tw \<Longrightarrow> supported (qnn_tensor tw)"
  by (auto simp: wf_tensor_def supported_def split: option.splits)

lemma fill_tensor_eq:
  "fill_tensor ty name dt shape mt buf qp t =
     (if supported t then
        Inr (map_body (\<lambda>b. b\<lparr>t_type := ty, t_name := Some name, t_dataType := dt, t_rank := u32 (length shape),
               t_dimensions := Some shape, t_memType := mt,
               t_storage := (if ty = QNN_TENSOR_TYPE_STATIC
                             then Client_Buf \<lparr>buf_data = Vector_Data buf, dataSize = u32 (length buf)\<rparr> else t_storage b),
               t_quantizeParams := qp\<rparr>) t)
      else version_error)"
  by (simp add: fill_tensor_def tensor_defs)

text \<open>The body that the constructor of a wrapper leaves in the raw tensor.\<close>

lemma QnnTensorWrapper_new_ok:
  assumes "QnnTensorWrapper_new to_float name ty dt qp shape buf mt h = (r, h')"
  obtains tw b where "r = Inr tw" "body_of (qnn_tensor tw) = Some b"
    "tensor_name tw = name" "tensor_name_override tw = []" "dimensions tw = shape"
    "(t_dataType b, client_buf tw) = narrowed to_float ty dt buf" "t_type b = ty" "t_memType b = mt"
    "t_name b = Some name" "t_dimensions b = Some shape" "t_rank b = u32 (length shape)"
    "t_quantizeParams b = params (quant_params tw)"
    "ty = QNN_TENSOR_TYPE_STATIC \<Longrightarrow>
       t_storage b = Client_Buf \<lparr>buf_data = Vector_Data (client_buf tw), dataSize = u32 (length (client_buf tw))\<rparr>"
    "(quant_params tw, h') = snd (Copy qp h)"
  using assms body_of_INIT
  by (auto simp: QnnTensorWrapper_new_def fill_tensor_eq split: prod.splits)

lemma wf_tensor_new:
  "QnnTensorWrapper_new to_float name ty dt qp shape buf mt h = (Inr tw, h') \<Longrightarrow> wf_tensor tw"
  by (erule QnnTensorWrapper_new_ok) (auto simp: wf_tensor_def GetResolvedTensorName_def)

lemma SwapOther_eq:
  "SwapOther this other =
     (if supported (qnn_tensor other) then
        Inr (other\<lparr>qnn_tensor := map_body (\<lambda>b. b\<lparr>t_name := Some (GetResolvedTensorName other),
               t_rank := u32 (length (dimensions other)), t_dimensions := Some (dimensions other),
               t_storage := Client_Buf \<lparr>buf_data = Vector_Data (client_buf other), dataSize = u32 (length (client_buf other))\<rparr>,
               t_quantizeParams := params (quant_params other)\<rparr>) (qnn_tensor other)\<rparr>, this)
      else version_error)"
  by (simp add: SwapOther_def tensor_defs)

lemma GetResolvedTensorName_tensor [simp]: "GetResolvedTensorName (tw\<lparr>qnn_tensor := t\<rparr>) = GetResolvedTensorName tw"
  by (simp add: GetResolvedTensorName_def)

lemma move_construct_eq:
  "supported (qnn_tensor tw) \<Longrightarrow>
   \<exists>tw'. move_construct tw = Inr tw' \<and> wf_tensor tw' \<and> tensor_name tw' = tensor_name tw
      \<and> GetResolvedTensorName tw' = GetResolvedTensorName tw \<and> dimensions tw' = dimensions tw
      \<and> map_option (\<lambda>b. (t_id b, t_type b, t_dataType b, t_memType b)) (body_of (qnn_tensor tw'))
        = map_option (\<lambda>b. (t_id b, t_type b, t_dataType b, t_memType b)) (body_of (qnn_tensor tw))"
  by (auto simp: move_construct_def SwapOther_eq wf_tensor_def supported_def GetResolvedTensorName_def)

lemma SetResolvedTensorName_wf:
  assumes "wf_tensor tw"
  shows "\<exists>tw'. SetResolvedTensorName name tw = Inr tw' \<and> wf_tensor tw' \<and> tensor_name tw' = tensor_name tw
           \<and> (name \<noteq> [] \<longrightarrow> GetResolvedTensorName tw' = name)"
  using assms wf_tensor_supported [OF assms]
  by (auto simp: SetResolvedTensorName_def tensor_defs wf_tensor_def GetResolvedTensorName_def split: option.splits)

section \<open>The table of created tensors\<close>

text \<open>
  \<open>created ev\<close> is what the graph history says: the name and the id of every tensor, in the order of creation.  The table agrees
  with the graph when it holds exactly these pairs and no name twice.
\<close>

definition label_of :: "Qnn_Tensor_t \<Rightarrow> string option \<times> nat" where
  "label_of t = (case body_of t of None \<Rightarrow> (None, 0) | Some b \<Rightarrow> (t_name b, t_id b))"

fun created :: "graph_event list \<Rightarrow> (string option \<times> nat) list" where
  "created [] = []"
| "created (Tensor_Created t # ev) = label_of t # created ev"
| "created (Node_Added _ # ev) = created ev"

definition graph_ok :: "graph_state \<Rightarrow> bool" where
  "graph_ok s \<longleftrightarrow> wf_map (fst s) \<and> created (snd s) = map (\<lambda>(n, i). (Some n, i)) (rev (fst s))"

lemma created_append [simp]: "created (ev @ ev') = created ev @ created ev'"
  by (induction ev rule: created.induct) simp_all

lemma label_of_SetID [simp]:
  "supported t \<Longrightarrow> label_of (map_body (\<lambda>b. b\<lparr>t_id := i\<rparr>) t) = (fst (label_of t), i)"
  by (auto simp: label_of_def supported_def)

lemma CreateTensorInQnnGraph_cases:
  assumes "CreateTensorInQnnGraph qnn name t s = (r, s')" "supported t"
  shows "(\<exists>e. r = Inl e \<and> s' = s)
       \<or> (\<exists>i. map_of (fst s) name = Some i \<and> r = Inr (map_body (\<lambda>b. b\<lparr>t_id := i\<rparr>) t) \<and> s' = s)
       \<or> (\<exists>i. map_of (fst s) name = None \<and> r = Inr (map_body (\<lambda>b. b\<lparr>t_id := i\<rparr>) t)
            \<and> tensorCreateGraphTensor qnn (snd s) t = Inr i
            \<and> (GetQnnTensorType t = Inr QNN_TENSOR_TYPE_STATIC \<longrightarrow> static_tensor_ok t = Inr ())
            \<and> s' = ((name, i) # fst s, snd s @ [Tensor_Created (map_body (\<lambda>b. b\<lparr>t_id := i\<rparr>) t)]))"
  using assms
  by (auto simp: CreateTensorInQnnGraph_def CreateTensor_def tensor_defs Let_def emplace_def and_then_def require_def
      supported_def split: prod.splits option.splits sum.splits if_splits)

text \<open>
  Both kinds of objects that enter a graph, tensors and parameters, are kept in a map by name, and the builder enters the
  objects of a list of names one after the other.  \<open>place\<close> is what happens to one object.
\<close>

fun place_names ::
  "(string \<Rightarrow> 'w \<Rightarrow> graph_state \<Rightarrow> unit result \<times> ('w \<times> graph_state)) \<Rightarrow> string list \<Rightarrow> (string \<times> 'w) list \<times> graph_state
   \<Rightarrow> 'w list result \<times> ((string \<times> 'w) list \<times> graph_state)" where
  "place_names place [] s = (Inr [], s)"
| "place_names place (n # ns) s =
     (case map_of (fst s) n of
        None \<Rightarrow> (Inl (Status_Fail ''name not exist''), s)
      | Some w \<Rightarrow>
          (case place n w (snd s) of
             (Inl e, (w', g)) \<Rightarrow> (Inl e, (assign n w' (fst s), g))
           | (Inr _, (w', g)) \<Rightarrow>
               (case place_names place ns (assign n w' (fst s), g) of
                  (Inl e, s') \<Rightarrow> (Inl e, s')
                | (Inr ws, s') \<Rightarrow> (Inr (w' # ws), s'))))"

text \<open>
  What the builder relies on: entering an object keeps the table in agreement with the graph and adds no node, and an object
  that was entered has labels the graph knows.
\<close>

definition only_tensors :: "graph_event list \<Rightarrow> bool" where
  "only_tensors ev \<longleftrightarrow> list_all (\<lambda>e. case e of Tensor_Created _ \<Rightarrow> True | Node_Added _ \<Rightarrow> False) ev"

definition extends :: "graph_state \<Rightarrow> graph_state \<Rightarrow> bool" where
  "extends s s' \<longleftrightarrow> (\<exists>new. snd s' = snd s @ new \<and> only_tensors new)"

lemma extends_refl [simp]: "extends s s"
  by (simp add: extends_def only_tensors_def)

lemma extends_trans: "extends s s' \<Longrightarrow> extends s' s'' \<Longrightarrow> extends s s''"
  by (auto simp: extends_def only_tensors_def)

lemma extends_created: "extends s s' \<Longrightarrow> set (created (snd s)) \<subseteq> set (created (snd s'))"
  by (auto simp: extends_def)

locale graph_placement =
  fixes place :: "string \<Rightarrow> 'w \<Rightarrow> graph_state \<Rightarrow> unit result \<times> ('w \<times> graph_state)"
    and good :: "string \<Rightarrow> 'w \<Rightarrow> bool"
    and labels :: "'w \<Rightarrow> (string option \<times> nat) set"
  assumes place_ok: "graph_ok g \<Longrightarrow> good n w \<Longrightarrow> place n w g = (r, w', g') \<Longrightarrow>
      graph_ok g' \<and> extends g g' \<and> good n w' \<and> (is_ok r \<longrightarrow> labels w' \<subseteq> set (created (snd g')))"
begin

definition good_map :: "(string \<times> 'w) list \<Rightarrow> bool" where
  "good_map m \<longleftrightarrow> (\<forall>n w. map_of m n = Some w \<longrightarrow> good n w)"

lemma place_names_ok:
  "graph_ok (snd s) \<Longrightarrow> good_map (fst s) \<Longrightarrow> place_names place ns s = (r, s') \<Longrightarrow>
   graph_ok (snd s') \<and> extends (snd s) (snd s') \<and> good_map (fst s')
   \<and> (\<forall>ws. r = Inr ws \<longrightarrow> (\<forall>w \<in> set ws. labels w \<subseteq> set (created (snd (snd s')))))"
proof (induction ns arbitrary: s r s')
  case (Cons n ns)
  show ?case
  proof (cases "map_of (fst s) n")
    case None
    then have "r = Inl (Status_Fail ''name not exist'')" "s' = s" using Cons.prems(3) by simp_all
    then show ?thesis using Cons.prems by simp
  next
    case (Some w)
    obtain r1 w' g where 1: "place n w (snd s) = (r1, w', g)" by (cases "place n w (snd s)") auto
    have "good n w" using Cons.prems(2) Some by (simp add: good_map_def)
    then have ok: "graph_ok g \<and> extends (snd s) g \<and> good n w' \<and> (is_ok r1 \<longrightarrow> labels w' \<subseteq> set (created (snd g)))"
      by (rule place_ok [OF Cons.prems(1) _ 1])
    then have gm: "good_map (assign n w' (fst s))" using Cons.prems(2) by (auto simp: good_map_def)
    show ?thesis
    proof (cases r1)
      case (Inl e)
      then have "r = Inl e" "s' = (assign n w' (fst s), g)" using Cons.prems(3) Some 1 by simp_all
      then show ?thesis using ok gm by simp
    next
      case (Inr u)
      obtain r2 s2 where 2: "place_names place ns (assign n w' (fst s), g) = (r2, s2)"
        by (cases "place_names place ns (assign n w' (fst s), g)") blast
      have IH: "graph_ok (snd s2) \<and> extends g (snd s2) \<and> good_map (fst s2)
          \<and> (\<forall>ws. r2 = Inr ws \<longrightarrow> (\<forall>w \<in> set ws. labels w \<subseteq> set (created (snd (snd s2)))))"
        using Cons.IH [OF _ _ 2] ok gm by simp
      have ex: "extends (snd s) (snd s2)" using ok IH extends_trans by blast
      have "set (created (snd g)) \<subseteq> set (created (snd (snd s2)))" using IH extends_created by blast
      then have lab: "labels w' \<subseteq> set (created (snd (snd s2)))" using ok Inr by (metis is_ok_simps(1) order_trans)
      have "place_names place (n # ns) s = (case r2 of Inl e \<Rightarrow> Inl e | Inr ws \<Rightarrow> Inr (w' # ws), s2)"
        using Some 1 2 Inr by (simp split: sum.split)
      then have s2: "s' = s2" and r: "r = (case r2 of Inl e \<Rightarrow> Inl e | Inr ws \<Rightarrow> Inr (w' # ws))"
        using Cons.prems(3) by (metis prod.inject)+
      have "\<forall>w \<in> set ws. labels w \<subseteq> set (created (snd (snd s2)))" if "r = Inr ws" for ws
      proof (cases r2)
        case (Inr vs)
        then have "ws = w' # vs" using that r by simp
        then show ?thesis using Inr IH lab by simp
      qed (use that r in simp)
      then show ?thesis unfolding s2 using IH ex by blast
    qed
  qed
qed auto

end

section \<open>Tensors and parameters as placements\<close>

definition place_tensor ::
  "qnn_interface \<Rightarrow> (string \<Rightarrow> string option) \<Rightarrow> string \<Rightarrow> QnnTensorWrapper \<Rightarrow> graph_state \<Rightarrow> unit result \<times> (QnnTensorWrapper \<times> graph_state)" where
  "place_tensor qnn override key tw g =
     (case (case override key of None \<Rightarrow> Inr tw | Some n \<Rightarrow> SetResolvedTensorName n tw) of
        Inl e \<Rightarrow> (Inl e, (tw, g))
      | Inr tw1 \<Rightarrow>
          (case CreateQnnGraphTensor qnn tw1 g of
             (Inl e, g') \<Rightarrow> (Inl e, (tw1, g'))
           | (Inr tw2, g') \<Rightarrow> (Inr (), (tw2, g'))))"

definition place_param :: "qnn_interface \<Rightarrow> string \<Rightarrow> QnnParamWrapper \<Rightarrow> graph_state \<Rightarrow> unit result \<times> (QnnParamWrapper \<times> graph_state)" where
  "place_param qnn key pw g =
     (case CreateQnnGraphParam qnn pw g of (Inl e, g') \<Rightarrow> (Inl e, (pw, g')) | (Inr pw', g') \<Rightarrow> (Inr (), (pw', g')))"

definition wf_param :: "QnnParamWrapper \<Rightarrow> bool" where
  "wf_param pw \<longleftrightarrow>
     (case qnn_param pw of
        Param_Tensor n t \<Rightarrow> n = pw_name pw \<and> (\<exists>b. body_of t = Some b \<and> t_name b = Some (pw_tensor_name pw))
      | Param_Scalar n _ \<Rightarrow> n = pw_name pw
      | Param_Undefined n \<Rightarrow> n = pw_name pw)"

definition param_labels :: "Qnn_Param_t \<Rightarrow> (string option \<times> nat) set" where
  "param_labels p = (case p of Param_Tensor _ t \<Rightarrow> {label_of t} | _ \<Rightarrow> {})"

lemma CreateTensorInQnnGraph_graph_ok:
  assumes "CreateTensorInQnnGraph qnn name t g = (r, g')" "graph_ok g" "body_of t = Some b" "t_name b = Some name"
  shows "graph_ok g' \<and> extends g g'
         \<and> (\<forall>t'. r = Inr t' \<longrightarrow> (\<exists>i. t' = map_body (\<lambda>b. b\<lparr>t_id := i\<rparr>) t \<and> (Some name, i) \<in> set (created (snd g'))))"
proof -
  have sup: "supported t" using assms(3) by (simp add: supported_def)
  have lab: "label_of (map_body (\<lambda>b. b\<lparr>t_id := i\<rparr>) t) = (Some name, i)" for i
    using assms(3,4) by (simp add: label_of_def)
  from CreateTensorInQnnGraph_cases [OF assms(1) sup] consider
      (fail) e where "r = Inl e" "g' = g"
    | (old) i where "map_of (fst g) name = Some i" "r = Inr (map_body (\<lambda>b. b\<lparr>t_id := i\<rparr>) t)" "g' = g"
    | (new) i where "map_of (fst g) name = None" "r = Inr (map_body (\<lambda>b. b\<lparr>t_id := i\<rparr>) t)"
        "g' = ((name, i) # fst g, snd g @ [Tensor_Created (map_body (\<lambda>b. b\<lparr>t_id := i\<rparr>) t)])"
    by blast
  then show ?thesis
  proof cases
    case old
    then have "(Some name, i) \<in> set (created (snd g))"
      using assms(2) map_of_SomeD [OF old(1)] by (force simp: graph_ok_def)
    with old assms(2) show ?thesis by auto
  next
    case new
    then show ?thesis
      using assms(2) lab
      by (auto simp: graph_ok_def extends_def only_tensors_def wf_map_def map_of_eq_None_iff simp del: label_of_SetID)
  qed (use assms(2) in auto)
qed

lemma resolve_wf:
  assumes "wf_tensor tw"
  obtains tw1 where "(case override key of None \<Rightarrow> Inr tw | Some n \<Rightarrow> SetResolvedTensorName n tw) = Inr tw1"
    "wf_tensor tw1" "tensor_name tw1 = tensor_name tw"
proof (cases "override key")
  case (Some n)
  then show ?thesis using that SetResolvedTensorName_wf [OF assms, of n] by auto
qed (use that assms in simp)

lemma wf_tensor_id [simp]: "wf_tensor (tw\<lparr>qnn_tensor := map_body (t_id_update f) (qnn_tensor tw)\<rparr>) = wf_tensor tw"
  by (auto simp: wf_tensor_def split: option.splits)

interpretation gt: graph_placement "place_tensor qnn override" "\<lambda>n tw. wf_tensor tw \<and> tensor_name tw = n"
  "\<lambda>tw. {label_of (qnn_tensor tw)}"
proof
  fix g n w r w' g'
  assume g: "graph_ok g" and w: "wf_tensor w \<and> tensor_name w = n" and p: "place_tensor qnn override n w g = (r, w', g')"
  obtain tw1 where 1: "(case override n of None \<Rightarrow> Inr w | Some n \<Rightarrow> SetResolvedTensorName n w) = Inr tw1"
      "wf_tensor tw1" "tensor_name tw1 = n"
    using w by (metis resolve_wf)
  obtain b where b: "body_of (qnn_tensor tw1) = Some b" "t_name b = Some (GetResolvedTensorName tw1)"
    using 1(2) by (auto simp: wf_tensor_def split: option.splits)
  obtain r2 g2 where 2: "CreateTensorInQnnGraph qnn (GetResolvedTensorName tw1) (qnn_tensor tw1) g = (r2, g2)"
    by (cases "CreateTensorInQnnGraph qnn (GetResolvedTensorName tw1) (qnn_tensor tw1) g") blast
  note c = CreateTensorInQnnGraph_graph_ok [OF 2 g b]
  show "graph_ok g' \<and> extends g g' \<and> (wf_tensor w' \<and> tensor_name w' = n)
        \<and> (is_ok r \<longrightarrow> {label_of (qnn_tensor w')} \<subseteq> set (created (snd g')))"
  proof (cases r2)
    case (Inl e)
    then have "r = Inl e" "w' = tw1" "g' = g2" using p 1(1) by (simp_all add: place_tensor_def CreateQnnGraphTensor_def 2)
    then show ?thesis using 1 c by simp
  next
    case (Inr t)
    then obtain i where i: "t = map_body (\<lambda>b. b\<lparr>t_id := i\<rparr>) (qnn_tensor tw1)"
        "(Some (GetResolvedTensorName tw1), i) \<in> set (created (snd g2))"
      using c by blast
    have "w' = tw1\<lparr>qnn_tensor := t\<rparr>" "g' = g2"
      using p 1(1) Inr by (simp_all add: place_tensor_def CreateQnnGraphTensor_def 2)
    then show ?thesis using i 1 c b by (simp add: label_of_def)
  qed
qed

interpretation gp: graph_placement "place_param qnn" "\<lambda>n pw. wf_param pw \<and> pw_tensor_name pw = n"
  "\<lambda>pw. param_labels (qnn_param pw)"
proof
  fix g n w r w' g'
  assume g: "graph_ok g" and w: "wf_param w \<and> pw_tensor_name w = n" and p: "place_param qnn n w g = (r, w', g')"
  show "graph_ok g' \<and> extends g g' \<and> (wf_param w' \<and> pw_tensor_name w' = n)
        \<and> (is_ok r \<longrightarrow> param_labels (qnn_param w') \<subseteq> set (created (snd g')))"
  proof (cases "qnn_param w")
    case (Param_Tensor m t)
    then obtain b where b: "body_of t = Some b" "t_name b = Some (pw_tensor_name w)"
      using w by (auto simp: wf_param_def)
    obtain r2 g2 where 2: "CreateTensorInQnnGraph qnn (pw_tensor_name w) t g = (r2, g2)"
      by (cases "CreateTensorInQnnGraph qnn (pw_tensor_name w) t g") blast
    show ?thesis
      using p w b CreateTensorInQnnGraph_graph_ok [OF 2 g b] Param_Tensor
      by (cases r2) (auto simp: place_param_def CreateQnnGraphParam_def 2 wf_param_def param_labels_def label_of_def)
  qed (use p w g in \<open>auto simp: place_param_def CreateQnnGraphParam_def param_labels_def\<close>)
qed

section \<open>Buffers\<close>

lemma bit_of_bytes:
  "bit (of_bytes bs :: 'a::len word) k \<longleftrightarrow> k < LENGTH('a) \<and> k div 8 < length bs \<and> bit (bs ! (k div 8)) (k mod 8)"
proof (induction bs arbitrary: k)
  case (Cons b bs)
  have step: "of_bytes (b # bs) = (push_bit 8 (of_bytes bs) OR ucast b :: 'a word)"
    by (simp add: of_bytes_def)
  show ?case
  proof (cases "k < 8")
    case True
    then show ?thesis by (auto simp: step bit_simps)
  next
    case False
    then obtain j where k: "k = j + 8" by (metis add.commute le_Suc_ex not_less)
    have nb: "\<not> bit b k" using False bit_imp_le_length [of b k] by auto
    show ?thesis using Cons.IH [of j] nb by (auto simp: step bit_simps k)
  qed
qed (simp add: of_bytes_def)

lemma length_to_bytes [simp]: "length (to_bytes n v) = n"
  by (simp add: to_bytes_def)

lemma of_bytes_to_bytes:
  fixes v :: "'a::len word"
  assumes "LENGTH('a) \<le> 8 * n"
  shows "(of_bytes (to_bytes n v) :: 'a word) = v"
proof (rule bit_word_eqI)
  fix k assume k: "k < LENGTH('a)"
  then have "k div 8 < n" using assms by linarith
  then show "bit (of_bytes (to_bytes n v) :: 'a word) k = bit v k"
    using k by (simp add: bit_of_bytes to_bytes_def bit_simps)
qed

lemma length_concat_bytes [simp]: "length (concat (map (\<lambda>v. to_bytes n (f v)) vs)) = n * length vs"
  by (induction vs) simp_all

lemma span_of_concat:
  assumes "0 < n" "LENGTH('a) \<le> 8 * n"
  shows "span_of n (concat (map (\<lambda>v. to_bytes n (f v :: 'a::len word)) vs)) = map f vs"
proof (rule nth_equalityI)
  let ?bs = "\<lambda>vs. concat (map (\<lambda>v. to_bytes n (f v :: 'a word)) vs)"
  show l: "length (span_of n (?bs vs) :: 'a word list) = length (map f vs)"
    using assms(1) by (simp add: span_of_def)
  have "take n (drop (n * i) (?bs vs)) = to_bytes n (f (vs ! i))" if "i < length vs" for i
    using that
  proof (induction vs arbitrary: i)
    case (Cons v vs)
    then show ?case by (cases i) simp_all
  qed simp
  then show "span_of n (?bs vs) ! i = map f vs ! i" if "i < length (span_of n (?bs vs) :: 'a word list)" for i
    using that l assms by (simp add: span_of_def of_bytes_to_bytes)
qed

lemma length_narrow_buffer: "length (narrow_buffer f bs) = 4 * (length bs div 8)"
  by (simp only: narrow_buffer_def length_concat_bytes) (simp add: span_of_def)

lemma narrow_buffer_values: "span_of 4 (narrow_buffer f bs) = map f (span_of 8 bs)"
  unfolding narrow_buffer_def by (rule span_of_concat) simp_all

lemma GetQnnTensorDataSizeInBytes_eq:
  assumes "body_of t = Some b" "t_dimensions b = Some shape" "t_rank b = u32 (length shape)" "length shape < 2 ^ 32"
  shows "GetQnnTensorDataSizeInBytes t = GetQnnTensorDataSizeInBytes_shape shape (t_dataType b)"
  using assms
  by (simp add: GetQnnTensorDataSizeInBytes_def dims_span_def tensor_defs u32_def first_n_def)

lemma data_size_64_32:
  assumes "GetQnnTensorDataSizeInBytes_shape shape dt64 = Inr (8 * n)"
    and "(dt64, dt32) \<in> {(QNN_DATATYPE_INT_64, QNN_DATATYPE_INT_32), (QNN_DATATYPE_FLOAT_64, QNN_DATATYPE_FLOAT_32)}"
  shows "GetQnnTensorDataSizeInBytes_shape shape dt32 = Inr (4 * n)"
proof -
  have "GetQnnTensorDataSizeInBytes_elems k dt64 = Inr (8 * n) \<Longrightarrow> GetQnnTensorDataSizeInBytes_elems k dt32 = Inr (4 * n)" for k
    using assms(2)
    by (auto simp: GetQnnTensorDataSizeInBytes_elems_def GetElementSizeByType_def qnn_type_sizes_def safe_size_eq_Inr_iff)
  with assms(1) show ?thesis
    by (auto simp: GetQnnTensorDataSizeInBytes_shape_def and_then_eq_Inr_iff split: if_splits)
qed

section \<open>Properties\<close>

text \<open>
  QNN has no 64-bit elements, so a static tensor of 64-bit integers or doubles is stored narrowed.  Each value of the
  buffer is converted on its own, the element type becomes the 32-bit one, and a buffer whose size fits its shape before the
  conversion passes the length check of the tensor creation afterwards.
\<close>

theorem narrowed_static_tensor_is_accepted:
  assumes new: "QnnTensorWrapper_new to_float name QNN_TENSOR_TYPE_STATIC dt qp shape buf QNN_TENSORMEMTYPE_RAW h = (r, h')"
    and dt: "dt = QNN_DATATYPE_INT_64 \<or> dt = QNN_DATATYPE_FLOAT_64"
    and size: "GetQnnTensorDataSizeInBytes_shape shape dt = Inr (length buf)"
    and bounds: "buf \<noteq> []" "length buf < 2 ^ 33" "length shape < 2 ^ 32" "8 dvd length buf"
  shows "\<exists>tw. r = Inr tw \<and> static_tensor_ok (qnn_tensor tw) = Inr ()
      \<and> GetTensorDataType tw = Inr (if dt = QNN_DATATYPE_INT_64 then QNN_DATATYPE_INT_32 else QNN_DATATYPE_FLOAT_32)
      \<and> span_of 4 (client_buf tw) = map (if dt = QNN_DATATYPE_INT_64 then ucast else to_float) (span_of 8 buf)"
proof -
  from new obtain tw b where tw: "r = Inr tw" "body_of (qnn_tensor tw) = Some b" "dimensions tw = shape"
      "(t_dataType b, client_buf tw) = narrowed to_float QNN_TENSOR_TYPE_STATIC dt buf" "t_memType b = QNN_TENSORMEMTYPE_RAW"
      "t_dimensions b = Some shape" "t_rank b = u32 (length shape)"
      "t_storage b = Client_Buf \<lparr>buf_data = Vector_Data (client_buf tw), dataSize = u32 (length (client_buf tw))\<rparr>"
    by (rule QnnTensorWrapper_new_ok) auto
  let ?dt = "if dt = QNN_DATATYPE_INT_64 then QNN_DATATYPE_INT_32 else QNN_DATATYPE_FLOAT_32"
  let ?f = "if dt = QNN_DATATYPE_INT_64 then ucast else to_float"
  have nar: "t_dataType b = ?dt" "client_buf tw = narrow_buffer ?f buf"
    using tw(4) dt bounds(1) by (auto simp: narrowed_def)
  obtain n where n: "length buf = 8 * n" using bounds(4) by (auto simp: dvd_def)
  have "GetQnnTensorDataSizeInBytes (qnn_tensor tw) = Inr (4 * n)"
    using GetQnnTensorDataSizeInBytes_eq [OF tw(2,6,7) bounds(3)] data_size_64_32 [of shape dt n ?dt] size n dt nar(1) by auto
  moreover have "u32 (length (client_buf tw)) = 4 * n"
    using n bounds(2) by (simp add: nar(2) length_narrow_buffer u32_def)
  ultimately have "static_tensor_ok (qnn_tensor tw) = Inr ()"
    using tw by (simp add: static_tensor_ok_def tensor_defs client_buf_of_def)
  then show ?thesis
    using tw(1,2) nar narrow_buffer_values [of ?f buf] by (simp add: GetTensorDataType_def tensor_defs)
qed

theorem narrowed_static_tensor_is_accepted_witness:
  "\<exists>tw h'. QnnTensorWrapper_new ucast ''w'' QNN_TENSOR_TYPE_STATIC QNN_DATATYPE_INT_64 QnnQuantParamsWrapper_new [2]
      (to_bytes 8 (5 :: 64 word) @ to_bytes 8 (- 1 :: 64 word)) QNN_TENSORMEMTYPE_RAW empty_heap = (Inr tw, h')
    \<and> static_tensor_ok (qnn_tensor tw) = Inr () \<and> span_of 4 (client_buf tw) = [5, - 1 :: 32 word]"
proof -
  let ?buf = "to_bytes 8 (5 :: 64 word) @ to_bytes 8 (- 1 :: 64 word)"
  obtain r h' where new: "QnnTensorWrapper_new ucast ''w'' QNN_TENSOR_TYPE_STATIC QNN_DATATYPE_INT_64 QnnQuantParamsWrapper_new
      [2] ?buf QNN_TENSORMEMTYPE_RAW empty_heap = (r, h')"
    by (cases "QnnTensorWrapper_new ucast ''w'' QNN_TENSOR_TYPE_STATIC QNN_DATATYPE_INT_64 QnnQuantParamsWrapper_new
      [2] ?buf QNN_TENSORMEMTYPE_RAW empty_heap") blast
  have len: "length ?buf = 16" by simp
  have "GetQnnTensorDataSizeInBytes_shape [2] QNN_DATATYPE_INT_64 = Inr 16"
    by (simp add: GetQnnTensorDataSizeInBytes_shape_def GetQnnTensorDataSizeInBytes_elems_def GetElementSizeByType_def
      qnn_type_sizes_def safe_size_def size_max_def)
  then have size: "GetQnnTensorDataSizeInBytes_shape [2] QNN_DATATYPE_INT_64 = Inr (length ?buf)" by (simp only: len)
  have ne: "?buf \<noteq> []" using len by (metis list.size(3) zero_neq_numeral)
  have bounds: "length ?buf < 2 ^ 33" "length [2 :: nat] < 2 ^ 32" "8 dvd length ?buf" unfolding len by simp_all
  note narrowed_static_tensor_is_accepted [OF new disjI1 [OF refl] size ne bounds, unfolded simp_thms(6) if_True]
  then obtain tw where tw: "r = Inr tw"
    and ok: "static_tensor_ok (qnn_tensor tw) = Inr ()"
    and v: "span_of 4 (client_buf tw) = (map ucast (span_of 8 ?buf :: 64 word list) :: 32 word list)"
    by blast
  have "span_of 8 (concat (map (to_bytes 8) [5, - 1 :: 64 word])) = [5, - 1 :: 64 word]"
    using span_of_concat [of 8 "\<lambda>v. v" "[5, - 1 :: 64 word]"] by (simp del: list.simps concat.simps)
  then have "span_of 8 ?buf = [5, - 1 :: 64 word]" by simp
  moreover have "ucast (- 1 :: 64 word) = (- 1 :: 32 word)" by (rule bit_word_eqI) (simp add: bit_simps)
  ultimately have "span_of 4 (client_buf tw) = [5, - 1 :: 32 word]" unfolding v by simp
  with new ok show ?thesis unfolding tw by blast
qed

text \<open>
  C25.  The backend is never told that a static tensor is larger than the memory behind it.  When the constructor of a wrapper
  stored a buffer and creating the tensor in the graph makes a new tensor, the byte size of the declared shape is at most the
  length of the buffer, even though the 32-bit size field wraps around for buffers of 4 GiB and more.
\<close>

theorem created_static_tensor_fits_its_buffer:
  assumes new: "QnnTensorWrapper_new to_float name QNN_TENSOR_TYPE_STATIC dt qp shape buf mt h = (Inr tw, h')"
    and create: "CreateQnnGraphTensor qnn tw g = (Inr tw', g')" and added: "g' \<noteq> g"
  shows "\<exists>n. GetQnnTensorDataSizeInBytes (qnn_tensor tw') = Inr n \<and> n \<le> length (client_buf tw')"
proof -
  obtain b where tw: "body_of (qnn_tensor tw) = Some b" "t_type b = QNN_TENSOR_TYPE_STATIC"
      "t_storage b = Client_Buf \<lparr>buf_data = Vector_Data (client_buf tw), dataSize = u32 (length (client_buf tw))\<rparr>"
    by (rule QnnTensorWrapper_new_ok [OF new]) (simp only: sum.inject)
  obtain t where c: "CreateTensorInQnnGraph qnn (GetResolvedTensorName tw) (qnn_tensor tw) g = (Inr t, g')"
      "tw' = tw\<lparr>qnn_tensor := t\<rparr>"
    using create by (auto simp: CreateQnnGraphTensor_def and_then_eq_Inr_iff split: prod.splits)
  have "supported (qnn_tensor tw)" using tw(1) by (simp add: supported_def)
  from CreateTensorInQnnGraph_cases [OF c(1) this] obtain i where
      t: "t = map_body (\<lambda>b. b\<lparr>t_id := i\<rparr>) (qnn_tensor tw)" and ok: "static_tensor_ok (qnn_tensor tw) = Inr ()"
    using added tw(1,2) by (auto simp: tensor_defs)
  have same: "GetQnnTensorDataSizeInBytes t = GetQnnTensorDataSizeInBytes (qnn_tensor tw)"
    using tw(1) by (simp add: t GetQnnTensorDataSizeInBytes_def dims_span_def tensor_defs)
  obtain n where n: "GetQnnTensorDataSizeInBytes (qnn_tensor tw) = Inr n" "n = u32 (length (client_buf tw))"
    using ok tw(1,3) by (auto simp: static_tensor_ok_def tensor_defs client_buf_of_def and_then_eq_Inr_iff)
  then have "n \<le> length (client_buf tw)" by (simp add: u32_def)
  then show ?thesis using n(1) same c(2) by simp
qed

theorem created_static_tensor_fits_its_buffer_witness:
  "\<exists>tw tw' g' n h'. QnnTensorWrapper_new ucast ''w'' QNN_TENSOR_TYPE_STATIC QNN_DATATYPE_UINT_8 QnnQuantParamsWrapper_new [3]
        [1, 2, 3] QNN_TENSORMEMTYPE_RAW empty_heap = (Inr tw, h')
    \<and> CreateQnnGraphTensor \<lparr>tensorCreateGraphTensor = \<lambda>ev t. Inr (length ev + 1), graphAddNode = \<lambda>_ _. 0,
        backendValidateOpConfig = \<lambda>_. 0\<rparr> tw ([], []) = (Inr tw', g')
    \<and> GetQnnTensorDataSizeInBytes (qnn_tensor tw') = Inr n \<and> n \<le> length (client_buf tw')"
proof -
  let ?qnn = "\<lparr>tensorCreateGraphTensor = \<lambda>ev t. Inr (length ev + 1), graphAddNode = \<lambda>_ _. 0, backendValidateOpConfig = \<lambda>_. 0\<rparr>"
  let ?new = "QnnTensorWrapper_new ucast ''w'' QNN_TENSOR_TYPE_STATIC QNN_DATATYPE_UINT_8 QnnQuantParamsWrapper_new [3]
        [1, 2, 3] QNN_TENSORMEMTYPE_RAW empty_heap"
  obtain r h' where new: "?new = (r, h')" by (cases ?new) blast
  from new obtain tw b where tw: "r = Inr tw" "body_of (qnn_tensor tw) = Some b" "t_type b = QNN_TENSOR_TYPE_STATIC"
      "(t_dataType b, client_buf tw) = narrowed ucast QNN_TENSOR_TYPE_STATIC QNN_DATATYPE_UINT_8 [1, 2, 3]"
      "t_memType b = QNN_TENSORMEMTYPE_RAW" "t_dimensions b = Some [3]" "t_rank b = u32 (length [3 :: nat])"
      "t_storage b = Client_Buf \<lparr>buf_data = Vector_Data (client_buf tw), dataSize = u32 (length (client_buf tw))\<rparr>"
    by (rule QnnTensorWrapper_new_ok) auto
  have buf: "t_dataType b = QNN_DATATYPE_UINT_8" "client_buf tw = [1, 2, 3]" using tw(4) by (simp_all add: narrowed_def)
  have "GetQnnTensorDataSizeInBytes_shape [3] QNN_DATATYPE_UINT_8 = Inr 3"
    by (simp add: GetQnnTensorDataSizeInBytes_shape_def GetQnnTensorDataSizeInBytes_elems_def GetElementSizeByType_def
      qnn_type_sizes_def safe_size_def size_max_def)
  then have "GetQnnTensorDataSizeInBytes (qnn_tensor tw) = Inr 3"
    using GetQnnTensorDataSizeInBytes_eq [OF tw(2,6,7)] buf by simp
  then have "static_tensor_ok (qnn_tensor tw) = Inr ()"
    using tw buf by (simp add: static_tensor_ok_def tensor_defs client_buf_of_def u32_def)
  moreover have "GetElementSizeByType QNN_DATATYPE_UINT_8 = Inr 1" by code_simp
  ultimately have create: "\<exists>tw' g'. CreateQnnGraphTensor ?qnn tw ([], []) = (Inr tw', g') \<and> g' \<noteq> ([], [])"
    using tw buf
    by (simp add: CreateQnnGraphTensor_def CreateTensorInQnnGraph_def CreateTensor_def tensor_defs supported_def emplace_def)
  then obtain tw' g' where c: "CreateQnnGraphTensor ?qnn tw ([], []) = (Inr tw', g')" "g' \<noteq> ([], [])" by blast
  obtain n where "GetQnnTensorDataSizeInBytes (qnn_tensor tw') = Inr n" "n \<le> length (client_buf tw')"
    using created_static_tensor_fits_its_buffer [OF new [unfolded tw(1)] c] by blast
  with new tw(1) c(1) show ?thesis by blast
qed

end
