(* ===== verification/Shapes.thy ===== *)
theory Shapes
  imports Qnn_Types "HOL-Library.Multiset"
begin

text \<open>
  Shapes, permutations and the data transposes of \<open>builder/qnn_utils.h\<close> and \<open>builder/qnn_utils.cc\<close>.

  A byte buffer is a list of bytes and a \<open>std::memcpy\<close> of one element is a copy of its bytes.  The loops are folds in the order
  of the code.  Spans are indexed without a check; an index outside a span terminates the program (\<open>gsl\<close>), which is
  \<open>Undefined_Behaviour\<close> here.
\<close>

section \<open>Permutations of shapes\<close>

definition gsl_at :: "'a list \<Rightarrow> nat \<Rightarrow> 'a result" where
  "gsl_at xs i = (if i < length xs then Inr (xs ! i) else Inl (Undefined_Behaviour ''index out of range''))"

definition PermuteShape :: "'a list \<Rightarrow> nat list \<Rightarrow> 'a list \<Rightarrow> 'a list result" where
  "PermuteShape input_shape perm output_shape =
     and_then (require (length input_shape = length perm \<and> length input_shape = length output_shape)
                (Status_Fail ''PermuteShape(): expect all arguments to have the same rank.'')) (\<lambda>_.
       traverse (gsl_at input_shape) perm)"

fun InvertPerm_loop :: "nat list \<Rightarrow> nat \<Rightarrow> nat list \<Rightarrow> nat list \<Rightarrow> nat list result" where
  "InvertPerm_loop perm i [] perm_inv = Inr perm_inv"
| "InvertPerm_loop perm i (j # rest) perm_inv =
     (if j < length perm then InvertPerm_loop perm (i + 1) rest (perm_inv[j := i])
      else Inl (Status_Fail ''perm element out of range [0, rank - 1]''))"

definition InvertPerm :: "nat list \<Rightarrow> nat list \<Rightarrow> nat list result" where
  "InvertPerm perm perm_inv =
     and_then (require (length perm_inv = length perm) (Status_Fail ''perm.size() != perm_inv.size()'')) (\<lambda>_.
       InvertPerm_loop perm 0 perm perm_inv)"

definition IsIdentityPerm :: "nat list \<Rightarrow> bool" where
  "IsIdentityPerm perm = list_all (\<lambda>i. perm ! i = i) [0..<length perm]"

definition ChannelFirstToLastPerm :: "nat \<Rightarrow> nat list" where
  "ChannelFirstToLastPerm rank =
     (let perm = (replicate rank 0)[0 := 0];
          perm = fold (\<lambda>i p. p[i - 1 := i]) [2..<rank] perm
      in perm[rank - 1 := 1])"

definition ChannelLastToFirstPerm :: "nat \<Rightarrow> nat list" where
  "ChannelLastToFirstPerm rank =
     (let perm = (replicate rank 0)[0 := 0, 1 := rank - 1]
      in fold (\<lambda>i p. p[i := i - 1]) [2..<rank] perm)"

definition ApplyPermToShape :: "nat list \<Rightarrow> nat list \<Rightarrow> nat list result" where
  "ApplyPermToShape shape perm =
     (if length perm \<le> length shape
      then and_then (traverse (gsl_at shape) perm) (\<lambda>xs. Inr (xs @ replicate (length shape - length perm) 0))
      else Inl (Undefined_Behaviour ''index out of range''))"

definition NchwShapeToNhwc :: "'a list \<Rightarrow> 'a list \<Rightarrow> 'a list result" where
  "NchwShapeToNhwc nchw_shape nhwc_shape =
     (if length nchw_shape \<noteq> 4 then Inl (Status_Fail ''shape should have 4 dimension NCHW.'')
      else if length nhwc_shape < 4 then Inl (Undefined_Behaviour ''index out of range'')
      else Inr (nhwc_shape[0 := nchw_shape ! 0, 1 := nchw_shape ! 2, 2 := nchw_shape ! 3, 3 := nchw_shape ! 1]))"

definition NchwShapeToHwcn :: "'a list \<Rightarrow> 'a list \<Rightarrow> 'a list result" where
  "NchwShapeToHwcn s out =
     (if length s = 4 then
        (if length out < 4 then Inl (Undefined_Behaviour ''index out of range'')
         else Inr (out[0 := s ! 2, 1 := s ! 3, 2 := s ! 1, 3 := s ! 0]))
      else if length s = 5 then
        (if length out < 5 then Inl (Undefined_Behaviour ''index out of range'')
         else Inr (out[0 := s ! 2, 1 := s ! 3, 2 := s ! 4, 3 := s ! 1, 4 := s ! 0]))
      else Inl (Status_Fail ''Unsupported rank! only support 4 or 5.''))"

definition CnhwShapeToHwcn :: "'a list \<Rightarrow> 'a list \<Rightarrow> 'a list result" where
  "CnhwShapeToHwcn s out =
     (if length s = 4 then
        (if length out < 4 then Inl (Undefined_Behaviour ''index out of range'')
         else Inr (out[0 := s ! 2, 1 := s ! 3, 2 := s ! 0, 3 := s ! 1]))
      else if length s = 5 then
        (if length out < 5 then Inl (Undefined_Behaviour ''index out of range'')
         else Inr (out[0 := s ! 2, 1 := s ! 3, 2 := s ! 4, 3 := s ! 0, 4 := s ! 1]))
      else Inl (Status_Fail ''Unsupported rank! only support 4 or 5.''))"

definition nchw2hwcn_perm :: "nat list" where "nchw2hwcn_perm = [2, 3, 1, 0]"
definition nchw2hwcn_perm_3d :: "nat list" where "nchw2hwcn_perm_3d = [2, 3, 4, 1, 0]"
definition cnhw2hwcn_perm :: "nat list" where "cnhw2hwcn_perm = [2, 3, 0, 1]"
definition cnhw2hwcn_perm_3d :: "nat list" where "cnhw2hwcn_perm_3d = [2, 3, 4, 0, 1]"

definition GetPermToLastAxis :: "nat \<Rightarrow> nat \<Rightarrow> nat list \<Rightarrow> nat list result" where
  "GetPermToLastAxis axis rank perm =
     and_then (require (axis < rank) (Status_Fail ''Expected axis must be smaller than rank'')) (\<lambda>_.
       Inr ((perm @ [0..<rank])[axis := rank - 1, rank - 1 := axis]))"

definition broadcast_dim :: "nat \<Rightarrow> nat \<Rightarrow> nat result" where
  "broadcast_dim da db =
     (if da = db then Inr da else if da = 1 then Inr db else if db = 1 then Inr da
      else Inl (Status_Fail ''BroadcastShape: incompatible dimensions, cannot broadcast.''))"

definition BroadcastShape :: "nat list \<Rightarrow> nat list \<Rightarrow> nat list result" where
  "BroadcastShape a b =
     (let rank = max (length a) (length b)
      in fold (\<lambda>i r. and_then r (\<lambda>out.
                and_then (broadcast_dim (if i < length a then a ! (length a - 1 - i) else 1)
                                        (if i < length b then b ! (length b - 1 - i) else 1)) (\<lambda>d.
                  Inr (out[rank - 1 - i := d]))))
           [0..<rank] (Inr (replicate rank 1)))"

section \<open>Lowering a transpose to a reshape\<close>

text \<open>
  The loop state is the set of axes seen and the previous axis whose dimension is not 1.
\<close>

fun workaround_loop :: "nat list \<Rightarrow> nat list \<Rightarrow> nat list \<Rightarrow> bool list \<Rightarrow> nat option \<Rightarrow> bool" where
  "workaround_loop input_shape [] outs seen prev = True"
| "workaround_loop input_shape (axis # perm) [] seen prev = True"
| "workaround_loop input_shape (axis # perm) (out # outs) seen prev =
     (if axis \<ge> length input_shape \<or> seen ! axis then False
      else
        (let d = input_shape ! axis
         in if d = 0 \<or> out \<noteq> d then False
            else if d \<noteq> 1 then
              (if (case prev of None \<Rightarrow> False | Some p \<Rightarrow> axis < p) then False
               else workaround_loop input_shape perm outs (seen[axis := True]) (Some axis))
            else workaround_loop input_shape perm outs (seen[axis := True]) prev))"

definition NeedsHtpTransposeReshapeWorkaround :: "nat list \<Rightarrow> nat list \<Rightarrow> nat list \<Rightarrow> bool" where
  "NeedsHtpTransposeReshapeWorkaround input_shape perm output_shape =
     (let rank = length input_shape
      in if length perm \<noteq> rank \<or> length output_shape \<noteq> rank \<or> IsIdentityPerm perm \<or> input_shape = output_shape then False
         else workaround_loop input_shape perm output_shape (replicate rank False) None)"

section \<open>Transposing data\<close>

definition copy_elem :: "nat \<Rightarrow> byte list \<Rightarrow> nat \<times> nat \<Rightarrow> byte list \<Rightarrow> byte list" where
  "copy_elem E input p out = fold (\<lambda>k out. out[snd p * E + k := input ! (fst p * E + k)]) [0..<E] out"

definition tile_starts :: "nat \<Rightarrow> nat list" where
  "tile_starts n = map (\<lambda>i. i * 32) [0..<(n + 31) div 32]"

definition TransposeTiled2D :: "nat \<Rightarrow> nat \<Rightarrow> nat \<Rightarrow> byte list \<Rightarrow> byte list \<Rightarrow> byte list" where
  "TransposeTiled2D E rows cols input out =
     fold (\<lambda>row_start.
       fold (\<lambda>col_start.
         fold (\<lambda>col.
           fold (\<lambda>row. copy_elem E input (row * cols + col, (col * rows + row_start) + (row - row_start)))
             [row_start..<min (row_start + 32) rows])
           [col_start..<min (col_start + 32) cols])
         (tile_starts cols))
       (tile_starts rows) out"

definition TransposeUntiled2D :: "nat \<Rightarrow> nat \<Rightarrow> nat \<Rightarrow> byte list \<Rightarrow> byte list \<Rightarrow> byte list" where
  "TransposeUntiled2D E rows cols input out =
     fold (\<lambda>row. fold (\<lambda>col. copy_elem E input (row * cols + col, col * rows + row)) [0..<cols]) [0..<rows] out"

definition TwoDimensionTranspose :: "nat \<Rightarrow> nat \<Rightarrow> nat \<Rightarrow> byte list \<Rightarrow> byte list \<Rightarrow> byte list result" where
  "TwoDimensionTranspose rows cols E input out =
     and_then (require (E \<noteq> 0) (Status_Fail ''Expected a non-zero element byte size'')) (\<lambda>_.
     let num_bytes = (rows * cols * E) mod 2 ^ 64
     in and_then (require (length input = num_bytes \<and> length out = num_bytes)
                   (Status_Fail ''Expected both transpose buffers to hold rows * cols * elem_byte_size bytes'')) (\<lambda>_.
          Inr (if E \<in> {1, 2, 4, 8} then TransposeTiled2D E rows cols input out
               else TransposeUntiled2D E rows cols input out)))"

definition strides_from :: "int list \<Rightarrow> nat \<Rightarrow> nat result" where
  "strides_from shape i =
     fold (\<lambda>j r. and_then r (\<lambda>stride.
             and_then (require (shape ! j > 0) (Status_Fail ''Expected positive shape dims when computing strides.'')) (\<lambda>_.
               Inr (stride * nat (shape ! j)))))
       [i + 1..<length shape] (Inr 1)"

definition GetTransposeStrides :: "int list \<Rightarrow> nat list \<Rightarrow> (nat list \<times> nat list) result" where
  "GetTransposeStrides input_shape perm =
     (let rank = length input_shape
      in and_then (require (length perm = rank) (Status_Fail ''Expected perm size'')) (\<lambda>_.
         and_then (PermuteShape input_shape perm (replicate rank 0)) (\<lambda>output_shape_dims.
         and_then (traverse (strides_from input_shape) [0..<rank]) (\<lambda>input_strides.
         and_then (traverse (strides_from output_shape_dims) [0..<rank]) (\<lambda>output_strides.
           Inr (input_strides, output_strides))))))"

definition TransposeDataRank5 :: "int list \<Rightarrow> nat list \<Rightarrow> nat \<Rightarrow> byte list \<Rightarrow> byte list \<Rightarrow> byte list result" where
  "TransposeDataRank5 input_shape perm E input out =
     and_then (require (length input_shape = 5) (Status_Fail ''Expected input shape to have rank 5'')) (\<lambda>_.
     and_then (GetTransposeStrides input_shape perm) (\<lambda>(is, os).
     and_then (InvertPerm perm (replicate (length perm) 0)) (\<lambda>inv.
       let dim = (\<lambda>i. nat (input_shape ! i))
       in Inr (fold (\<lambda>d0. fold (\<lambda>d1. fold (\<lambda>d2. fold (\<lambda>d3. fold (\<lambda>d4.
            copy_elem E input
              (d0 * is ! 0 + d1 * is ! 1 + d2 * is ! 2 + d3 * is ! 3 + d4 * is ! 4,
               d0 * os ! (inv ! 0) + d1 * os ! (inv ! 1) + d2 * os ! (inv ! 2) + d3 * os ! (inv ! 3) + d4 * os ! (inv ! 4)))
            [0..<dim 4]) [0..<dim 3]) [0..<dim 2]) [0..<dim 1]) [0..<dim 0] out))))"

definition transpose_to_hwcn :: "nat list \<Rightarrow> int list \<Rightarrow> nat \<Rightarrow> byte list \<Rightarrow> byte list \<Rightarrow> bool \<Rightarrow> byte list result" where
  "transpose_to_hwcn perm_3d shape E input out is_3d =
     (let rank = length shape
      in and_then (require (is_3d \<and> rank = 5 \<or> \<not> is_3d \<and> rank = 4) (Status_Fail ''Only support input of rank 4 or 5'')) (\<lambda>_.
         and_then (require (length out = length input) (Status_Fail ''Expected output buffer size to equal the input buffer size'')) (\<lambda>_.
         and_then (require (E \<noteq> 0) (Status_Fail ''Invalid element byte size due to potentially unsupported type'')) (\<lambda>_.
           TransposeDataRank5 (if is_3d then shape else shape @ [1]) perm_3d E input out))))"

definition TransposeFromNchwToHwcn :: "int list \<Rightarrow> nat \<Rightarrow> byte list \<Rightarrow> byte list \<Rightarrow> bool \<Rightarrow> byte list result" where
  "TransposeFromNchwToHwcn = transpose_to_hwcn nchw2hwcn_perm_3d"

definition TransposeFromCnhwToHwcn :: "int list \<Rightarrow> nat \<Rightarrow> byte list \<Rightarrow> byte list \<Rightarrow> bool \<Rightarrow> byte list result" where
  "TransposeFromCnhwToHwcn = transpose_to_hwcn cnhw2hwcn_perm_3d"

section \<open>Flat indices\<close>

text \<open>
  \<open>flat\<close> is the row-major position of an element, from the pairs of a dimension and the coordinate in it.
\<close>

definition flat :: "(nat \<times> nat) list \<Rightarrow> nat" where
  "flat xs = foldl (\<lambda>acc (n, i). acc * n + i) 0 xs"

definition coords :: "nat list \<Rightarrow> nat list \<Rightarrow> bool" where
  "coords shape ds \<longleftrightarrow> length ds = length shape \<and> (\<forall>i < length shape. ds ! i < shape ! i)"

definition permute :: "nat list \<Rightarrow> 'a list \<Rightarrow> 'a list" where
  "permute perm xs = map (\<lambda>i. xs ! i) perm"

definition is_perm :: "nat \<Rightarrow> nat list \<Rightarrow> bool" where
  "is_perm n perm \<longleftrightarrow> distinct perm \<and> set perm = {..<n}"

text \<open>
  The specification of a transpose of elements of \<open>E\<close> bytes: the element with the coordinates \<open>ds\<close> goes to the permuted
  coordinates of the permuted shape.
\<close>

definition transposes :: "nat list \<Rightarrow> nat list \<Rightarrow> nat \<Rightarrow> byte list \<Rightarrow> byte list \<Rightarrow> bool" where
  "transposes shape perm E input out \<longleftrightarrow> length out = length input
     \<and> (\<forall>ds k. coords shape ds \<longrightarrow> k < E \<longrightarrow>
          out ! (flat (zip (permute perm shape) (permute perm ds)) * E + k) = input ! (flat (zip shape ds) * E + k))"

lemma flat_snoc: "flat (xs @ [(n, i)]) = flat xs * n + i"
  by (simp add: flat_def)

lemma foldl_flat_filter:
  "(\<forall>(n, i) \<in> set xs. n = 1 \<longrightarrow> i = 0) \<Longrightarrow>
   foldl (\<lambda>acc (n, i). acc * n + i) (a :: nat) (filter (\<lambda>(n, i). n \<noteq> 1) xs) = foldl (\<lambda>acc (n, i). acc * n + i) a xs"
  by (induction xs arbitrary: a) auto

lemma flat_filter:
  "(\<forall>(n, i) \<in> set xs. n = 1 \<longrightarrow> i = 0) \<Longrightarrow> flat (filter (\<lambda>(n, i). n \<noteq> 1) xs) = flat xs"
  unfolding flat_def by (rule foldl_flat_filter)

lemma is_perm_length: "is_perm n perm \<Longrightarrow> length perm = n"
  by (metis card_lessThan distinct_card is_perm_def)

lemma zip_permute: "zip (permute perm xs) (permute perm ys) = map (\<lambda>i. (xs ! i, ys ! i)) perm"
  by (simp add: permute_def zip_map_map zip_same_conv_map)

lemma zip_nth: "length xs = length ys \<Longrightarrow> zip xs ys = map (\<lambda>i. (xs ! i, ys ! i)) [0..<length xs]"
  by (rule nth_equalityI) simp_all

section \<open>The reshape workaround\<close>

text \<open>
  What the loop checks: the axes are new and distinct, the output has their dimensions, none is 0, and the axes of the other
  dimensions are increasing.
\<close>

lemma workaround_loop_True:
  assumes "workaround_loop shape perm outs seen prev" "length outs = length perm" "length seen = length shape"
  shows "distinct perm \<and> (\<forall>a \<in> set perm. a < length shape \<and> \<not> seen ! a \<and> shape ! a \<noteq> 0) \<and> outs = permute perm shape
         \<and> sorted (filter (\<lambda>a. shape ! a \<noteq> 1) perm)
         \<and> (\<forall>p. prev = Some p \<longrightarrow> (\<forall>a \<in> set perm. shape ! a \<noteq> 1 \<longrightarrow> p \<le> a))"
  using assms
proof (induction perm arbitrary: outs seen prev)
  case (Cons axis perm)
  obtain out outs' where outs: "outs = out # outs'" using Cons.prems(2) by (cases outs) simp_all
  let ?prev = "if shape ! axis = 1 then prev else Some axis"
  have ax: "axis < length shape" "\<not> seen ! axis" "shape ! axis \<noteq> 0" "out = shape ! axis"
    and p: "shape ! axis = 1 \<or> (\<forall>p. prev = Some p \<longrightarrow> p \<le> axis)"
    and w: "workaround_loop shape perm outs' (seen[axis := True]) ?prev"
    using Cons.prems(1) by (auto simp: outs Let_def not_less split: if_splits option.splits)
  from Cons.IH [OF w] Cons.prems(2,3) have IH: "distinct perm"
      "\<forall>a \<in> set perm. a < length shape \<and> \<not> seen[axis := True] ! a \<and> shape ! a \<noteq> 0"
      "outs' = permute perm shape" "sorted (filter (\<lambda>a. shape ! a \<noteq> 1) perm)"
      "\<forall>p. ?prev = Some p \<longrightarrow> (\<forall>a \<in> set perm. shape ! a \<noteq> 1 \<longrightarrow> p \<le> a)"
    by (simp_all add: outs)
  have new: "a \<noteq> axis \<and> \<not> seen ! a" if "a \<in> set perm" for a
    using IH(2) that ax(1) Cons.prems(3) by (cases "a = axis") (auto simp: nth_list_update)
  have "outs = permute (axis # perm) shape" using IH(3) ax(4) outs by (simp add: permute_def)
  moreover have "sorted (filter (\<lambda>a. shape ! a \<noteq> 1) (axis # perm))" using IH(4,5) by auto
  moreover have "p \<le> a" if "prev = Some p" "a \<in> set (axis # perm)" "shape ! a \<noteq> 1" for p a
    using that IH(5) p by (cases "shape ! axis = 1") (force intro: order_trans)+
  ultimately show ?case using IH(1,2) new ax by auto
qed (simp add: permute_def)

lemma workaround_spec:
  assumes "NeedsHtpTransposeReshapeWorkaround shape perm outs"
  shows "is_perm (length shape) perm" "outs = permute perm shape" "sorted (filter (\<lambda>a. shape ! a \<noteq> 1) perm)"
proof -
  have len: "length perm = length shape" "length outs = length perm"
    and w: "workaround_loop shape perm outs (replicate (length shape) False) None"
    using assms by (auto simp: NeedsHtpTransposeReshapeWorkaround_def Let_def split: if_splits)
  from workaround_loop_True [OF w len(2)] have *: "distinct perm" "set perm \<subseteq> {..<length shape}" "outs = permute perm shape"
      "sorted (filter (\<lambda>a. shape ! a \<noteq> 1) perm)"
    by auto
  moreover have "card (set perm) = card {..<length shape}" using * len(1) by (simp add: distinct_card)
  ultimately show "is_perm (length shape) perm" by (simp add: is_perm_def card_subset_eq)
  show "outs = permute perm shape" "sorted (filter (\<lambda>a. shape ! a \<noteq> 1) perm)" using * by blast+
qed

lemma filter_perm_sorted:
  assumes "is_perm n perm" "sorted (filter P perm)"
  shows "filter P perm = filter P [0..<n]"
proof (rule sorted_distinct_set_unique)
  show "distinct (filter P perm)" "set (filter P perm) = set (filter P [0..<n])"
    using assms(1) by (auto simp: is_perm_def)
qed (use assms(2) in \<open>simp_all add: sorted_wrt_filter\<close>)

lemma coords_unit: "coords shape ds \<Longrightarrow> i < length shape \<Longrightarrow> shape ! i = 1 \<Longrightarrow> ds ! i = 0"
  by (auto simp: coords_def)

lemma flat_permute_eq:
  assumes "is_perm (length shape) perm" "sorted (filter (\<lambda>a. shape ! a \<noteq> 1) perm)" "coords shape ds"
  shows "flat (zip (permute perm shape) (permute perm ds)) = flat (zip shape ds)"
proof -
  let ?pair = "\<lambda>i. (shape ! i, ds ! i)"
  let ?P = "\<lambda>a. shape ! a \<noteq> 1"
  have fl: "flat (map ?pair is) = flat (map ?pair (filter ?P is))" if "set is \<subseteq> {..<length shape}" for "is"
  proof -
    have "\<forall>(n, i) \<in> set (map ?pair is). n = 1 \<longrightarrow> i = 0" using that coords_unit [OF assms(3)] by auto
    from flat_filter [OF this] show ?thesis by (simp add: filter_map comp_def)
  qed
  have "zip shape ds = map ?pair [0..<length shape]" using assms(3) by (intro zip_nth) (simp add: coords_def)
  then have "flat (zip shape ds) = flat (map ?pair (filter ?P [0..<length shape]))"
    using fl [of "[0..<length shape]"] by (metis atLeast_upt order_refl)
  moreover have "flat (zip (permute perm shape) (permute perm ds)) = flat (map ?pair (filter ?P perm))"
    unfolding zip_permute using assms(1) by (intro fl) (auto simp: is_perm_def)
  ultimately show ?thesis using filter_perm_sorted [OF assms(1,2)] by simp
qed

section \<open>Copying elements one at a time\<close>

lemma length_copy_elem [simp]: "length (copy_elem E input p out) = length out"
proof -
  have "length (fold (\<lambda>k out. out[snd p * E + k := input ! (fst p * E + k)]) ks out) = length out" for ks
    by (induction ks arbitrary: out) simp_all
  then show ?thesis by (simp add: copy_elem_def)
qed

lemma copy_elem_nth:
  assumes "i < length out"
  shows "copy_elem E input (s, d) out ! i
         = (if d * E \<le> i \<and> i < d * E + E then input ! (s * E + (i - d * E)) else out ! i)"
proof -
  have "fold (\<lambda>k out. out[d * E + k := input ! (s * E + k)]) [0..<m] out ! i
        = (if d * E \<le> i \<and> i < d * E + m then input ! (s * E + (i - d * E)) else out ! i)
        \<and> length (fold (\<lambda>k out. out[d * E + k := input ! (s * E + k)]) [0..<m] out) = length out" for m
    using assms by (induction m) (auto simp: nth_list_update less_Suc_eq)
  then show ?thesis by (simp add: copy_elem_def)
qed

lemma elem_index_unique:
  assumes "d * E + k = d' * E + k'" "k < E" "k' < (E :: nat)"
  shows "d = d' \<and> k = k'"
  using arg_cong [OF assms(1), of "\<lambda>x. x div E"] arg_cong [OF assms(1), of "\<lambda>x. x mod E"] assms(2,3) by simp

lemma copy_elem_at:
  assumes "d' * E + k < length out" "k < E"
  shows "copy_elem E input (s, d) out ! (d' * E + k) = (if d' = d then input ! (s * E + k) else out ! (d' * E + k))"
proof (cases "d' = d")
  case False
  have "\<not> (d * E \<le> d' * E + k \<and> d' * E + k < d * E + E)"
  proof
    assume a: "d * E \<le> d' * E + k \<and> d' * E + k < d * E + E"
    then obtain j where "d' * E + k = d * E + j" "j < E" using le_Suc_ex by fastforce
    with elem_index_unique [of d' E k d j] assms(2) False show False by simp
  qed
  then show ?thesis unfolding copy_elem_nth [OF assms(1)] using False by presburger
qed (use assms in \<open>simp add: copy_elem_nth\<close>)

text \<open>
  A loop nest that copies elements is a plan, the list of pairs of a source and a destination.  The order of a plan does not
  matter as long as a destination is never fed from two sources.
\<close>

locale copy_plan =
  fixes plan :: "(nat \<times> nat) list"
  assumes functional: "(s, d) \<in> set plan \<Longrightarrow> (s', d) \<in> set plan \<Longrightarrow> s = s'"
begin

lemma run_prefix:
  "set ps \<subseteq> set plan \<Longrightarrow> d * E + k < length out \<Longrightarrow> k < E \<Longrightarrow>
   (d \<notin> snd ` set ps \<longrightarrow> fold (copy_elem E input) ps out ! (d * E + k) = out ! (d * E + k))
   \<and> (\<forall>s. (s, d) \<in> set ps \<longrightarrow> fold (copy_elem E input) ps out ! (d * E + k) = input ! (s * E + k))"
proof (induction ps arbitrary: out)
  case (Cons p ps)
  obtain s0 d0 where p: "p = (s0, d0)" by (cases p)
  have IH: "(d \<notin> snd ` set ps \<longrightarrow> fold (copy_elem E input) ps (copy_elem E input p out) ! (d * E + k)
                = copy_elem E input p out ! (d * E + k))
      \<and> (\<forall>s. (s, d) \<in> set ps \<longrightarrow> fold (copy_elem E input) ps (copy_elem E input p out) ! (d * E + k) = input ! (s * E + k))"
    using Cons.IH [of "copy_elem E input p out"] Cons.prems by simp
  have c: "copy_elem E input p out ! (d * E + k) = (if d = d0 then input ! (s0 * E + k) else out ! (d * E + k))"
    using Cons.prems copy_elem_at p by simp
  show ?case
  proof (intro conjI impI allI)
    assume "d \<notin> snd ` set (p # ps)"
    then show "fold (copy_elem E input) (p # ps) out ! (d * E + k) = out ! (d * E + k)" using IH c p by simp
  next
    fix s assume s: "(s, d) \<in> set (p # ps)"
    show "fold (copy_elem E input) (p # ps) out ! (d * E + k) = input ! (s * E + k)"
    proof (cases "d \<in> snd ` set ps")
      case True
      then obtain s' where s': "(s', d) \<in> set ps" by force
      moreover have "s' = s" using functional s s' Cons.prems(1) by (meson list.set_intros(2) subsetD)
      ultimately show ?thesis using IH by simp
    next
      case False
      then have "(s, d) = p" using s by force
      then show ?thesis using IH False c p by simp
    qed
  qed
qed simp

lemma run:
  "(s, d) \<in> set plan \<Longrightarrow> d * E + k < length out \<Longrightarrow> k < E \<Longrightarrow>
   fold (copy_elem E input) plan out ! (d * E + k) = input ! (s * E + k)"
  using run_prefix [OF subset_refl] by blast

lemma length_run: "length (fold (copy_elem E input) ps out) = length out"
  by (induction ps arbitrary: out) simp_all

end

lemma fold_concat_map: "fold f (concat (map g xs)) = fold (\<lambda>x. fold f (g x)) xs"
  by (induction xs) simp_all

subsection \<open>Matrices\<close>

definition tiled_plan :: "nat \<Rightarrow> nat \<Rightarrow> (nat \<times> nat) list" where
  "tiled_plan rows cols =
     concat (map (\<lambda>row_start. concat (map (\<lambda>col_start. concat (map (\<lambda>col.
       map (\<lambda>row. (row * cols + col, (col * rows + row_start) + (row - row_start))) [row_start..<min (row_start + 32) rows])
       [col_start..<min (col_start + 32) cols])) (tile_starts cols))) (tile_starts rows))"

definition untiled_plan :: "nat \<Rightarrow> nat \<Rightarrow> (nat \<times> nat) list" where
  "untiled_plan rows cols = concat (map (\<lambda>row. map (\<lambda>col. (row * cols + col, col * rows + row)) [0..<cols]) [0..<rows])"

lemma TransposeTiled2D_plan: "TransposeTiled2D E rows cols input out = fold (copy_elem E input) (tiled_plan rows cols) out"
  by (simp add: TransposeTiled2D_def tiled_plan_def fold_concat_map fold_map comp_def)

lemma TransposeUntiled2D_plan: "TransposeUntiled2D E rows cols input out = fold (copy_elem E input) (untiled_plan rows cols) out"
  by (simp add: TransposeUntiled2D_def untiled_plan_def fold_concat_map fold_map comp_def)

lemma tile_cover: "r < n \<Longrightarrow> \<exists>t \<in> set (tile_starts n). t \<le> r \<and> r < min (t + 32) n"
proof -
  assume r: "r < n"
  have "r div 32 < (n + 31) div 32" using r by linarith
  then have "r div 32 * 32 \<in> set (tile_starts n)" by (simp add: tile_starts_def)
  moreover have "r div 32 * 32 \<le> r" "r < r div 32 * 32 + 32" by linarith+
  ultimately show ?thesis using r by (metis min_less_iff_conj)
qed

lemma in_concat_map: "x \<in> set xs \<Longrightarrow> y \<in> set (g x) \<Longrightarrow> y \<in> set (concat (map g xs))"
  by auto

lemma set_tiled_plan: "set (tiled_plan rows cols) = {(r * cols + c, c * rows + r) | r c. r < rows \<and> c < cols}"
proof (intro equalityI subsetI)
  fix p assume "p \<in> set (tiled_plan rows cols)"
  then obtain r c t where "p = (r * cols + c, (c * rows + t) + (r - t))" "t \<le> r" "r < rows" "c < cols"
    by (auto simp: tiled_plan_def)
  then show "p \<in> {(r * cols + c, c * rows + r) | r c. r < rows \<and> c < cols}" by fastforce
next
  fix p assume "p \<in> {(r * cols + c, c * rows + r) | r c. r < rows \<and> c < cols}"
  then obtain r c where p: "p = (r * cols + c, c * rows + r)" "r < rows" "c < cols" by blast
  obtain tr where tr: "tr \<in> set (tile_starts rows)" "tr \<le> r" "r < min (tr + 32) rows" using tile_cover p(2) by blast
  obtain tc where tc: "tc \<in> set (tile_starts cols)" "tc \<le> c" "c < min (tc + 32) cols" using tile_cover p(3) by blast
  have "p \<in> set (map (\<lambda>row. (row * cols + c, (c * rows + tr) + (row - tr))) [tr..<min (tr + 32) rows])"
    using p(1) tr(2,3) by (simp add: image_iff)
  moreover have "c \<in> set [tc..<min (tc + 32) cols]" using tc by simp
  ultimately show "p \<in> set (tiled_plan rows cols)"
    unfolding tiled_plan_def by (intro in_concat_map [OF tr(1)] in_concat_map [OF tc(1)] in_concat_map [of c])
qed

lemma set_untiled_plan: "set (untiled_plan rows cols) = {(r * cols + c, c * rows + r) | r c. r < rows \<and> c < cols}"
proof (intro equalityI subsetI)
  fix p assume "p \<in> set (untiled_plan rows cols)"
  then obtain r c where "p = (r * cols + c, c * rows + r)" "r < rows" "c < cols" by (auto simp: untiled_plan_def)
  then show "p \<in> {(r * cols + c, c * rows + r) | r c. r < rows \<and> c < cols}" by blast
next
  fix p assume "p \<in> {(r * cols + c, c * rows + r) | r c. r < rows \<and> c < cols}"
  then obtain r c where p: "p = (r * cols + c, c * rows + r)" "r < rows" "c < cols" by blast
  show "p \<in> set (untiled_plan rows cols)"
    unfolding untiled_plan_def by (rule in_concat_map [of r]) (use p in auto)
qed

lemma matrix_functional:
  assumes "(s, d) \<in> {(r * cols + c, c * rows + r) | r c. r < rows \<and> c < (cols :: nat)}"
    and "(s', d) \<in> {(r * cols + c, c * rows + r) | r c. r < rows \<and> c < cols}"
  shows "s = s'"
  using assms elem_index_unique by blast

interpretation tiled: copy_plan "tiled_plan rows cols"
  by unfold_locales (unfold set_tiled_plan, rule matrix_functional)

interpretation untiled: copy_plan "untiled_plan rows cols"
  by unfold_locales (unfold set_untiled_plan, rule matrix_functional)

lemma list2_coords: "coords [m, n] ds \<longleftrightarrow> (\<exists>i j. ds = [i, j] \<and> i < m \<and> j < n)"
proof -
  have "coords [m, n] ds \<Longrightarrow> \<exists>i j. ds = [i, j]"
    by (auto simp: coords_def length_Suc_conv eval_nat_numeral)
  then show ?thesis by (auto simp: coords_def less_Suc_eq eval_nat_numeral)
qed

lemma transposes_matrix:
  "transposes [rows, cols] [1, 0] E input out \<longleftrightarrow> length out = length input
   \<and> (\<forall>r c k. r < rows \<longrightarrow> c < cols \<longrightarrow> k < E \<longrightarrow> out ! ((c * rows + r) * E + k) = input ! ((r * cols + c) * E + k))"
proof -
  have "(\<forall>ds k. coords [rows, cols] ds \<longrightarrow> Q ds k) = (\<forall>r c k. r < rows \<longrightarrow> c < cols \<longrightarrow> Q [r, c] k)" for Q
    unfolding list2_coords by blast
  note all = this
  show ?thesis unfolding transposes_def all by (simp add: permute_def flat_def)
qed

lemma mul_add_lt: "a < p \<Longrightarrow> i < n \<Longrightarrow> a * n + i < p * (n :: nat)"
proof -
  assume a: "a < p" "i < n"
  have "(a + 1) * n \<le> p * n" using a(1) by (intro mult_le_mono1) simp
  with a(2) show ?thesis by simp
qed

lemma matrix_index_lt: "r < rows \<Longrightarrow> c < cols \<Longrightarrow> k < E \<Longrightarrow> (c * rows + r) * E + k < rows * cols * (E :: nat)"
  using mul_add_lt [of "c * rows + r" "cols * rows" k E] mul_add_lt [of c cols r rows] by (simp add: mult.commute)

lemma matrix_index_cover:
  assumes "i < rows * cols * (E :: nat)"
  obtains r c k where "r < rows" "c < cols" "k < E" "i = (c * rows + r) * E + k"
proof
  have "0 < rows * cols * E" using assms by (rule le_less_trans [OF le0])
  then have pos: "0 < rows" "0 < E" by simp_all
  let ?e = "i div E"
  show "?e mod rows < rows" "i mod E < E" using pos by simp_all
  have "?e < rows * cols" using assms pos by (simp add: less_mult_imp_div_less)
  then show "?e div rows < cols" by (simp add: less_mult_imp_div_less mult.commute)
  show "i = (?e div rows * rows + ?e mod rows) * E + i mod E" by simp
qed

lemma tiled_transposes:
  assumes "length input = rows * cols * E" "length out = rows * cols * E"
  shows "transposes [rows, cols] [1, 0] E input (TransposeTiled2D E rows cols input out)"
    and "TransposeTiled2D E rows cols input out = TransposeUntiled2D E rows cols input out"
proof -
  have at: "TransposeTiled2D E rows cols input out ! ((c * rows + r) * E + k) = input ! ((r * cols + c) * E + k)
         \<and> TransposeUntiled2D E rows cols input out ! ((c * rows + r) * E + k) = input ! ((r * cols + c) * E + k)"
    if "r < rows" "c < cols" "k < E" for r c k
  proof -
    have "(r * cols + c, c * rows + r) \<in> {(r * cols + c, c * rows + r) | r c. r < rows \<and> c < cols}" using that by blast
    then show ?thesis
      using matrix_index_lt [OF that] tiled.run untiled.run that(3) assms(2)
      by (simp add: TransposeTiled2D_plan TransposeUntiled2D_plan set_tiled_plan set_untiled_plan)
  qed
  then show "transposes [rows, cols] [1, 0] E input (TransposeTiled2D E rows cols input out)"
    unfolding transposes_matrix using assms by (simp add: TransposeTiled2D_plan tiled.length_run)
  show "TransposeTiled2D E rows cols input out = TransposeUntiled2D E rows cols input out"
  proof (rule nth_equalityI)
    fix i assume "i < length (TransposeTiled2D E rows cols input out)"
    then have "i < rows * cols * E" using assms(2) by (simp add: TransposeTiled2D_plan tiled.length_run)
    then show "TransposeTiled2D E rows cols input out ! i = TransposeUntiled2D E rows cols input out ! i"
      by (rule matrix_index_cover) (use at in simp)
  qed (simp add: TransposeTiled2D_plan TransposeUntiled2D_plan tiled.length_run untiled.length_run)
qed

subsection \<open>Strides\<close>

lemma coords_snoc: "coords (shape @ [n]) ds \<longleftrightarrow> (\<exists>ds' i. ds = ds' @ [i] \<and> coords shape ds' \<and> i < n)"
proof (cases ds rule: rev_cases)
  case (snoc ds' i)
  then show ?thesis by (auto simp: coords_def nth_append less_Suc_eq)
qed (simp add: coords_def)

lemma coords_length: "coords shape ds \<Longrightarrow> length ds = length shape"
  by (simp add: coords_def)

lemma flat_lt: "coords shape ds \<Longrightarrow> flat (zip shape ds) < prod_list shape"
proof (induction shape arbitrary: ds rule: rev_induct)
  case Nil
  then show ?case by (simp add: flat_def)
next
  case (snoc n shape)
  then obtain ds' i where ds: "ds = ds' @ [i]" "coords shape ds'" "i < n" by (auto simp: coords_snoc)
  have "flat (zip shape ds') * n + i < prod_list shape * n"
    using snoc.IH [OF ds(2)] ds(3) by (rule mul_add_lt)
  then show ?case using ds coords_length [OF ds(2)] by (simp add: flat_snoc)
qed

lemma flat_inj: "coords shape ds \<Longrightarrow> coords shape ds' \<Longrightarrow> flat (zip shape ds) = flat (zip shape ds') \<Longrightarrow> ds = ds'"
proof (induction shape arbitrary: ds ds' rule: rev_induct)
  case Nil
  then show ?case by (simp add: coords_def)
next
  case (snoc n shape)
  then obtain es i es' i' where ds: "ds = es @ [i]" "coords shape es" "i < n" "ds' = es' @ [i']" "coords shape es'" "i' < n"
    by (auto simp: coords_snoc)
  have "flat (zip shape es) * n + i = flat (zip shape es') * n + i'"
    using snoc.prems(3) ds coords_length [OF ds(2)] coords_length [OF ds(5)] by (simp add: flat_snoc)
  then have "flat (zip shape es) = flat (zip shape es')" "i = i'" using elem_index_unique ds(3,6) by blast+
  with snoc.IH ds show ?case by simp
qed

lemma flat_surj: "e < prod_list shape \<Longrightarrow> \<exists>ds. coords shape ds \<and> flat (zip shape ds) = e"
proof (induction shape arbitrary: e rule: rev_induct)
  case Nil
  then show ?case by (simp add: coords_def flat_def)
next
  case (snoc n shape)
  then have n: "0 < n" by (cases n) simp_all
  have "e div n < prod_list shape" using snoc.prems by (simp add: less_mult_imp_div_less)
  from snoc.IH [OF this] obtain ds where ds: "coords shape ds" "flat (zip shape ds) = e div n" by blast
  have "coords (shape @ [n]) (ds @ [e mod n])" using ds(1) n by (auto simp: coords_snoc)
  moreover have "flat (zip (shape @ [n]) (ds @ [e mod n])) = e"
    using ds coords_length [OF ds(1)] by (simp add: flat_snoc)
  ultimately show ?case by blast
qed

lemma flat_sum: "length ds = length shape \<Longrightarrow> flat (zip shape ds) = (\<Sum>i < length shape. ds ! i * prod_list (drop (Suc i) shape))"
proof (induction shape arbitrary: ds rule: rev_induct)
  case Nil
  then show ?case by (simp add: flat_def)
next
  case (snoc n shape)
  then obtain ds' i where ds: "ds = ds' @ [i]" "length ds' = length shape" by (cases ds rule: rev_cases) auto
  have "(\<Sum>j < length shape. ds ! j * prod_list (drop (Suc j) (shape @ [n])))
        = (\<Sum>j < length shape. ds' ! j * prod_list (drop (Suc j) shape)) * n"
    unfolding sum_distrib_right using ds by (intro sum.cong) (simp_all add: nth_append)
  then show ?case using snoc.IH [OF ds(2)] ds by (simp add: flat_snoc nth_append)
qed

lemma strides_from_eq:
  assumes "\<forall>j. i < j \<and> j < length shape \<longrightarrow> shape ! j > 0"
  shows "strides_from shape i = Inr (prod_list (drop (Suc i) (map nat shape)))"
proof -
  have "fold (\<lambda>j r. and_then r (\<lambda>stride. and_then (require (shape ! j > 0) e) (\<lambda>_. Inr (stride * nat (shape ! j)))))
          [i + 1..<m] (Inr 1) = Inr (\<Prod>j \<leftarrow> [i + 1..<m]. nat (shape ! j))"
    if "m \<le> length shape" for m e
    using that
  proof (induction m)
    case (Suc m)
    then show ?case using assms by (cases "i < m") (simp_all add: not_less le_Suc_eq)
  qed simp
  from this [OF order_refl] have "strides_from shape i = Inr (\<Prod>j \<leftarrow> [i + 1..<length shape]. nat (shape ! j))"
    by (simp add: strides_from_def)
  also have "map (\<lambda>j. nat (shape ! j)) [i + 1..<length shape] = drop (Suc i) (map nat shape)"
    by (rule nth_equalityI) simp_all
  finally show ?thesis .
qed

subsection \<open>Inverse permutations\<close>

lemma InvertPerm_loop_ok:
  "\<forall>a \<in> set rest. a < length perm \<Longrightarrow> distinct rest \<Longrightarrow> length acc = length perm \<Longrightarrow>
   \<exists>pinv. InvertPerm_loop perm i rest acc = Inr pinv \<and> length pinv = length perm
      \<and> (\<forall>j < length rest. pinv ! (rest ! j) = i + j) \<and> (\<forall>a. a \<notin> set rest \<longrightarrow> pinv ! a = acc ! a)"
proof (induction rest arbitrary: i acc)
  case (Cons a rest)
  then obtain pinv where pinv: "InvertPerm_loop perm (i + 1) rest (acc[a := i]) = Inr pinv" "length pinv = length perm"
      "\<forall>j < length rest. pinv ! (rest ! j) = i + 1 + j" "\<forall>b. b \<notin> set rest \<longrightarrow> pinv ! b = acc[a := i] ! b"
    using Cons.IH [of "acc[a := i]" "i + 1"] by auto
  have "pinv ! a = i" using pinv(4) Cons.prems by simp
  then have "\<forall>j < length (a # rest). pinv ! ((a # rest) ! j) = i + j" using pinv(3) by (auto simp: less_Suc_eq_0_disj)
  then show ?case using pinv Cons.prems by auto
qed simp

lemma InvertPerm_ok:
  assumes "is_perm n perm" "length acc = n"
  obtains pinv where "InvertPerm perm acc = Inr pinv" "length pinv = n" "\<forall>j < n. pinv ! (perm ! j) = j"
  using InvertPerm_loop_ok [of perm perm acc 0] assms is_perm_length [OF assms(1)]
  by (auto simp: InvertPerm_def is_perm_def)

lemma is_perm_bij: "is_perm n perm \<Longrightarrow> bij_betw (\<lambda>j. perm ! j) {..<n} {..<n}"
  using is_perm_length bij_betw_nth [of perm] by (auto simp: is_perm_def)

lemma is_perm_nth: "is_perm n perm \<Longrightarrow> j < n \<Longrightarrow> perm ! j < n"
  by (metis is_perm_def is_perm_length lessThan_iff nth_mem)

lemma permute_coords: "is_perm (length shape) perm \<Longrightarrow> coords shape ds \<Longrightarrow> coords (permute perm shape) (permute perm ds)"
  using is_perm_length [of "length shape" perm] is_perm_nth [of "length shape" perm] by (simp add: coords_def permute_def)

lemma permute_inj:
  assumes "is_perm n perm" "length xs = n" "length ys = n" "permute perm xs = permute perm ys"
  shows "xs = ys"
proof (rule nth_equalityI)
  fix i assume "i < length xs"
  then have "i \<in> set perm" using assms(1,2) by (simp add: is_perm_def)
  then show "xs ! i = ys ! i" using assms(4) by (simp add: permute_def)
qed (use assms in simp)

lemma prod_list_permute:
  assumes "is_perm (length shape) perm"
  shows "prod_list (permute perm shape) = prod_list (shape :: nat list)"
proof -
  have "mset perm = mset [0..<length shape]"
    using assms by (metis atLeast_upt distinct_upt is_perm_def set_eq_iff_mset_eq_distinct)
  then have "mset (permute perm shape) = mset (map ((!) shape) [0..<length shape])"
    unfolding permute_def by (simp only: mset_map)
  then show ?thesis unfolding map_nth by (metis prod_mset_prod_list)
qed

subsection \<open>Five dimensions\<close>

definition plan5 :: "nat list \<Rightarrow> nat list \<Rightarrow> nat list \<Rightarrow> nat list \<Rightarrow> (nat \<times> nat) list" where
  "plan5 shape is os pinv =
     concat (map (\<lambda>d0. concat (map (\<lambda>d1. concat (map (\<lambda>d2. concat (map (\<lambda>d3. map (\<lambda>d4.
       (d0 * is ! 0 + d1 * is ! 1 + d2 * is ! 2 + d3 * is ! 3 + d4 * is ! 4,
        d0 * os ! (pinv ! 0) + d1 * os ! (pinv ! 1) + d2 * os ! (pinv ! 2) + d3 * os ! (pinv ! 3) + d4 * os ! (pinv ! 4)))
       [0..<shape ! 4]) [0..<shape ! 3])) [0..<shape ! 2])) [0..<shape ! 1])) [0..<shape ! 0])"

lemma length5: "length xs = 5 \<longleftrightarrow> (\<exists>a b c d e. xs = [a, b, c, d, e])"
  by (auto simp: length_Suc_conv eval_nat_numeral)

lemma sum5: "(\<Sum>i < 5. f i) = f 0 + f 1 + f 2 + f 3 + f (4 :: nat)" for f :: "nat \<Rightarrow> nat"
  by (simp add: eval_nat_numeral)

lemma set_plan5:
  assumes "length shape = 5"
  shows "set (plan5 shape is os pinv) = (\<lambda>ds. (\<Sum>i < 5. ds ! i * is ! i, \<Sum>i < 5. ds ! i * os ! (pinv ! i))) ` {ds. coords shape ds}"
proof (intro equalityI subsetI)
  fix p assume "p \<in> set (plan5 shape is os pinv)"
  then obtain d0 d1 d2 d3 d4 where d: "d0 < shape ! 0" "d1 < shape ! 1" "d2 < shape ! 2" "d3 < shape ! 3" "d4 < shape ! 4"
    and p: "p = (d0 * is ! 0 + d1 * is ! 1 + d2 * is ! 2 + d3 * is ! 3 + d4 * is ! 4,
        d0 * os ! (pinv ! 0) + d1 * os ! (pinv ! 1) + d2 * os ! (pinv ! 2) + d3 * os ! (pinv ! 3) + d4 * os ! (pinv ! 4))"
    by (auto simp: plan5_def)
  have "coords shape [d0, d1, d2, d3, d4]"
    using d assms by (auto simp: coords_def eval_nat_numeral less_Suc_eq)
  moreover have "p = (\<Sum>i < 5. [d0, d1, d2, d3, d4] ! i * is ! i, \<Sum>i < 5. [d0, d1, d2, d3, d4] ! i * os ! (pinv ! i))"
    by (simp add: p sum5)
  ultimately show "p \<in> (\<lambda>ds. (\<Sum>i < 5. ds ! i * is ! i, \<Sum>i < 5. ds ! i * os ! (pinv ! i))) ` {ds. coords shape ds}"
    by blast
next
  fix p assume "p \<in> (\<lambda>ds. (\<Sum>i < 5. ds ! i * is ! i, \<Sum>i < 5. ds ! i * os ! (pinv ! i))) ` {ds. coords shape ds}"
  then obtain ds where ds: "coords shape ds" "p = (\<Sum>i < 5. ds ! i * is ! i, \<Sum>i < 5. ds ! i * os ! (pinv ! i))" by blast
  have b: "ds ! i < shape ! i" if "i < 5" for i using ds(1) assms that by (simp add: coords_def)
  show "p \<in> set (plan5 shape is os pinv)"
    unfolding plan5_def
    by (intro in_concat_map [of "ds ! 0"] in_concat_map [of "ds ! 1"] in_concat_map [of "ds ! 2"] in_concat_map [of "ds ! 3"])
      (use b in \<open>simp_all add: ds(2) sum5 image_iff\<close>, use b in auto)
qed

lemma stride_sums:
  assumes "is_perm n perm" "length shape = n" "length ds = n" "\<forall>j < n. pinv ! (perm ! j) = j"
    and "is = map (\<lambda>i. prod_list (drop (Suc i) shape)) [0..<n]"
    and "os = map (\<lambda>i. prod_list (drop (Suc i) (permute perm shape))) [0..<n]"
  shows "(\<Sum>i < n. ds ! i * is ! i) = flat (zip shape ds)"
    and "(\<Sum>i < n. ds ! i * os ! (pinv ! i)) = flat (zip (permute perm shape) (permute perm ds))"
proof -
  show "(\<Sum>i < n. ds ! i * is ! i) = flat (zip shape ds)"
    using assms(2,3,5) by (simp add: flat_sum)
  have len: "length perm = n" using assms(1) by (rule is_perm_length)
  have "(\<Sum>i < n. ds ! i * os ! (pinv ! i)) = (\<Sum>j < n. ds ! (perm ! j) * os ! (pinv ! (perm ! j)))"
    using sum.reindex_bij_betw [OF is_perm_bij [OF assms(1)], of "\<lambda>i. ds ! i * os ! (pinv ! i)"] by simp
  also have "\<dots> = (\<Sum>j < n. permute perm ds ! j * prod_list (drop (Suc j) (permute perm shape)))"
    using assms(4,6) len by (intro sum.cong) (simp_all add: permute_def)
  finally show "(\<Sum>i < n. ds ! i * os ! (pinv ! i)) = flat (zip (permute perm shape) (permute perm ds))"
    using len by (simp add: flat_sum permute_def)
qed

lemma plan5_functional:
  assumes "is_perm 5 perm" "length shape = 5" "\<forall>j < 5. pinv ! (perm ! j) = j"
    and "is = map (\<lambda>i. prod_list (drop (Suc i) shape)) [0..<5]"
    and "os = map (\<lambda>i. prod_list (drop (Suc i) (permute perm shape))) [0..<5]"
  shows "copy_plan (plan5 shape is os pinv)"
proof
  fix s d s' assume "(s, d) \<in> set (plan5 shape is os pinv)" "(s', d) \<in> set (plan5 shape is os pinv)"
  then obtain ds ds' where ds: "coords shape ds" "coords shape ds'" "s = (\<Sum>i < 5. ds ! i * is ! i)" "s' = (\<Sum>i < 5. ds' ! i * is ! i)"
      "(\<Sum>i < 5. ds ! i * os ! (pinv ! i)) = (\<Sum>i < 5. ds' ! i * os ! (pinv ! i))"
    unfolding set_plan5 [OF assms(2)] by auto
  have len: "length ds = 5" "length ds' = 5" using ds(1,2) assms(2) by (simp_all add: coords_length)
  have "flat (zip (permute perm shape) (permute perm ds)) = flat (zip (permute perm shape) (permute perm ds'))"
    using ds(5) stride_sums(2) [OF assms(1,2) len(1) assms(3-5)] stride_sums(2) [OF assms(1,2) len(2) assms(3-5)] by simp
  then have "permute perm ds = permute perm ds'"
    using permute_coords assms(1,2) ds(1,2) flat_inj by metis
  then have "ds = ds'" using permute_inj [OF assms(1) len] by simp
  then show "s = s'" using ds(3,4) by simp
qed

lemma TransposeDataRank5_transposes:
  assumes "is_perm 5 perm" "length shape = 5" "\<forall>i < 5. shape ! i > 0"
    and "length input = prod_list shape * E" "length out = prod_list shape * E"
  shows "\<exists>out'. TransposeDataRank5 (map int shape) perm E input out = Inr out' \<and> transposes shape perm E input out'"
proof -
  have lp: "length perm = 5" using assms(1) by (rule is_perm_length)
  have pb: "perm ! i < 5" if "i < 5" for i using is_perm_nth assms(1) that by blast
  let ?is = "map (\<lambda>i. prod_list (drop (Suc i) shape)) [0..<5]"
  let ?os = "map (\<lambda>i. prod_list (drop (Suc i) (permute perm shape))) [0..<5]"
  have "PermuteShape (map int shape) perm (replicate 5 0) = Inr (map int (permute perm shape))"
    using assms(2) lp pb by (simp add: PermuteShape_def traverse_eq_Inr_iff gsl_at_def permute_def)
  moreover have "traverse (strides_from (map int shape)) [0..<5] = Inr ?is"
    using assms(2,3) by (simp add: traverse_eq_Inr_iff strides_from_eq comp_def)
  moreover have "traverse (strides_from (map int (permute perm shape))) [0..<5] = Inr ?os"
    using assms(3) lp pb by (simp add: traverse_eq_Inr_iff strides_from_eq comp_def permute_def)
  ultimately have strides: "GetTransposeStrides (map int shape) perm = Inr (?is, ?os)"
    using assms(2) lp by (simp add: GetTransposeStrides_def)
  obtain pinv where pinv: "InvertPerm perm (replicate (length perm) 0) = Inr pinv" "\<forall>j < 5. pinv ! (perm ! j) = j"
    using InvertPerm_ok [OF assms(1), of "replicate (length perm) 0"] lp by auto
  let ?plan = "plan5 shape ?is ?os pinv"
  have run: "TransposeDataRank5 (map int shape) perm E input out = Inr (fold (copy_elem E input) ?plan out)"
    using assms(2) strides pinv(1)
    by (simp add: TransposeDataRank5_def Let_def plan5_def fold_concat_map fold_map comp_def)
  note plan = plan5_functional [OF assms(1,2) pinv(2) refl refl]
  have "fold (copy_elem E input) ?plan out ! (flat (zip (permute perm shape) (permute perm ds)) * E + k)
        = input ! (flat (zip shape ds) * E + k)" if c: "coords shape ds" and k: "k < E" for ds k
  proof (rule copy_plan.run [OF plan _ _ k])
    have len: "length ds = 5" using c assms(2) by (simp add: coords_length)
    show "(flat (zip shape ds), flat (zip (permute perm shape) (permute perm ds))) \<in> set ?plan"
      unfolding set_plan5 [OF assms(2)] using c stride_sums [OF assms(1,2) len pinv(2) refl refl]
      by (metis (mono_tags, lifting) image_eqI mem_Collect_eq)
    have "flat (zip (permute perm shape) (permute perm ds)) < prod_list shape"
      using flat_lt permute_coords prod_list_permute assms(1,2) c by metis
    then show "flat (zip (permute perm shape) (permute perm ds)) * E + k < length out"
      unfolding assms(5) using k by (rule mul_add_lt)
  qed
  then show ?thesis
    using run assms(4,5) by (simp add: transposes_def copy_plan.length_run [OF plan])
qed

lemma drop_unit_dim:
  assumes "length shape = 4" "transposes (shape @ [1]) [2, 3, 4, a, b] E input out" "{a, b} = {0, 1}"
  shows "transposes shape [2, 3, a, b] E input out"
  unfolding transposes_def
proof (intro conjI allI impI)
  show "length out = length input" using assms(2) by (simp add: transposes_def)
  fix ds k assume c: "coords shape ds" and k: "k < E"
  obtain w x y z where sh: "shape = [w, x, y, z]" using assms(1) by (auto simp: length_Suc_conv eval_nat_numeral)
  obtain i j m n where ds: "ds = [i, j, m, n]"
    using coords_length [OF c] assms(1) by (auto simp: length_Suc_conv eval_nat_numeral)
  have "coords (shape @ [1]) (ds @ [0])" using c by (auto simp: coords_snoc)
  then have "out ! (flat (zip (permute [2, 3, 4, a, b] (shape @ [1])) (permute [2, 3, 4, a, b] (ds @ [0]))) * E + k)
             = input ! (flat (zip (shape @ [1]) (ds @ [0])) * E + k)"
    using assms(2) k unfolding transposes_def by blast
  moreover have "a = 0 \<and> b = 1 \<or> a = 1 \<and> b = 0" using assms(3) by (auto simp: doubleton_eq_iff)
  ultimately show "out ! (flat (zip (permute [2, 3, a, b] shape) (permute [2, 3, a, b] ds)) * E + k) = input ! (flat (zip shape ds) * E + k)"
    by (auto simp: sh ds permute_def flat_def)
qed

lemma hwcn_perms: "is_perm 5 nchw2hwcn_perm_3d" "is_perm 5 cnhw2hwcn_perm_3d"
  by (auto simp: is_perm_def nchw2hwcn_perm_3d_def cnhw2hwcn_perm_3d_def eval_nat_numeral lessThan_Suc)

lemma transpose_to_hwcn_transposes:
  assumes perm: "is_perm 5 perm3" "perm3 = [2, 3, 4, a, b]" "{a, b} = {0, 1}"
    and shape: "if is_3d then length shape = 5 else length shape = 4" "\<forall>i < length shape. shape ! i > 0"
    and bufs: "E \<noteq> 0" "length input = prod_list shape * E" "length out = length input"
  shows "\<exists>out'. transpose_to_hwcn perm3 (map int shape) E input out is_3d = Inr out'
           \<and> transposes shape (if is_3d then perm3 else [2, 3, a, b]) E input out'"
proof (cases is_3d)
  case True
  then show ?thesis
    using TransposeDataRank5_transposes [OF perm(1), of shape input E out] shape bufs by (auto simp: transpose_to_hwcn_def)
next
  case False
  then have len: "length shape = 4" using shape(1) by simp
  then have pos: "\<forall>i < 5. (shape @ [1]) ! i > 0" using shape(2) by (auto simp: nth_append)
  have "\<exists>out'. TransposeDataRank5 (map int (shape @ [1])) perm3 E input out = Inr out' \<and> transposes (shape @ [1]) perm3 E input out'"
    using TransposeDataRank5_transposes [OF perm(1) _ pos, of input E out] len bufs by simp
  then show ?thesis
    using False len bufs drop_unit_dim [OF len _ perm(3)] perm(2) by (auto simp: transpose_to_hwcn_def)
qed

section \<open>Properties\<close>

text \<open>
  C15.  The cache-tiled transpose of a matrix and the element-by-element fallback compute the same buffer, and it is the
  transpose.  Given buffers of the right size, \<open>TwoDimensionTranspose\<close> succeeds for every element size, tiles that stick out of
  the matrix and empty matrices included.
\<close>

theorem tiled_transpose_equals_reference:
  assumes "E \<noteq> 0" "rows * cols * E < 2 ^ 64" "length input = rows * cols * E" "length out = rows * cols * E"
  shows "TwoDimensionTranspose rows cols E input out = Inr (TransposeUntiled2D E rows cols input out)
         \<and> transposes [rows, cols] [1, 0] E input (TransposeUntiled2D E rows cols input out)"
  using assms tiled_transposes [OF assms(3,4)] by (simp add: TwoDimensionTranspose_def)

theorem tiled_transpose_equals_reference_witness:
  "TwoDimensionTranspose 2 3 1 [1, 2, 3, 4, 5, 6] [0, 0, 0, 0, 0, 0] = Inr [1, 4, 2, 5, 3, 6]"
proof -
  have "TransposeUntiled2D 1 2 3 [1, 2, 3, 4, 5, 6] [0, 0, 0, 0, 0, 0] = [1, 4, 2, 5, 3, 6]" by code_simp
  with tiled_transpose_equals_reference [of 1 2 3 "[1, 2, 3, 4, 5, 6]" "[0, 0, 0, 0, 0, 0]"] show ?thesis by simp
qed

text \<open>
  C16.  Lowering a transpose to a reshape is sound.  When \<open>NeedsHtpTransposeReshapeWorkaround\<close> accepts a shape, a permutation
  and an output shape, the output shape is the permuted shape, and the transpose of every buffer of that shape is the buffer
  itself, whatever the size of the elements.
\<close>

theorem reshape_workaround_sound:
  assumes "NeedsHtpTransposeReshapeWorkaround shape perm output_shape"
    and "length input = prod_list shape * E" "transposes shape perm E input out"
  shows "output_shape = permute perm shape \<and> out = input"
proof -
  note spec = workaround_spec [OF assms(1)]
  have "out = input"
  proof (rule nth_equalityI)
    show "length out = length input" using assms(3) by (simp add: transposes_def)
    fix i assume "i < length out"
    then have i: "i < prod_list shape * E" using assms(2,3) by (simp add: transposes_def)
    then have E: "0 < E" by (cases E) simp_all
    then have "i div E < prod_list shape" using i by (simp add: less_mult_imp_div_less)
    then obtain ds where ds: "coords shape ds" "flat (zip shape ds) = i div E" using flat_surj by blast
    have "out ! (flat (zip (permute perm shape) (permute perm ds)) * E + i mod E) = input ! (flat (zip shape ds) * E + i mod E)"
      using assms(3) ds(1) E unfolding transposes_def by simp
    then show "out ! i = input ! i"
      using flat_permute_eq [OF spec(1,3) ds(1)] ds(2) by simp
  qed
  then show ?thesis using spec(2) by simp
qed

theorem reshape_workaround_sound_witness:
  "NeedsHtpTransposeReshapeWorkaround [1, 2] [1, 0] [2, 1] \<and> transposes [1, 2] [1, 0] 1 [7, 8] [7, 8]
   \<and> [2, 1] = permute [1, 0] [1, 2 :: nat]"
proof -
  have n: "NeedsHtpTransposeReshapeWorkaround [1, 2] [1, 0] [2, 1]" by code_simp
  have t: "transposes [1, 2] [1, 0] 1 [7, 8] [7, 8]"
    by (auto simp: transposes_def coords_def permute_def flat_def length_Suc_conv list_all2_Cons1 less_Suc_eq)
  show ?thesis using reshape_workaround_sound [OF n _ t] n t by simp
qed

text \<open>
  C30.  Convolution weights reach the layout the backend expects.  For both weight layouts, in two and three spatial dimensions
  and every element size, the stride-based copy succeeds and moves each element to the permuted coordinates, and the shape
  helper used beside it yields the permuted shape.
\<close>

theorem conv_weights_transposed:
  assumes "if is_3d then length shape = 5 else length shape = 4" "\<forall>i < length shape. shape ! i > 0"
    and "E \<noteq> 0" "length input = prod_list shape * E" "length out = length input"
  shows "(\<exists>out'. TransposeFromNchwToHwcn (map int shape) E input out is_3d = Inr out'
            \<and> transposes shape (if is_3d then nchw2hwcn_perm_3d else nchw2hwcn_perm) E input out')
       \<and> (\<exists>out'. TransposeFromCnhwToHwcn (map int shape) E input out is_3d = Inr out'
            \<and> transposes shape (if is_3d then cnhw2hwcn_perm_3d else cnhw2hwcn_perm) E input out')
       \<and> NchwShapeToHwcn shape shape = Inr (permute (if is_3d then nchw2hwcn_perm_3d else nchw2hwcn_perm) shape)
       \<and> CnhwShapeToHwcn shape shape = Inr (permute (if is_3d then cnhw2hwcn_perm_3d else cnhw2hwcn_perm) shape)"
proof -
  have "NchwShapeToHwcn shape shape = Inr (permute (if is_3d then nchw2hwcn_perm_3d else nchw2hwcn_perm) shape)
       \<and> CnhwShapeToHwcn shape shape = Inr (permute (if is_3d then cnhw2hwcn_perm_3d else cnhw2hwcn_perm) shape)"
    using assms(1)
    by (auto simp: length5 length_Suc_conv eval_nat_numeral NchwShapeToHwcn_def CnhwShapeToHwcn_def permute_def
        nchw2hwcn_perm_def nchw2hwcn_perm_3d_def cnhw2hwcn_perm_def cnhw2hwcn_perm_3d_def split: if_splits)
  moreover have "{1, 0} = {0, 1 :: nat}" by auto
  ultimately show ?thesis
    using transpose_to_hwcn_transposes [OF hwcn_perms(1) nchw2hwcn_perm_3d_def _ assms]
      transpose_to_hwcn_transposes [OF hwcn_perms(2) cnhw2hwcn_perm_3d_def _ assms]
    unfolding TransposeFromNchwToHwcn_def TransposeFromCnhwToHwcn_def nchw2hwcn_perm_def cnhw2hwcn_perm_def by blast
qed

theorem conv_weights_transposed_witness:
  "\<exists>out'. TransposeFromNchwToHwcn [2, 1, 1, 2] 1 [1, 2, 3, 4] [0, 0, 0, 0] False = Inr out'
      \<and> transposes [2, 1, 1, 2] nchw2hwcn_perm 1 [1, 2, 3, 4] out'"
proof -
  have pos: "\<forall>i < length [2, 1, 1, 2 :: nat]. [2, 1, 1, 2] ! i > (0 :: nat)" by (auto simp: less_Suc_eq)
  show ?thesis
    using conv_weights_transposed [of False "[2, 1, 1, 2]" 1 "[1, 2, 3, 4]" "[0, 0, 0, 0]", OF _ pos]
    by (simp flip: numeral_eq_Suc)
qed

text \<open>
  \<open>InvertPerm\<close> of a permutation succeeds and yields its two-sided inverse: permuting by one and then by the other gives
  every list back.
\<close>

theorem InvertPerm_inverse:
  assumes "is_perm n perm" "length acc = n"
  shows "\<exists>p. InvertPerm perm acc = Inr p \<and> is_perm n p
           \<and> (\<forall>xs. length xs = n \<longrightarrow> permute p (permute perm xs) = xs \<and> permute perm (permute p xs) = xs)"
proof -
  obtain p where p: "InvertPerm perm acc = Inr p" "length p = n" "\<forall>j < n. p ! (perm ! j) = j"
    using InvertPerm_ok [OF assms] by blast
  have len: "length perm = n" using assms(1) by (rule is_perm_length)
  have right: "perm ! (p ! i) = i \<and> p ! i < n" if "i < n" for i
  proof -
    have "i \<in> set perm" using that assms(1) by (simp add: is_perm_def)
    then obtain j where "j < n" "perm ! j = i" using len by (auto simp: in_set_conv_nth)
    then show ?thesis using p(3) by auto
  qed
  have "distinct p" using p(2) right by (metis distinct_conv_nth)
  moreover have "set p \<subseteq> {..<n}" using right p(2) by (auto simp: in_set_conv_nth)
  moreover have "j \<in> set p" if "j < n" for j
    using nth_mem [of "perm ! j" p] is_perm_nth [OF assms(1) that] p(2,3) that by simp
  ultimately have "is_perm n p" unfolding is_perm_def by blast
  moreover have "permute p (permute perm xs) = xs" "permute perm (permute p xs) = xs" if "length xs = n" for xs
    using that p(2,3) len right is_perm_nth [OF assms(1)] by (auto simp: permute_def intro!: nth_equalityI)
  ultimately show ?thesis using p(1) by blast
qed

theorem InvertPerm_inverse_witness:
  "\<exists>p. InvertPerm [2, 0, 1] [0, 0, 0] = Inr p \<and> permute p (permute [2, 0, 1] ''abc'') = ''abc''"
proof -
  have "is_perm 3 [2, 0, 1]" unfolding is_perm_def by (simp add: set_eq_iff) linarith
  moreover have "length ''abc'' = 3" "length [0, 0, 0 :: nat] = 3" by simp_all
  ultimately show ?thesis using InvertPerm_inverse by blast
qed

end
