(* ===== verification/Model_Wrapper.thy ===== *)
theory Model_Wrapper
  imports Qnn_Tensor Shapes Int_Packing
begin

text \<open>
  The graph under construction: \<open>QnnModelWrapper\<close> (\<open>builder/qnn_model_wrapper.h\<close> and \<open>.cc\<close>), the unique name generator of
  \<open>builder/qnn_utils.cc\<close> and the sub-byte unpacking of \<open>builder/qnn_utils.h\<close>.

  The state is a record with the maps of tensors and parameters, the list of ops, the names in use and the table of created
  tensors.  \<open>qnn_events\<close> is the history of the QNN graph behind the handle, \<open>name_counter\<close> the process-wide name generator and
  \<open>mw_heap\<close> the store of the quantization buffers.  Buffers of destroyed temporaries stay in the store; nothing refers to them.

  What does not change during the life of a wrapper is the environment: the ONNX graph, the graph inputs and outputs, the
  settings, the backend and its interfaces.  ONNX Runtime is a parameter: a graph is the list of its initializers, each with
  the replies of the API about it.

  A function that returns a bool and logs has the result \<open>Inr ()\<close> for true and \<open>Inl (Status_Fail msg)\<close> for false.  Logging, the
  JSON dump and the pointer \<open>op_trace_collector_\<close> itself are left out; the ops it is told about are \<open>traced_ops\<close>.
\<close>

section \<open>Environment and state\<close>

record initializer =
  init_is_constant :: "bool result"
  init_type :: "ONNXTensorElementDataType result"
  init_shape :: "int list"
  init_bytes :: "byte list result"

type_synonym ort_graph = "(string \<times> initializer) list result"

record GraphInputOutputInfo =
  io_names :: "string list"
  io_indices :: "(string \<times> nat) list"

record ModelSettings =
  offload_graph_io_quantization :: bool
  htp_shared_memory :: bool
  htp_bf16_enable :: bool
  enable_block_quant_weight_optimization :: bool

record model_env =
  ort_graph_of :: ort_graph
  graph_inputs :: GraphInputOutputInfo
  graph_outputs :: GraphInputOutputInfo
  model_settings :: ModelSettings
  qnn_backend_type :: QnnBackendType
  qnn_interface_of :: qnn_interface
  qnn_validator :: "qnn_interface option"
  double_to_float :: "64 word \<Rightarrow> 32 word"

record QnnModelWrapper =
  graph_handle :: "nat option"
  graph_name :: string
  graph_context :: "nat option"
  model_tensors_map :: "(string \<times> QnnTensorWrapper) list"
  model_params_map :: "(string \<times> QnnParamWrapper) list"
  qnn_op_property_list :: "QnnOpProperty list"
  qnn_node_names :: "string list"
  qnn_tensor_id_map :: id_table
  tensor_name_overrides :: "(string \<times> string) list option"
  branch_graph_scope_stack :: "ort_graph list"
  qnn_events :: "graph_event list"
  name_counter :: "(string \<times> nat) list"
  traced_ops :: "(string \<times> string \<times> string list) list option"
  mw_heap :: qheap

section \<open>Names\<close>

definition UniqueName_Reset :: "(string \<times> nat) list \<Rightarrow> (string \<times> nat) list" where
  "UniqueName_Reset counter = []"

definition UniqueName_New :: "string \<Rightarrow> string \<Rightarrow> (string \<times> nat) list \<Rightarrow> string \<times> (string \<times> nat) list" where
  "UniqueName_New base suffix counter =
     (let name = base @ suffix;
          count = (case map_of counter name of None \<Rightarrow> 0 | Some k \<Rightarrow> k)
      in (if count > 0 then name @ ''_'' @ to_string (count + 1) else name, assign name (count + 1) counter))"

definition NodeUnitBaseName :: "string \<Rightarrow> string \<Rightarrow> nat \<Rightarrow> string" where
  "NodeUnitBaseName name op_type index = (if name = [] then op_type @ to_string index else name)"

definition UniqueName_New_node :: "string \<Rightarrow> string \<Rightarrow> nat \<Rightarrow> string \<Rightarrow> (string \<times> nat) list \<Rightarrow> string \<times> (string \<times> nat) list" where
  "UniqueName_New_node name op_type index suffix counter = UniqueName_New (NodeUnitBaseName name op_type index) suffix counter"

definition new_name :: "string \<Rightarrow> string \<Rightarrow> QnnModelWrapper \<Rightarrow> string \<times> QnnModelWrapper" where
  "new_name base suffix s = (let (n, c) = UniqueName_New base suffix (name_counter s) in (n, s\<lparr>name_counter := c\<rparr>))"

definition suffixed :: "string \<Rightarrow> nat \<Rightarrow> string" where
  "suffixed requested_name suffix = requested_name @ ''_'' @ to_string suffix"

fun first_free :: "string \<Rightarrow> string list \<Rightarrow> nat list \<Rightarrow> string option" where
  "first_free requested_name names [] = None"
| "first_free requested_name names (k # ks) =
     (if suffixed requested_name k \<in> set names then first_free requested_name names ks else Some (suffixed requested_name k))"

definition MakeUniqueQnnNodeName :: "string \<Rightarrow> QnnModelWrapper \<Rightarrow> string result \<times> QnnModelWrapper" where
  "MakeUniqueQnnNodeName requested_name s =
     (let names = qnn_node_names s
      in if requested_name \<notin> set names then (Inr requested_name, s\<lparr>qnn_node_names := requested_name # names\<rparr>)
         else
           (case first_free requested_name names [2..<length names + 2] of
              Some unique_name \<Rightarrow> (Inr unique_name, s\<lparr>qnn_node_names := unique_name # names\<rparr>)
            | None \<Rightarrow> (Inl (Thrown ''Failed to allocate a unique QNN node name.''), s)))"

section \<open>Initializers\<close>

definition FindInitializerInGraph :: "ort_graph \<Rightarrow> string \<Rightarrow> initializer result" where
  "FindInitializerInGraph g name =
     and_then g (\<lambda>inits. case map_of inits name of None \<Rightarrow> Inl (Status_Fail ''Initializer not found'') | Some i \<Rightarrow> Inr i)"

fun find_in_scopes :: "ort_graph list \<Rightarrow> string \<Rightarrow> initializer option" where
  "find_in_scopes [] name = None"
| "find_in_scopes (g # gs) name =
     (case FindInitializerInGraph g name of Inr i \<Rightarrow> Some i | Inl _ \<Rightarrow> find_in_scopes gs name)"

definition FindInitializer :: "model_env \<Rightarrow> QnnModelWrapper \<Rightarrow> string \<Rightarrow> initializer result" where
  "FindInitializer env s name =
     (case find_in_scopes (rev (branch_graph_scope_stack s)) name of
        Some i \<Rightarrow> Inr i
      | None \<Rightarrow> FindInitializerInGraph (ort_graph_of env) name)"

definition PushBranchGraphScope :: "ort_graph \<Rightarrow> QnnModelWrapper \<Rightarrow> QnnModelWrapper" where
  "PushBranchGraphScope g s = s\<lparr>branch_graph_scope_stack := branch_graph_scope_stack s @ [g]\<rparr>"

definition PopBranchGraphScope :: "QnnModelWrapper \<Rightarrow> QnnModelWrapper" where
  "PopBranchGraphScope s = s\<lparr>branch_graph_scope_stack := butlast (branch_graph_scope_stack s)\<rparr>"

definition GetConstantTensor :: "model_env \<Rightarrow> QnnModelWrapper \<Rightarrow> string \<Rightarrow> initializer option" where
  "GetConstantTensor env s name =
     (case FindInitializer env s name of
        Inl _ \<Rightarrow> None
      | Inr i \<Rightarrow> (if init_is_constant i = Inr True then Some i else None))"

definition IsConstantInput :: "model_env \<Rightarrow> QnnModelWrapper \<Rightarrow> string \<Rightarrow> bool" where
  "IsConstantInput env s input_name =
     (case FindInitializer env s input_name of Inl _ \<Rightarrow> False | Inr i \<Rightarrow> init_is_constant i = Inr True)"

definition IsGraphOutput :: "model_env \<Rightarrow> string \<Rightarrow> bool" where
  "IsGraphOutput env name = (map_of (io_indices (graph_outputs env)) name \<noteq> None)"

definition IsGraphInput :: "model_env \<Rightarrow> string \<Rightarrow> bool" where
  "IsGraphInput env name = (map_of (io_indices (graph_inputs env)) name \<noteq> None)"

definition GetTensorType :: "model_env \<Rightarrow> QnnModelWrapper \<Rightarrow> string \<Rightarrow> Qnn_TensorType_t" where
  "GetTensorType env s name =
     (if IsConstantInput env s name then QNN_TENSOR_TYPE_STATIC
      else if IsGraphInput env name then QNN_TENSOR_TYPE_APP_WRITE
      else if IsGraphOutput env name then QNN_TENSOR_TYPE_APP_READ
      else QNN_TENSOR_TYPE_NATIVE)"

definition UnpackInt4ToInt8 :: "bool \<Rightarrow> nat \<Rightarrow> byte list \<Rightarrow> byte list result" where
  "UnpackInt4ToInt8 Signed num_int4_elems data_bytes =
     (case Int4_Unpack Signed (replicate num_int4_elems 0) data_bytes of
        (False, _) \<Rightarrow> Inl (Status_Fail ''Failed to unpack Tensor<Int4x2> for QNN'')
      | (True, dst) \<Rightarrow> Inr (if Signed then map (\<lambda>b. b AND 0x0F) dst else dst))"

definition UnpackInt2ToInt8 :: "bool \<Rightarrow> nat \<Rightarrow> byte list \<Rightarrow> byte list result" where
  "UnpackInt2ToInt8 Signed num_int2_elems data_bytes =
     (case Int2_Unpack Signed (replicate num_int2_elems 0) data_bytes of
        (False, _) \<Rightarrow> Inl (Status_Fail ''Failed to unpack Tensor<Int2x4> for QNN'')
      | (True, dst) \<Rightarrow> Inr (if Signed then map (\<lambda>b. b AND 0x03) dst else dst))"

definition TransformUnsignedToSignedFixedPoint :: "byte list \<Rightarrow> int \<Rightarrow> byte list result" where
  "TransformUnsignedToSignedFixedPoint quant_data bits =
     (if bits = 2 then Inr (map (\<lambda>b. b XOR 0xAA) quant_data)
      else if bits = 4 then Inr (map (\<lambda>b. b XOR 0x88) quant_data)
      else if bits = 8 then Inr (map (\<lambda>b. b XOR 0x80) quant_data)
      else Inl (Status_Fail ''Unsupported bits to transform data from unsigned to signed.''))"

definition shape_elems :: "int list \<Rightarrow> nat" where
  "shape_elems shape = unat (fold (\<lambda>d acc. acc * of_int d) shape (1 :: 64 word))"

definition UnpackInitializerData :: "initializer \<Rightarrow> bool \<Rightarrow> byte list result" where
  "UnpackInitializerData i unpack_sub_byte_to_8_bit =
     and_then (init_bytes i) (\<lambda>bytes.
     and_then (init_type i) (\<lambda>onnx_data_type.
       let n = shape_elems (init_shape i)
       in if unpack_sub_byte_to_8_bit \<and> onnx_data_type = ONNX_INT4 then UnpackInt4ToInt8 True n bytes
          else if unpack_sub_byte_to_8_bit \<and> onnx_data_type = ONNX_UINT4 then UnpackInt4ToInt8 False n bytes
          else if unpack_sub_byte_to_8_bit \<and> onnx_data_type = ONNX_INT2 then UnpackInt2ToInt8 True n bytes
          else if unpack_sub_byte_to_8_bit \<and> onnx_data_type = ONNX_UINT2 then UnpackInt2ToInt8 False n bytes
          else Inr bytes))"

text \<open>
  A zero point is negated after the conversion to \<open>int32_t\<close>; negating the smallest \<open>int32_t\<close> overflows.
\<close>

definition negate_int32 :: "int \<Rightarrow> int result" where
  "negate_int32 z = (if z = - (2 ^ 31) then Inl (Undefined_Behaviour ''signed overflow'') else Inr (- z))"

definition zp_values :: "ONNXTensorElementDataType \<Rightarrow> byte list \<Rightarrow> int list result" where
  "zp_values t bs =
     (case t of
        ONNX_INT2 \<Rightarrow> Inr (map (\<lambda>b. sint (SignExtendLower2Bits b)) bs)
      | ONNX_INT4 \<Rightarrow> Inr (map (\<lambda>b. sint (SignExtendLower4Bits b)) bs)
      | ONNX_INT8 \<Rightarrow> Inr (map sint bs)
      | ONNX_UINT4 \<Rightarrow> Inr (map uint bs)
      | ONNX_UINT2 \<Rightarrow> Inr (map uint bs)
      | ONNX_UINT8 \<Rightarrow> Inr (map uint bs)
      | ONNX_UINT16 \<Rightarrow> Inr (map uint (span_of 2 bs :: 16 word list))
      | ONNX_INT16 \<Rightarrow> Inr (map sint (span_of 2 bs :: 16 word list))
      | ONNX_INT32 \<Rightarrow> Inr (map sint (span_of 4 bs :: 32 word list))
      | ONNX_UINT32 \<Rightarrow> Inr (map sint (span_of 4 bs :: 32 word list))
      | _ \<Rightarrow> Inl (Status_Fail ''Zero-point ONNX data type is not supported.''))"

definition UnpackZeroPoints :: "initializer option \<Rightarrow> (int list \<times> ONNXTensorElementDataType) result" where
  "UnpackZeroPoints zp_tensor =
     (case zp_tensor of
        None \<Rightarrow> Inl (Status_Fail ''Given zero point(s) to be unpacked is null.'')
      | Some i \<Rightarrow>
          and_then (init_type i) (\<lambda>t.
          and_then (UnpackInitializerData i True) (\<lambda>bytes.
          and_then (zp_values t bytes) (\<lambda>zs.
          and_then (traverse negate_int32 zs) (\<lambda>zero_points. Inr (zero_points, t))))))"

section \<open>Tensor information\<close>

record OrtNodeUnitIODef =
  iod_name :: string
  iod_type :: ONNXTensorElementDataType
  iod_shape :: "int list option"
  iod_quant :: "QuantParam option"

record TensorInfo =
  ti_shape :: "nat list"
  ti_data_type :: Qnn_DataType_t
  ti_quant_param :: QnnQuantParamsWrapper
  ti_initializer :: "initializer option"
  ti_is_initializer :: bool

text \<open>The result is \<open>None\<close> where the code returns false; a dimension that does not fit \<open>uint32_t\<close> throws.\<close>

fun onnx_dims :: "int list \<Rightarrow> nat list option result" where
  "onnx_dims [] = Inr (Some [])"
| "onnx_dims (d # ds) =
     (if d < 0 then Inr None
      else if d \<ge> 2 ^ 32 then Inl (Thrown ''Integer overflow'')
      else and_then (onnx_dims ds) (\<lambda>r. Inr (map_option (\<lambda>xs. nat d # xs) r)))"

definition GetOnnxShape :: "int list option \<Rightarrow> nat list option result" where
  "GetOnnxShape onnx_shape =
     (case onnx_shape of None \<Rightarrow> Inr None | Some ds \<Rightarrow> (if ds = [] then Inr (Some [1]) else onnx_dims ds))"

definition IsPerChannelQuantized :: "OrtNodeUnitIODef \<Rightarrow> (bool \<times> int option) result" where
  "IsPerChannelQuantized io =
     (case iod_quant io of
        None \<Rightarrow> Inr (False, None)
      | Some q \<Rightarrow>
          (let shape = scale_shape q;
               total = sint (fold (\<lambda>d acc. acc * of_int d) shape (1 :: 64 word));
               is_per_channel = (\<not> (length shape = 0 \<or> length shape = 1 \<and> total = 1))
           in if \<not> is_per_channel then Inr (False, None)
              else
                (let axis = (case quant_axis q of None \<Rightarrow> 1 | Some a \<Rightarrow> a)
                 in if axis < 0 then
                      and_then (GetOnnxShape (iod_shape io)) (\<lambda>r.
                        case r of
                          None \<Rightarrow> Inl (Status_Fail ''Cannot get shape'')
                        | Some ts \<Rightarrow>
                            and_then (require (length ts > 0) (Status_Fail ''Per-channel quantized tensor should be of rank > 0''))
                              (\<lambda>_. Inr (True, Some (axis + int (length ts)))))
                    else Inr (True, Some axis))))"

definition GetTensorInfo :: "model_env \<Rightarrow> OrtNodeUnitIODef \<Rightarrow> QnnModelWrapper \<Rightarrow> TensorInfo result \<times> QnnModelWrapper" where
  "GetTensorInfo env io s =
     (let shape = GetOnnxShape (iod_shape io);
          (r, (qp, h)) = Init_onnx (enable_block_quant_weight_optimization (model_settings env)) (iod_type io)
             (case shape of Inr x \<Rightarrow> x | Inl _ \<Rightarrow> None) (iod_quant io) (QnnQuantParamsWrapper_new, mw_heap s);
          s' = s\<lparr>mw_heap := h\<rparr>;
          r = (if r = Inl (Status_Fail ''Cannot get shape'') then (case shape of Inl e \<Rightarrow> Inl e | Inr _ \<Rightarrow> r) else r)
      in (and_then r (\<lambda>_.
          and_then (GetQnnDataType (iod_quant io \<noteq> None) (iod_type io) (qnn_backend_type env)) (\<lambda>dt.
          and_then shape (\<lambda>os.
            case os of
              None \<Rightarrow> Inl (Status_Fail ''Cannot get shape'')
            | Some sh \<Rightarrow>
                Inr \<lparr>ti_shape = sh, ti_data_type = dt, ti_quant_param = qp,
                     ti_initializer = (if IsConstantInput env s (iod_name io) then GetConstantTensor env s (iod_name io) else None),
                     ti_is_initializer = IsConstantInput env s (iod_name io)\<rparr>))), s'))"

section \<open>Tensors and parameters\<close>

definition GetTensorNameOverride :: "QnnModelWrapper \<Rightarrow> string \<Rightarrow> string option" where
  "GetTensorNameOverride s internal = (case tensor_name_overrides s of None \<Rightarrow> None | Some m \<Rightarrow> map_of m internal)"

definition SetTensorNameOverride :: "string \<Rightarrow> string \<Rightarrow> QnnModelWrapper \<Rightarrow> QnnModelWrapper" where
  "SetTensorNameOverride internal original s =
     (case tensor_name_overrides s of
        None \<Rightarrow> s
      | Some m \<Rightarrow>
          (if internal \<noteq> [] \<and> original \<noteq> [] \<and> map_of m internal = None
           then s\<lparr>tensor_name_overrides := Some (emplace internal original m)\<rparr> else s))"

definition IsExternalOverrideTarget :: "QnnModelWrapper \<Rightarrow> string \<Rightarrow> bool" where
  "IsExternalOverrideTarget s external =
     (case tensor_name_overrides s of None \<Rightarrow> False | Some m \<Rightarrow> list_ex (\<lambda>(internal, ext). ext = external) m)"

definition IsQnnTensorWrapperExist :: "QnnModelWrapper \<Rightarrow> string \<Rightarrow> bool" where
  "IsQnnTensorWrapperExist s name = (map_of (model_tensors_map s) name \<noteq> None)"

definition QnnParamExists :: "QnnModelWrapper \<Rightarrow> string \<Rightarrow> bool" where
  "QnnParamExists s name = (map_of (model_params_map s) name \<noteq> None)"

definition new_tensor ::
  "model_env \<Rightarrow> string \<Rightarrow> Qnn_TensorType_t \<Rightarrow> Qnn_DataType_t \<Rightarrow> QnnQuantParamsWrapper \<Rightarrow> nat list \<Rightarrow> byte list
   \<Rightarrow> QnnModelWrapper \<Rightarrow> QnnTensorWrapper result \<times> QnnModelWrapper" where
  "new_tensor env name ty dt qp shape buf s =
     (let (r, h) = QnnTensorWrapper_new (double_to_float env) name ty dt qp shape buf QNN_TENSORMEMTYPE_RAW (mw_heap s)
      in (r, s\<lparr>mw_heap := h\<rparr>))"

definition copied :: "QnnQuantParamsWrapper \<Rightarrow> QnnModelWrapper \<Rightarrow> QnnQuantParamsWrapper \<times> QnnModelWrapper" where
  "copied qp s = (let (_, (q, h)) = Copy qp (mw_heap s) in (q, s\<lparr>mw_heap := h\<rparr>))"

definition initializer_bytes :: "bool \<Rightarrow> initializer option \<Rightarrow> byte list result" where
  "initializer_bytes is_initializer i =
     (if \<not> is_initializer then Inr []
      else case i of None \<Rightarrow> Inl (Undefined_Behaviour ''null initializer'') | Some i \<Rightarrow> UnpackInitializerData i True)"

definition MakeTensorWrapper_io :: "model_env \<Rightarrow> OrtNodeUnitIODef \<Rightarrow> QnnModelWrapper \<Rightarrow> QnnTensorWrapper result \<times> QnnModelWrapper" where
  "MakeTensorWrapper_io env io s0 =
     then_s (GetTensorInfo env io s0) (\<lambda>info s.
     then_s (initializer_bytes (ti_is_initializer info) (ti_initializer info), s) (\<lambda>bytes s.
       new_tensor env (iod_name io) (GetTensorType env s (iod_name io)) (ti_data_type info) (ti_quant_param info)
         (ti_shape info) bytes s))"

definition MakeTensorWrapper :: "model_env \<Rightarrow> TensorInfo \<Rightarrow> string \<Rightarrow> QnnModelWrapper \<Rightarrow> QnnTensorWrapper result \<times> QnnModelWrapper" where
  "MakeTensorWrapper env info name s0 =
     then_s (initializer_bytes (ti_is_initializer info) (ti_initializer info), s0) (\<lambda>bytes s.
       let (q, s) = copied (ti_quant_param info) s
       in new_tensor env name (GetTensorType env s name) (ti_data_type info) q (ti_shape info) bytes s)"

definition SetTensorMemTypeFromSettings :: "model_env \<Rightarrow> string \<Rightarrow> QnnTensorWrapper \<Rightarrow> QnnTensorWrapper result" where
  "SetTensorMemTypeFromSettings env name tw =
     (let mem_type = (if htp_shared_memory (model_settings env) \<and> (IsGraphInput env name \<or> IsGraphOutput env name)
                      then QNN_TENSORMEMTYPE_MEMHANDLE else QNN_TENSORMEMTYPE_RAW)
      in and_then (SetQnnTensorMemType (qnn_tensor tw) mem_type) (\<lambda>t. Inr (tw\<lparr>qnn_tensor := t\<rparr>)))"

definition AddTensorWrapper :: "model_env \<Rightarrow> QnnTensorWrapper \<Rightarrow> QnnModelWrapper \<Rightarrow> unit result \<times> QnnModelWrapper" where
  "AddTensorWrapper env tw s =
     (let name = tensor_name tw
      in if name = [] then (Inl (Status_Fail ''Invalid tensor encountered empty name.''), s)
         else if IsQnnTensorWrapperExist s name then (Inr (), s)
         else
           (case and_then (SetTensorMemTypeFromSettings env name tw) move_construct of
              Inl e \<Rightarrow> (Inl e, s)
            | Inr stored \<Rightarrow> (Inr (), s\<lparr>model_tensors_map := emplace name stored (model_tensors_map s)\<rparr>)))"

definition AddParamWrapper :: "QnnParamWrapper \<Rightarrow> QnnModelWrapper \<Rightarrow> unit result \<times> QnnModelWrapper" where
  "AddParamWrapper pw s =
     (let name = pw_tensor_name pw
      in if name = [] then (Inl (Status_Fail ''Invalid parameter encountered empty name.''), s)
         else if QnnParamExists s name then (Inr (), s)
         else
           (case param_move_construct pw of
              Inl e \<Rightarrow> (Inl e, s)
            | Inr stored \<Rightarrow> (Inr (), s\<lparr>model_params_map := emplace name stored (model_params_map s)\<rparr>)))"

definition GetQnnTensorWrapper :: "QnnModelWrapper \<Rightarrow> string \<Rightarrow> QnnTensorWrapper result" where
  "GetQnnTensorWrapper s name =
     (case map_of (model_tensors_map s) name of Some tw \<Rightarrow> Inr tw | None \<Rightarrow> Inl (Thrown ''Qnn tensor not exist''))"

definition override_of :: "model_env \<Rightarrow> QnnModelWrapper \<Rightarrow> string \<Rightarrow> string option" where
  "override_of env s name = (if offload_graph_io_quantization (model_settings env) then GetTensorNameOverride s name else None)"

text \<open>
  The tensors of a node are looked up and, unless the node is only validated, created in the graph.
\<close>

definition CreateQnnInputOutputTensors ::
  "model_env \<Rightarrow> string list \<Rightarrow> bool \<Rightarrow> QnnModelWrapper \<Rightarrow> Qnn_Tensor_t list result \<times> QnnModelWrapper" where
  "CreateQnnInputOutputTensors env names do_op_validation s =
     (let place = (if do_op_validation then (\<lambda>_ tw g. (Inr (), (tw, g)))
                   else place_tensor (qnn_interface_of env) (override_of env s));
          (r, (m, (ids, ev))) = place_names place names (model_tensors_map s, (qnn_tensor_id_map s, qnn_events s))
      in (and_then r (\<lambda>tws. Inr (map qnn_tensor tws)),
          s\<lparr>model_tensors_map := m, qnn_tensor_id_map := ids, qnn_events := ev\<rparr>))"

definition CreateQnnParamTensors ::
  "model_env \<Rightarrow> string list \<Rightarrow> bool \<Rightarrow> QnnModelWrapper \<Rightarrow> Qnn_Param_t list result \<times> QnnModelWrapper" where
  "CreateQnnParamTensors env names do_op_validation s =
     (let place = (if do_op_validation then (\<lambda>_ pw g. (Inr (), (pw, g))) else place_param (qnn_interface_of env));
          (r, (m, (ids, ev))) = place_names place names (model_params_map s, (qnn_tensor_id_map s, qnn_events s))
      in (and_then r (\<lambda>pws. Inr (map qnn_param pws)),
          s\<lparr>model_params_map := m, qnn_tensor_id_map := ids, qnn_events := ev\<rparr>))"

definition ValidateQnnNode :: "model_env \<Rightarrow> QnnOpConfigWrapper \<Rightarrow> unit result" where
  "ValidateQnnNode env w =
     QnnGraphOpValidation (case qnn_validator env of Some v \<Rightarrow> v | None \<Rightarrow> qnn_interface_of env) w"

section \<open>Validation in bfloat16\<close>

definition IsBF16ConversionEnabled :: "model_env \<Rightarrow> bool" where
  "IsBF16ConversionEnabled env =
     (htp_bf16_enable (model_settings env) \<and> (qnn_backend_type env = HTP \<or> qnn_backend_type env = SERIALIZER))"

definition retype :: "Qnn_DataType_t \<Rightarrow> Qnn_DataType_t \<Rightarrow> QnnTensorWrapper \<Rightarrow> QnnTensorWrapper result" where
  "retype from_type to_type tw =
     and_then (GetTensorDataType tw) (\<lambda>dt.
       if dt = from_type
       then and_then (SetQnnTensorDataType (qnn_tensor tw) to_type) (\<lambda>t. Inr (tw\<lparr>qnn_tensor := t\<rparr>))
       else Inr tw)"

fun apply_bf16_inputs :: "string list \<Rightarrow> QnnModelWrapper \<Rightarrow> unit result \<times> QnnModelWrapper" where
  "apply_bf16_inputs [] s = (Inr (), s)"
| "apply_bf16_inputs (n # ns) s =
     (case map_of (model_tensors_map s) n of
        None \<Rightarrow> (Inl (Status_Fail ''BF16: Validation failed - input tensor not found''), s)
      | Some tw \<Rightarrow>
          (case retype QNN_DATATYPE_FLOAT_32 QNN_DATATYPE_BFLOAT_16 tw of
             Inl e \<Rightarrow> (Inl e, s)
           | Inr tw' \<Rightarrow> apply_bf16_inputs ns (s\<lparr>model_tensors_map := assign n tw' (model_tensors_map s)\<rparr>)))"

fun retype_present :: "Qnn_DataType_t \<Rightarrow> Qnn_DataType_t \<Rightarrow> string list \<Rightarrow> QnnModelWrapper \<Rightarrow> unit result \<times> QnnModelWrapper" where
  "retype_present from_type to_type [] s = (Inr (), s)"
| "retype_present from_type to_type (n # ns) s =
     (case map_of (model_tensors_map s) n of
        None \<Rightarrow> retype_present from_type to_type ns s
      | Some tw \<Rightarrow>
          (case retype from_type to_type tw of
             Inl e \<Rightarrow> (Inl e, s)
           | Inr tw' \<Rightarrow> retype_present from_type to_type ns (s\<lparr>model_tensors_map := assign n tw' (model_tensors_map s)\<rparr>)))"

definition ApplyBF16ConversionForValidation :: "string list \<Rightarrow> string list \<Rightarrow> QnnModelWrapper \<Rightarrow> unit result \<times> QnnModelWrapper" where
  "ApplyBF16ConversionForValidation ins outs s =
     then_s (apply_bf16_inputs ins s) (\<lambda>_ s. retype_present QNN_DATATYPE_FLOAT_32 QNN_DATATYPE_BFLOAT_16 outs s)"

definition RestoreFP32AfterValidation :: "string list \<Rightarrow> string list \<Rightarrow> QnnModelWrapper \<Rightarrow> unit result \<times> QnnModelWrapper" where
  "RestoreFP32AfterValidation ins outs s =
     then_s (retype_present QNN_DATATYPE_BFLOAT_16 QNN_DATATYPE_FLOAT_32 ins s) (\<lambda>_ s.
       retype_present QNN_DATATYPE_BFLOAT_16 QNN_DATATYPE_FLOAT_32 outs s)"

section \<open>Nodes\<close>

definition validate_node ::
  "model_env \<Rightarrow> string \<Rightarrow> string \<Rightarrow> string \<Rightarrow> string list \<Rightarrow> string list \<Rightarrow> string list \<Rightarrow> QnnModelWrapper
   \<Rightarrow> unit result \<times> QnnModelWrapper" where
  "validate_node env node_name package type ins outs ps s =
     then_s (CreateQnnInputOutputTensors env ins True s) (\<lambda>its s.
     then_s (CreateQnnInputOutputTensors env outs True s) (\<lambda>ots s.
     then_s (CreateQnnParamTensors env ps True s) (\<lambda>pts s.
       (and_then (QnnOpConfigWrapper_new node_name package type its ots pts) (ValidateQnnNode env), s))))"

text \<open>
  The guard that restores the element types is created after the conversion succeeded; its destructor runs on every later exit
  and swallows exceptions.
\<close>

definition CreateQnnNode ::
  "model_env \<Rightarrow> string \<Rightarrow> string \<Rightarrow> string \<Rightarrow> string list \<Rightarrow> string list \<Rightarrow> string list \<Rightarrow> bool \<Rightarrow> QnnModelWrapper
   \<Rightarrow> unit result \<times> QnnModelWrapper" where
  "CreateQnnNode env node_name package type ins outs ps do_op_validation s =
     (if do_op_validation then
        (if IsBF16ConversionEnabled env then
           then_s (ApplyBF16ConversionForValidation ins outs s) (\<lambda>_ s1.
             let (r, s2) = validate_node env node_name package type ins outs ps s1
             in (r, snd (RestoreFP32AfterValidation ins outs s2)))
         else validate_node env node_name package type ins outs ps s)
      else
        then_s (MakeUniqueQnnNodeName node_name s) (\<lambda>unique_node_name s.
          (Inr (), s\<lparr>qnn_op_property_list := qnn_op_property_list s @
                      [\<lparr>qnn_node_name = unique_node_name, package_name = package, qnn_node_type = type, input_names = ins,
                        output_names = outs, param_tensor_names = ps\<rparr>],
                    traced_ops := map_option (\<lambda>ts. ts @ [(unique_node_name, type, outs)]) (traced_ops s)\<rparr>)))"

definition QTI_AISW :: string where "QTI_AISW = ''qti.aisw''"

definition add_new_tensor ::
  "model_env \<Rightarrow> string \<Rightarrow> Qnn_TensorType_t \<Rightarrow> Qnn_DataType_t \<Rightarrow> QnnQuantParamsWrapper \<Rightarrow> nat list \<Rightarrow> byte list
   \<Rightarrow> QnnModelWrapper \<Rightarrow> unit result \<times> QnnModelWrapper" where
  "add_new_tensor env name ty dt qp shape buf s =
     then_s (new_tensor env name ty dt qp shape buf s) (\<lambda>tw s. AddTensorWrapper env tw s)"

definition AddCastNode ::
  "model_env \<Rightarrow> string \<Rightarrow> string \<Rightarrow> string \<Rightarrow> Qnn_TensorType_t \<Rightarrow> Qnn_DataType_t \<Rightarrow> QnnQuantParamsWrapper \<Rightarrow> nat list \<Rightarrow> bool
   \<Rightarrow> QnnModelWrapper \<Rightarrow> unit result \<times> QnnModelWrapper" where
  "AddCastNode env cast_node_name input_name output_name ty dt qp shape do_op_validation s =
     (if IsQnnTensorWrapperExist s output_name then (Inr (), s)
      else then_s (add_new_tensor env output_name ty dt qp shape [] s) (\<lambda>_ s.
             CreateQnnNode env cast_node_name QTI_AISW ''Cast'' [input_name] [output_name] [] do_op_validation s))"

definition IsQnnFixedPointType :: "Qnn_DataType_t \<Rightarrow> bool" where
  "IsQnnFixedPointType dt =
     (dt = QNN_DATATYPE_SFIXED_POINT_4 \<or> dt = QNN_DATATYPE_UFIXED_POINT_4 \<or> dt = QNN_DATATYPE_SFIXED_POINT_8
      \<or> dt = QNN_DATATYPE_UFIXED_POINT_8 \<or> dt = QNN_DATATYPE_SFIXED_POINT_16 \<or> dt = QNN_DATATYPE_UFIXED_POINT_16
      \<or> dt = QNN_DATATYPE_SFIXED_POINT_32 \<or> dt = QNN_DATATYPE_UFIXED_POINT_32)"

definition AddDequantizeNode ::
  "model_env \<Rightarrow> string \<Rightarrow> string \<Rightarrow> Qnn_DataType_t \<Rightarrow> nat list \<Rightarrow> bool \<Rightarrow> QnnModelWrapper \<Rightarrow> unit result \<times> QnnModelWrapper" where
  "AddDequantizeNode env input_name output_name dt shape do_op_validation s =
     (if dt \<noteq> QNN_DATATYPE_FLOAT_16 \<and> dt \<noteq> QNN_DATATYPE_FLOAT_32
      then (Inl (Status_Fail ''AddDequantizeNode: output_data_type must be FLOAT_16 or FLOAT_32''), s)
      else then_s (add_new_tensor env output_name QNN_TENSOR_TYPE_NATIVE dt QnnQuantParamsWrapper_new shape [] s) (\<lambda>_ s.
             let (n, s) = new_name input_name ''_dequantize'' s
             in CreateQnnNode env n QTI_AISW ''Dequantize'' [input_name] [output_name] [] do_op_validation s))"

definition AddQuantizeNode ::
  "model_env \<Rightarrow> string \<Rightarrow> string \<Rightarrow> Qnn_TensorType_t \<Rightarrow> Qnn_DataType_t \<Rightarrow> QnnQuantParamsWrapper \<Rightarrow> nat list \<Rightarrow> bool
   \<Rightarrow> QnnModelWrapper \<Rightarrow> unit result \<times> QnnModelWrapper" where
  "AddQuantizeNode env input_name output_name ty dt qp shape do_op_validation s =
     (if \<not> IsQnnFixedPointType dt
      then (Inl (Status_Fail ''AddQuantizeNode: output_data_type must be a SFIXED_POINT or UFIXED_POINT type''), s)
      else then_s (add_new_tensor env output_name ty dt qp shape [] s) (\<lambda>_ s.
             let (n, s) = new_name input_name ''_quantize'' s
             in CreateQnnNode env n QTI_AISW ''Quantize'' [input_name] [output_name] [] do_op_validation s))"

definition add_copied_tensor ::
  "model_env \<Rightarrow> string \<Rightarrow> Qnn_TensorType_t \<Rightarrow> Qnn_DataType_t \<Rightarrow> QnnQuantParamsWrapper \<Rightarrow> nat list
   \<Rightarrow> QnnModelWrapper \<Rightarrow> unit result \<times> QnnModelWrapper" where
  "add_copied_tensor env name ty dt qp shape s = (let (q, s) = copied qp s in add_new_tensor env name ty dt q shape [] s)"

definition AddReshapeNode2 ::
  "model_env \<Rightarrow> string \<Rightarrow> string \<Rightarrow> nat list \<Rightarrow> nat list \<Rightarrow> Qnn_DataType_t \<Rightarrow> QnnQuantParamsWrapper \<Rightarrow> QnnQuantParamsWrapper
   \<Rightarrow> bool \<Rightarrow> bool \<Rightarrow> bool \<Rightarrow> QnnModelWrapper \<Rightarrow> unit result \<times> QnnModelWrapper" where
  "AddReshapeNode2 env input_name output_name input_shape output_shape dt iq oq do_op_validation is_for_input is_for_output s =
     then_s (add_copied_tensor env input_name (if is_for_input then QNN_TENSOR_TYPE_APP_WRITE else QNN_TENSOR_TYPE_NATIVE)
               dt iq input_shape s) (\<lambda>_ s.
     then_s (add_copied_tensor env output_name (if is_for_output then QNN_TENSOR_TYPE_APP_READ else QNN_TENSOR_TYPE_NATIVE)
               dt oq output_shape s) (\<lambda>_ s.
       let (n, s) = new_name output_name ''Reshape'' s
       in CreateQnnNode env n QTI_AISW ''Reshape'' [input_name] [output_name] [] do_op_validation s))"

definition AddReshapeNode ::
  "model_env \<Rightarrow> string \<Rightarrow> string \<Rightarrow> nat list \<Rightarrow> nat list \<Rightarrow> Qnn_DataType_t \<Rightarrow> QnnQuantParamsWrapper
   \<Rightarrow> bool \<Rightarrow> bool \<Rightarrow> bool \<Rightarrow> QnnModelWrapper \<Rightarrow> unit result \<times> QnnModelWrapper" where
  "AddReshapeNode env input_name output_name input_shape output_shape dt qp do_op_validation is_for_input is_for_output s =
     (if IsPerChannel qp
      then (Inl (Status_Fail ''Do not support inserted Reshape nodes with per-channel quantization''), s)
      else AddReshapeNode2 env input_name output_name input_shape output_shape dt qp qp do_op_validation is_for_input
             is_for_output s)"

definition AddTransposeNode ::
  "model_env \<Rightarrow> nat \<Rightarrow> string \<Rightarrow> string \<Rightarrow> nat list \<Rightarrow> nat list \<Rightarrow> nat list \<Rightarrow> Qnn_DataType_t \<Rightarrow> QnnQuantParamsWrapper
   \<Rightarrow> bool \<Rightarrow> bool \<Rightarrow> bool \<Rightarrow> QnnModelWrapper \<Rightarrow> unit result \<times> QnnModelWrapper" where
  "AddTransposeNode env node_index input_name output_name input_shape perm output_shape dt qp do_op_validation is_for_input
     is_for_output s =
     (if IsPerChannel qp
      then (Inl (Status_Fail ''Do not support inserted Transpose nodes with per-channel quantization''), s)
      else if NeedsHtpTransposeReshapeWorkaround input_shape perm output_shape
      then AddReshapeNode env input_name output_name input_shape output_shape dt qp do_op_validation is_for_input is_for_output s
      else
        then_s (if is_for_input \<or> \<not> IsQnnTensorWrapperExist s input_name
                then add_copied_tensor env input_name
                       (if is_for_input then QNN_TENSOR_TYPE_APP_WRITE else QNN_TENSOR_TYPE_NATIVE) dt qp input_shape s
                else (Inr (), s)) (\<lambda>_ s.
        then_s (QnnParamWrapper_u32 node_index output_name ''perm'' [u32 (length perm)] (map of_nat perm) False, s) (\<lambda>pw s.
        then_s (AddParamWrapper pw s) (\<lambda>_ s.
        then_s (add_copied_tensor env output_name (if is_for_output then QNN_TENSOR_TYPE_APP_READ else QNN_TENSOR_TYPE_NATIVE)
                  dt qp output_shape s) (\<lambda>_ s.
          let (n, s) = new_name output_name ''Transpose'' s
          in CreateQnnNode env n QTI_AISW ''Transpose'' [input_name] [output_name] [pw_tensor_name pw] do_op_validation s)))))"

definition AddNchwToHwcnTranspose ::
  "model_env \<Rightarrow> nat \<Rightarrow> string \<Rightarrow> string \<Rightarrow> nat list \<Rightarrow> nat list \<Rightarrow> Qnn_DataType_t \<Rightarrow> QnnQuantParamsWrapper
   \<Rightarrow> bool \<Rightarrow> bool \<Rightarrow> bool \<Rightarrow> bool \<Rightarrow> QnnModelWrapper \<Rightarrow> unit result \<times> QnnModelWrapper" where
  "AddNchwToHwcnTranspose env node_index input_name output_name input_shape output_shape dt qp do_op_validation is_for_input
     is_for_output is_3d s =
     AddTransposeNode env node_index input_name output_name input_shape (if is_3d then nchw2hwcn_perm_3d else nchw2hwcn_perm)
       output_shape dt qp do_op_validation is_for_input is_for_output s"

definition AddCnhwToHwcnTranspose ::
  "model_env \<Rightarrow> nat \<Rightarrow> string \<Rightarrow> string \<Rightarrow> nat list \<Rightarrow> nat list \<Rightarrow> Qnn_DataType_t \<Rightarrow> QnnQuantParamsWrapper
   \<Rightarrow> bool \<Rightarrow> bool \<Rightarrow> bool \<Rightarrow> bool \<Rightarrow> QnnModelWrapper \<Rightarrow> unit result \<times> QnnModelWrapper" where
  "AddCnhwToHwcnTranspose env node_index input_name output_name input_shape output_shape dt qp do_op_validation is_for_input
     is_for_output is_3d s =
     AddTransposeNode env node_index input_name output_name input_shape (if is_3d then cnhw2hwcn_perm_3d else cnhw2hwcn_perm)
       output_shape dt qp do_op_validation is_for_input is_for_output s"

definition AddNoopReshapeNode ::
  "model_env \<Rightarrow> string \<Rightarrow> string \<Rightarrow> OrtNodeUnitIODef \<Rightarrow> bool \<Rightarrow> QnnModelWrapper \<Rightarrow> unit result \<times> QnnModelWrapper" where
  "AddNoopReshapeNode env node_name input_name out do_op_validation s =
     (case map_of (model_tensors_map s) input_name of
        None \<Rightarrow> (Inl (Status_Fail ''Input tensor wrapper not exist for no-op node.''), s)
      | Some itw \<Rightarrow>
          then_s (MakeTensorWrapper_io env out s) (\<lambda>otw s.
            if dimensions itw \<noteq> dimensions otw
            then (Inl (Status_Fail ''Expecting identical shapes for no-op input/output.''), s)
            else then_s (AddTensorWrapper env otw s) (\<lambda>_ s.
                   let (n, s) = new_name node_name [] s
                   in CreateQnnNode env n QTI_AISW ''Reshape'' [input_name] [tensor_name otw] [] do_op_validation s)))"

definition AddStaticBiasTensor ::
  "model_env \<Rightarrow> string \<Rightarrow> nat list \<Rightarrow> Qnn_DataType_t \<Rightarrow> QnnQuantParamsWrapper \<Rightarrow> byte list \<Rightarrow> string list
   \<Rightarrow> QnnModelWrapper \<Rightarrow> string list result \<times> QnnModelWrapper" where
  "AddStaticBiasTensor env bias_name bias_shape dt qp bias_data names s =
     then_s (add_new_tensor env bias_name QNN_TENSOR_TYPE_STATIC dt qp bias_shape bias_data s) (\<lambda>_ s.
       (Inr (names @ [bias_name]), s))"

definition AddQnnScalar ::
  "nat \<Rightarrow> string \<Rightarrow> Qnn_Scalar_t \<Rightarrow> string \<Rightarrow> string list \<Rightarrow> QnnModelWrapper \<Rightarrow> string list result \<times> QnnModelWrapper" where
  "AddQnnScalar node_index node_name scalar name names s =
     (let pw = QnnParamWrapper_scalar node_index node_name name scalar
      in then_s (AddParamWrapper pw s) (\<lambda>_ s. (Inr (names @ [pw_tensor_name pw]), s)))"

section \<open>Composing the graph\<close>

definition CreateBF16CastTensor :: "model_env \<Rightarrow> string \<Rightarrow> nat list \<Rightarrow> Qnn_TensorType_t \<Rightarrow> QnnModelWrapper \<Rightarrow> unit result \<times> QnnModelWrapper" where
  "CreateBF16CastTensor env name shape ty s =
     add_new_tensor env name ty QNN_DATATYPE_BFLOAT_16 QnnQuantParamsWrapper_new shape [] s"

definition bf16_name :: "string \<Rightarrow> string" where
  "bf16_name name = name @ ''_bf16_intermediate''"

definition cast_op :: "string \<Rightarrow> string \<Rightarrow> string \<Rightarrow> QnnOpProperty" where
  "cast_op node_name input_name output_name =
     \<lparr>qnn_node_name = node_name, package_name = QTI_AISW, qnn_node_type = ''Cast'', input_names = [input_name],
      output_names = [output_name], param_tensor_names = []\<rparr>"

text \<open>Insert a cast of \<open>input_name\<close> unless its bfloat16 tensor exists already; the result is the list of casts to add.\<close>

definition insert_input_cast ::
  "model_env \<Rightarrow> string \<Rightarrow> QnnTensorWrapper \<Rightarrow> QnnOpProperty list \<Rightarrow> QnnModelWrapper \<Rightarrow> QnnOpProperty list result \<times> QnnModelWrapper" where
  "insert_input_cast env input_name tw casts s =
     (if IsQnnTensorWrapperExist s (bf16_name input_name) then (Inr casts, s)
      else then_s (CreateBF16CastTensor env (bf16_name input_name) (dimensions tw) QNN_TENSOR_TYPE_NATIVE s) (\<lambda>_ s.
           then_s (MakeUniqueQnnNodeName (bf16_name input_name) s) (\<lambda>node_name s.
             (Inr (casts @ [cast_op node_name input_name (bf16_name input_name)]), s))))"

definition set_dtype :: "string \<Rightarrow> QnnTensorWrapper \<Rightarrow> Qnn_DataType_t \<Rightarrow> QnnModelWrapper \<Rightarrow> unit result \<times> QnnModelWrapper" where
  "set_dtype name tw dt s =
     (case SetQnnTensorDataType (qnn_tensor tw) dt of
        Inl e \<Rightarrow> (Inl e, s)
      | Inr t \<Rightarrow> (Inr (), s\<lparr>model_tensors_map := assign name (tw\<lparr>qnn_tensor := t\<rparr>) (model_tensors_map s)\<rparr>))"

definition kind_of :: "QnnTensorWrapper \<Rightarrow> (Qnn_DataType_t \<times> Qnn_TensorType_t) result" where
  "kind_of tw = and_then (GetTensorDataType tw) (\<lambda>dt. and_then (GetTensorType_tw tw) (\<lambda>ty. Inr (dt, ty)))"

definition bf16_input ::
  "model_env \<Rightarrow> string \<Rightarrow> string list \<times> QnnOpProperty list \<Rightarrow> QnnModelWrapper
   \<Rightarrow> (string list \<times> QnnOpProperty list) result \<times> QnnModelWrapper" where
  "bf16_input env n acc s =
     (case map_of (model_tensors_map s) n of
        None \<Rightarrow> (Inl (Status_Fail ''BF16: Input tensor not found''), s)
      | Some tw \<Rightarrow>
          then_s (kind_of tw, s) (\<lambda>(dt, ty) s.
            let (conv, casts) = acc
            in if (IsGraphInput env n \<or> IsConstantInput env s n \<or> IsGraphOutput env n) \<and> dt = QNN_DATATYPE_FLOAT_32 then
                 then_s (insert_input_cast env n tw casts s) (\<lambda>casts s. (Inr (conv @ [bf16_name n], casts), s))
               else if ty = QNN_TENSOR_TYPE_NATIVE \<and> dt = QNN_DATATYPE_FLOAT_32 then
                 then_s (set_dtype n tw QNN_DATATYPE_BFLOAT_16 s) (\<lambda>_ s. (Inr (conv @ [n], casts), s))
               else if ty = QNN_TENSOR_TYPE_STATIC \<and> \<not> IsConstantInput env s n \<and> dt = QNN_DATATYPE_FLOAT_32 then
                 then_s (insert_input_cast env n tw casts s) (\<lambda>casts s. (Inr (conv @ [bf16_name n], casts), s))
               else (Inr (conv @ [n], casts), s)))"

fun ProcessBF16InputConversion ::
  "model_env \<Rightarrow> string list \<Rightarrow> string list \<times> QnnOpProperty list \<Rightarrow> QnnModelWrapper
   \<Rightarrow> (string list \<times> QnnOpProperty list) result \<times> QnnModelWrapper" where
  "ProcessBF16InputConversion env [] acc s = (Inr acc, s)"
| "ProcessBF16InputConversion env (n # ns) acc s =
     then_s (bf16_input env n acc s) (\<lambda>acc s. ProcessBF16InputConversion env ns acc s)"

definition bf16_output ::
  "model_env \<Rightarrow> string \<Rightarrow> string list \<times> (string \<times> string) list \<Rightarrow> QnnModelWrapper
   \<Rightarrow> (string list \<times> (string \<times> string) list) result \<times> QnnModelWrapper" where
  "bf16_output env n acc s =
     (case map_of (model_tensors_map s) n of
        None \<Rightarrow> (Inr acc, s)
      | Some tw \<Rightarrow>
          then_s (kind_of tw, s) (\<lambda>(dt, ty) s.
            let (conv, casts) = acc
            in if IsGraphOutput env n \<and> (dt = QNN_DATATYPE_FLOAT_32 \<or> dt = QNN_DATATYPE_BFLOAT_16) then
                 (let (b, s) = new_name n ''_bf16_intermediate'' s
                  in if IsQnnTensorWrapperExist s b then (Inr (conv @ [b], casts), s)
                     else then_s (CreateBF16CastTensor env b (dimensions tw) QNN_TENSOR_TYPE_NATIVE s) (\<lambda>_ s.
                            (Inr (conv @ [b], casts @ [(b, n)]), s)))
               else if ty = QNN_TENSOR_TYPE_NATIVE \<and> dt = QNN_DATATYPE_FLOAT_32 then
                 then_s (set_dtype n tw QNN_DATATYPE_BFLOAT_16 s) (\<lambda>_ s. (Inr (conv @ [n], casts), s))
               else (Inr (conv @ [n], casts), s)))"

fun ProcessBF16OutputConversion ::
  "model_env \<Rightarrow> string list \<Rightarrow> string list \<times> (string \<times> string) list \<Rightarrow> QnnModelWrapper
   \<Rightarrow> (string list \<times> (string \<times> string) list) result \<times> QnnModelWrapper" where
  "ProcessBF16OutputConversion env [] acc s = (Inr acc, s)"
| "ProcessBF16OutputConversion env (n # ns) acc s =
     then_s (bf16_output env n acc s) (\<lambda>acc s. ProcessBF16OutputConversion env ns acc s)"

fun output_cast_ops :: "(string \<times> string) list \<Rightarrow> QnnModelWrapper \<Rightarrow> QnnOpProperty list result \<times> QnnModelWrapper" where
  "output_cast_ops [] s = (Inr [], s)"
| "output_cast_ops ((b, n) # rest) s =
     then_s (MakeUniqueQnnNodeName b s) (\<lambda>node_name s.
     then_s (output_cast_ops rest s) (\<lambda>ops s. (Inr (cast_op node_name b n # ops), s)))"

fun bf16_ops ::
  "model_env \<Rightarrow> QnnOpProperty list \<Rightarrow> QnnOpProperty list \<times> QnnOpProperty list \<Rightarrow> QnnModelWrapper
   \<Rightarrow> (QnnOpProperty list \<times> QnnOpProperty list) result \<times> QnnModelWrapper" where
  "bf16_ops env [] acc s = (Inr acc, s)"
| "bf16_ops env (op # ops) (input_casts, processed) s =
     then_s (ProcessBF16InputConversion env (input_names op) ([], input_casts) s) (\<lambda>(ins, input_casts) s.
     then_s (ProcessBF16OutputConversion env (output_names op) ([], []) s) (\<lambda>(outs, out_casts) s.
     then_s (output_cast_ops out_casts s) (\<lambda>casts s.
       bf16_ops env ops (input_casts, processed @ [op\<lparr>input_names := ins, output_names := outs\<rparr>] @ casts) s)))"

definition ProcessBF16Conversions :: "model_env \<Rightarrow> QnnModelWrapper \<Rightarrow> QnnOpProperty list result \<times> QnnModelWrapper" where
  "ProcessBF16Conversions env s =
     then_s (bf16_ops env (qnn_op_property_list s) ([], []) s) (\<lambda>(input_casts, processed) s. (Inr (input_casts @ processed), s))"

fun register_io :: "model_env \<Rightarrow> Qnn_TensorType_t \<Rightarrow> string list \<Rightarrow> QnnModelWrapper \<Rightarrow> unit result \<times> QnnModelWrapper" where
  "register_io env expected_type [] s = (Inr (), s)"
| "register_io env expected_type (n # ns) s =
     (case map_of (model_tensors_map s) n of
        None \<Rightarrow> register_io env expected_type ns s
      | Some tw \<Rightarrow>
          then_s (GetTensorType_tw tw, s) (\<lambda>ty s.
            if ty \<noteq> expected_type \<or> map_of (qnn_tensor_id_map s) n \<noteq> None then register_io env expected_type ns s
            else
              (let (r, (tw', (ids, ev))) = place_tensor (qnn_interface_of env) (override_of env s) n tw (qnn_tensor_id_map s, qnn_events s);
                   s = s\<lparr>model_tensors_map := assign n tw' (model_tensors_map s), qnn_tensor_id_map := ids, qnn_events := ev\<rparr>
               in then_s (r, s) (\<lambda>_ s. register_io env expected_type ns s))))"

definition RegisterGraphInputOutputInOrder :: "model_env \<Rightarrow> QnnModelWrapper \<Rightarrow> unit result \<times> QnnModelWrapper" where
  "RegisterGraphInputOutputInOrder env s =
     then_s (register_io env QNN_TENSOR_TYPE_APP_WRITE (io_names (graph_inputs env)) s) (\<lambda>_ s.
       register_io env QNN_TENSOR_TYPE_APP_READ (io_names (graph_outputs env)) s)"

definition add_op :: "model_env \<Rightarrow> QnnOpProperty \<Rightarrow> QnnModelWrapper \<Rightarrow> unit result \<times> QnnModelWrapper" where
  "add_op env op s =
     then_s (CreateQnnInputOutputTensors env (input_names op) False s) (\<lambda>its s.
     then_s (CreateQnnInputOutputTensors env (output_names op) False s) (\<lambda>ots s.
     then_s (CreateQnnParamTensors env (param_tensor_names op) False s) (\<lambda>pts s.
     then_s (QnnOpConfigWrapper_new (qnn_node_name op) (package_name op) (qnn_node_type op) its ots pts, s) (\<lambda>w s.
       let (r, ev) = CreateQnnGraphOp (qnn_interface_of env) w (qnn_events s) in (r, s\<lparr>qnn_events := ev\<rparr>)))))"

fun add_ops :: "model_env \<Rightarrow> QnnOpProperty list \<Rightarrow> QnnModelWrapper \<Rightarrow> unit result \<times> QnnModelWrapper" where
  "add_ops env [] s = (Inr (), s)"
| "add_ops env (op # ops) s = then_s (add_op env op s) (\<lambda>_ s. add_ops env ops s)"

definition ComposeQnnGraph :: "model_env \<Rightarrow> QnnModelWrapper \<Rightarrow> unit result \<times> QnnModelWrapper" where
  "ComposeQnnGraph env s =
     (if qnn_op_property_list s = [] then (Inl (Status_Fail ''no ops''), s)
      else then_s (RegisterGraphInputOutputInOrder env s) (\<lambda>_ s.
           then_s (if IsBF16ConversionEnabled env then ProcessBF16Conversions env s else (Inr (qnn_op_property_list s), s)) (\<lambda>ops s.
             add_ops env ops s)))"

fun GetGraphInputOutputTensorWrapper ::
  "model_env \<Rightarrow> string list \<Rightarrow> QnnModelWrapper \<Rightarrow> QnnTensorWrapper list result \<times> QnnModelWrapper" where
  "GetGraphInputOutputTensorWrapper env [] s = (Inr [], s)"
| "GetGraphInputOutputTensorWrapper env (n # ns) s =
     (case map_of (model_tensors_map s) n of
        None \<Rightarrow> (Inr [], s)
      | Some tw \<Rightarrow>
          then_s (and_then (case override_of env s n of None \<Rightarrow> Inr tw | Some name \<Rightarrow> SetResolvedTensorName name tw) move_construct, s)
            (\<lambda>moved s.
               then_s (GetGraphInputOutputTensorWrapper env ns (s\<lparr>model_tensors_map := erase n (model_tensors_map s)\<rparr>))
                 (\<lambda>rest s. (Inr (moved # rest), s))))"

section \<open>The graph emitter\<close>

text \<open>
  \<open>QnnGraphEmitter\<close> owns the handle of one graph.  The entry points of the library return an error code (0 is success) and a
  handle, which may be null; null handles are \<open>None\<close>.
\<close>

record graph_api =
  api_graphCreate :: "nat \<Rightarrow> string \<Rightarrow> nat \<times> nat option"
  api_graphRetrieve :: "nat \<Rightarrow> string \<Rightarrow> nat \<times> nat option"
  api_graphFinalize :: "nat \<Rightarrow> nat"
  api_graphExecute :: "nat \<Rightarrow> nat"
  api_graphSetConfig :: "(nat \<Rightarrow> nat) option"

record QnnGraphEmitter =
  em_name :: string
  em_context :: "nat option"
  em_graph :: "nat option"

definition RetrieveGraphHandle :: "graph_api \<Rightarrow> nat \<Rightarrow> string \<Rightarrow> nat \<times> nat option" where
  "RetrieveGraphHandle api ctx name = api_graphRetrieve api ctx name"

definition Emitter_CreateGraph :: "graph_api \<Rightarrow> nat option \<Rightarrow> string \<Rightarrow> QnnGraphEmitter \<Rightarrow> unit result \<times> QnnGraphEmitter" where
  "Emitter_CreateGraph api ctx name em =
     (case ctx of
        None \<Rightarrow> (Inl (Status_Fail ''Invalid Qnn context.''), em)
      | Some c \<Rightarrow>
          (if name = [] then (Inl (Status_Fail ''Empty graph name.''), em)
           else if em_graph em \<noteq> None then (Inl (Status_Fail ''A QNN emitter already owns a graph.''), em)
           else
             (let (st, g) = api_graphCreate api c name;
                  (st, g) = (if st \<noteq> 0 \<or> g = None then RetrieveGraphHandle api c name else (st, g))
              in if st \<noteq> 0 \<or> g = None then (Inl (Status_Fail ''Failed to create Qnn graph''), em)
                 else (Inr (), em\<lparr>em_name := name, em_context := ctx, em_graph := g\<rparr>))))"

definition Emitter_RetrieveGraph :: "graph_api \<Rightarrow> nat option \<Rightarrow> string \<Rightarrow> QnnGraphEmitter \<Rightarrow> unit result \<times> QnnGraphEmitter" where
  "Emitter_RetrieveGraph api ctx name em =
     (case ctx of
        None \<Rightarrow> (Inl (Status_Fail ''Invalid QNN context.''), em)
      | Some c \<Rightarrow>
          (if name = [] then (Inl (Status_Fail ''Empty QNN graph name.''), em)
           else
             (let (st, g) = RetrieveGraphHandle api c name
              in if st \<noteq> 0 \<or> g = None then (Inl (Status_Fail ''Failed to retrieve QNN graph''), em)
                 else (Inr (), em\<lparr>em_name := name, em_context := ctx, em_graph := g\<rparr>))))"

definition Emitter_Finalize :: "graph_api \<Rightarrow> QnnGraphEmitter \<Rightarrow> unit result" where
  "Emitter_Finalize api em =
     (case em_graph em of
        None \<Rightarrow> Inl (Status_Fail ''QNN graph is not initialized.'')
      | Some g \<Rightarrow> require (api_graphFinalize api g = 0) (Status_Fail ''Failed to finalize QNN graph.''))"

definition Emitter_Execute :: "graph_api \<Rightarrow> nat \<Rightarrow> QnnGraphEmitter \<Rightarrow> nat" where
  "Emitter_Execute api invalid_argument em =
     (case em_graph em of None \<Rightarrow> invalid_argument | Some g \<Rightarrow> api_graphExecute api g)"

definition Emitter_SetConfig :: "graph_api \<Rightarrow> QnnGraphEmitter \<Rightarrow> unit result" where
  "Emitter_SetConfig api em =
     (case em_graph em of
        None \<Rightarrow> Inl (Status_Fail ''QNN graph is not initialized.'')
      | Some g \<Rightarrow>
          (case api_graphSetConfig api of
             None \<Rightarrow> Inl (Status_Fail ''Invalid function pointer for graphSetConfig; cannot apply runtime graph configs.'')
           | Some f \<Rightarrow> require (f g = 0) (Status_Fail ''Failed to apply runtime graph configs for graph'')))"

definition CreateQnnGraph ::
  "graph_api \<Rightarrow> nat option \<Rightarrow> string \<Rightarrow> QnnModelWrapper \<times> QnnGraphEmitter \<Rightarrow> unit result \<times> (QnnModelWrapper \<times> QnnGraphEmitter)" where
  "CreateQnnGraph api ctx name se =
     (let (s, em) = se
      in if graph_name s \<noteq> [] then (Inl (Status_Fail ''Graph already initialized.''), se)
         else
           (case Emitter_CreateGraph api ctx name em of
              (Inl e, em') \<Rightarrow> (Inl e, (s, em'))
            | (Inr _, em') \<Rightarrow>
                (Inr (), (s\<lparr>graph_handle := em_graph em', graph_name := name, graph_context := em_context em'\<rparr>, em'))))"

end
