(* ===== verification/Graph_Building.thy ===== *)
theory Graph_Building
  imports Model_Wrapper
begin

text \<open>
  What the graph builder guarantees: unique node names, one creation per tensor, ids that agree with the graph, nodes that
  only mention tensors the graph has, graph inputs and outputs in declaration order, and what validation in bfloat16 leaves
  behind.  The operations are those of \<open>Model_Wrapper\<close>.
\<close>

section \<open>Unique node names\<close>

lemma suffixed_inj: "suffixed r j = suffixed r k \<longleftrightarrow> j = k"
proof
  assume "suffixed r j = suffixed r k"
  then have "to_string j = to_string k" by (simp add: suffixed_def)
  then show "j = k" by (metis dec_value_to_string)
qed simp

lemma suffixed_neq: "suffixed r k \<noteq> r"
  unfolding suffixed_def by simp

lemma first_free_SomeD: "first_free r names ks = Some n \<Longrightarrow> n \<notin> set names \<and> (\<exists>k \<in> set ks. n = suffixed r k)"
  by (induction ks) (auto split: if_splits)

lemma first_free_None: "first_free r names ks = None \<Longrightarrow> suffixed r ` set ks \<subseteq> set names"
  by (induction ks) (auto split: if_splits)

lemma first_free_total:
  assumes "r \<in> set names"
  shows "\<exists>n. first_free r names [2..<length names + 2] = Some n"
proof (rule ccontr)
  assume "\<not> ?thesis"
  then have "first_free r names [2..<length names + 2] = None" by auto
  from first_free_None [OF this] have "suffixed r ` {2..<length names + 2} \<subseteq> set names" unfolding set_upt .
  with assms have "insert r (suffixed r ` {2..<length names + 2}) \<subseteq> set names" by simp
  from card_mono [OF _ this] have "card (insert r (suffixed r ` {2..<length names + 2})) \<le> length names"
    using card_length order_trans by blast
  moreover have "r \<notin> suffixed r ` {2..<length names + 2}" using suffixed_neq by (metis imageE)
  moreover have "card (suffixed r ` {2..<length names + 2}) = length names"
    by (subst card_image) (auto simp: inj_on_def suffixed_inj)
  ultimately show False by simp
qed

lemma MakeUniqueQnnNodeName_spec:
  obtains n where "MakeUniqueQnnNodeName r s = (Inr n, s\<lparr>qnn_node_names := n # qnn_node_names s\<rparr>)" "n \<notin> set (qnn_node_names s)"
    "r \<notin> set (qnn_node_names s) \<Longrightarrow> n = r"
proof (cases "r \<in> set (qnn_node_names s)")
  case True
  obtain n where n: "first_free r (qnn_node_names s) [2..<length (qnn_node_names s) + 2] = Some n"
    using first_free_total [OF True] by blast
  then have "MakeUniqueQnnNodeName r s = (Inr n, s\<lparr>qnn_node_names := n # qnn_node_names s\<rparr>)"
    using True unfolding MakeUniqueQnnNodeName_def by (simp only: Let_def simp_thms option.case if_False)
  then show ?thesis using first_free_SomeD [OF n] that True by blast
next
  case False
  then show ?thesis using that [of r] unfolding MakeUniqueQnnNodeName_def by (simp add: Let_def)
qed

section \<open>The invariant of a graph under construction\<close>

definition op_labels :: "Qnn_OpConfig_t \<Rightarrow> (string option \<times> nat) set" where
  "op_labels op = label_of ` set (inputTensors op) \<union> label_of ` set (outputTensors op) \<union> \<Union> (param_labels ` set (opc_params op))"

text \<open>Every node of the history mentions only tensors that were created before it.\<close>

fun nodes_ok :: "(string option \<times> nat) set \<Rightarrow> graph_event list \<Rightarrow> bool" where
  "nodes_ok known [] = True"
| "nodes_ok known (Tensor_Created t # ev) = nodes_ok (insert (label_of t) known) ev"
| "nodes_ok known (Node_Added op # ev) = (op_labels op \<subseteq> known \<and> nodes_ok known ev)"

fun node_names :: "graph_event list \<Rightarrow> string list" where
  "node_names [] = []"
| "node_names (Tensor_Created t # ev) = node_names ev"
| "node_names (Node_Added op # ev) = opc_name op # node_names ev"

definition op_names :: "QnnOpProperty list \<Rightarrow> string list" where
  "op_names ops = map qnn_node_name ops"

definition tensors_ok :: "(string \<times> QnnTensorWrapper) list \<Rightarrow> bool" where
  "tensors_ok m \<longleftrightarrow> (\<forall>n tw. map_of m n = Some tw \<longrightarrow> wf_tensor tw \<and> tensor_name tw = n)"

definition params_ok :: "(string \<times> QnnParamWrapper) list \<Rightarrow> bool" where
  "params_ok m \<longleftrightarrow> (\<forall>n pw. map_of m n = Some pw \<longrightarrow> wf_param pw \<and> pw_tensor_name pw = n)"

definition names_ok :: "QnnModelWrapper \<Rightarrow> bool" where
  "names_ok s \<longleftrightarrow> distinct (op_names (qnn_op_property_list s)) \<and> set (op_names (qnn_op_property_list s)) \<subseteq> set (qnn_node_names s)"

definition graph_of :: "QnnModelWrapper \<Rightarrow> graph_state" where
  "graph_of s = (qnn_tensor_id_map s, qnn_events s)"

definition model_ok :: "QnnModelWrapper \<Rightarrow> bool" where
  "model_ok s \<longleftrightarrow> tensors_ok (model_tensors_map s) \<and> params_ok (model_params_map s) \<and> graph_ok (graph_of s)
     \<and> nodes_ok {} (qnn_events s) \<and> names_ok s"

lemma nodes_ok_append: "nodes_ok known (ev @ ev') \<longleftrightarrow> nodes_ok known ev \<and> nodes_ok (known \<union> set (created ev)) ev'"
  by (induction known ev rule: nodes_ok.induct) auto

lemma nodes_ok_tensors: "only_tensors ev \<Longrightarrow> nodes_ok known ev"
  by (induction known ev rule: nodes_ok.induct) (auto simp: only_tensors_def)

lemma node_names_append [simp]: "node_names (ev @ ev') = node_names ev @ node_names ev'"
  by (induction ev rule: node_names.induct) auto

lemma node_names_tensors: "only_tensors ev \<Longrightarrow> node_names ev = []"
  by (induction ev rule: node_names.induct) (auto simp: only_tensors_def)

lemma extends_nodes_ok: "extends g g' \<Longrightarrow> nodes_ok {} (snd g) \<Longrightarrow> nodes_ok {} (snd g')"
  by (auto simp: extends_def nodes_ok_append nodes_ok_tensors)

lemma extends_node_names: "extends g g' \<Longrightarrow> node_names (snd g') = node_names (snd g)"
  by (auto simp: extends_def node_names_tensors)

lemma tensors_ok_good_map: "tensors_ok m = gt.good_map m"
  by (simp add: tensors_ok_def gt.good_map_def)

lemma params_ok_good_map: "params_ok m = gp.good_map m"
  by (simp add: params_ok_def gp.good_map_def)

section \<open>Each operation keeps the invariant\<close>

lemma model_ok_heap [simp]: "model_ok (s\<lparr>mw_heap := h\<rparr>) = model_ok s"
  by (simp add: model_ok_def names_ok_def graph_of_def)

lemma model_ok_counter [simp]: "model_ok (s\<lparr>name_counter := c\<rparr>) = model_ok s"
  by (simp add: model_ok_def names_ok_def graph_of_def)

lemma model_ok_scope [simp]: "model_ok (s\<lparr>branch_graph_scope_stack := st\<rparr>) = model_ok s"
  by (simp add: model_ok_def names_ok_def graph_of_def)

lemma model_ok_overrides [simp]: "model_ok (s\<lparr>tensor_name_overrides := st\<rparr>) = model_ok s"
  by (simp add: model_ok_def names_ok_def graph_of_def)

lemma new_tensor_ok:
  "model_ok s \<Longrightarrow> yields model_ok (new_tensor env name ty dt qp shape buf s)
     (\<lambda>tw s'. wf_tensor tw \<and> tensor_name tw = name \<and> (\<exists>h. s' = s\<lparr>mw_heap := h\<rparr>))"
  unfolding new_tensor_def
  by (auto simp: yields_def wf_tensor_def GetResolvedTensorName_def split: prod.splits elim!: QnnTensorWrapper_new_ok)

lemma AddTensorWrapper_ok:
  assumes "model_ok s" "wf_tensor tw"
  shows "yields model_ok (AddTensorWrapper env tw s) (\<lambda>_ s'. \<exists>m. s' = s\<lparr>model_tensors_map := m\<rparr>)"
proof (cases "tensor_name tw = [] \<or> IsQnnTensorWrapperExist s (tensor_name tw)")
  case True
  then show ?thesis using assms(1) by (auto simp: AddTensorWrapper_def Let_def intro: exI [of _ "model_tensors_map s"])
next
  case False
  obtain tw1 where 1: "SetTensorMemTypeFromSettings env (tensor_name tw) tw = Inr tw1" "supported (qnn_tensor tw1)"
      "tensor_name tw1 = tensor_name tw"
    using wf_tensor_supported [OF assms(2)] by (simp add: SetTensorMemTypeFromSettings_def tensor_defs)
  obtain tw2 where 2: "move_construct tw1 = Inr tw2" "wf_tensor tw2" "tensor_name tw2 = tensor_name tw1"
    using move_construct_eq [OF 1(2)] by blast
  have r: "AddTensorWrapper env tw s
      = (Inr (), s\<lparr>model_tensors_map := emplace (tensor_name tw) tw2 (model_tensors_map s)\<rparr>)"
    using False 1 2 by (simp add: AddTensorWrapper_def)
  have "tensors_ok (emplace (tensor_name tw) tw2 (model_tensors_map s))"
    using assms(1) 1 2 by (auto simp: model_ok_def tensors_ok_def split: if_splits)
  then have "model_ok (s\<lparr>model_tensors_map := emplace (tensor_name tw) tw2 (model_tensors_map s)\<rparr>)"
    using assms(1) by (simp add: model_ok_def names_ok_def graph_of_def)
  then show ?thesis unfolding r by auto
qed

lemma param_move_construct_wf:
  "wf_param pw \<Longrightarrow> \<exists>pw'. param_move_construct pw = Inr pw' \<and> wf_param pw' \<and> pw_tensor_name pw' = pw_tensor_name pw"
  by (auto simp: param_move_construct_def wf_param_def tensor_defs supported_def split: Qnn_Param_t.splits)

lemma AddParamWrapper_ok:
  assumes "model_ok s" "wf_param pw"
  shows "yields model_ok (AddParamWrapper pw s) (\<lambda>_ s'. \<exists>m. s' = s\<lparr>model_params_map := m\<rparr>)"
proof (cases "pw_tensor_name pw = [] \<or> QnnParamExists s (pw_tensor_name pw)")
  case True
  then show ?thesis using assms(1) by (auto simp: AddParamWrapper_def Let_def intro: exI [of _ "model_params_map s"])
next
  case False
  obtain pw' where 1: "param_move_construct pw = Inr pw'" "wf_param pw'" "pw_tensor_name pw' = pw_tensor_name pw"
    using param_move_construct_wf [OF assms(2)] by blast
  have r: "AddParamWrapper pw s = (Inr (), s\<lparr>model_params_map := emplace (pw_tensor_name pw) pw' (model_params_map s)\<rparr>)"
    using False 1 by (simp add: AddParamWrapper_def)
  have "params_ok (emplace (pw_tensor_name pw) pw' (model_params_map s))"
    using assms(1) 1 by (auto simp: model_ok_def params_ok_def split: if_splits)
  then have "model_ok (s\<lparr>model_params_map := emplace (pw_tensor_name pw) pw' (model_params_map s)\<rparr>)"
    using assms(1) by (simp add: model_ok_def names_ok_def graph_of_def)
  then show ?thesis unfolding r by auto
qed

lemma MakeUniqueQnnNodeName_ok:
  assumes "model_ok s"
  shows "yields model_ok (MakeUniqueQnnNodeName r s)
           (\<lambda>n s'. n \<notin> set (qnn_node_names s) \<and> s' = s\<lparr>qnn_node_names := n # qnn_node_names s\<rparr>)"
proof -
  obtain n where n: "MakeUniqueQnnNodeName r s = (Inr n, s\<lparr>qnn_node_names := n # qnn_node_names s\<rparr>)" "n \<notin> set (qnn_node_names s)"
    by (rule MakeUniqueQnnNodeName_spec)
  have "model_ok (s\<lparr>qnn_node_names := n # qnn_node_names s\<rparr>)"
    using assms by (auto simp: model_ok_def names_ok_def graph_of_def)
  then show ?thesis unfolding n(1) using n(2) by simp
qed

text \<open>Between two states the graph only gained tensors, and the ops and names are the same.\<close>

definition tensor_step :: "QnnModelWrapper \<Rightarrow> QnnModelWrapper \<Rightarrow> bool" where
  "tensor_step s s' \<longleftrightarrow> extends (graph_of s) (graph_of s') \<and> qnn_op_property_list s' = qnn_op_property_list s
     \<and> qnn_node_names s' = qnn_node_names s"

lemma tensor_step_refl [simp]: "tensor_step s s"
  by (simp add: tensor_step_def)

lemma tensor_step_trans: "tensor_step s s' \<Longrightarrow> tensor_step s' s'' \<Longrightarrow> tensor_step s s''"
  unfolding tensor_step_def using extends_trans by metis

lemma tensor_step_created: "tensor_step s s' \<Longrightarrow> set (created (qnn_events s)) \<subseteq> set (created (qnn_events s'))"
  using extends_created [of "graph_of s" "graph_of s'"] by (simp add: tensor_step_def graph_of_def)

lemma tensor_step_node_names: "tensor_step s s' \<Longrightarrow> node_names (qnn_events s') = node_names (qnn_events s)"
  using extends_node_names [of "graph_of s" "graph_of s'"] by (simp add: tensor_step_def graph_of_def)

lemma place_names_idle: "place_names (\<lambda>_ w g. (Inr (), (w, g))) ns s = (r, s') \<Longrightarrow> s' = s"
proof (induction ns arbitrary: s r s')
  case (Cons n ns)
  show ?case
  proof (cases "map_of (fst s) n")
    case (Some w)
    then have "assign n w (fst s) = fst s" by (simp add: assign_def update_triv)
    moreover obtain r1 s1 where 1: "place_names (\<lambda>_ w g. (Inr (), (w, g))) ns s = (r1, s1)"
      by (cases "place_names (\<lambda>_ w g. (Inr (), (w, g))) ns s") blast
    ultimately have "s' = s1" using Cons.prems Some by (cases r1) auto
    then show ?thesis using Cons.IH [OF 1] by simp
  qed (use Cons.prems in simp)
qed simp

lemma CreateQnnInputOutputTensors_validation:
  obtains r where "CreateQnnInputOutputTensors env ns True s = (r, s)"
proof -
  obtain r s' where 1: "place_names (\<lambda>_ w g. (Inr (), (w, g))) ns (model_tensors_map s, (qnn_tensor_id_map s, qnn_events s)) = (r, s')"
    by (cases "place_names (\<lambda>_ w g. (Inr (), (w, g))) ns (model_tensors_map s, (qnn_tensor_id_map s, qnn_events s))") blast
  with place_names_idle [OF 1] show ?thesis using that by (simp add: CreateQnnInputOutputTensors_def)
qed

lemma CreateQnnParamTensors_validation:
  obtains r where "CreateQnnParamTensors env ns True s = (r, s)"
proof -
  obtain r s' where 1: "place_names (\<lambda>_ w g. (Inr (), (w, g))) ns (model_params_map s, (qnn_tensor_id_map s, qnn_events s)) = (r, s')"
    by (cases "place_names (\<lambda>_ w g. (Inr (), (w, g))) ns (model_params_map s, (qnn_tensor_id_map s, qnn_events s))") blast
  with place_names_idle [OF 1] show ?thesis using that by (simp add: CreateQnnParamTensors_def)
qed

text \<open>Validating a node does not change the wrapper.\<close>

lemma validate_node_pure: "snd (validate_node env node_name package type ins outs ps s) = s"
proof -
  obtain r1 where 1: "CreateQnnInputOutputTensors env ins True s = (r1, s)" by (rule CreateQnnInputOutputTensors_validation)
  obtain r2 where 2: "CreateQnnInputOutputTensors env outs True s = (r2, s)" by (rule CreateQnnInputOutputTensors_validation)
  obtain r3 where 3: "CreateQnnParamTensors env ps True s = (r3, s)" by (rule CreateQnnParamTensors_validation)
  show ?thesis by (cases r1; cases r2; cases r3) (simp_all add: validate_node_def 1 2 3)
qed

lemma CreateQnnInputOutputTensors_ok:
  assumes "model_ok s"
  shows "yields model_ok (CreateQnnInputOutputTensors env ns False s)
           (\<lambda>ts s'. label_of ` set ts \<subseteq> set (created (qnn_events s')) \<and> tensor_step s s')
       \<and> tensor_step s (snd (CreateQnnInputOutputTensors env ns False s))"
proof -
  obtain r m ids ev where 1: "place_names (place_tensor (qnn_interface_of env) (override_of env s)) ns (model_tensors_map s, graph_of s)
      = (r, (m, (ids, ev)))"
    by (cases "place_names (place_tensor (qnn_interface_of env) (override_of env s)) ns (model_tensors_map s, graph_of s)") auto
  have ok: "graph_ok (ids, ev) \<and> extends (graph_of s) (ids, ev) \<and> tensors_ok m
      \<and> (\<forall>ws. r = Inr ws \<longrightarrow> (\<forall>w \<in> set ws. {label_of (qnn_tensor w)} \<subseteq> set (created ev)))"
    using gt.place_names_ok [OF _ _ 1] assms by (simp add: model_ok_def tensors_ok_good_map)
  let ?s = "s\<lparr>model_tensors_map := m, qnn_tensor_id_map := ids, qnn_events := ev\<rparr>"
  have c: "CreateQnnInputOutputTensors env ns False s = (and_then r (\<lambda>tws. Inr (map qnn_tensor tws)), ?s)"
    using 1 by (simp add: CreateQnnInputOutputTensors_def graph_of_def)
  have step: "tensor_step s ?s" using ok by (simp add: tensor_step_def graph_of_def)
  have "model_ok ?s"
    using assms ok extends_nodes_ok [of "graph_of s" "(ids, ev)"] by (simp add: model_ok_def graph_of_def names_ok_def)
  then show ?thesis using step ok by (cases r) (auto simp: c)
qed

lemma CreateQnnParamTensors_ok:
  assumes "model_ok s"
  shows "yields model_ok (CreateQnnParamTensors env ns False s)
           (\<lambda>ps s'. \<Union> (param_labels ` set ps) \<subseteq> set (created (qnn_events s')) \<and> tensor_step s s')
       \<and> tensor_step s (snd (CreateQnnParamTensors env ns False s))"
proof -
  obtain r m ids ev where 1: "place_names (place_param (qnn_interface_of env)) ns (model_params_map s, graph_of s) = (r, (m, (ids, ev)))"
    by (cases "place_names (place_param (qnn_interface_of env)) ns (model_params_map s, graph_of s)") auto
  have ok: "graph_ok (ids, ev) \<and> extends (graph_of s) (ids, ev) \<and> params_ok m
      \<and> (\<forall>ws. r = Inr ws \<longrightarrow> (\<forall>w \<in> set ws. param_labels (qnn_param w) \<subseteq> set (created ev)))"
    using gp.place_names_ok [OF _ _ 1] assms by (simp add: model_ok_def params_ok_good_map)
  let ?s = "s\<lparr>model_params_map := m, qnn_tensor_id_map := ids, qnn_events := ev\<rparr>"
  have c: "CreateQnnParamTensors env ns False s = (and_then r (\<lambda>pws. Inr (map qnn_param pws)), ?s)"
    using 1 by (simp add: CreateQnnParamTensors_def graph_of_def)
  have step: "tensor_step s ?s" using ok by (simp add: tensor_step_def graph_of_def)
  have "model_ok ?s"
    using assms ok extends_nodes_ok [of "graph_of s" "(ids, ev)"] by (simp add: model_ok_def graph_of_def names_ok_def)
  then show ?thesis using step ok by (cases r) (auto simp: c)
qed

section \<open>Adding nodes to the graph\<close>

lemma QnnOpConfigWrapper_new_eq:
  "\<exists>w. QnnOpConfigWrapper_new name package type its ots ps = Inr w \<and> opc_name (op_config w) = name
     \<and> inputTensors (op_config w) = its \<and> outputTensors (op_config w) = ots \<and> opc_params (op_config w) = ps"
  by (simp add: QnnOpConfigWrapper_new_def SetNames_def SetNums_def SetData_def QNN_OPCONFIG_INIT_def)

lemma add_op_ok:
  assumes "model_ok s"
  shows "model_ok (snd (add_op env op s))
         \<and> (node_names (qnn_events (snd (add_op env op s)))
             = node_names (qnn_events s) @ (if is_ok (fst (add_op env op s)) then [qnn_node_name op] else []))"
proof -
  obtain r1 s1 where 1: "CreateQnnInputOutputTensors env (input_names op) False s = (r1, s1)"
    by (cases "CreateQnnInputOutputTensors env (input_names op) False s") blast
  note ok1 = CreateQnnInputOutputTensors_ok [OF assms, of env "input_names op", unfolded 1 yields_def, simplified]
  show ?thesis
  proof (cases r1)
    case (Inr its)
    obtain r2 s2 where 2: "CreateQnnInputOutputTensors env (output_names op) False s1 = (r2, s2)"
      by (cases "CreateQnnInputOutputTensors env (output_names op) False s1") blast
    have "model_ok s1" using ok1 by blast
    note ok2 = CreateQnnInputOutputTensors_ok [OF this, of env "output_names op", unfolded 2 yields_def, simplified]
    show ?thesis
    proof (cases r2)
      case Inr2: (Inr ots)
      obtain r3 s3 where 3: "CreateQnnParamTensors env (param_tensor_names op) False s2 = (r3, s3)"
        by (cases "CreateQnnParamTensors env (param_tensor_names op) False s2") blast
      have "model_ok s2" using ok2 by blast
      note ok3 = CreateQnnParamTensors_ok [OF this, of env "param_tensor_names op", unfolded 3 yields_def, simplified]
      have nn: "node_names (qnn_events s3) = node_names (qnn_events s)"
        using ok1 ok2 ok3 tensor_step_node_names by metis
      show ?thesis
      proof (cases r3)
        case Inr3: (Inr pts)
        obtain w where w: "QnnOpConfigWrapper_new (qnn_node_name op) (package_name op) (qnn_node_type op) its ots pts = Inr w"
            "opc_name (op_config w) = qnn_node_name op" "inputTensors (op_config w) = its" "outputTensors (op_config w) = ots"
            "opc_params (op_config w) = pts"
          using QnnOpConfigWrapper_new_eq by blast
        have labels: "op_labels (op_config w) \<subseteq> set (created (qnn_events s3))"
          using ok1 ok2 ok3 Inr Inr2 Inr3 w tensor_step_created [of s1 s2] tensor_step_created [of s2 s3]
          by (auto simp: op_labels_def)
        have m3: "model_ok s3" using ok3 by blast
        then have "model_ok (s3\<lparr>qnn_events := qnn_events s3 @ [Node_Added (op_config w)]\<rparr>)"
          using labels by (auto simp: model_ok_def graph_of_def graph_ok_def names_ok_def nodes_ok_append)
        then show ?thesis
          using m3 nn w by (simp add: add_op_def 1 2 3 Inr Inr2 Inr3 CreateQnnGraphOp_def)
      qed (use ok3 nn in \<open>simp add: add_op_def 1 2 3 Inr Inr2\<close>)
    qed (use ok1 ok2 tensor_step_node_names [of s s1] tensor_step_node_names [of s1 s2] in \<open>simp add: add_op_def 1 2 Inr\<close>)
  qed (use ok1 tensor_step_node_names [of s s1] in \<open>simp add: add_op_def 1\<close>)
qed

lemma add_ops_ok:
  "model_ok s \<Longrightarrow> add_ops env ops s = (r, s') \<Longrightarrow>
   model_ok s' \<and> (\<exists>k. node_names (qnn_events s') = node_names (qnn_events s) @ take k (op_names ops)
     \<and> (is_ok r \<longrightarrow> k = length ops))"
proof (induction ops arbitrary: s)
  case (Cons op ops)
  obtain r1 s1 where 1: "add_op env op s = (r1, s1)" by (cases "add_op env op s") blast
  note ok = add_op_ok [OF Cons.prems(1), of env op, unfolded 1, simplified]
  show ?case
  proof (cases r1)
    case (Inl e)
    then show ?thesis using Cons.prems(2) ok by (auto simp: 1 intro: exI [of _ 0])
  next
    case (Inr u)
    then have "add_ops env ops s1 = (r, s')" using Cons.prems(2) by (simp add: 1)
    from Cons.IH [OF _ this] ok obtain k where k: "model_ok s'"
        "node_names (qnn_events s') = node_names (qnn_events s1) @ take k (op_names ops)" "is_ok r \<longrightarrow> k = length ops"
      by blast
    then show ?thesis using ok Inr by (auto simp: op_names_def intro: exI [of _ "Suc k"])
  qed
qed (auto simp: op_names_def)

section \<open>Conversion to bfloat16\<close>

text \<open>
  The conversion only changes the tensors, the names and the store.  \<open>inv ev\<close> is the invariant with a fixed history.
  \<open>fresh_ops s s' new\<close>: between the states the names of the ops \<open>new\<close> were reserved, and none of them was in use.
\<close>

definition inv_at :: "graph_event list \<Rightarrow> QnnModelWrapper \<Rightarrow> bool" where
  "inv_at ev s \<longleftrightarrow> model_ok s \<and> qnn_events s = ev"

definition fresh_ops :: "QnnModelWrapper \<Rightarrow> QnnModelWrapper \<Rightarrow> QnnOpProperty list \<Rightarrow> bool" where
  "fresh_ops s s' new \<longleftrightarrow> qnn_op_property_list s' = qnn_op_property_list s \<and> distinct (op_names new)
     \<and> set (op_names new) \<inter> set (qnn_node_names s) = {}
     \<and> set (qnn_node_names s') = set (qnn_node_names s) \<union> set (op_names new)"

lemma op_names_simps [simp]:
  "op_names [] = []" "op_names (op # ops) = qnn_node_name op # op_names ops" "op_names (xs @ ys) = op_names xs @ op_names ys"
  by (simp_all add: op_names_def)

lemma length_op_names [simp]: "length (op_names ops) = length ops"
  by (simp add: op_names_def)

lemma fresh_ops_Nil: "qnn_op_property_list s' = qnn_op_property_list s \<Longrightarrow> qnn_node_names s' = qnn_node_names s \<Longrightarrow> fresh_ops s s' []"
  by (simp add: fresh_ops_def)

lemma fresh_ops_append: "fresh_ops s s1 xs \<Longrightarrow> fresh_ops s1 s2 ys \<Longrightarrow> fresh_ops s s2 (xs @ ys)"
  by (auto simp: fresh_ops_def)

lemma AddTensorWrapper_frame: "\<exists>m. snd (AddTensorWrapper env tw s) = s\<lparr>model_tensors_map := m\<rparr>"
proof -
  have "\<exists>m. s = s\<lparr>model_tensors_map := m\<rparr>" by (rule exI [of _ "model_tensors_map s"]) simp
  then show ?thesis
    unfolding AddTensorWrapper_def Let_def by (cases "and_then (SetTensorMemTypeFromSettings env (tensor_name tw) tw) move_construct") auto
qed

lemma AddParamWrapper_frame: "\<exists>m. snd (AddParamWrapper pw s) = s\<lparr>model_params_map := m\<rparr>"
proof -
  have "\<exists>m. s = s\<lparr>model_params_map := m\<rparr>" by (rule exI [of _ "model_params_map s"]) simp
  then show ?thesis unfolding AddParamWrapper_def Let_def by (cases "param_move_construct pw") auto
qed

lemma add_new_tensor_ok:
  assumes "model_ok s"
  shows "model_ok (snd (add_new_tensor env name ty dt qp shape buf s))
       \<and> (\<exists>h m. snd (add_new_tensor env name ty dt qp shape buf s) = s\<lparr>mw_heap := h, model_tensors_map := m\<rparr>)"
proof -
  obtain r h where 1: "QnnTensorWrapper_new (double_to_float env) name ty dt qp shape buf QNN_TENSORMEMTYPE_RAW (mw_heap s) = (r, h)"
    by (cases "QnnTensorWrapper_new (double_to_float env) name ty dt qp shape buf QNN_TENSORMEMTYPE_RAW (mw_heap s)") blast
  obtain tw where tw: "r = Inr tw" by (rule QnnTensorWrapper_new_ok [OF 1])
  have wf: "wf_tensor tw" using wf_tensor_new 1 tw by blast
  have e: "add_new_tensor env name ty dt qp shape buf s = AddTensorWrapper env tw (s\<lparr>mw_heap := h\<rparr>)"
    by (simp add: add_new_tensor_def new_tensor_def 1 tw)
  have "model_ok (s\<lparr>mw_heap := h\<rparr>)" using assms by simp
  from AddTensorWrapper_ok [OF this wf, of env] have "model_ok (snd (add_new_tensor env name ty dt qp shape buf s))"
    by (simp add: e yields_def)
  then show ?thesis unfolding e using AddTensorWrapper_frame by metis
qed

lemma add_new_tensor_inv:
  assumes "inv_at ev s"
  shows "yields (inv_at ev) (add_new_tensor env name ty dt qp shape buf s) (\<lambda>_ s'. fresh_ops s s' [])"
proof -
  obtain h m where f: "snd (add_new_tensor env name ty dt qp shape buf s) = s\<lparr>mw_heap := h, model_tensors_map := m\<rparr>"
    and ok: "model_ok (snd (add_new_tensor env name ty dt qp shape buf s))"
    using add_new_tensor_ok assms by (meson inv_at_def)
  then show ?thesis using assms by (simp add: yields_def inv_at_def fresh_ops_def)
qed

lemma MakeUniqueQnnNodeName_inv:
  assumes "inv_at ev s"
  shows "yields (inv_at ev) (MakeUniqueQnnNodeName r s) (\<lambda>n s'. \<forall>op. qnn_node_name op = n \<longrightarrow> fresh_ops s s' [op])"
proof -
  obtain n where n: "MakeUniqueQnnNodeName r s = (Inr n, s\<lparr>qnn_node_names := n # qnn_node_names s\<rparr>)" "n \<notin> set (qnn_node_names s)"
    by (rule MakeUniqueQnnNodeName_spec)
  then show ?thesis
    using assms MakeUniqueQnnNodeName_ok [of s r] by (simp add: inv_at_def fresh_ops_def)
qed

lemma insert_input_cast_inv:
  assumes "inv_at ev s"
  shows "yields (inv_at ev) (insert_input_cast env n tw casts s) (\<lambda>casts' s'. \<exists>new. casts' = casts @ new \<and> fresh_ops s s' new)"
proof (cases "IsQnnTensorWrapperExist s (bf16_name n)")
  case False
  have "yields (inv_at ev) (then_s (CreateBF16CastTensor env (bf16_name n) (dimensions tw) QNN_TENSOR_TYPE_NATIVE s) (\<lambda>_ s.
          then_s (MakeUniqueQnnNodeName (bf16_name n) s) (\<lambda>node_name s.
            (Inr (casts @ [cast_op node_name n (bf16_name n)]), s))))
        (\<lambda>casts' s'. \<exists>new. casts' = casts @ new \<and> fresh_ops s s' new)"
  proof (rule yields_then)
    show "yields (inv_at ev) (CreateBF16CastTensor env (bf16_name n) (dimensions tw) QNN_TENSOR_TYPE_NATIVE s) (\<lambda>_ s'. fresh_ops s s' [])"
      unfolding CreateBF16CastTensor_def by (rule add_new_tensor_inv [OF assms])
    fix x s1 assume i1: "inv_at ev s1" and f1: "fresh_ops s s1 []"
    show "yields (inv_at ev) (then_s (MakeUniqueQnnNodeName (bf16_name n) s1) (\<lambda>node_name s.
            (Inr (casts @ [cast_op node_name n (bf16_name n)]), s)))
          (\<lambda>casts' s'. \<exists>new. casts' = casts @ new \<and> fresh_ops s s' new)"
    proof (rule yields_then [OF MakeUniqueQnnNodeName_inv [OF i1]])
      fix node_name s2 assume "inv_at ev s2" and f2: "\<forall>op. qnn_node_name op = node_name \<longrightarrow> fresh_ops s1 s2 [op]"
      then have "fresh_ops s1 s2 [cast_op node_name n (bf16_name n)]" by (simp add: cast_op_def)
      from fresh_ops_append [OF f1 this] show "yields (inv_at ev) (Inr (casts @ [cast_op node_name n (bf16_name n)]), s2)
          (\<lambda>casts' s'. \<exists>new. casts' = casts @ new \<and> fresh_ops s s' new)"
        using \<open>inv_at ev s2\<close> by auto
    qed
  qed
  then show ?thesis using False by (simp add: insert_input_cast_def)
qed (use assms in \<open>auto simp: insert_input_cast_def intro: exI [of _ "[]"] fresh_ops_Nil\<close>)

lemma set_dtype_inv:
  assumes "inv_at ev s" "map_of (model_tensors_map s) n = Some tw"
  shows "yields (inv_at ev) (set_dtype n tw dt s) (\<lambda>_ s'. fresh_ops s s' [])"
proof -
  have wf: "wf_tensor tw" "tensor_name tw = n" using assms by (auto simp: inv_at_def model_ok_def tensors_ok_def)
  let ?tw = "tw\<lparr>qnn_tensor := map_body (\<lambda>b. b\<lparr>t_dataType := dt\<rparr>) (qnn_tensor tw)\<rparr>"
  have "wf_tensor ?tw" using wf(1) by (auto simp: wf_tensor_def split: option.splits)
  then have "tensors_ok (assign n ?tw (model_tensors_map s))"
    using assms(1) wf(2) by (auto simp: inv_at_def model_ok_def tensors_ok_def)
  then show ?thesis
    using assms(1) wf_tensor_supported [OF wf(1)]
    by (auto simp: set_dtype_def tensor_defs inv_at_def model_ok_def names_ok_def graph_of_def fresh_ops_def)
qed

lemma bf16_input_inv:
  assumes "inv_at ev s"
  shows "yields (inv_at ev) (bf16_input env n (conv, casts) s)
           (\<lambda>acc s'. \<exists>new. snd acc = casts @ new \<and> fresh_ops s s' new)"
proof (cases "map_of (model_tensors_map s) n")
  case (Some tw)
  have cast: "yields (inv_at ev) (then_s (insert_input_cast env n tw casts s) (\<lambda>casts s. (Inr (conv @ [bf16_name n], casts), s)))
      (\<lambda>acc s'. \<exists>new. snd acc = casts @ new \<and> fresh_ops s s' new)"
    by (rule yields_then [OF insert_input_cast_inv [OF assms]]) simp
  have keep: "yields (inv_at ev) (then_s (set_dtype n tw QNN_DATATYPE_BFLOAT_16 s) (\<lambda>_ s. (Inr (conv @ [n], casts), s)))
      (\<lambda>acc s'. \<exists>new. snd acc = casts @ new \<and> fresh_ops s s' new)"
    by (rule yields_then [OF set_dtype_inv [OF assms Some]]) auto
  show ?thesis
  proof (cases "kind_of tw")
    case (Inr k)
    then show ?thesis
      using cast keep assms by (cases k) (simp add: bf16_input_def Some fresh_ops_def)
  qed (use assms in \<open>simp add: bf16_input_def Some\<close>)
qed (use assms in \<open>simp add: bf16_input_def\<close>)

lemma ProcessBF16InputConversion_inv:
  "inv_at ev s \<Longrightarrow> yields (inv_at ev) (ProcessBF16InputConversion env ns (conv, casts) s)
     (\<lambda>acc s'. \<exists>new. snd acc = casts @ new \<and> fresh_ops s s' new)"
proof (induction ns arbitrary: conv casts s)
  case (Cons n ns)
  show ?case unfolding ProcessBF16InputConversion.simps
  proof (rule yields_then [OF bf16_input_inv [OF Cons.prems]])
    fix acc :: "string list \<times> QnnOpProperty list" and s1
    assume i1: "inv_at ev s1" and "\<exists>new. snd acc = casts @ new \<and> fresh_ops s s1 new"
    then obtain conv1 new where acc: "acc = (conv1, casts @ new)" "fresh_ops s s1 new" by (cases acc) auto
    show "yields (inv_at ev) (ProcessBF16InputConversion env ns acc s1) (\<lambda>acc s'. \<exists>new. snd acc = casts @ new \<and> fresh_ops s s' new)"
      unfolding acc(1)
      by (rule yields_mono [OF Cons.IH [OF i1]]) (use fresh_ops_append [OF acc(2)] in fastforce)
  qed
qed (simp add: fresh_ops_def)

lemma bf16_output_inv:
  assumes "inv_at ev s"
  shows "yields (inv_at ev) (bf16_output env n acc s) (\<lambda>_ s'. fresh_ops s s' [])"
proof (cases "map_of (model_tensors_map s) n")
  case (Some tw)
  obtain conv casts where acc: "acc = (conv, casts)" by (cases acc)
  obtain b s1 where b: "new_name n ''_bf16_intermediate'' s = (b, s1)" by (cases "new_name n ''_bf16_intermediate'' s") blast
  then have s1: "inv_at ev s1" "fresh_ops s s1 []"
    using assms by (auto simp: new_name_def Let_def inv_at_def fresh_ops_def split: prod.splits)
  have cast: "yields (inv_at ev) (then_s (CreateBF16CastTensor env b (dimensions tw) QNN_TENSOR_TYPE_NATIVE s1) (\<lambda>_ s.
                (Inr (conv @ [b], casts @ [(b, n)]), s))) (\<lambda>_ s'. fresh_ops s s' [])"
    unfolding CreateBF16CastTensor_def
    by (rule yields_then [OF add_new_tensor_inv [OF s1(1)]]) (use fresh_ops_append [OF s1(2), of _ "[]"] in simp)
  have keep: "yields (inv_at ev) (then_s (set_dtype n tw QNN_DATATYPE_BFLOAT_16 s) (\<lambda>_ s. (Inr (conv @ [n], casts), s)))
      (\<lambda>_ s'. fresh_ops s s' [])"
    by (rule yields_then [OF set_dtype_inv [OF assms Some]]) simp
  show ?thesis
  proof (cases "kind_of tw")
    case (Inr k)
    then show ?thesis
      using cast keep assms s1 by (cases k) (simp add: bf16_output_def Some acc b fresh_ops_def)
  qed (use assms in \<open>simp add: bf16_output_def Some\<close>)
qed (use assms in \<open>simp add: bf16_output_def fresh_ops_def\<close>)

lemma ProcessBF16OutputConversion_inv:
  "inv_at ev s \<Longrightarrow> yields (inv_at ev) (ProcessBF16OutputConversion env ns acc s) (\<lambda>_ s'. fresh_ops s s' [])"
proof (induction ns arbitrary: acc s)
  case (Cons n ns)
  show ?case unfolding ProcessBF16OutputConversion.simps
    by (rule yields_then [OF bf16_output_inv [OF Cons.prems]])
      (rule yields_mono [OF Cons.IH], use fresh_ops_append [of _ _ "[]" _ "[]"] in auto)
qed (simp add: fresh_ops_def)

lemma output_cast_ops_inv:
  "inv_at ev s \<Longrightarrow> yields (inv_at ev) (output_cast_ops cs s) (\<lambda>ops s'. fresh_ops s s' ops)"
proof (induction cs arbitrary: s)
  case (Cons c cs)
  obtain b n where c: "c = (b, n)" by (cases c)
  show ?case unfolding c output_cast_ops.simps
  proof (rule yields_then [OF MakeUniqueQnnNodeName_inv [OF Cons.prems]])
    fix nm s1 assume i1: "inv_at ev s1" and "\<forall>op. qnn_node_name op = nm \<longrightarrow> fresh_ops s s1 [op]"
    then have f: "fresh_ops s s1 [cast_op nm b n]" by (simp add: cast_op_def)
    show "yields (inv_at ev) (then_s (output_cast_ops cs s1) (\<lambda>ops s. (Inr (cast_op nm b n # ops), s))) (\<lambda>ops s'. fresh_ops s s' ops)"
      by (rule yields_then [OF Cons.IH [OF i1]]) (use fresh_ops_append [OF f] in auto)
  qed
qed (simp add: fresh_ops_def)

text \<open>The names of the ops already processed and of the ops still to process stay distinct and reserved.\<close>

definition reserved :: "QnnOpProperty list \<Rightarrow> QnnModelWrapper \<Rightarrow> bool" where
  "reserved ops s \<longleftrightarrow> distinct (op_names ops) \<and> set (op_names ops) \<subseteq> set (qnn_node_names s)"

lemma reserved_step:
  assumes "reserved (casts @ processed @ op # ops) s" "fresh_ops s s1 new" "fresh_ops s1 s2 []" "fresh_ops s2 s3 after"
    and "qnn_node_name op' = qnn_node_name op"
  shows "reserved ((casts @ new) @ (processed @ [op'] @ after) @ ops) s3"
  using assms unfolding reserved_def fresh_ops_def by auto

definition converts :: "QnnOpProperty list \<Rightarrow> QnnOpProperty list \<times> QnnOpProperty list \<Rightarrow> QnnModelWrapper \<Rightarrow> bool" where
  "converts ops acc s \<longleftrightarrow> reserved (fst acc @ snd acc) s \<and> set (op_names ops) \<subseteq> set (op_names (fst acc @ snd acc))"

lemma bf16_ops_inv:
  "inv_at ev s \<Longrightarrow> reserved (casts @ processed @ ops) s \<Longrightarrow>
     yields (inv_at ev) (bf16_ops env ops (casts, processed) s) (converts (casts @ processed @ ops))"
proof (induction ops arbitrary: casts processed s)
  case (Cons op ops)
  let ?Q = "converts (casts @ processed @ op # ops)"
  show ?case unfolding bf16_ops.simps
  proof (rule yields_then [OF ProcessBF16InputConversion_inv [OF Cons.prems(1)]], clarsimp)
    fix ins new s1 assume i1: "inv_at ev s1" and f1: "fresh_ops s s1 new"
    show "yields (inv_at ev) (then_s (ProcessBF16OutputConversion env (output_names op) ([], []) s1) (\<lambda>(outs, out_casts) s.
            then_s (output_cast_ops out_casts s) (\<lambda>cs s.
              bf16_ops env ops (casts @ new, processed @ op\<lparr>input_names := ins, output_names := outs\<rparr> # cs) s))) ?Q"
    proof (rule yields_then [OF ProcessBF16OutputConversion_inv [OF i1]], clarsimp)
      fix outs out_casts s2 assume i2: "inv_at ev s2" and f2: "fresh_ops s1 s2 []"
      show "yields (inv_at ev) (then_s (output_cast_ops out_casts s2) (\<lambda>cs s.
              bf16_ops env ops (casts @ new, processed @ op\<lparr>input_names := ins, output_names := outs\<rparr> # cs) s)) ?Q"
      proof (rule yields_then [OF output_cast_ops_inv [OF i2]])
        fix cs s3 assume i3: "inv_at ev s3" and f3: "fresh_ops s2 s3 cs"
        have "reserved ((casts @ new) @ (processed @ op\<lparr>input_names := ins, output_names := outs\<rparr> # cs) @ ops) s3"
          using reserved_step [OF Cons.prems(2) f1 f2 f3, of "op\<lparr>input_names := ins, output_names := outs\<rparr>"] by simp
        then show "yields (inv_at ev) (bf16_ops env ops (casts @ new, processed @ op\<lparr>input_names := ins, output_names := outs\<rparr> # cs) s3) ?Q"
          by (rule yields_mono [OF Cons.IH [OF i3]]) (auto simp: converts_def)
      qed
    qed
  qed
qed (simp add: converts_def)

lemma ProcessBF16Conversions_inv:
  assumes "inv_at ev s"
  shows "yields (inv_at ev) (ProcessBF16Conversions env s)
           (\<lambda>ops s'. reserved ops s' \<and> set (op_names (qnn_op_property_list s)) \<subseteq> set (op_names ops))"
  unfolding ProcessBF16Conversions_def
proof (rule yields_then [OF bf16_ops_inv [OF assms]])
  show "reserved ([] @ [] @ qnn_op_property_list s) s" using assms by (simp add: inv_at_def model_ok_def names_ok_def reserved_def)
qed (auto simp: converts_def)

section \<open>Validation in bfloat16\<close>

text \<open>\<open>converted f t\<close> is what \<open>retype f t\<close> makes of a well-formed tensor.\<close>

definition has_dtype :: "Qnn_DataType_t \<Rightarrow> QnnTensorWrapper \<Rightarrow> bool" where
  "has_dtype dt tw \<longleftrightarrow> GetTensorDataType tw = Inr dt"

definition converted :: "Qnn_DataType_t \<Rightarrow> Qnn_DataType_t \<Rightarrow> QnnTensorWrapper \<Rightarrow> QnnTensorWrapper" where
  "converted f t tw =
     (if has_dtype f tw then tw\<lparr>qnn_tensor := map_body (\<lambda>b. b\<lparr>t_dataType := t\<rparr>) (qnn_tensor tw)\<rparr> else tw)"

lemma retype_eq: "wf_tensor tw \<Longrightarrow> retype f t tw = Inr (converted f t tw)"
  by (auto simp: retype_def converted_def has_dtype_def tensor_defs GetTensorDataType_def wf_tensor_def supported_def
      split: option.splits)

lemma converted_wf [simp]: "wf_tensor (converted f t tw) = wf_tensor tw"
  by (auto simp: converted_def wf_tensor_def GetResolvedTensorName_def split: option.splits)

lemma converted_names [simp]:
  "tensor_name (converted f t tw) = tensor_name tw" "GetResolvedTensorName (converted f t tw) = GetResolvedTensorName tw"
  by (simp_all add: converted_def)

lemma has_dtype_converted:
  "wf_tensor tw \<Longrightarrow> has_dtype dt (converted f t tw) \<longleftrightarrow> (if has_dtype f tw then dt = t else has_dtype dt tw)"
  by (auto simp: has_dtype_def converted_def GetTensorDataType_def tensor_defs wf_tensor_def split: option.splits)

lemma converted_idem: "wf_tensor tw \<Longrightarrow> converted f t (converted f t tw) = converted f t tw"
  by (auto simp: converted_def [of f t "converted f t tw"] has_dtype_converted converted_def)

lemma map_body_same: "body_of t = Some b \<Longrightarrow> f b = b \<Longrightarrow> map_body f t = t"
  by (cases t) (simp_all add: map_body_def body_of_def)

lemma converted_back:
  assumes "wf_tensor tw" "\<not> has_dtype t tw"
  shows "converted t f (converted f t tw) = tw"
proof (cases "has_dtype f tw")
  case True
  then obtain b where b: "body_of (qnn_tensor tw) = Some b" "t_dataType b = f"
    by (auto simp: has_dtype_def GetTensorDataType_def tensor_defs split: option.splits)
  have "converted t f (converted f t tw) = tw\<lparr>qnn_tensor := map_body (\<lambda>b. b\<lparr>t_dataType := f\<rparr>) (qnn_tensor tw)\<rparr>"
    using has_dtype_converted [OF assms(1), of t f t] True by (simp add: converted_def)
  also have "map_body (\<lambda>b. b\<lparr>t_dataType := f\<rparr>) (qnn_tensor tw) = qnn_tensor tw"
    by (rule map_body_same [OF b(1)]) (use b(2) in auto)
  finally show ?thesis by simp
qed (use assms in \<open>simp add: converted_def\<close>)

text \<open>The tensor table after the names in \<open>ns\<close> were converted.\<close>

definition convert_all :: "Qnn_DataType_t \<Rightarrow> Qnn_DataType_t \<Rightarrow> string list \<Rightarrow> (string \<Rightarrow> QnnTensorWrapper option) \<Rightarrow> string \<Rightarrow> QnnTensorWrapper option" where
  "convert_all f t ns m n = (if n \<in> set ns then map_option (converted f t) (m n) else m n)"

lemma convert_all_Nil [simp]: "convert_all f t [] m = m"
  by (simp add: convert_all_def fun_eq_iff)

lemma convert_all_step:
  assumes "\<And>n tw. m n = Some tw \<Longrightarrow> wf_tensor tw"
  shows "convert_all f t ns (convert_all f t [n] m) = convert_all f t (n # ns) m"
proof
  fix k show "convert_all f t ns (convert_all f t [n] m) k = convert_all f t (n # ns) m k"
    using assms [of k] by (cases "m k") (auto simp: convert_all_def converted_idem)
qed

lemma tensors_okD: "tensors_ok m \<Longrightarrow> map_of m n = Some tw \<Longrightarrow> wf_tensor tw \<and> tensor_name tw = n"
  by (simp add: tensors_ok_def)

lemma convert_one:
  assumes "tensors_ok m" "map_of m n = Some tw"
  shows "tensors_ok (assign n (converted f t tw) m) \<and> map_of (assign n (converted f t tw) m) = convert_all f t [n] (map_of m)"
  using assms by (auto simp: tensors_ok_def convert_all_def fun_eq_iff)

lemma retype_present_eq:
  "tensors_ok (model_tensors_map s) \<Longrightarrow>
   \<exists>m. retype_present f t ns s = (Inr (), s\<lparr>model_tensors_map := m\<rparr>) \<and> tensors_ok m
     \<and> map_of m = convert_all f t ns (map_of (model_tensors_map s))"
proof (induction ns arbitrary: s)
  case Nil
  then show ?case by (auto intro: exI [of _ "model_tensors_map s"])
next
  case (Cons n ns)
  note step = convert_all_step [of "map_of (model_tensors_map s)" f t ns n, OF conjunct1 [OF tensors_okD [OF Cons.prems]]]
  show ?case
  proof (cases "map_of (model_tensors_map s) n")
    case None
    then have "convert_all f t [n] (map_of (model_tensors_map s)) = map_of (model_tensors_map s)"
      by (auto simp: convert_all_def fun_eq_iff)
    then show ?thesis using None Cons.IH [OF Cons.prems] step by simp
  next
    case (Some tw)
    then have "retype f t tw = Inr (converted f t tw)" using retype_eq tensors_okD [OF Cons.prems] by blast
    then show ?thesis
      using Some Cons.IH [of "s\<lparr>model_tensors_map := assign n (converted f t tw) (model_tensors_map s)\<rparr>"]
        convert_one [OF Cons.prems Some, of f t] step by simp
  qed
qed

text \<open>The inputs are converted one by one until one is missing.\<close>

definition present_prefix :: "QnnModelWrapper \<Rightarrow> string list \<Rightarrow> string list" where
  "present_prefix s ns = takeWhile (\<lambda>n. map_of (model_tensors_map s) n \<noteq> None) ns"

lemma apply_bf16_inputs_eq:
  "tensors_ok (model_tensors_map s) \<Longrightarrow>
   \<exists>m r. apply_bf16_inputs ns s = (r, s\<lparr>model_tensors_map := m\<rparr>) \<and> tensors_ok m
     \<and> map_of m = convert_all QNN_DATATYPE_FLOAT_32 QNN_DATATYPE_BFLOAT_16 (present_prefix s ns) (map_of (model_tensors_map s))
     \<and> (is_ok r \<longleftrightarrow> present_prefix s ns = ns)"
proof (induction ns arbitrary: s)
  case Nil
  then show ?case by (auto simp: present_prefix_def intro: exI [of _ "model_tensors_map s"])
next
  case (Cons n ns)
  let ?F = QNN_DATATYPE_FLOAT_32 and ?B = QNN_DATATYPE_BFLOAT_16
  show ?case
  proof (cases "map_of (model_tensors_map s) n")
    case None
    then show ?thesis using Cons.prems by (auto simp: present_prefix_def intro: exI [of _ "model_tensors_map s"])
  next
    case (Some tw)
    let ?s = "s\<lparr>model_tensors_map := assign n (converted ?F ?B tw) (model_tensors_map s)\<rparr>"
    have r: "retype ?F ?B tw = Inr (converted ?F ?B tw)" using retype_eq tensors_okD [OF Cons.prems Some] by blast
    have pp: "present_prefix ?s ns = present_prefix s ns"
      using Some by (auto simp: present_prefix_def intro!: takeWhile_cong)
    note step = convert_all_step [of "map_of (model_tensors_map s)" ?F ?B "present_prefix s ns" n,
        OF conjunct1 [OF tensors_okD [OF Cons.prems]]]
    from Cons.IH [of ?s] convert_one [OF Cons.prems Some, of ?F ?B] obtain m r' where
        "apply_bf16_inputs ns ?s = (r', ?s\<lparr>model_tensors_map := m\<rparr>)" "tensors_ok m"
        "map_of m = convert_all ?F ?B (present_prefix s ns) (convert_all ?F ?B [n] (map_of (model_tensors_map s)))"
        "is_ok r' \<longleftrightarrow> present_prefix s ns = ns"
      using pp by auto
    then show ?thesis using Some r step by (auto simp: present_prefix_def)
  qed
qed

lemma CreateQnnNode_validation:
  assumes "tensors_ok (model_tensors_map s)"
  shows "\<exists>m. snd (CreateQnnNode env node_name package type ins outs ps True s) = s\<lparr>model_tensors_map := m\<rparr> \<and> tensors_ok m
    \<and> map_of m =
       (if \<not> IsBF16ConversionEnabled env then map_of (model_tensors_map s)
        else if present_prefix s ins = ins then
          convert_all QNN_DATATYPE_BFLOAT_16 QNN_DATATYPE_FLOAT_32 outs
            (convert_all QNN_DATATYPE_BFLOAT_16 QNN_DATATYPE_FLOAT_32 ins
              (convert_all QNN_DATATYPE_FLOAT_32 QNN_DATATYPE_BFLOAT_16 outs
                (convert_all QNN_DATATYPE_FLOAT_32 QNN_DATATYPE_BFLOAT_16 ins (map_of (model_tensors_map s)))))
        else convert_all QNN_DATATYPE_FLOAT_32 QNN_DATATYPE_BFLOAT_16 (present_prefix s ins) (map_of (model_tensors_map s)))"
proof (cases "IsBF16ConversionEnabled env")
  case False
  then have "snd (CreateQnnNode env node_name package type ins outs ps True s) = s" by (simp add: CreateQnnNode_def validate_node_pure)
  then show ?thesis using False assms by (auto intro: exI [of _ "model_tensors_map s"])
next
  case True
  let ?F = QNN_DATATYPE_FLOAT_32 and ?B = QNN_DATATYPE_BFLOAT_16
  obtain m1 r1 where 1: "apply_bf16_inputs ins s = (r1, s\<lparr>model_tensors_map := m1\<rparr>)" "tensors_ok m1"
      "map_of m1 = convert_all ?F ?B (present_prefix s ins) (map_of (model_tensors_map s))" "is_ok r1 \<longleftrightarrow> present_prefix s ins = ins"
    using apply_bf16_inputs_eq [OF assms] by blast
  show ?thesis
  proof (cases r1)
    case (Inl e)
    then have "snd (CreateQnnNode env node_name package type ins outs ps True s) = s\<lparr>model_tensors_map := m1\<rparr>"
      using True 1 by (simp add: CreateQnnNode_def ApplyBF16ConversionForValidation_def)
    then show ?thesis using True 1 Inl by auto
  next
    case (Inr u)
    obtain m2 where 2: "retype_present ?F ?B outs (s\<lparr>model_tensors_map := m1\<rparr>) = (Inr (), s\<lparr>model_tensors_map := m2\<rparr>)" "tensors_ok m2"
        "map_of m2 = convert_all ?F ?B outs (map_of m1)"
      using retype_present_eq [of "s\<lparr>model_tensors_map := m1\<rparr>" ?F ?B outs] 1 by auto
    obtain m3 where 3: "retype_present ?B ?F ins (s\<lparr>model_tensors_map := m2\<rparr>) = (Inr (), s\<lparr>model_tensors_map := m3\<rparr>)" "tensors_ok m3"
        "map_of m3 = convert_all ?B ?F ins (map_of m2)"
      using retype_present_eq [of "s\<lparr>model_tensors_map := m2\<rparr>" ?B ?F ins] 2 by auto
    obtain m4 where 4: "retype_present ?B ?F outs (s\<lparr>model_tensors_map := m3\<rparr>) = (Inr (), s\<lparr>model_tensors_map := m4\<rparr>)" "tensors_ok m4"
        "map_of m4 = convert_all ?B ?F outs (map_of m3)"
      using retype_present_eq [of "s\<lparr>model_tensors_map := m3\<rparr>" ?B ?F outs] 3 by auto
    obtain r where v: "validate_node env node_name package type ins outs ps (s\<lparr>model_tensors_map := m2\<rparr>) = (r, s\<lparr>model_tensors_map := m2\<rparr>)"
      using validate_node_pure by (metis prod.collapse)
    have "snd (CreateQnnNode env node_name package type ins outs ps True s) = s\<lparr>model_tensors_map := m4\<rparr>"
      using True 1 2 3 4 Inr v
      by (simp add: CreateQnnNode_def ApplyBF16ConversionForValidation_def RestoreFP32AfterValidation_def)
    moreover have "present_prefix s ins = ins" using 1 Inr by simp
    ultimately show ?thesis using True 1 2 3 4 by (metis (no_types, lifting))
  qed
qed

section \<open>Building a model\<close>

text \<open>
  The states the builders of the operators reach: from a fresh wrapper, by adding tensors and parameters and by creating nodes.
  A tensor that a builder adds was made by one of the constructors and has no name override yet.
\<close>

definition plain :: "(string \<times> QnnTensorWrapper) list \<Rightarrow> bool" where
  "plain m \<longleftrightarrow> (\<forall>n tw. map_of m n = Some tw \<longrightarrow> GetResolvedTensorName tw = n)"

inductive built :: "model_env \<Rightarrow> QnnModelWrapper \<Rightarrow> bool" for env where
  fresh_model: "model_tensors_map s = [] \<Longrightarrow> model_params_map s = [] \<Longrightarrow> qnn_op_property_list s = [] \<Longrightarrow> qnn_node_names s = []
     \<Longrightarrow> qnn_tensor_id_map s = [] \<Longrightarrow> qnn_events s = [] \<Longrightarrow> built env s"
| add_tensor: "built env s \<Longrightarrow> wf_tensor tw \<Longrightarrow> tensor_name_override tw = [] \<Longrightarrow> built env (snd (AddTensorWrapper env tw s))"
| add_param: "built env s \<Longrightarrow> wf_param pw \<Longrightarrow> built env (snd (AddParamWrapper pw s))"
| create_node: "built env s \<Longrightarrow> built env (snd (CreateQnnNode env n pkg ty ins outs ps validate s))"
| set_override: "built env s \<Longrightarrow> built env (SetTensorNameOverride internal original s)"
| set_heap: "built env s \<Longrightarrow> built env (s\<lparr>mw_heap := h\<rparr>)"
| set_counter: "built env s \<Longrightarrow> built env (s\<lparr>name_counter := c\<rparr>)"
| set_scopes: "built env s \<Longrightarrow> built env (s\<lparr>branch_graph_scope_stack := sc\<rparr>)"

lemma names_ok_op:
  assumes "model_ok s"
  shows "model_ok (snd (CreateQnnNode env n pkg ty ins outs ps False s))"
proof -
  obtain u where u: "MakeUniqueQnnNodeName n s = (Inr u, s\<lparr>qnn_node_names := u # qnn_node_names s\<rparr>)" "u \<notin> set (qnn_node_names s)"
    by (rule MakeUniqueQnnNodeName_spec)
  then show ?thesis using assms by (auto simp: CreateQnnNode_def model_ok_def names_ok_def graph_of_def)
qed

lemma CreateQnnNode_frame:
  "snd (CreateQnnNode env n pkg ty ins outs ps False s) =
     s\<lparr>qnn_node_names := qnn_node_names (snd (CreateQnnNode env n pkg ty ins outs ps False s)),
       qnn_op_property_list := qnn_op_property_list (snd (CreateQnnNode env n pkg ty ins outs ps False s)),
       traced_ops := traced_ops (snd (CreateQnnNode env n pkg ty ins outs ps False s))\<rparr>"
proof -
  obtain u where "MakeUniqueQnnNodeName n s = (Inr u, s\<lparr>qnn_node_names := u # qnn_node_names s\<rparr>)"
    by (rule MakeUniqueQnnNodeName_spec)
  then show ?thesis by (simp add: CreateQnnNode_def)
qed

lemma AddTensorWrapper_plain:
  assumes "plain (model_tensors_map s)" "wf_tensor tw" "tensor_name_override tw = []"
  shows "plain (model_tensors_map (snd (AddTensorWrapper env tw s)))"
proof (cases "tensor_name tw = [] \<or> IsQnnTensorWrapperExist s (tensor_name tw)")
  case False
  obtain tw1 where 1: "SetTensorMemTypeFromSettings env (tensor_name tw) tw = Inr tw1" "supported (qnn_tensor tw1)"
      "tensor_name tw1 = tensor_name tw" "GetResolvedTensorName tw1 = tensor_name tw"
    using wf_tensor_supported [OF assms(2)] assms(3)
    by (simp add: SetTensorMemTypeFromSettings_def tensor_defs GetResolvedTensorName_def)
  obtain tw2 where 2: "move_construct tw1 = Inr tw2" "GetResolvedTensorName tw2 = GetResolvedTensorName tw1"
    using move_construct_eq [OF 1(2)] by blast
  have "AddTensorWrapper env tw s = (Inr (), s\<lparr>model_tensors_map := emplace (tensor_name tw) tw2 (model_tensors_map s)\<rparr>)"
    using False 1 2 by (simp add: AddTensorWrapper_def)
  then show ?thesis using assms 1 2 by (auto simp: plain_def split: if_splits)
qed (use assms in \<open>auto simp: AddTensorWrapper_def Let_def\<close>)

definition resolved_as_keys :: "(string \<Rightarrow> QnnTensorWrapper option) \<Rightarrow> bool" where
  "resolved_as_keys m \<longleftrightarrow> (\<forall>n tw. m n = Some tw \<longrightarrow> GetResolvedTensorName tw = n)"

lemma resolved_convert_all [simp]: "resolved_as_keys m \<Longrightarrow> resolved_as_keys (convert_all f t ns m)"
  by (auto simp: resolved_as_keys_def convert_all_def)

lemma CreateQnnNode_plain:
  assumes "tensors_ok (model_tensors_map s)" "plain (model_tensors_map s)"
  shows "plain (model_tensors_map (snd (CreateQnnNode env n pkg ty ins outs ps validate s)))"
proof -
  have p: "plain m \<longleftrightarrow> resolved_as_keys (map_of m)" for m by (simp add: plain_def resolved_as_keys_def)
  show ?thesis
  proof (cases validate)
    case True
    obtain m where "snd (CreateQnnNode env n pkg ty ins outs ps True s) = s\<lparr>model_tensors_map := m\<rparr>" "resolved_as_keys (map_of m)"
      using CreateQnnNode_validation [OF assms(1), of env n pkg ty ins outs ps] assms(2) unfolding p by fastforce
    then show ?thesis using True unfolding p by simp
  next
    case False
    have "model_tensors_map (snd (CreateQnnNode env n pkg ty ins outs ps False s)) = model_tensors_map s"
      by (subst CreateQnnNode_frame) simp
    then show ?thesis using False assms by simp
  qed
qed

lemma CreateQnnNode_ok:
  assumes "model_ok s"
  shows "model_ok (snd (CreateQnnNode env n pkg ty ins outs ps validate s))
       \<and> graph_of (snd (CreateQnnNode env n pkg ty ins outs ps validate s)) = graph_of s"
proof (cases validate)
  case True
  obtain m where m: "snd (CreateQnnNode env n pkg ty ins outs ps True s) = s\<lparr>model_tensors_map := m\<rparr>" "tensors_ok m"
    using CreateQnnNode_validation assms unfolding model_ok_def by blast
  then show ?thesis using True assms by (simp add: model_ok_def names_ok_def graph_of_def)
next
  case False
  have "graph_of (snd (CreateQnnNode env n pkg ty ins outs ps False s)) = graph_of s"
    by (subst CreateQnnNode_frame) (simp add: graph_of_def)
  then show ?thesis using False names_ok_op [OF assms] by simp
qed

lemma built_ok: "built env s \<Longrightarrow> model_ok s \<and> plain (model_tensors_map s) \<and> graph_of s = ([], [])"
proof (induction rule: built.induct)
  case (fresh_model s)
  then show ?case
    by (simp add: model_ok_def tensors_ok_def params_ok_def plain_def graph_of_def graph_ok_def names_ok_def wf_map_def)
next
  case (add_tensor s tw)
  obtain m where "snd (AddTensorWrapper env tw s) = s\<lparr>model_tensors_map := m\<rparr>" using AddTensorWrapper_frame by blast
  then have "graph_of (snd (AddTensorWrapper env tw s)) = graph_of s" by (simp add: graph_of_def)
  then show ?case
    using add_tensor AddTensorWrapper_ok [of s tw env] AddTensorWrapper_plain [of s tw env] by (simp add: yields_def)
next
  case (add_param s pw)
  obtain m where m: "snd (AddParamWrapper pw s) = s\<lparr>model_params_map := m\<rparr>"
    using AddParamWrapper_frame by blast
  then show ?case using add_param AddParamWrapper_ok [of s pw] by (simp add: yields_def graph_of_def)
next
  case (create_node s n pkg ty ins outs ps validate)
  have "tensors_ok (model_tensors_map s)" using create_node by (simp add: model_ok_def)
  then show ?case using create_node CreateQnnNode_ok CreateQnnNode_plain by metis
next
  case (set_override s internal original)
  then show ?case by (auto simp: SetTensorNameOverride_def graph_of_def split: option.splits)
qed (simp_all add: graph_of_def)

text \<open>The composite operations of the wrapper stay within the states described by \<open>built\<close>.\<close>

lemma built_then:
  assumes "built env (snd m)" "\<And>x s. built env s \<Longrightarrow> m = (Inr x, s) \<Longrightarrow> built env (snd (f x s))"
  shows "built env (snd (then_s m f))"
proof -
  obtain r s where m: "m = (r, s)" by (cases m)
  show ?thesis using assms by (cases r) (auto simp: m)
qed

lemma built_new_name [simp]: "built env s \<Longrightarrow> built env (snd (new_name base suffix s))"
  by (simp add: new_name_def Let_def built.set_counter split: prod.split)

lemma built_add_new_tensor [simp]:
  assumes "built env s"
  shows "built env (snd (add_new_tensor env name ty dt qp shape buf s))"
proof -
  obtain r h where 1: "QnnTensorWrapper_new (double_to_float env) name ty dt qp shape buf QNN_TENSORMEMTYPE_RAW (mw_heap s) = (r, h)"
    by (cases "QnnTensorWrapper_new (double_to_float env) name ty dt qp shape buf QNN_TENSORMEMTYPE_RAW (mw_heap s)") blast
  obtain tw where tw: "r = Inr tw" "tensor_name_override tw = []" by (rule QnnTensorWrapper_new_ok [OF 1])
  have wf: "wf_tensor tw" using wf_tensor_new 1 tw(1) by blast
  show ?thesis
    using built.add_tensor [OF built.set_heap [OF assms, of h] wf tw(2)] by (simp add: add_new_tensor_def new_tensor_def 1 tw(1))
qed

lemma built_add_copied_tensor [simp]: "built env s \<Longrightarrow> built env (snd (add_copied_tensor env name ty dt qp shape s))"
  by (simp add: add_copied_tensor_def copied_def built.set_heap split: prod.split)

lemma built_named_node: "built env s \<Longrightarrow>
    built env (snd (let (n, s) = new_name base suffix s in CreateQnnNode env n pkg ty ins outs ps validate s))"
  using built_new_name [of env s base suffix] by (cases "new_name base suffix s") (simp add: built.create_node)

lemma built_if: "built env (snd a) \<Longrightarrow> built env (snd b) \<Longrightarrow> built env (snd (if c then a else b))"
  by simp

lemmas built_rules = built_if built_then built_named_node built.create_node built_add_new_tensor built_add_copied_tensor

lemma built_AddCastNode: "built env s \<Longrightarrow> built env (snd (AddCastNode env n i out ty dt qp shape validate s))"
  unfolding AddCastNode_def by (intro built_rules) simp_all

lemma built_AddDequantizeNode: "built env s \<Longrightarrow> built env (snd (AddDequantizeNode env i out dt shape validate s))"
  unfolding AddDequantizeNode_def by (intro built_rules) simp_all

lemma built_AddQuantizeNode: "built env s \<Longrightarrow> built env (snd (AddQuantizeNode env i out ty dt qp shape validate s))"
  unfolding AddQuantizeNode_def by (intro built_rules) simp_all

lemma built_AddReshapeNode: "built env s \<Longrightarrow> built env (snd (AddReshapeNode env i out is os dt qp validate fi fo s))"
  unfolding AddReshapeNode_def AddReshapeNode2_def by (intro built_rules) simp_all

lemma param_tensor_ok: "\<exists>t b. param_tensor n dt sh d = Inr t \<and> body_of t = Some b \<and> t_name b = Some n"
  using body_of_INIT by (auto simp: param_tensor_def tensor_defs)

lemma wf_param_u32: "QnnParamWrapper_u32 i nn n sh d sg = Inr pw \<Longrightarrow> wf_param pw"
  using param_tensor_ok [of "param_tensor_name i nn n" "if sg then QNN_DATATYPE_INT_32 else QNN_DATATYPE_UINT_32" sh
      "concat (map (to_bytes 4) d)"]
  by (auto simp: QnnParamWrapper_u32_def QnnParamWrapper_bytes_def wf_param_def)

lemma built_AddTransposeNode:
  assumes "built env s"
  shows "built env (snd (AddTransposeNode env i inp out is perm os dt qp validate fi fo s))"
  unfolding AddTransposeNode_def using assms
  by (intro built_rules built_AddReshapeNode built.add_param) (auto dest: wf_param_u32)

section \<open>Composing a graph\<close>

lemma place_one:
  assumes "model_ok s" "map_of (model_tensors_map s) n = Some tw"
    and "place_tensor qnn ov n tw (graph_of s) = (r, tw', (ids, ev))"
  shows "model_ok (s\<lparr>model_tensors_map := assign n tw' (model_tensors_map s), qnn_tensor_id_map := ids, qnn_events := ev\<rparr>)
       \<and> tensor_step s (s\<lparr>model_tensors_map := assign n tw' (model_tensors_map s), qnn_tensor_id_map := ids, qnn_events := ev\<rparr>)"
proof -
  have ok: "graph_ok (ids, ev) \<and> extends (graph_of s) (ids, ev) \<and> wf_tensor tw' \<and> tensor_name tw' = n"
    using gt.place_ok [OF _ _ assms(3)] assms(1,2) by (auto simp: model_ok_def tensors_ok_def)
  then have "tensors_ok (assign n tw' (model_tensors_map s))" using assms(1) by (auto simp: model_ok_def tensors_ok_def)
  then show ?thesis
    using ok assms(1) extends_nodes_ok [of "graph_of s" "(ids, ev)"]
    by (simp add: model_ok_def graph_of_def names_ok_def tensor_step_def)
qed

lemma register_io_ok:
  "model_ok s \<Longrightarrow> model_ok (snd (register_io env ty ns s)) \<and> tensor_step s (snd (register_io env ty ns s))"
proof (induction ns arbitrary: s)
  case (Cons n ns)
  show ?case
  proof (cases "map_of (model_tensors_map s) n")
    case (Some tw)
    obtain r tw' ids ev where 1: "place_tensor (qnn_interface_of env) (override_of env s) n tw (graph_of s) = (r, tw', (ids, ev))"
      by (cases "place_tensor (qnn_interface_of env) (override_of env s) n tw (graph_of s)") auto
    let ?s = "s\<lparr>model_tensors_map := assign n tw' (model_tensors_map s), qnn_tensor_id_map := ids, qnn_events := ev\<rparr>"
    have ok: "model_ok ?s \<and> tensor_step s ?s" by (rule place_one [OF Cons.prems Some 1])
    have rest: "model_ok (snd (register_io env ty ns ?s)) \<and> tensor_step s (snd (register_io env ty ns ?s))"
      using Cons.IH [of ?s] ok tensor_step_trans by blast
    show ?thesis
    proof (cases "GetTensorType_tw tw")
      case (Inr ty')
      then show ?thesis
        using 1 ok rest Cons.IH [OF Cons.prems] Some by (cases r) (simp_all add: graph_of_def)
    qed (use Some Cons.prems in simp)
  qed (use Cons in simp)
qed simp

lemma RegisterGraphInputOutputInOrder_ok:
  assumes "model_ok s"
  shows "model_ok (snd (RegisterGraphInputOutputInOrder env s)) \<and> tensor_step s (snd (RegisterGraphInputOutputInOrder env s))"
proof -
  obtain r s1 where 1: "register_io env QNN_TENSOR_TYPE_APP_WRITE (io_names (graph_inputs env)) s = (r, s1)"
    by (cases "register_io env QNN_TENSOR_TYPE_APP_WRITE (io_names (graph_inputs env)) s") blast
  have s1: "model_ok s1 \<and> tensor_step s s1" using register_io_ok [OF assms, of env] 1 by (metis snd_conv)
  have "model_ok (snd (register_io env QNN_TENSOR_TYPE_APP_READ (io_names (graph_outputs env)) s1))
      \<and> tensor_step s (snd (register_io env QNN_TENSOR_TYPE_APP_READ (io_names (graph_outputs env)) s1))"
    using register_io_ok s1 tensor_step_trans by blast
  then show ?thesis using s1 by (cases r) (simp_all add: RegisterGraphInputOutputInOrder_def 1)
qed

text \<open>The ops that are added to the graph: the ops of the builders, or what the conversion makes of them.\<close>

definition planned_ops :: "model_env \<Rightarrow> QnnModelWrapper \<Rightarrow> QnnOpProperty list result \<times> QnnModelWrapper" where
  "planned_ops env s = (if IsBF16ConversionEnabled env then ProcessBF16Conversions env s else (Inr (qnn_op_property_list s), s))"

lemma planned_ops_ok:
  assumes "model_ok s"
  shows "yields (inv_at (qnn_events s)) (planned_ops env s)
           (\<lambda>ops s'. reserved ops s' \<and> set (op_names (qnn_op_property_list s)) \<subseteq> set (op_names ops))"
proof -
  have i: "inv_at (qnn_events s) s" using assms by (simp add: inv_at_def)
  have "reserved (qnn_op_property_list s) s" using assms by (simp add: model_ok_def names_ok_def reserved_def)
  then show ?thesis using i ProcessBF16Conversions_inv [OF i] by (simp add: planned_ops_def)
qed

lemma distinct_take_op_names: "reserved ops s \<Longrightarrow> distinct (take k (op_names ops))"
  by (simp add: reserved_def distinct_take)

lemma node_names_start: "qnn_events s = [] \<Longrightarrow> tensor_step s s1 \<Longrightarrow> node_names (qnn_events s1) = []"
  using tensor_step_node_names by fastforce

lemma ComposeQnnGraph_ok:
  assumes "model_ok s" "qnn_events s = []" "ComposeQnnGraph env s = (r, s')"
  shows "model_ok s' \<and> distinct (node_names (qnn_events s'))
       \<and> (is_ok r \<longrightarrow> set (op_names (qnn_op_property_list s)) \<subseteq> set (node_names (qnn_events s'))
            \<and> (\<not> IsBF16ConversionEnabled env \<longrightarrow> node_names (qnn_events s') = op_names (qnn_op_property_list s)))"
proof (cases "qnn_op_property_list s = []")
  case True
  then show ?thesis using assms by (auto simp: ComposeQnnGraph_def)
next
  case False
  obtain r1 s1 where 1: "RegisterGraphInputOutputInOrder env s = (r1, s1)" by (cases "RegisterGraphInputOutputInOrder env s") blast
  have ok1: "model_ok s1 \<and> tensor_step s s1" using RegisterGraphInputOutputInOrder_ok [OF assms(1), of env] 1 by simp
  then have nn1: "node_names (qnn_events s1) = []" using node_names_start [OF assms(2)] by blast
  obtain r2 s2 where 2: "planned_ops env s1 = (r2, s2)" by (cases "planned_ops env s1") blast
  have same: "qnn_op_property_list s1 = qnn_op_property_list s" using ok1 by (simp add: tensor_step_def)
  have ok2: "inv_at (qnn_events s1) s2" "\<And>ops. r2 = Inr ops \<Longrightarrow> reserved ops s2"
      "\<And>ops. r2 = Inr ops \<Longrightarrow> set (op_names (qnn_op_property_list s)) \<subseteq> set (op_names ops)"
    using yieldsD [OF planned_ops_ok 2] ok1 unfolding same by blast+
  have c: "ComposeQnnGraph env s = then_s (r1, s1) (\<lambda>_ s. then_s (planned_ops env s) (\<lambda>ops s. add_ops env ops s))"
    using False 1 by (simp add: ComposeQnnGraph_def planned_ops_def)
  show ?thesis
  proof (cases r1)
    case Inr1: (Inr u)
    show ?thesis
    proof (cases r2)
      case (Inr ops)
      then have a: "add_ops env ops s2 = (r, s')" using c Inr1 2 assms(3) by simp
      have "model_ok s2" using ok2(1) by (simp add: inv_at_def)
      from add_ops_ok [OF this a] obtain k where k: "model_ok s'" "node_names (qnn_events s') = take k (op_names ops)"
          "is_ok r \<longrightarrow> k = length ops"
        using nn1 ok2(1) by (auto simp: inv_at_def)
      have "node_names (qnn_events s') = op_names ops" if "is_ok r" using k that by (simp add: op_names_def)
      moreover have "ops = qnn_op_property_list s" if "\<not> IsBF16ConversionEnabled env"
        using 2 Inr that same by (simp add: planned_ops_def)
      ultimately show ?thesis using k distinct_take_op_names [OF ok2(2) [OF Inr], of k] ok2(3) [OF Inr] by simp
    qed (use c Inr1 2 assms(3) ok2 nn1 in \<open>auto simp: inv_at_def\<close>)
  qed (use c assms(3) ok1 nn1 in auto)
qed

section \<open>The order of the graph inputs and outputs\<close>

definition history :: "QnnModelWrapper \<Rightarrow> QnnModelWrapper \<Rightarrow> bool" where
  "history s s' \<longleftrightarrow> (\<exists>new. qnn_events s' = qnn_events s @ new)"

lemma history_trans: "history s s' \<Longrightarrow> history s' s'' \<Longrightarrow> history s s''"
  by (auto simp: history_def)

lemma tensor_step_history: "tensor_step s s' \<Longrightarrow> history s s'"
  by (auto simp: tensor_step_def extends_def graph_of_def history_def)

definition ok_after :: "QnnModelWrapper \<Rightarrow> QnnModelWrapper \<Rightarrow> bool" where
  "ok_after s0 s \<longleftrightarrow> model_ok s \<and> history s0 s"

lemma ok_after_step: "ok_after s0 s \<Longrightarrow> model_ok s' \<Longrightarrow> tensor_step s s' \<Longrightarrow> ok_after s0 s'"
  using history_trans tensor_step_history by (simp add: ok_after_def) blast

lemma yields_ok_after: "ok_after s0 (snd m) \<Longrightarrow> yields (history s0) m (\<lambda>_. ok_after s0)"
  by (simp add: yields_def ok_after_def)

lemma tensors_ok_after:
  assumes "ok_after s0 s"
  shows "yields (history s0) (CreateQnnInputOutputTensors env ns False s) (\<lambda>_. ok_after s0)"
    and "yields (history s0) (CreateQnnParamTensors env ns False s) (\<lambda>_. ok_after s0)"
proof -
  have m: "model_ok s" using assms by (simp add: ok_after_def)
  show "yields (history s0) (CreateQnnInputOutputTensors env ns False s) (\<lambda>_. ok_after s0)"
    using CreateQnnInputOutputTensors_ok [OF m, of env ns] by (intro yields_ok_after ok_after_step [OF assms]) (simp_all add: yields_def)
  show "yields (history s0) (CreateQnnParamTensors env ns False s) (\<lambda>_. ok_after s0)"
    using CreateQnnParamTensors_ok [OF m, of env ns] by (intro yields_ok_after ok_after_step [OF assms]) (simp_all add: yields_def)
qed

lemma new_config: "ok_after s0 s \<Longrightarrow> yields (history s0) (QnnOpConfigWrapper_new name package type its ots ps, s) (\<lambda>_. ok_after s0)"
  by (simp add: yields_def ok_after_def)

lemma add_op_history:
  assumes "model_ok s"
  shows "history s (snd (add_op env op s))"
proof -
  have "ok_after s s" using assms by (simp add: ok_after_def history_def)
  then have "yields (history s) (add_op env op s) (\<lambda>_ _. True)"
    unfolding add_op_def
    by (intro yields_then [OF tensors_ok_after(1)] yields_then [OF tensors_ok_after(2)] yields_then [OF new_config])
      (auto simp: ok_after_def CreateQnnGraphOp_def history_def split: prod.splits)
  then show ?thesis by (simp add: yields_def)
qed

lemma add_ops_history:
  "model_ok s \<Longrightarrow> history s (snd (add_ops env ops s))"
proof (induction ops arbitrary: s)
  case (Cons op ops)
  obtain r s1 where 1: "add_op env op s = (r, s1)" by (cases "add_op env op s") blast
  have "model_ok s1" "history s s1" using add_op_ok [OF Cons.prems, of env op] add_op_history [OF Cons.prems, of env op] 1 by simp_all
  then show ?case using Cons.IH [of s1] history_trans by (cases r) (auto simp: 1)
qed (simp add: history_def)

lemma place_fresh:
  assumes "wf_tensor tw" "GetResolvedTensorName tw = n" "map_of ids n = None"
    and "place_tensor qnn (\<lambda>_. None) n tw (ids, ev) = (Inr u, tw', (ids', ev'))"
  obtains i t where "tw' = tw\<lparr>qnn_tensor := map_body (\<lambda>b. b\<lparr>t_id := i\<rparr>) (qnn_tensor tw)\<rparr>" "ids' = (n, i) # ids"
    "ev' = ev @ [Tensor_Created t]" "label_of t = (Some n, i)"
proof -
  obtain r g where 1: "CreateTensorInQnnGraph qnn n (qnn_tensor tw) (ids, ev) = (r, g)"
    by (cases "CreateTensorInQnnGraph qnn n (qnn_tensor tw) (ids, ev)") blast
  have sup: "supported (qnn_tensor tw)" using wf_tensor_supported assms(1) by blast
  obtain b where b: "body_of (qnn_tensor tw) = Some b" "t_name b = Some n"
    using assms(1,2) by (auto simp: wf_tensor_def split: option.splits)
  from CreateTensorInQnnGraph_cases [OF 1 sup] assms(3) consider
      (fail) e where "r = Inl e"
    | (new) i where "r = Inr (map_body (\<lambda>b. b\<lparr>t_id := i\<rparr>) (qnn_tensor tw))"
        "g = ((n, i) # ids, ev @ [Tensor_Created (map_body (\<lambda>b. b\<lparr>t_id := i\<rparr>) (qnn_tensor tw))])"
    by auto
  then show thesis
  proof cases
    case fail
    then show thesis using assms(2,4) 1 by (auto simp: place_tensor_def CreateQnnGraphTensor_def)
  next
    case new
    have "label_of (map_body (\<lambda>b. b\<lparr>t_id := i\<rparr>) (qnn_tensor tw)) = (Some n, i)" using b by (simp add: label_of_def)
    moreover have "tw' = tw\<lparr>qnn_tensor := map_body (\<lambda>b. b\<lparr>t_id := i\<rparr>) (qnn_tensor tw)\<rparr>" "(ids', ev') = g"
      using new assms(2,4) 1 by (simp_all add: place_tensor_def CreateQnnGraphTensor_def)
    ultimately show thesis using that new(2) by blast
  qed
qed

definition has_type :: "QnnModelWrapper \<Rightarrow> Qnn_TensorType_t \<Rightarrow> string \<Rightarrow> bool" where
  "has_type s ty n \<longleftrightarrow> (case map_of (model_tensors_map s) n of None \<Rightarrow> False | Some tw \<Rightarrow> GetTensorType_tw tw = Inr ty)"

lemma has_type_id:
  assumes "map_of (model_tensors_map s) n = Some tw" "model_tensors_map s' = assign n (tw\<lparr>qnn_tensor := map_body (\<lambda>b. b\<lparr>t_id := i\<rparr>) (qnn_tensor tw)\<rparr>) (model_tensors_map s)"
  shows "has_type s' = has_type s"
  using assms by (auto simp: has_type_def fun_eq_iff GetTensorType_tw_def tensor_defs split: option.splits)

lemma register_io_order:
  assumes "\<not> offload_graph_io_quantization (model_settings env)"
  shows "model_ok s \<Longrightarrow> plain (model_tensors_map s) \<Longrightarrow> distinct ns \<Longrightarrow>
    \<forall>n \<in> set ns. has_type s ty n \<longrightarrow> map_of (qnn_tensor_id_map s) n = None \<Longrightarrow> register_io env ty ns s = (Inr (), s') \<Longrightarrow>
    map fst (created (qnn_events s')) = map fst (created (qnn_events s)) @ map Some (filter (has_type s ty) ns)
    \<and> plain (model_tensors_map s') \<and> has_type s' = has_type s
    \<and> fst ` set (qnn_tensor_id_map s') = fst ` set (qnn_tensor_id_map s) \<union> set (filter (has_type s ty) ns)"
proof (induction ns arbitrary: s)
  case (Cons n ns)
  have ov: "override_of env s = (\<lambda>_. None)" using assms by (simp add: override_of_def fun_eq_iff)
  show ?case
  proof (cases "has_type s ty n")
    case False
    have "register_io env ty ns s = (Inr (), s')"
    proof (cases "map_of (model_tensors_map s) n")
      case (Some tw)
      then obtain ty' where "GetTensorType_tw tw = Inr ty'" using Cons.prems(5) by (cases "GetTensorType_tw tw") simp_all
      then show ?thesis using Cons.prems(5) Some False by (auto simp: has_type_def)
    qed (use Cons.prems(5) in simp)
    then show ?thesis using Cons.IH [OF Cons.prems(1,2)] Cons.prems(3,4) False by simp
  next
    case True
    then obtain tw where tw: "map_of (model_tensors_map s) n = Some tw" "GetTensorType_tw tw = Inr ty"
      by (auto simp: has_type_def split: option.splits)
    have free: "map_of (qnn_tensor_id_map s) n = None" using Cons.prems(4) True by simp
    obtain r tw' ids ev where 1: "place_tensor (qnn_interface_of env) (\<lambda>_. None) n tw (qnn_tensor_id_map s, qnn_events s) = (r, tw', (ids, ev))"
      by (cases "place_tensor (qnn_interface_of env) (\<lambda>_. None) n tw (qnn_tensor_id_map s, qnn_events s)") auto
    let ?s = "s\<lparr>model_tensors_map := assign n tw' (model_tensors_map s), qnn_tensor_id_map := ids, qnn_events := ev\<rparr>"
    have reg: "register_io env ty (n # ns) s = then_s (r, ?s) (\<lambda>_ s. register_io env ty ns s)"
      using tw free 1 ov by simp
    then obtain u where r: "r = Inr u" using Cons.prems(5) by (cases r) auto
    have rest: "register_io env ty ns ?s = (Inr (), s')" using reg r Cons.prems(5) by simp
    have wf: "wf_tensor tw" "GetResolvedTensorName tw = n"
      using Cons.prems(1,2) tw(1) by (auto simp: model_ok_def tensors_ok_def plain_def)
    obtain i t where new: "tw' = tw\<lparr>qnn_tensor := map_body (\<lambda>b. b\<lparr>t_id := i\<rparr>) (qnn_tensor tw)\<rparr>" "ids = (n, i) # qnn_tensor_id_map s"
        "ev = qnn_events s @ [Tensor_Created t]" "label_of t = (Some n, i)"
      by (rule place_fresh [OF wf free 1 [unfolded r]])
    have ht: "has_type ?s = has_type s" using has_type_id [OF tw(1)] new(1) by simp
    have ok: "model_ok ?s" using place_one [OF Cons.prems(1) tw(1)] 1 by (auto simp: graph_of_def)
    have pl: "plain (model_tensors_map ?s)" using Cons.prems(2) wf(2) new(1) by (auto simp: plain_def)
    have "\<forall>k \<in> set ns. has_type ?s ty k \<longrightarrow> map_of (qnn_tensor_id_map ?s) k = None"
      using Cons.prems(3,4) new(2) unfolding ht by auto
    from Cons.IH [OF ok pl _ this rest] Cons.prems(3) show ?thesis
      using True new ht by (simp add: insert_commute)
  qed
qed simp

end
