(* ===== verification/Graph_Correctness.thy ===== *)
theory Graph_Correctness
  imports Graph_Building
begin

text \<open>
  The properties of the graph builder: unique node names, consistency of the composed graph, the order of the graph inputs and
  outputs, and what validation in bfloat16 leaves behind.  Each proof applies the lemmas of \<open>Graph_Building\<close>.
\<close>

section \<open>A sample model\<close>

text \<open>The witnesses run the builder against a library that accepts everything and numbers the tensors.\<close>

definition sample_env :: "bool \<Rightarrow> model_env" where
  "sample_env bf16 =
     \<lparr>ort_graph_of = Inr [], graph_inputs = \<lparr>io_names = [''x''], io_indices = [(''x'', 0)]\<rparr>,
      graph_outputs = \<lparr>io_names = [''y''], io_indices = [(''y'', 0)]\<rparr>,
      model_settings = \<lparr>offload_graph_io_quantization = False, htp_shared_memory = False, htp_bf16_enable = bf16,
                        enable_block_quant_weight_optimization = False\<rparr>,
      qnn_backend_type = HTP,
      qnn_interface_of = \<lparr>tensorCreateGraphTensor = \<lambda>ev t. Inr (length ev + 1), graphAddNode = \<lambda>_ _. 0,
                          backendValidateOpConfig = \<lambda>_. 0\<rparr>,
      qnn_validator = None, double_to_float = ucast\<rparr>"

definition empty_model :: QnnModelWrapper where
  "empty_model =
     \<lparr>graph_handle = None, graph_name = [], graph_context = None, model_tensors_map = [], model_params_map = [],
      qnn_op_property_list = [], qnn_node_names = [], qnn_tensor_id_map = [], tensor_name_overrides = None,
      branch_graph_scope_stack = [], qnn_events = [], name_counter = [], traced_ops = None, mw_heap = empty_heap\<rparr>"

definition with_tensor :: "model_env \<Rightarrow> string \<Rightarrow> Qnn_TensorType_t \<Rightarrow> QnnModelWrapper \<Rightarrow> QnnModelWrapper" where
  "with_tensor env n ty s = snd (add_new_tensor env n ty QNN_DATATYPE_FLOAT_32 QnnQuantParamsWrapper_new [2] [] s)"

definition with_node :: "model_env \<Rightarrow> string \<Rightarrow> string \<Rightarrow> string \<Rightarrow> QnnModelWrapper \<Rightarrow> QnnModelWrapper" where
  "with_node env n x y s = snd (CreateQnnNode env n QTI_AISW ''Relu'' [x] [y] [] False s)"

text \<open>Two nodes that ask for the same name, from the graph input through one intermediate tensor to the graph output.\<close>

definition sample_model :: "bool \<Rightarrow> QnnModelWrapper" where
  "sample_model bf16 =
     (let env = sample_env bf16
      in with_node env ''relu'' ''t'' ''y'' (with_node env ''relu'' ''x'' ''t''
           (with_tensor env ''t'' QNN_TENSOR_TYPE_NATIVE
             (with_tensor env ''y'' QNN_TENSOR_TYPE_APP_READ (with_tensor env ''x'' QNN_TENSOR_TYPE_APP_WRITE empty_model)))))"

lemma built_empty: "built env empty_model"
  by (rule built.fresh_model) (simp_all add: empty_model_def)

lemma built_with_tensor: "built env s \<Longrightarrow> built env (with_tensor env n ty s)"
  unfolding with_tensor_def by (rule built_add_new_tensor)

lemma built_with_node: "built env s \<Longrightarrow> built env (with_node env n x y s)"
  unfolding with_node_def by (rule built.create_node)

lemma built_sample: "built (sample_env bf16) (sample_model bf16)"
  unfolding sample_model_def Let_def by (intro built_with_node built_with_tensor built_empty)

text \<open>What the builder makes of the sample tensors.\<close>

definition raw_tensor :: "nat \<Rightarrow> string \<Rightarrow> Qnn_TensorType_t \<Rightarrow> Qnn_DataType_t \<Rightarrow> Qnn_Tensor_t" where
  "raw_tensor i n ty dt =
     Tensor_V1 \<lparr>t_id = i, t_name = Some n, t_type = ty, t_dataFormat = 0, t_dataType = dt,
       t_quantizeParams = QNN_QUANTIZE_PARAMS_INIT, t_rank = 1, t_dimensions = Some [2], t_memType = QNN_TENSORMEMTYPE_RAW,
       t_storage = Client_Buf \<lparr>buf_data = Vector_Data [], dataSize = 0\<rparr>\<rparr>"

definition tensor_at :: "nat \<Rightarrow> string \<Rightarrow> Qnn_TensorType_t \<Rightarrow> Qnn_DataType_t \<Rightarrow> QnnTensorWrapper" where
  "tensor_at i n ty dt =
     \<lparr>tensor_name = n, tensor_name_override = [], dimensions = [2], client_buf = [], qnn_tensor = raw_tensor i n ty dt,
      quant_params = QnnQuantParamsWrapper_new\<rparr>"

lemma Copy_new: "Copy QnnQuantParamsWrapper_new h = (Inr (), QnnQuantParamsWrapper_new, h)"
  by (simp add: Copy_def assign_from_def Init_raw_def QnnQuantParamsWrapper_new_def QNN_QUANTIZE_PARAMS_INIT_def reset_per_channel_def)

lemma params_new: "params QnnQuantParamsWrapper_new = QNN_QUANTIZE_PARAMS_INIT"
  by (simp add: QnnQuantParamsWrapper_new_def)

lemmas tensor_eval = tensor_at_def raw_tensor_def fill_tensor_eq QNN_TENSOR_INIT_def tensor_defs SwapOther_eq supported_def
  body_of_def map_body_def GetResolvedTensorName_def u32_def params_new QnnTensorWrapper_default_def

lemma with_tensor_eq:
  assumes "n \<noteq> []" "map_of (model_tensors_map s) n = None" "ty \<noteq> QNN_TENSOR_TYPE_STATIC"
  shows "with_tensor (sample_env bf16) n ty s
       = s\<lparr>model_tensors_map := (n, tensor_at 0 n ty QNN_DATATYPE_FLOAT_32) # model_tensors_map s\<rparr>"
  using assms
  by (simp add: with_tensor_def add_new_tensor_def new_tensor_def QnnTensorWrapper_new_def Copy_new narrowed_def
      AddTensorWrapper_def SetTensorMemTypeFromSettings_def sample_env_def IsQnnTensorWrapperExist_def emplace_def
      move_construct_def tensor_eval Let_def)

lemma place_sample:
  "place_tensor (qnn_interface_of (sample_env bf16)) (\<lambda>_. None) n (tensor_at i n ty QNN_DATATYPE_FLOAT_32) (ids, ev)
   = (case map_of ids n of
        Some k \<Rightarrow> (Inr (), tensor_at k n ty QNN_DATATYPE_FLOAT_32, (ids, ev))
      | None \<Rightarrow> (Inr (), tensor_at (length ev + 1) n ty QNN_DATATYPE_FLOAT_32,
                 ((n, length ev + 1) # ids, ev @ [Tensor_Created (raw_tensor (length ev + 1) n ty QNN_DATATYPE_FLOAT_32)])))"
  if "ty \<noteq> QNN_TENSOR_TYPE_STATIC"
proof -
  have "GetElementSizeByType QNN_DATATYPE_FLOAT_32 = Inr 4" by code_simp
  then show ?thesis
    using that
    by (simp add: place_tensor_def CreateQnnGraphTensor_def CreateTensorInQnnGraph_def CreateTensor_def tensor_eval Let_def
        sample_env_def emplace_def split: option.split)
qed

lemma to_string_2: "to_string 2 = ''2''"
  by code_simp

lemma sample_eq:
  "sample_model bf16 = empty_model
     \<lparr>model_tensors_map := [(''t'', tensor_at 0 ''t'' QNN_TENSOR_TYPE_NATIVE QNN_DATATYPE_FLOAT_32),
        (''y'', tensor_at 0 ''y'' QNN_TENSOR_TYPE_APP_READ QNN_DATATYPE_FLOAT_32),
        (''x'', tensor_at 0 ''x'' QNN_TENSOR_TYPE_APP_WRITE QNN_DATATYPE_FLOAT_32)],
      qnn_node_names := [''relu_2'', ''relu''],
      qnn_op_property_list :=
        [\<lparr>qnn_node_name = ''relu'', package_name = QTI_AISW, qnn_node_type = ''Relu'', input_names = [''x''],
          output_names = [''t''], param_tensor_names = []\<rparr>,
         \<lparr>qnn_node_name = ''relu_2'', package_name = QTI_AISW, qnn_node_type = ''Relu'', input_names = [''t''],
          output_names = [''y''], param_tensor_names = []\<rparr>]\<rparr>"
  by (simp add: sample_model_def Let_def with_tensor_eq empty_model_def with_node_def CreateQnnNode_def
      MakeUniqueQnnNodeName_def suffixed_def to_string_2 upt_rec)

lemma sample_override: "override_of (sample_env bf16) s = (\<lambda>_. None)"
  by (simp add: override_of_def sample_env_def fun_eq_iff)

lemma sample_type: "GetTensorType_tw (tensor_at i n ty dt) = Inr ty"
  by (simp add: GetTensorType_tw_def tensor_eval)

lemma sample_raw: "qnn_tensor (tensor_at i n ty dt) = raw_tensor i n ty dt"
  by (simp add: tensor_at_def)

lemma sample_add_node: "graphAddNode (qnn_interface_of (sample_env bf16)) ev op = 0"
  by (simp add: sample_env_def)

lemma sample_io: "io_names (graph_inputs (sample_env bf16)) = [''x'']" "io_names (graph_outputs (sample_env bf16)) = [''y'']"
  by (simp_all add: sample_env_def)

lemma sample_no_bf16: "IsBF16ConversionEnabled (sample_env False) = False" "IsBF16ConversionEnabled (sample_env True)"
  by (simp_all add: IsBF16ConversionEnabled_def sample_env_def)

lemma sample_composes: "is_ok (fst (ComposeQnnGraph (sample_env False) (sample_model False)))"
  by (simp add: sample_eq ComposeQnnGraph_def RegisterGraphInputOutputInOrder_def sample_io sample_type place_sample
      sample_override sample_no_bf16 empty_model_def assign_def add_op_def CreateQnnInputOutputTensors_def
      CreateQnnParamTensors_def CreateQnnGraphOp_def sample_add_node QnnOpConfigWrapper_new_def SetNames_def SetNums_def
      SetData_def QNN_OPCONFIG_INIT_def Let_def)

section \<open>Node names\<close>

lemma first_free_least:
  "first_free r names [m..<n] = Some x \<Longrightarrow> \<exists>k \<ge> m. x = suffixed r k \<and> (\<forall>j. m \<le> j \<and> j < k \<longrightarrow> suffixed r j \<in> set names)"
proof (induction "n - m" arbitrary: m)
  case (Suc d)
  then have u: "[m..<n] = m # [Suc m..<n]" by (simp add: upt_rec)
  show ?case
  proof (cases "suffixed r m \<in> set names")
    case True
    then have "first_free r names [Suc m..<n] = Some x" using Suc.prems u by simp
    moreover have "d = n - Suc m" using Suc.hyps(2) by simp
    ultimately obtain k where k: "k \<ge> Suc m" "x = suffixed r k" "\<forall>j. Suc m \<le> j \<and> j < k \<longrightarrow> suffixed r j \<in> set names"
      using Suc.hyps(1) [of "Suc m"] by blast
    have "suffixed r j \<in> set names" if "m \<le> j" "j < k" for j
      using k(3) True that by (cases "j = m") simp_all
    then show ?thesis using k(1,2) Suc_leD by blast
  qed (use Suc.prems u in \<open>auto intro: exI [of _ m]\<close>)
qed simp

text \<open>
  C26.  A node always gets a name that no earlier node has.  \<open>MakeUniqueQnnNodeName\<close> returns the requested name when it is
  free, and otherwise the requested name with the least suffix from 2 on that is free; the search ends after at most as many
  steps as there are names, and the chosen name is recorded.
\<close>

theorem MakeUniqueQnnNodeName_fresh:
  "\<exists>n. MakeUniqueQnnNodeName r s = (Inr n, s\<lparr>qnn_node_names := n # qnn_node_names s\<rparr>) \<and> n \<notin> set (qnn_node_names s)
     \<and> (if r \<in> set (qnn_node_names s)
        then \<exists>k \<ge> 2. n = suffixed r k \<and> (\<forall>j. 2 \<le> j \<and> j < k \<longrightarrow> suffixed r j \<in> set (qnn_node_names s))
        else n = r)"
proof (cases "r \<in> set (qnn_node_names s)")
  case True
  obtain n where n: "first_free r (qnn_node_names s) [2..<length (qnn_node_names s) + 2] = Some n"
    using first_free_total [OF True] by blast
  then have "MakeUniqueQnnNodeName r s = (Inr n, s\<lparr>qnn_node_names := n # qnn_node_names s\<rparr>)"
    using True unfolding MakeUniqueQnnNodeName_def by (simp only: Let_def simp_thms option.case if_False)
  then show ?thesis using True first_free_SomeD [OF n] first_free_least [OF n] by auto
qed (use MakeUniqueQnnNodeName_spec [of r s] in auto)

theorem MakeUniqueQnnNodeName_fresh_witness:
  "MakeUniqueQnnNodeName ''a'' (empty_model\<lparr>qnn_node_names := [''a_2'', ''a'']\<rparr>)
   = (Inr ''a_3'', empty_model\<lparr>qnn_node_names := [''a_3'', ''a_2'', ''a'']\<rparr>)"
proof -
  let ?s = "empty_model\<lparr>qnn_node_names := [''a_2'', ''a'']\<rparr>"
  obtain n k where n: "MakeUniqueQnnNodeName ''a'' ?s = (Inr n, ?s\<lparr>qnn_node_names := n # qnn_node_names ?s\<rparr>)"
      "n \<notin> set (qnn_node_names ?s)" "2 \<le> k" "n = suffixed ''a'' k"
      "\<forall>j. 2 \<le> j \<and> j < k \<longrightarrow> suffixed ''a'' j \<in> set (qnn_node_names ?s)"
    using MakeUniqueQnnNodeName_fresh [of "''a''" ?s] by auto
  have 2: "suffixed ''a'' 2 = ''a_2''" and 3: "suffixed ''a'' 3 = ''a_3''" by code_simp+
  have "k \<noteq> 2" using n(2,4) 2 by auto
  moreover have "\<not> 3 < k" using n(5) [rule_format, of 3] 3 by auto
  ultimately have "k = 3" using n(3) by linarith
  then show ?thesis using n(1,4) 3 by (simp add: empty_model_def)
qed

section \<open>The composed graph\<close>

lemma graph_ok_distinct:
  assumes "graph_ok g"
  shows "distinct (map fst (created (snd g)))"
proof -
  have "map fst (created (snd g)) = map Some (rev (map fst (fst g)))"
    using assms by (simp add: graph_ok_def rev_map comp_def case_prod_beta)
  then show ?thesis using assms by (simp add: graph_ok_def wf_map_def distinct_map)
qed

text \<open>
  C4.  Composing a graph, whether it succeeds or stops with an error, leaves the wrapper and the graph consistent.  Every
  tensor name was created at most once; the table of ids lists exactly the created tensors with the ids the library gave
  them; every node mentions only tensors created before it, with their ids; node names are distinct.  When it succeeds, every op
  of the model is a node of the graph, in the order of the model and with no further node unless bfloat16 conversion is on.
\<close>

theorem composed_graph_is_consistent:
  assumes "built env s" "ComposeQnnGraph env s = (r, s')"
  shows "distinct (map fst (created (qnn_events s')))
    \<and> created (qnn_events s') = map (\<lambda>(n, i). (Some n, i)) (rev (qnn_tensor_id_map s'))
    \<and> nodes_ok {} (qnn_events s') \<and> distinct (node_names (qnn_events s'))
    \<and> (is_ok r \<longrightarrow> set (op_names (qnn_op_property_list s)) \<subseteq> set (node_names (qnn_events s'))
         \<and> (\<not> IsBF16ConversionEnabled env \<longrightarrow> node_names (qnn_events s') = op_names (qnn_op_property_list s)))"
proof -
  have "model_ok s" "qnn_events s = []" using built_ok [OF assms(1)] by (simp_all add: graph_of_def)
  from ComposeQnnGraph_ok [OF this assms(2)] show ?thesis
    using graph_ok_distinct [of "graph_of s'"] by (simp add: model_ok_def graph_of_def) (simp add: graph_ok_def)
qed

theorem composed_graph_is_consistent_witness:
  "node_names (qnn_events (snd (ComposeQnnGraph (sample_env False) (sample_model False)))) = [''relu'', ''relu_2'']
   \<and> nodes_ok {} (qnn_events (snd (ComposeQnnGraph (sample_env False) (sample_model False))))"
proof -
  obtain r s' where c: "ComposeQnnGraph (sample_env False) (sample_model False) = (r, s')"
    by (cases "ComposeQnnGraph (sample_env False) (sample_model False)") blast
  then have "is_ok r" using sample_composes by simp
  then show ?thesis
    using composed_graph_is_consistent [OF built_sample c] c sample_no_bf16 by (simp add: sample_eq op_names_def)
qed

text \<open>
  C17.  The graph inputs and outputs are created first and in the order in which the ONNX graph declares them, which is the order
  in which the library reports them later.  When a graph is composed without name overrides, the names of the created tensors
  start with the declared inputs that the model has as inputs, followed by the declared outputs that it has as outputs.
\<close>

theorem graph_io_created_in_order:
  assumes "built env s" "\<not> offload_graph_io_quantization (model_settings env)"
    and "distinct (io_names (graph_inputs env))" "distinct (io_names (graph_outputs env))"
    and "ComposeQnnGraph env s = (Inr (), s')"
  shows "\<exists>later. map fst (created (qnn_events s')) =
           map Some (filter (has_type s QNN_TENSOR_TYPE_APP_WRITE) (io_names (graph_inputs env))
             @ filter (has_type s QNN_TENSOR_TYPE_APP_READ) (io_names (graph_outputs env))) @ later"
proof -
  let ?W = QNN_TENSOR_TYPE_APP_WRITE and ?R = QNN_TENSOR_TYPE_APP_READ
  have s: "model_ok s" "plain (model_tensors_map s)" "qnn_tensor_id_map s = []" "qnn_events s = []"
    using built_ok [OF assms(1)] by (simp_all add: graph_of_def)
  obtain r1 s1 where 1: "register_io env ?W (io_names (graph_inputs env)) s = (r1, s1)"
    by (cases "register_io env ?W (io_names (graph_inputs env)) s") blast
  obtain r2 s2 where 2: "register_io env ?R (io_names (graph_outputs env)) s1 = (r2, s2)"
    by (cases "register_io env ?R (io_names (graph_outputs env)) s1") blast
  have c: "ComposeQnnGraph env s = (if qnn_op_property_list s = [] then (Inl (Status_Fail ''no ops''), s)
      else then_s (then_s (r1, s1) (\<lambda>_ s. register_io env ?R (io_names (graph_outputs env)) s)) (\<lambda>_ s.
        then_s (planned_ops env s) (\<lambda>ops s. add_ops env ops s)))"
    by (simp add: ComposeQnnGraph_def RegisterGraphInputOutputInOrder_def planned_ops_def 1)
  have r1: "r1 = Inr ()" using c assms(5) by (cases r1) (simp_all split: if_splits)
  have r2: "r2 = Inr ()" using c assms(5) r1 2 by (cases r2) (simp_all split: if_splits)
  obtain ops s3 where 3: "planned_ops env s2 = (Inr ops, s3)"
    using c assms(5) r1 r2 2 by (cases "planned_ops env s2"; cases "fst (planned_ops env s2)") (simp_all split: if_splits)
  have a: "add_ops env ops s3 = (Inr (), s')" using c assms(5) r1 r2 2 3 by (simp split: if_splits)
  have o1: "map fst (created (qnn_events s1)) = map Some (filter (has_type s ?W) (io_names (graph_inputs env)))"
      "plain (model_tensors_map s1)" "has_type s1 = has_type s"
      "fst ` set (qnn_tensor_id_map s1) = set (filter (has_type s ?W) (io_names (graph_inputs env)))"
    using register_io_order [OF assms(2) s(1,2) assms(3) _ 1 [unfolded r1]] s(3,4) by simp_all
  have m1: "model_ok s1" using register_io_ok [OF s(1)] 1 by (metis snd_conv)
  have "\<forall>n \<in> set (io_names (graph_outputs env)). has_type s1 ?R n \<longrightarrow> map_of (qnn_tensor_id_map s1) n = None"
    using o1(3,4) by (auto simp: map_of_eq_None_iff has_type_def split: option.splits)
  then have o2: "map fst (created (qnn_events s2)) = map fst (created (qnn_events s1))
      @ map Some (filter (has_type s ?R) (io_names (graph_outputs env)))"
    using register_io_order [OF assms(2) m1 o1(2) assms(4) _ 2 [unfolded r2]] o1(3) by simp
  have m2: "model_ok s2" using register_io_ok [OF m1] 2 by (metis snd_conv)
  have e3: "qnn_events s3 = qnn_events s2" "model_ok s3"
    using yieldsD [OF planned_ops_ok [OF m2] 3] by (simp_all add: inv_at_def)
  obtain new where "qnn_events s' = qnn_events s3 @ new"
    using add_ops_history [OF e3(2), of env ops] a by (auto simp: history_def)
  then show ?thesis using o1(1) o2 e3(1) by auto
qed

theorem graph_io_created_in_order_witness:
  "\<exists>later. map fst (created (qnn_events (snd (ComposeQnnGraph (sample_env False) (sample_model False)))))
     = [Some ''x'', Some ''y''] @ later"
proof -
  obtain s' where c: "ComposeQnnGraph (sample_env False) (sample_model False) = (Inr (), s')"
    using sample_composes by (cases "ComposeQnnGraph (sample_env False) (sample_model False)"; cases "fst (ComposeQnnGraph (sample_env False) (sample_model False))") auto
  have "has_type (sample_model False) QNN_TENSOR_TYPE_APP_WRITE ''x''" "has_type (sample_model False) QNN_TENSOR_TYPE_APP_READ ''y''"
    by (simp_all add: has_type_def sample_eq sample_type)
  then show ?thesis
    using graph_io_created_in_order [OF built_sample _ _ _ c] c by (simp add: sample_io) (simp add: sample_env_def)
qed

section \<open>Validation in bfloat16\<close>

lemma converted_other: "\<not> has_dtype f tw \<Longrightarrow> converted f t tw = tw"
  by (simp add: converted_def)

lemma convert_back:
  assumes "\<And>n tw. m n = Some tw \<Longrightarrow> wf_tensor tw" "\<And>n tw. n \<in> set (ins @ outs) \<Longrightarrow> m n = Some tw \<Longrightarrow> \<not> has_dtype t tw"
  shows "convert_all t f outs (convert_all t f ins (convert_all f t outs (convert_all f t ins m))) = m"
proof
  fix n
  show "convert_all t f outs (convert_all t f ins (convert_all f t outs (convert_all f t ins m))) n = m n"
  proof (cases "m n")
    case (Some tw)
    have "wf_tensor tw" using assms(1) Some by blast
    moreover have "\<not> has_dtype t tw" if "n \<in> set ins \<or> n \<in> set outs" using assms(2) Some that by auto
    ultimately show ?thesis using Some by (auto simp: convert_all_def converted_idem converted_back converted_other)
  qed (simp add: convert_all_def)
qed

text \<open>
  C18.  Validating a node never changes the model: the ops, names, parameters and the graph are as before, and every tensor is as
  before, although validation in bfloat16 temporarily changes the element types of the inputs and outputs.  The condition for
  the bfloat16 case: the inputs exist and no input or output is a bfloat16 tensor already.
\<close>

theorem validation_keeps_the_model:
  assumes "built env s"
    and "IsBF16ConversionEnabled env \<Longrightarrow> \<forall>n \<in> set ins. map_of (model_tensors_map s) n \<noteq> None"
    and "IsBF16ConversionEnabled env \<Longrightarrow>
      \<forall>n \<in> set (ins @ outs). \<forall>tw. map_of (model_tensors_map s) n = Some tw \<longrightarrow> \<not> has_dtype QNN_DATATYPE_BFLOAT_16 tw"
  shows "\<exists>m. snd (CreateQnnNode env name package type ins outs ps True s) = s\<lparr>model_tensors_map := m\<rparr>
           \<and> map_of m = map_of (model_tensors_map s)"
proof -
  have t: "tensors_ok (model_tensors_map s)" using built_ok [OF assms(1)] by (simp add: model_ok_def)
  have pp: "present_prefix s ins = ins" if "IsBF16ConversionEnabled env"
    using assms(2) [OF that] by (simp add: present_prefix_def)
  have restored: "convert_all QNN_DATATYPE_BFLOAT_16 QNN_DATATYPE_FLOAT_32 outs
            (convert_all QNN_DATATYPE_BFLOAT_16 QNN_DATATYPE_FLOAT_32 ins
              (convert_all QNN_DATATYPE_FLOAT_32 QNN_DATATYPE_BFLOAT_16 outs
                (convert_all QNN_DATATYPE_FLOAT_32 QNN_DATATYPE_BFLOAT_16 ins (map_of (model_tensors_map s)))))
      = map_of (model_tensors_map s)" if "IsBF16ConversionEnabled env"
    by (rule convert_back) (use tensors_okD [OF t] assms(3) [OF that] in auto)
  from CreateQnnNode_validation [OF t, of env name package type ins outs ps] pp restored show ?thesis by auto
qed

theorem validation_keeps_the_model_witness:
  "\<exists>m. snd (CreateQnnNode (sample_env True) ''n'' QTI_AISW ''Relu'' [''x''] [''y''] [] True (sample_model True))
         = (sample_model True)\<lparr>model_tensors_map := m\<rparr>
       \<and> map_of m ''x'' = Some (tensor_at 0 ''x'' QNN_TENSOR_TYPE_APP_WRITE QNN_DATATYPE_FLOAT_32)"
  using validation_keeps_the_model [OF built_sample [of True], where ins = "[''x'']" and outs = "[''y'']" and name = "''n''"
      and package = QTI_AISW and type = "''Relu''" and ps = "[]"]
  by (auto simp: sample_eq has_dtype_def GetTensorDataType_def tensor_eval)

text \<open>
  C39.  When validation in bfloat16 stops because an input does not exist, the inputs before it stay converted: the guard that
  restores them is created only after the conversion succeeded.  A node is rejected and its FLOAT_32 inputs are BFLOAT_16
  from then on.
\<close>

theorem failed_validation_leaves_bf16:
  assumes "built env s" "IsBF16ConversionEnabled env" "map_of (model_tensors_map s) missing = None"
    and "\<forall>n \<in> set before. map_of (model_tensors_map s) n \<noteq> None"
    and "n \<in> set before" "map_of (model_tensors_map s) n = Some tw" "has_dtype QNN_DATATYPE_FLOAT_32 tw"
  shows "\<not> is_ok (fst (CreateQnnNode env name package type (before @ missing # after) outs ps True s))
    \<and> (\<exists>tw'. map_of (model_tensors_map (snd (CreateQnnNode env name package type (before @ missing # after) outs ps True s))) n = Some tw'
         \<and> has_dtype QNN_DATATYPE_BFLOAT_16 tw')"
proof -
  let ?ins = "before @ missing # after"
  have t: "tensors_ok (model_tensors_map s)" using built_ok [OF assms(1)] by (simp add: model_ok_def)
  have pp: "present_prefix s ?ins = before" using assms(3,4) by (simp add: present_prefix_def)
  obtain m r where 1: "apply_bf16_inputs ?ins s = (r, s\<lparr>model_tensors_map := m\<rparr>)" "\<not> is_ok r"
      "map_of m = convert_all QNN_DATATYPE_FLOAT_32 QNN_DATATYPE_BFLOAT_16 before (map_of (model_tensors_map s))"
    using apply_bf16_inputs_eq [OF t, of ?ins] unfolding pp by auto
  then obtain e where e: "r = Inl e" by (cases r) auto
  have "CreateQnnNode env name package type ?ins outs ps True s = (Inl e, s\<lparr>model_tensors_map := m\<rparr>)"
    using assms(2) 1 e by (simp add: CreateQnnNode_def ApplyBF16ConversionForValidation_def)
  then show ?thesis
    using 1(3) assms(5-7) has_dtype_converted tensors_okD [OF t] by (auto simp: convert_all_def)
qed

theorem failed_validation_leaves_bf16_witness:
  "\<exists>tw'. map_of (model_tensors_map (snd (CreateQnnNode (sample_env True) ''n'' QTI_AISW ''Add'' ([''t''] @ ''missing'' # []) [''y''] []
      True (sample_model True)))) ''t'' = Some tw' \<and> has_dtype QNN_DATATYPE_BFLOAT_16 tw'"
  using failed_validation_leaves_bf16 [OF built_sample sample_no_bf16(2), of "''missing''" "[''t'']" "''t''"]
  by (simp add: sample_eq has_dtype_def GetTensorDataType_def tensor_eval)

end
