(* ===== verification/Shared_Memory.thy ===== *)
theory Shared_Memory
  imports Qnn_Tensor
begin

text \<open>
  Memory shared with the accelerator (\<open>qnn_allocator.cc\<close>), the memory handles each QNN context keeps for it
  (\<open>builder/qnn_context_mem_handle_manager.cc\<close>) and the contexts of the backend manager (\<open>builder/qnn_backend_manager.cc\<close>),
  for the builds without Windows' DX12 memory.

  Addresses are natural numbers and 0 is the null pointer.  The allocator instances of the process are numbered.  What the two
  libraries saw is a history of events; their functions are parameters that may depend on it.  Calls are atomic: each holds the
  mutex of the structure it changes.
\<close>

section \<open>The tracker of allocations\<close>

record tracked =
  base_address :: nat
  size_in_bytes :: nat
  tracked_allocator :: nat

text \<open>\<open>records_\<close> is an ordered \<open>std::map\<close>; the flag says whether \<open>emplace\<close> inserted.\<close>

fun map_emplace :: "nat \<Rightarrow> 'v \<Rightarrow> (nat \<times> 'v) list \<Rightarrow> (nat \<times> 'v) list \<times> bool" where
  "map_emplace k v [] = ([(k, v)], True)"
| "map_emplace k v ((k', v') # m) =
     (if k < k' then ((k, v) # (k', v') # m, True)
      else if k = k' then ((k', v') # m, False)
      else (let (m', inserted) = map_emplace k v m in ((k', v') # m', inserted)))"

definition RegisterAllocation :: "nat \<Rightarrow> nat \<Rightarrow> nat \<Rightarrow> (nat \<times> tracked) list \<Rightarrow> (nat \<times> tracked) list \<times> bool" where
  "RegisterAllocation a n allocator records =
     map_emplace a \<lparr>base_address = a, size_in_bytes = n, tracked_allocator = allocator\<rparr> records"

definition UnregisterAllocation :: "nat \<Rightarrow> (nat \<times> tracked) list \<Rightarrow> (nat \<times> tracked) list \<times> bool" where
  "UnregisterAllocation a records = (filter (\<lambda>(k, _). k \<noteq> a) records, map_of records a \<noteq> None)"

text \<open>\<open>upper_bound\<close> splits the map; the record before it has the greatest base address that is not above the address.\<close>

definition LookUp :: "nat \<Rightarrow> (nat \<times> tracked) list \<Rightarrow> tracked option" where
  "LookUp address_within_allocation records =
     (let not_above = takeWhile (\<lambda>(k, _). k \<le> address_within_allocation) records
      in if not_above = [] then None
         else
           (let r = snd (last not_above)
            in if address_within_allocation \<ge> base_address r + size_in_bytes r then None else Some r))"

section \<open>State\<close>

record SharedMemoryInfo =
  shm_fd :: int
  shm_offset :: nat
  shm_total_size :: nat

text \<open>
  The only clean-up function the provider installs unregisters the memory handle of an address in a context record.  It holds
  a weak pointer to the record, which is the record's number: a later record for the same context handle is a different record.
\<close>

datatype AllocationCleanUpFn = Empty_Fn | Unregister_Fn nat nat

record AllocationRecord =
  shared_memory_info :: SharedMemoryInfo
  clean_up_fns :: "AllocationCleanUpFn list"

record mem_descriptor =
  md_dims :: "nat list option"
  md_rank :: nat
  md_dataType :: Qnn_DataType_t
  md_size :: nat
  md_fd :: int
  md_offset :: nat

text \<open>The history; the address of a registration is kept beside the descriptor, which has the file descriptor and the offset.\<close>

datatype mem_event =
    Rpc_Alloc nat nat
  | Rpc_Free nat
  | Mem_Register nat nat nat mem_descriptor
  | Mem_DeRegister nat
  | Context_Free nat

record shm_api =
  rpcmem_loaded :: bool
  rpcmem_alloc :: "mem_event list \<Rightarrow> nat \<Rightarrow> nat"
  rpcmem_to_fd :: "nat \<Rightarrow> int"
  memRegister :: "mem_event list \<Rightarrow> nat \<Rightarrow> mem_descriptor \<Rightarrow> nat + nat"

record MemHandleRecord =
  registered_tensor_data_size :: nat
  mem_handle :: nat

record QnnContextHandleRecord =
  rec_id :: nat
  mem_handles :: "(nat \<times> MemHandleRecord) list"

record shm_state =
  tracker :: "(nat \<times> tracked) list"
  allocations :: "nat \<Rightarrow> (nat \<times> AllocationRecord) list"
  context_map :: "(nat \<times> QnnContextHandleRecord) list"
  contexts :: "nat list"
  ep_context_handle_map :: "(string \<times> nat) list"
  next_record :: nat
  mem_log :: "mem_event list"

abbreviation log_event :: "mem_event \<Rightarrow> shm_state \<Rightarrow> shm_state" where
  "log_event e s \<equiv> s\<lparr>mem_log := mem_log s @ [e]\<rparr>"

section \<open>The allocator\<close>

definition AllocationAlignment :: nat where
  "AllocationAlignment = 64"

definition IsAligned :: "nat \<Rightarrow> nat \<Rightarrow> bool" where
  "IsAligned address alignment \<longleftrightarrow> address mod alignment = 0"

text \<open>
  The block is owned by a \<open>unique_ptr\<close> until the end, so every error after the allocation frees it.  The conversion of the size
  to \<open>SafeInt<int>\<close> throws when it does not fit.
\<close>

definition AllocImpl :: "shm_api \<Rightarrow> nat \<Rightarrow> nat \<Rightarrow> shm_state \<Rightarrow> nat result \<times> shm_state" where
  "AllocImpl api allocator requested_size s =
     (if \<not> rpcmem_loaded api then (Inl (Thrown ''Unable to load RPCMEM''), s)
      else if requested_size \<ge> 2 ^ 31 then (Inl (Thrown ''SafeInt''), s)
      else
        (let a = rpcmem_alloc api (mem_log s) requested_size
         in if a = 0 then (Inl (Thrown ''rpcmem_alloc() failed to allocate and returned nullptr.''), s)
            else
              (let s = log_event (Rpc_Alloc a requested_size) s
               in if \<not> IsAligned a AllocationAlignment
                  then (Inl (Thrown ''Shared memory address does not have required alignment''), log_event (Rpc_Free a) s)
                  else if rpcmem_to_fd api a = - 1
                  then (Inl (Thrown ''rpcmem_to_fd() returned invalid file descriptor.''), log_event (Rpc_Free a) s)
                  else if map_of (allocations s allocator) a \<noteq> None
                  then (Inl (Thrown ''Allocation record already exists for address.''), log_event (Rpc_Free a) s)
                  else
                    (let info = \<lparr>shm_fd = rpcmem_to_fd api a, shm_offset = 0, shm_total_size = requested_size\<rparr>;
                         s = s\<lparr>allocations := (allocations s)(allocator :=
                                emplace a \<lparr>shared_memory_info = info, clean_up_fns = []\<rparr> (allocations s allocator))\<rparr>;
                         (records, registered) = RegisterAllocation a requested_size allocator (tracker s)
                     in if \<not> registered
                        then (Inl (Thrown ''Attempted to register allocation but it is already tracked for address.''),
                              log_event (Rpc_Free a) (s\<lparr>tracker := records\<rparr>))
                        else (Inr a, s\<lparr>tracker := records\<rparr>)))))"

definition GetAllocationSharedMemoryInfoForThisAllocator :: "nat \<Rightarrow> nat \<Rightarrow> shm_state \<Rightarrow> SharedMemoryInfo result" where
  "GetAllocationSharedMemoryInfoForThisAllocator allocator base s =
     (case map_of (allocations s allocator) base of
        None \<Rightarrow> Inl (Status_Fail ''Failed to get allocation info for address.'')
      | Some r \<Rightarrow> Inr (shared_memory_info r))"

definition GetAllocationSharedMemoryInfo :: "nat \<Rightarrow> shm_state \<Rightarrow> SharedMemoryInfo result" where
  "GetAllocationSharedMemoryInfo address_within_allocation s =
     (case LookUp address_within_allocation (tracker s) of
        None \<Rightarrow> Inl (Status_Fail ''Failed to look up tracked allocation.'')
      | Some r \<Rightarrow>
          and_then (GetAllocationSharedMemoryInfoForThisAllocator (tracked_allocator r) (base_address r) s) (\<lambda>info.
            Inr (info\<lparr>shm_offset := shm_offset info + (address_within_allocation - base_address r)\<rparr>)))"

definition IsAllocationTracked :: "nat \<Rightarrow> shm_state \<Rightarrow> bool" where
  "IsAllocationTracked address_within_allocation s \<longleftrightarrow> LookUp address_within_allocation (tracker s) \<noteq> None"

definition AddAllocationCleanUpForThisAllocator ::
  "nat \<Rightarrow> nat \<Rightarrow> AllocationCleanUpFn \<Rightarrow> shm_state \<Rightarrow> unit result \<times> shm_state" where
  "AddAllocationCleanUpForThisAllocator allocator base f s =
     (if f = Empty_Fn then (Inl (Status_Fail ''allocation_clean_up should not be empty.''), s)
      else
        (case map_of (allocations s allocator) base of
           None \<Rightarrow> (Inl (Status_Fail ''Failed to get allocation info for address.''), s)
         | Some r \<Rightarrow>
             (Inr (), s\<lparr>allocations := (allocations s)(allocator :=
                assign base (r\<lparr>clean_up_fns := clean_up_fns r @ [f]\<rparr>) (allocations s allocator))\<rparr>)))"

definition AddAllocationCleanUp :: "nat \<Rightarrow> AllocationCleanUpFn \<Rightarrow> shm_state \<Rightarrow> unit result \<times> shm_state" where
  "AddAllocationCleanUp address_within_allocation f s =
     (case LookUp address_within_allocation (tracker s) of
        None \<Rightarrow> (Inl (Status_Fail ''Failed to look up tracked allocation.''), s)
      | Some r \<Rightarrow> AddAllocationCleanUpForThisAllocator (tracked_allocator r) (base_address r) f s)"

section \<open>Memory handles of a context\<close>

text \<open>Erasing a record runs the deleter of its handle.\<close>

definition Unregister :: "nat \<Rightarrow> (nat \<times> MemHandleRecord) list \<Rightarrow> mem_event list
   \<Rightarrow> unit result \<times> ((nat \<times> MemHandleRecord) list \<times> mem_event list)" where
  "Unregister memory_address handles events =
     (case map_of handles memory_address of
        None \<Rightarrow> (Inl (Status_Fail ''No mem handle found for address.''), (handles, events))
      | Some r \<Rightarrow> (Inr (), (erase memory_address handles, events @ [Mem_DeRegister (mem_handle r)])))"

definition Clear :: "(nat \<times> MemHandleRecord) list \<Rightarrow> mem_event list \<Rightarrow> (nat \<times> MemHandleRecord) list \<times> mem_event list" where
  "Clear handles events = ([], events @ map (\<lambda>(_, r). Mem_DeRegister (mem_handle r)) handles)"

definition htp_descriptor :: "nat list option \<Rightarrow> nat \<Rightarrow> Qnn_DataType_t \<Rightarrow> SharedMemoryInfo \<Rightarrow> mem_descriptor" where
  "htp_descriptor ds rank dt info =
     \<lparr>md_dims = ds, md_rank = rank, md_dataType = dt, md_size = shm_total_size info, md_fd = shm_fd info,
      md_offset = shm_offset info\<rparr>"

definition GetOrRegister ::
  "shm_api \<Rightarrow> QnnAllocatorType \<Rightarrow> nat \<Rightarrow> nat \<Rightarrow> Qnn_Tensor_t \<Rightarrow> (nat \<times> MemHandleRecord) list \<Rightarrow> shm_state
   \<Rightarrow> (nat \<times> bool) result \<times> ((nat \<times> MemHandleRecord) list \<times> mem_event list)" where
  "GetOrRegister api allocator_type context memory_address t handles s =
     (let unchanged = (handles, mem_log s)
      in case and_then (GetQnnTensorRank t) (\<lambda>rank. and_then (GetQnnTensorDims t) (\<lambda>ds.
              and_then (GetQnnTensorDataType t) (\<lambda>dt.
              and_then (GetQnnTensorDataSizeInBytes t) (\<lambda>n. Inr (rank, ds, dt, n))))) of
           Inl e \<Rightarrow> (Inl e, unchanged)
         | Inr (rank, ds, dt, n) \<Rightarrow>
             (case map_of handles memory_address of
                Some r \<Rightarrow>
                  (if n \<le> registered_tensor_data_size r then (Inr (mem_handle r, False), unchanged)
                   else (Inl (Status_Fail ''Actual tensor data size is larger than registered tensor data size''), unchanged))
              | None \<Rightarrow>
                  (if \<not> IsHtpSharedMemoryAllocator allocator_type
                   then (Inl (Status_Fail ''No HTP or DX12 allocation found for shared memory address.''), unchanged)
                   else
                     (case GetAllocationSharedMemoryInfo memory_address s of
                        Inl e \<Rightarrow> (Inl e, unchanged)
                      | Inr info \<Rightarrow>
                          (let d = htp_descriptor ds rank dt info
                           in case memRegister api (mem_log s) context d of
                                Inl code \<Rightarrow> (Inl (Status_Fail ''qnn_interface.memRegister() failed''), unchanged)
                              | Inr h \<Rightarrow>
                                  (Inr (h, True),
                                   (emplace memory_address \<lparr>registered_tensor_data_size = n, mem_handle = h\<rparr> handles,
                                    mem_log s @ [Mem_Register h context memory_address d])))))))"

section \<open>Contexts of the backend manager\<close>

text \<open>Destroying a record clears its handles first and then frees the context, the reverse of the order of the members.\<close>

definition destroy_record :: "nat \<times> QnnContextHandleRecord \<Rightarrow> mem_event list \<Rightarrow> mem_event list" where
  "destroy_record cr events = snd (Clear (mem_handles (snd cr)) events) @ [Context_Free (fst cr)]"

definition AddQnnContextHandle :: "nat \<Rightarrow> shm_state \<Rightarrow> unit result \<times> shm_state" where
  "AddQnnContextHandle raw s =
     (let r = \<lparr>rec_id = next_record s, mem_handles = []\<rparr>;
          s = s\<lparr>next_record := next_record s + 1\<rparr>
      in if map_of (context_map s) raw \<noteq> None
         then (Inl (Status_Fail ''QNN context was already added.''), s\<lparr>mem_log := destroy_record (raw, r) (mem_log s)\<rparr>)
         else (Inr (), s\<lparr>context_map := emplace raw r (context_map s), contexts := contexts s @ [raw]\<rparr>))"

definition HasContextHandle :: "nat \<Rightarrow> shm_state \<Rightarrow> bool" where
  "HasContextHandle context s \<longleftrightarrow> map_of (context_map s) context \<noteq> None"

definition GetOrRegisterContextMemHandle ::
  "shm_api \<Rightarrow> QnnAllocatorType \<Rightarrow> nat \<Rightarrow> nat \<Rightarrow> Qnn_Tensor_t \<Rightarrow> shm_state \<Rightarrow> nat result \<times> shm_state" where
  "GetOrRegisterContextMemHandle api allocator_type context memory_address t s =
     (case map_of (context_map s) context of
        None \<Rightarrow> (Inl (Status_Fail ''QNN context not found.''), s)
      | Some rec \<Rightarrow>
          (let (r, (handles, events)) = GetOrRegister api allocator_type context memory_address t (mem_handles rec) s;
               s = s\<lparr>context_map := assign context (rec\<lparr>mem_handles := handles\<rparr>) (context_map s), mem_log := events\<rparr>
           in then_s (r, s) (\<lambda>(h, did_register) s.
                if \<not> did_register then (Inr h, s)
                else if \<not> IsHtpSharedMemoryAllocator allocator_type
                then (Inl (Status_Fail ''Cannot add allocation clean up function for unsupported backend.''), s)
                else then_s (AddAllocationCleanUp memory_address (Unregister_Fn memory_address (rec_id rec)) s) (\<lambda>_ s.
                       (Inr h, s)))))"

text \<open>Locking the weak pointer finds the record while it is in the map.  A failed \<open>Unregister\<close> is only logged.\<close>

definition run_clean_up :: "AllocationCleanUpFn \<Rightarrow> shm_state \<Rightarrow> shm_state" where
  "run_clean_up f s =
     (case f of
        Empty_Fn \<Rightarrow> s
      | Unregister_Fn memory_address rid \<Rightarrow>
          (case find (\<lambda>(_, rec). rec_id rec = rid) (context_map s) of
             None \<Rightarrow> s
           | Some (c, rec) \<Rightarrow>
               (let (_, (handles, events)) = Unregister memory_address (mem_handles rec) (mem_log s)
                in s\<lparr>context_map := assign c (rec\<lparr>mem_handles := handles\<rparr>) (context_map s), mem_log := events\<rparr>)))"

definition FreeImpl :: "nat \<Rightarrow> nat \<Rightarrow> shm_state \<Rightarrow> unit result \<times> shm_state" where
  "FreeImpl allocator a s =
     (if a = 0 then (Inr (), s)
      else
        (case map_of (allocations s allocator) a of
           None \<Rightarrow> (Inl (Thrown ''Failed to get allocation info for address.''), s)
         | Some r \<Rightarrow>
             (let s = s\<lparr>allocations := (allocations s)(allocator := erase a (allocations s allocator))\<rparr>;
                  s = s\<lparr>tracker := fst (UnregisterAllocation a (tracker s))\<rparr>;
                  s = fold run_clean_up (clean_up_fns r) s
              in (Inr (), log_event (Rpc_Free a) s))))"

definition ReleaseSpecificContextHandle :: "nat \<Rightarrow> shm_state \<Rightarrow> shm_state" where
  "ReleaseSpecificContextHandle old_context s =
     (let s = s\<lparr>ep_context_handle_map := filter (\<lambda>(_, c). c \<noteq> old_context) (ep_context_handle_map s),
                contexts := filter (\<lambda>c. c \<noteq> old_context) (contexts s)\<rparr>
      in case map_of (context_map s) old_context of
           None \<Rightarrow> s
         | Some rec \<Rightarrow> s\<lparr>context_map := erase old_context (context_map s), mem_log := destroy_record (old_context, rec) (mem_log s)\<rparr>)"

definition ReleaseContext :: "shm_state \<Rightarrow> shm_state" where
  "ReleaseContext s =
     s\<lparr>ep_context_handle_map := [], contexts := [], context_map := [], mem_log := fold destroy_record (context_map s) (mem_log s)\<rparr>"

end
