(* ===== verification/Memory_Safety.thy ===== *)
theory Memory_Safety
  imports Shared_Memory
begin

text \<open>
  What the allocator, the memory handles and the contexts guarantee together: the tracker finds exactly the live allocation an
  address lies in; memory is never freed while a context has a handle for it; a handle is released once and before its
  context.
\<close>

section \<open>The tracker finds the allocation of an address\<close>

definition apart :: "nat \<times> nat \<Rightarrow> nat \<times> nat \<Rightarrow> bool" where
  "apart x y \<longleftrightarrow> fst x \<noteq> fst y \<and> (fst x + snd x \<le> fst y \<or> fst y + snd y \<le> fst x)"

definition blocks_ok :: "(nat \<times> nat) set \<Rightarrow> bool" where
  "blocks_ok B \<longleftrightarrow> (\<forall>x \<in> B. \<forall>y \<in> B. x \<noteq> y \<longrightarrow> apart x y)"

definition lies_in :: "nat \<Rightarrow> nat \<times> nat \<Rightarrow> bool" where
  "lies_in a x \<longleftrightarrow> fst x \<le> a \<and> a < fst x + snd x"

definition ranges :: "(nat \<times> tracked) list \<Rightarrow> (nat \<times> nat) set" where
  "ranges records = (\<lambda>(k, r). (k, size_in_bytes r)) ` set records"

definition tracker_ok :: "(nat \<times> tracked) list \<Rightarrow> bool" where
  "tracker_ok records \<longleftrightarrow> sorted_wrt (<) (map fst records) \<and> (\<forall>(k, r) \<in> set records. base_address r = k)"

lemma blocks_ok_unique: "blocks_ok B \<Longrightarrow> x \<in> B \<Longrightarrow> y \<in> B \<Longrightarrow> lies_in a x \<Longrightarrow> lies_in a y \<Longrightarrow> x = y"
  unfolding blocks_ok_def apart_def lies_in_def by fastforce

lemma blocks_ok_subset: "blocks_ok B \<Longrightarrow> C \<subseteq> B \<Longrightarrow> blocks_ok C"
  unfolding blocks_ok_def by blast

lemma tracker_ok_distinct: "tracker_ok records \<Longrightarrow> distinct (map fst records)"
  unfolding tracker_ok_def using strict_sorted_iff by blast

lemma tracker_ok_base: "tracker_ok records \<Longrightarrow> (k, r) \<in> set records \<Longrightarrow> base_address r = k"
  unfolding tracker_ok_def by auto

lemma in_takeWhile_sorted:
  fixes m :: "(nat \<times> 'v) list"
  shows "sorted_wrt (<) (map fst m) \<Longrightarrow> x \<in> set m \<Longrightarrow> fst x \<le> a \<Longrightarrow> x \<in> set (takeWhile (\<lambda>(k, _). k \<le> a) m)"
proof (induction m)
  case (Cons y m)
  then have "fst y \<le> a" by (cases "x = y") (auto dest: bspec [where x = x])
  then show ?case using Cons by (auto simp: case_prod_beta)
qed simp

lemma sorted_last:
  fixes m :: "(nat \<times> 'v) list"
  shows "sorted_wrt (<) (map fst m) \<Longrightarrow> x \<in> set m \<Longrightarrow> fst x \<le> fst (last m)"
  by (induction m rule: rev_induct) (auto simp: sorted_wrt_append)

lemma sorted_takeWhile: "sorted_wrt (<) (map fst m) \<Longrightarrow> sorted_wrt (<) (map fst (takeWhile P m))"
  by (induction m) (auto dest: set_takeWhileD)

lemma last_not_above:
  fixes records :: "(nat \<times> 'v) list"
  assumes "sorted_wrt (<) (map fst records)" "(k, r) \<in> set records" "k \<le> a"
    and T: "T = takeWhile (\<lambda>(k, _). k \<le> a) records"
  shows "T \<noteq> [] \<and> k \<le> fst (last T) \<and> fst (last T) \<le> a \<and> last T \<in> set records"
proof -
  have k: "(k, r) \<in> set T" unfolding T by (rule in_takeWhile_sorted [OF assms(1,2)]) (simp add: assms(3))
  then have ne: "T \<noteq> []" by auto
  have "k \<le> fst (last T)" using sorted_last [OF _ k] sorted_takeWhile [OF assms(1)] by (simp add: T)
  moreover have "last T \<in> set T" using ne by simp
  then have "last T \<in> set records \<and> fst (last T) \<le> a" unfolding T using set_takeWhileD by fastforce
  ultimately show ?thesis using ne by blast
qed

lemma LookUp_iff:
  assumes "tracker_ok records" "blocks_ok (ranges records)"
  shows "LookUp a records = Some r \<longleftrightarrow> (base_address r, r) \<in> set records \<and> lies_in a (base_address r, size_in_bytes r)"
proof
  assume l: "LookUp a records = Some r"
  let ?T = "takeWhile (\<lambda>(k, _). k \<le> a) records"
  have ne: "?T \<noteq> []" and r: "r = snd (last ?T)" and le: "a < base_address r + size_in_bytes r"
    using l by (auto simp: LookUp_def Let_def split: if_splits)
  have "last ?T \<in> set records" "fst (last ?T) \<le> a"
    using last_in_set [OF ne] set_takeWhileD [of "last ?T" "\<lambda>(k, _). k \<le> a" records] by (auto split: prod.splits)
  then show "(base_address r, r) \<in> set records \<and> lies_in a (base_address r, size_in_bytes r)"
    using r le tracker_ok_base [OF assms(1), of "fst (last ?T)" r] by (auto simp: lies_in_def prod_eq_iff)
next
  assume r: "(base_address r, r) \<in> set records \<and> lies_in a (base_address r, size_in_bytes r)"
  let ?T = "takeWhile (\<lambda>(k, _). k \<le> a) records"
  obtain k' r' where last: "last ?T = (k', r')" by (cases "last ?T")
  have l: "?T \<noteq> []" "base_address r \<le> k'" "k' \<le> a" "(k', r') \<in> set records"
    using last_not_above [of records "base_address r" r a ?T] r last assms(1) by (auto simp: lies_in_def tracker_ok_def)
  have "k' = base_address r"
  proof (rule ccontr)
    assume ne: "k' \<noteq> base_address r"
    have "(k', size_in_bytes r') \<in> ranges records" "(base_address r, size_in_bytes r) \<in> ranges records"
      using l(4) r by (force simp: ranges_def)+
    then show False using assms(2) ne l r unfolding blocks_ok_def apart_def lies_in_def by fastforce
  qed
  then have "r' = r" using l(4) r tracker_ok_distinct [OF assms(1)] by (metis eq_key_imp_eq_value)
  then show "LookUp a records = Some r" using l last r by (simp add: LookUp_def lies_in_def)
qed

lemma map_emplace_old: "sorted_wrt (<) (map fst m) \<Longrightarrow> k \<in> fst ` set m \<Longrightarrow> map_emplace k v m = (m, False)"
proof (induction m)
  case (Cons x m)
  obtain k' v' where x: "x = (k', v')" by (cases x)
  show ?case
  proof (cases "k = k'")
    case False
    then have "k \<in> fst ` set m" "k' < k" using Cons.prems x by auto
    then show ?thesis using Cons x by simp
  qed (simp add: x)
qed simp

lemma map_emplace_new:
  "sorted_wrt (<) (map fst m) \<Longrightarrow> k \<notin> fst ` set m \<Longrightarrow>
   snd (map_emplace k v m) \<and> set (fst (map_emplace k v m)) = insert (k, v) (set m) \<and> sorted_wrt (<) (map fst (fst (map_emplace k v m)))"
proof (induction m)
  case (Cons x m)
  obtain k' v' where x: "x = (k', v')" by (cases x)
  obtain m' b where e: "map_emplace k v m = (m', b)" by (cases "map_emplace k v m")
  have "b" "set m' = insert (k, v) (set m)" "sorted_wrt (<) (map fst m')" using Cons e by auto
  then show ?case using Cons.prems x e by (auto dest: order.strict_trans)
qed simp

lemma RegisterAllocation_new:
  assumes "tracker_ok records" "a \<notin> fst ` set records"
  obtains records' where "RegisterAllocation a n i records = (records', True)" "tracker_ok records'"
    "set records' = insert (a, \<lparr>base_address = a, size_in_bytes = n, tracked_allocator = i\<rparr>) (set records)"
proof -
  let ?r = "\<lparr>base_address = a, size_in_bytes = n, tracked_allocator = i\<rparr>"
  obtain m b where e: "map_emplace a ?r records = (m, b)" by (cases "map_emplace a ?r records")
  then have "b" "set m = insert (a, ?r) (set records)" "sorted_wrt (<) (map fst m)"
    using map_emplace_new [of records a ?r] assms by (auto simp: tracker_ok_def)
  then show thesis using that [of m] e assms(1) by (auto simp: RegisterAllocation_def tracker_ok_def)
qed

lemma UnregisterAllocation_ok:
  "tracker_ok records \<Longrightarrow> tracker_ok (fst (UnregisterAllocation a records))"
  "set (fst (UnregisterAllocation a records)) = {(k, r) \<in> set records. k \<noteq> a}"
  unfolding UnregisterAllocation_def tracker_ok_def
  by (auto simp: sorted_wrt_map sorted_wrt_filter)

section \<open>What the libraries hold\<close>

text \<open>The live blocks and the registered handles after a history, and when an event is safe.\<close>

fun mem_step :: "mem_event \<Rightarrow> (nat \<times> nat) list \<times> (nat \<times> nat \<times> nat) list \<Rightarrow> (nat \<times> nat) list \<times> (nat \<times> nat \<times> nat) list" where
  "mem_step (Rpc_Alloc a n) (B, H) = ((a, n) # B, H)"
| "mem_step (Rpc_Free a) (B, H) = (filter (\<lambda>(b, _). b \<noteq> a) B, H)"
| "mem_step (Mem_Register h c a d) (B, H) = (B, (h, c, a) # H)"
| "mem_step (Mem_DeRegister h) (B, H) = (B, filter (\<lambda>(h', _). h' \<noteq> h) H)"
| "mem_step (Context_Free c) (B, H) = (B, H)"

definition mem_now :: "mem_event list \<Rightarrow> (nat \<times> nat) list \<times> (nat \<times> nat \<times> nat) list" where
  "mem_now es = fold mem_step es ([], [])"

lemma mem_now_snoc [simp]: "mem_now (es @ [e]) = mem_step e (mem_now es)"
  by (simp add: mem_now_def)

text \<open>
  Only a live block is freed, and only when no handle refers to an address in it.  A registration describes a live block with
  the right offset, under a handle that is not in use.  Only a registered handle is released.  A context has no handles when
  it is freed.
\<close>

fun safe_event :: "shm_api \<Rightarrow> mem_event \<Rightarrow> (nat \<times> nat) list \<times> (nat \<times> nat \<times> nat) list \<Rightarrow> bool" where
  "safe_event api (Rpc_Alloc a n) (B, H) = True"
| "safe_event api (Rpc_Free a) (B, H) = (\<exists>n. (a, n) \<in> set B \<and> (\<forall>(h, c, x) \<in> set H. \<not> lies_in x (a, n)))"
| "safe_event api (Mem_Register h c x d) (B, H) =
     ((\<exists>(a, n) \<in> set B. lies_in x (a, n) \<and> md_fd d = rpcmem_to_fd api a \<and> md_offset d = x - a \<and> md_size d = n)
      \<and> h \<notin> fst ` set H)"
| "safe_event api (Mem_DeRegister h) (B, H) = (h \<in> fst ` set H)"
| "safe_event api (Context_Free c) (B, H) = (\<forall>(h, c', x) \<in> set H. c' \<noteq> c)"

definition safe_log :: "shm_api \<Rightarrow> mem_event list \<Rightarrow> bool" where
  "safe_log api es \<longleftrightarrow> (\<forall>i < length es. safe_event api (es ! i) (mem_now (take i es)))"

lemma safe_log_snoc: "safe_log api (es @ [e]) \<longleftrightarrow> safe_log api es \<and> safe_event api e (mem_now es)"
  unfolding safe_log_def by (auto simp: nth_append less_Suc_eq)

lemma safe_log_Nil [simp]: "safe_log api []"
  by (simp add: safe_log_def)

lemma release_all:
  "safe_log api es \<Longrightarrow> distinct hs \<Longrightarrow> set hs \<subseteq> fst ` set (snd (mem_now es)) \<Longrightarrow>
   safe_log api (es @ map Mem_DeRegister hs)
   \<and> mem_now (es @ map Mem_DeRegister hs) = (fst (mem_now es), filter (\<lambda>(h, _). h \<notin> set hs) (snd (mem_now es)))"
proof (induction hs arbitrary: es)
  case (Cons h hs)
  let ?es = "es @ [Mem_DeRegister h]"
  obtain B H where now: "mem_now es = (B, H)" by (cases "mem_now es")
  have "safe_log api ?es" using Cons.prems now by (auto simp: safe_log_snoc)
  moreover have "set hs \<subseteq> fst ` set (snd (mem_now ?es))" using Cons.prems now by force
  ultimately have "safe_log api (?es @ map Mem_DeRegister hs)
     \<and> mem_now (?es @ map Mem_DeRegister hs) = (fst (mem_now ?es), filter (\<lambda>(h, _). h \<notin> set hs) (snd (mem_now ?es)))"
    using Cons.IH [of ?es] Cons.prems(2) by (metis distinct.simps(2))
  moreover have "filter (\<lambda>(k, _). k \<notin> set hs) (filter (\<lambda>(k, _). k \<noteq> h) H) = filter (\<lambda>(k, _). k \<notin> set (h # hs)) H"
    unfolding filter_filter by (rule filter_cong) auto
  ultimately show ?case using now by simp
qed (simp add: filter_id_conv [THEN iffD2])

section \<open>Contexts and their handles\<close>

definition held :: "(nat \<times> QnnContextHandleRecord) list \<Rightarrow> (nat \<times> nat \<times> nat) set" where
  "held cm = {(h, c, x). \<exists>rec m. (c, rec) \<in> set cm \<and> (x, m) \<in> set (mem_handles rec) \<and> mem_handle m = h}"

text \<open>The handles the contexts hold are exactly the registered ones, and the history is safe.\<close>

definition contexts_ok :: "shm_api \<Rightarrow> (nat \<times> QnnContextHandleRecord) list \<Rightarrow> nat \<Rightarrow> mem_event list \<Rightarrow> bool" where
  "contexts_ok api cm n es \<longleftrightarrow> distinct (map fst cm) \<and> distinct (map (rec_id \<circ> snd) cm)
     \<and> (\<forall>(c, rec) \<in> set cm. distinct (map fst (mem_handles rec)) \<and> rec_id rec < n)
     \<and> set (snd (mem_now es)) = held cm \<and> distinct (map fst (snd (mem_now es))) \<and> safe_log api es"

lemma held_append [simp]: "held (cm1 @ cm2) = held cm1 \<union> held cm2"
  by (auto simp: held_def)

lemma held_Cons: "held ((c, rec) # cm) = (\<lambda>(x, m). (mem_handle m, c, x)) ` set (mem_handles rec) \<union> held cm"
  by (auto simp: held_def)

lemma held_context: "(h, c, x) \<in> held cm \<Longrightarrow> c \<in> fst ` set cm"
  by (force simp: held_def)

lemma assign_split: "distinct (map fst (m1 @ (k, v) # m2)) \<Longrightarrow> assign k w (m1 @ (k, v) # m2) = m1 @ (k, w) # m2"
  unfolding assign_def by (induction m1) auto

lemma erase_split: "distinct (map fst (m1 @ (k, v) # m2)) \<Longrightarrow> erase k (m1 @ (k, v) # m2) = m1 @ m2"
  unfolding erase_def by (induction m1) (force simp: AList.delete_eq filter_id_conv)+

lemma handle_unique:
  "distinct (map fst H) \<Longrightarrow> (h, y) \<in> set H \<Longrightarrow> (h, z) \<in> set H \<Longrightarrow> y = z"
  by (rule eq_key_imp_eq_value)

lemma destroy_one:
  assumes "contexts_ok api (cm1 @ (c, rec) # cm2) n es"
  shows "contexts_ok api (cm1 @ cm2) n (destroy_record (c, rec) es)
       \<and> fst (mem_now (destroy_record (c, rec) es)) = fst (mem_now es)"
proof -
  let ?hs = "map (mem_handle \<circ> snd) (mem_handles rec)" and ?H = "snd (mem_now es)"
  have ok: "distinct (map fst (cm1 @ (c, rec) # cm2))" "distinct (map fst (mem_handles rec))"
      "set ?H = held (cm1 @ (c, rec) # cm2)" "distinct (map fst ?H)" "safe_log api es"
    using assms by (auto simp: contexts_ok_def)
  have mine: "(mem_handle m, c, x) \<in> set ?H" if "(x, m) \<in> set (mem_handles rec)" for x m
    using that unfolding ok(3) held_def by auto
  have "inj_on (mem_handle \<circ> snd) (set (mem_handles rec))"
  proof (rule inj_onI)
    fix p q assume p: "p \<in> set (mem_handles rec)" and q: "q \<in> set (mem_handles rec)" and e: "(mem_handle \<circ> snd) p = (mem_handle \<circ> snd) q"
    have "(mem_handle (snd p), c, fst p) \<in> set ?H" "(mem_handle (snd q), c, fst q) \<in> set ?H" using mine p q by simp_all
    then have "fst p = fst q"
      using e handle_unique [OF ok(4), of "mem_handle (snd p)" "(c, fst p)" "(c, fst q)"] by simp
    then show "p = q" using p q ok(2) by (metis eq_key_imp_eq_value prod.collapse)
  qed
  then have dist: "distinct ?hs" using ok(2) by (simp add: distinct_map)
  have sub: "set ?hs \<subseteq> fst ` set ?H"
  proof
    fix h assume "h \<in> set ?hs"
    then obtain x m where "(x, m) \<in> set (mem_handles rec)" "h = mem_handle m" by auto
    then show "h \<in> fst ` set ?H" using mine by (metis fst_conv image_eqI)
  qed
  note rel = release_all [OF ok(5) dist sub]
  have fresh: "(h, c', x) \<notin> set ?H" if h: "h \<in> set ?hs" and ne: "c' \<noteq> c" for h c' x
  proof
    obtain y m where "(y, m) \<in> set (mem_handles rec)" "h = mem_handle m" using h by auto
    then have "(h, c, y) \<in> set ?H" using mine by blast
    moreover assume "(h, c', x) \<in> set ?H"
    ultimately show False using handle_unique [OF ok(4), of h "(c, y)" "(c', x)"] ne by simp
  qed
  have c: "c \<notin> fst ` set (cm1 @ cm2)" using ok(1) by auto
  have H': "set (filter (\<lambda>(h, _). h \<notin> set ?hs) ?H) = held (cm1 @ cm2)"
  proof (intro set_eqI iffI)
    fix y assume "y \<in> set (filter (\<lambda>(h, _). h \<notin> set ?hs) ?H)"
    then have "y \<in> set ?H" and out: "fst y \<notin> set ?hs" by (simp_all add: case_prod_beta)
    then have "y \<in> held cm1 \<or> y \<in> (\<lambda>(x, m). (mem_handle m, c, x)) ` set (mem_handles rec) \<or> y \<in> held cm2"
      unfolding ok(3) by (simp add: held_Cons)
    moreover have "y \<notin> (\<lambda>(x, m). (mem_handle m, c, x)) ` set (mem_handles rec)" using out by force
    ultimately show "y \<in> held (cm1 @ cm2)" by auto
  next
    fix y assume y: "y \<in> held (cm1 @ cm2)"
    obtain h c' x where y': "y = (h, c', x)" by (cases y)
    have "c' \<noteq> c" using held_context y y' c by metis
    moreover have "y \<in> set ?H" using y unfolding ok(3) by (auto simp: held_Cons)
    ultimately show "y \<in> set (filter (\<lambda>(h, _). h \<notin> set ?hs) ?H)" using fresh y' by auto
  qed
  have d: "destroy_record (c, rec) es = (es @ map Mem_DeRegister ?hs) @ [Context_Free c]"
    by (simp add: destroy_record_def Clear_def comp_def case_prod_beta)
  have "\<forall>(h, c', x) \<in> held (cm1 @ cm2). c' \<noteq> c" using held_context c by fast
  then have "safe_log api (destroy_record (c, rec) es)"
    unfolding d safe_log_snoc using rel H' by (simp add: case_prod_beta)
  moreover have "mem_now (destroy_record (c, rec) es) = (fst (mem_now es), filter (\<lambda>(h, _). h \<notin> set ?hs) ?H)"
    unfolding d mem_now_snoc using rel by (simp del: map_map)
  moreover have "distinct (map fst (filter (\<lambda>(h, _). h \<notin> set ?hs) ?H))" using ok(4) by (rule distinct_map_filter)
  ultimately show ?thesis using assms H' by (auto simp: contexts_ok_def)
qed

lemma destroy_all:
  "contexts_ok api cm n es \<Longrightarrow> contexts_ok api [] n (fold destroy_record cm es) \<and> fst (mem_now (fold destroy_record cm es)) = fst (mem_now es)"
proof (induction cm arbitrary: es)
  case (Cons cr cm)
  obtain c rec where cr: "cr = (c, rec)" by (cases cr)
  show ?case using destroy_one [of api "[]" c rec cm n es] Cons cr by simp
qed simp

lemma unregister_one:
  assumes "contexts_ok api (cm1 @ (c, rec) # cm2) n es" "mem_handles rec = hs1 @ (x, m) # hs2"
  shows "contexts_ok api (cm1 @ (c, rec\<lparr>mem_handles := hs1 @ hs2\<rparr>) # cm2) n (es @ [Mem_DeRegister (mem_handle m)])
       \<and> fst (mem_now (es @ [Mem_DeRegister (mem_handle m)])) = fst (mem_now es)"
proof -
  obtain B H where now: "mem_now es = (B, H)" by (cases "mem_now es")
  have ok: "distinct (map fst (cm1 @ (c, rec) # cm2))" "distinct (map fst (mem_handles rec))"
      "set H = held (cm1 @ (c, rec) # cm2)" "distinct (map fst H)" "safe_log api es"
    using assms(1) now by (auto simp: contexts_ok_def)
  let ?h = "mem_handle m" and ?rec = "rec\<lparr>mem_handles := hs1 @ hs2\<rparr>"
  have mine: "(?h, c, x) \<in> set H" unfolding ok(3) by (auto simp: held_Cons assms(2))
  have split: "held (cm1 @ (c, rec) # cm2) = insert (?h, c, x) (held (cm1 @ (c, ?rec) # cm2))"
    by (auto simp: held_Cons assms(2))
  have "(?h, c, x) \<notin> held (cm1 @ (c, ?rec) # cm2)"
  proof
    assume "(?h, c, x) \<in> held (cm1 @ (c, ?rec) # cm2)"
    moreover have "c \<notin> fst ` set (cm1 @ cm2)" using ok(1) by auto
    ultimately have "(?h, c, x) \<in> (\<lambda>(x, m). (mem_handle m, c, x)) ` set (hs1 @ hs2)"
      using held_context by (fastforce simp: held_Cons)
    then have "x \<in> fst ` set (hs1 @ hs2)" by force
    then show False using ok(2) assms(2) by auto
  qed
  then have "set (filter (\<lambda>(h', _). h' \<noteq> ?h) H) = held (cm1 @ (c, ?rec) # cm2)"
    using mine split ok(3) handle_unique [OF ok(4), of ?h "(c, x)"] by fastforce
  moreover have "distinct (map fst (filter (\<lambda>(h', _). h' \<noteq> ?h) H))" using ok(4) by (rule distinct_map_filter)
  moreover have "safe_log api (es @ [Mem_DeRegister ?h])" using ok(5) mine now by (force simp: safe_log_snoc)
  ultimately show ?thesis using assms now by (auto simp: contexts_ok_def)
qed

lemma register_one:
  assumes "contexts_ok api (cm1 @ (c, rec) # cm2) n es" "x \<notin> fst ` set (mem_handles rec)"
    and "safe_event api (Mem_Register (mem_handle m) c x d) (mem_now es)"
  shows "contexts_ok api (cm1 @ (c, rec\<lparr>mem_handles := (x, m) # mem_handles rec\<rparr>) # cm2) n (es @ [Mem_Register (mem_handle m) c x d])
       \<and> fst (mem_now (es @ [Mem_Register (mem_handle m) c x d])) = fst (mem_now es)"
proof -
  obtain B H where now: "mem_now es = (B, H)" by (cases "mem_now es")
  have "mem_handle m \<notin> fst ` set H" using assms(3) now by simp
  moreover have "held (cm1 @ (c, rec\<lparr>mem_handles := (x, m) # mem_handles rec\<rparr>) # cm2)
      = insert (mem_handle m, c, x) (held (cm1 @ (c, rec) # cm2))"
    by (auto simp: held_Cons)
  moreover have "safe_log api (es @ [Mem_Register (mem_handle m) c x d])"
    using assms(1,3) by (simp add: contexts_ok_def safe_log_snoc)
  ultimately show ?thesis using assms(1,2) now by (auto simp: contexts_ok_def)
qed

text \<open>Clean-up functions only remove handles.\<close>

definition smaller :: "(nat \<times> QnnContextHandleRecord) list \<Rightarrow> (nat \<times> QnnContextHandleRecord) list \<Rightarrow> bool" where
  "smaller cm cm' \<longleftrightarrow> (\<forall>(c, rec') \<in> set cm'. \<exists>rec. (c, rec) \<in> set cm \<and> rec_id rec = rec_id rec'
     \<and> set (mem_handles rec') \<subseteq> set (mem_handles rec))"

lemma smaller_refl: "smaller cm cm"
  unfolding smaller_def by blast

lemma smaller_trans: "smaller cm cm' \<Longrightarrow> smaller cm' cm'' \<Longrightarrow> smaller cm cm''"
  unfolding smaller_def by fastforce

definition unregistered :: "(nat \<times> QnnContextHandleRecord) list \<Rightarrow> nat \<Rightarrow> nat \<Rightarrow> bool" where
  "unregistered cm x rid \<longleftrightarrow> (\<forall>(c, rec) \<in> set cm. rec_id rec = rid \<longrightarrow> x \<notin> fst ` set (mem_handles rec))"

lemma unregistered_smaller: "unregistered cm x rid \<Longrightarrow> smaller cm cm' \<Longrightarrow> unregistered cm' x rid"
  unfolding unregistered_def smaller_def by fastforce

definition cleans :: "shm_api \<Rightarrow> shm_state \<Rightarrow> shm_state \<Rightarrow> bool" where
  "cleans api s s' \<longleftrightarrow> (\<exists>cm es. s' = s\<lparr>context_map := cm, mem_log := es\<rparr> \<and> contexts_ok api cm (next_record s) es
     \<and> smaller (context_map s) cm \<and> fst (mem_now es) = fst (mem_now (mem_log s)))"

lemma cleans_refl: "contexts_ok api (context_map s) (next_record s) (mem_log s) \<Longrightarrow> cleans api s s"
  unfolding cleans_def by (rule exI [of _ "context_map s"], rule exI [of _ "mem_log s"]) (simp add: smaller_refl)

lemma cleans_trans: "cleans api s s' \<Longrightarrow> cleans api s' s'' \<Longrightarrow> cleans api s s''"
  unfolding cleans_def using smaller_trans by fastforce

lemma run_clean_up_ok:
  assumes "contexts_ok api (context_map s) (next_record s) (mem_log s)"
  shows "cleans api s (run_clean_up f s) \<and> (\<forall>x rid. f = Unregister_Fn x rid \<longrightarrow> unregistered (context_map (run_clean_up f s)) x rid)"
proof (cases f)
  case (Unregister_Fn x rid)
  show ?thesis
  proof (cases "find (\<lambda>(_, rec). rec_id rec = rid) (context_map s)")
    case None
    then have "unregistered (context_map s) x rid" by (auto simp: find_None_iff unregistered_def)
    then show ?thesis using cleans_refl [OF assms] None Unregister_Fn by (simp add: run_clean_up_def)
  next
    case (Some cr)
    obtain c rec where cr: "cr = (c, rec)" by (cases cr)
    have in_cm: "(c, rec) \<in> set (context_map s)" "rec_id rec = rid"
      using Some cr nth_mem by (fastforce simp: find_Some_iff)+
    then obtain cm1 cm2 where cm: "context_map s = cm1 @ (c, rec) # cm2" by (metis in_set_conv_decomp)
    have ok: "distinct (map fst (context_map s))" "distinct (map (rec_id \<circ> snd) (context_map s))" "distinct (map fst (mem_handles rec))"
      using assms in_cm(1) by (auto simp: contexts_ok_def)
    have only: "rec' = rec" if "(c', rec') \<in> set (context_map s)" "rec_id rec' = rid" for c' rec'
      using ok(2) that in_cm unfolding distinct_map inj_on_def by fastforce
    show ?thesis
    proof (cases "map_of (mem_handles rec) x")
      case None
      then have "run_clean_up f s = s"
        using Some cr Unregister_Fn cm ok(1) by (simp add: run_clean_up_def Unregister_def assign_split)
      moreover have "unregistered (context_map s) x rid"
        using None only by (auto simp: unregistered_def map_of_eq_None_iff)
      ultimately show ?thesis using cleans_refl [OF assms] Unregister_Fn by simp
    next
      case (Some m)
      then obtain hs1 hs2 where hs: "mem_handles rec = hs1 @ (x, m) # hs2" by (metis in_set_conv_decomp map_of_SomeD)
      let ?cm = "cm1 @ (c, rec\<lparr>mem_handles := hs1 @ hs2\<rparr>) # cm2" and ?es = "mem_log s @ [Mem_DeRegister (mem_handle m)]"
      have run: "run_clean_up f s = s\<lparr>context_map := ?cm, mem_log := ?es\<rparr>"
        using \<open>find _ _ = Some cr\<close> cr Some Unregister_Fn cm hs ok
        by (simp add: run_clean_up_def Unregister_def assign_split erase_split)
      note one = unregister_one [OF assms [unfolded cm] hs]
      have "smaller (context_map s) ?cm" unfolding cm smaller_def using hs by auto
      then have "cleans api s (run_clean_up f s)" unfolding cleans_def run using one by blast
      moreover have "unregistered ?cm x rid"
        unfolding unregistered_def
      proof
        fix y assume y: "y \<in> set ?cm"
        show "case y of (c', r') \<Rightarrow> rec_id r' = rid \<longrightarrow> x \<notin> fst ` set (mem_handles r')"
        proof (cases "y = (c, rec\<lparr>mem_handles := hs1 @ hs2\<rparr>)")
          case True
          then show ?thesis using ok(3) hs by auto
        next
          case False
          then have "y \<in> set (cm1 @ cm2)" using y by auto
          then have "rec_id (snd y) \<noteq> rid" using ok(2) cm in_cm(2) by force
          then show ?thesis by (cases y) simp
        qed
      qed
      ultimately show ?thesis using run Unregister_Fn by simp
    qed
  qed
qed (use cleans_refl [OF assms] in \<open>simp add: run_clean_up_def\<close>)

lemma clean_ups_ok:
  "contexts_ok api (context_map s) (next_record s) (mem_log s) \<Longrightarrow>
   cleans api s (fold run_clean_up fs s)
   \<and> (\<forall>x rid. Unregister_Fn x rid \<in> set fs \<longrightarrow> unregistered (context_map (fold run_clean_up fs s)) x rid)"
proof (induction fs arbitrary: s)
  case Nil
  then show ?case using cleans_refl by simp
next
  case (Cons f fs)
  let ?s = "run_clean_up f s"
  have 1: "cleans api s ?s" "\<And>x rid. f = Unregister_Fn x rid \<Longrightarrow> unregistered (context_map ?s) x rid"
    using run_clean_up_ok [OF Cons.prems, of f] by blast+
  then have "contexts_ok api (context_map ?s) (next_record ?s) (mem_log ?s)" by (auto simp: cleans_def)
  note 2 = Cons.IH [OF this]
  then have "smaller (context_map ?s) (context_map (fold run_clean_up fs ?s))" by (auto simp: cleans_def)
  then show ?case using 1 2 cleans_trans unregistered_smaller by auto
qed

section \<open>The invariant\<close>

text \<open>
  What the code relies on: a block the library hands out lies apart from the live ones, and a new handle is not in use.
\<close>

definition libraries_ok :: "shm_api \<Rightarrow> bool" where
  "libraries_ok api \<longleftrightarrow>
     (\<forall>es n. rpcmem_alloc api es n \<noteq> 0 \<longrightarrow> (\<forall>x \<in> set (fst (mem_now es)). apart (rpcmem_alloc api es n, n) x))
     \<and> (\<forall>es c d h. memRegister api es c d = Inr h \<longrightarrow> h \<notin> fst ` set (snd (mem_now es)))"

text \<open>Every tracked allocation has its record with the allocator it names, and the other way round.\<close>

definition records_match :: "shm_api \<Rightarrow> (nat \<times> tracked) set \<Rightarrow> (nat \<Rightarrow> (nat \<times> AllocationRecord) list) \<Rightarrow> bool" where
  "records_match api R al \<longleftrightarrow>
     (\<forall>(k, r) \<in> R. \<exists>ar. map_of (al (tracked_allocator r)) k = Some ar
        \<and> shared_memory_info ar = \<lparr>shm_fd = rpcmem_to_fd api k, shm_offset = 0, shm_total_size = size_in_bytes r\<rparr>)
     \<and> (\<forall>i a ar. map_of (al i) a = Some ar \<longrightarrow> (\<exists>r. (a, r) \<in> R \<and> tracked_allocator r = i))"

definition memory_ok :: "shm_api \<Rightarrow> shm_state \<Rightarrow> bool" where
  "memory_ok api s \<longleftrightarrow> tracker_ok (tracker s) \<and> blocks_ok (ranges (tracker s))
     \<and> set (fst (mem_now (mem_log s))) = ranges (tracker s) \<and> records_match api (set (tracker s)) (allocations s)"

text \<open>Every handle is for an address in a tracked allocation that will unregister it when it is freed.\<close>

definition covered :: "(nat \<times> tracked) set \<Rightarrow> (nat \<Rightarrow> (nat \<times> AllocationRecord) list) \<Rightarrow> nat \<Rightarrow> nat \<Rightarrow> bool" where
  "covered R al x rid \<longleftrightarrow> (\<exists>(k, r) \<in> R. lies_in x (k, size_in_bytes r)
     \<and> (\<exists>ar. map_of (al (tracked_allocator r)) k = Some ar \<and> Unregister_Fn x rid \<in> set (clean_up_fns ar)))"

definition all_covered :: "(nat \<times> tracked) set \<Rightarrow> (nat \<Rightarrow> (nat \<times> AllocationRecord) list) \<Rightarrow> (nat \<times> QnnContextHandleRecord) list \<Rightarrow> bool" where
  "all_covered R al cm \<longleftrightarrow> (\<forall>(c, rec) \<in> set cm. \<forall>(x, m) \<in> set (mem_handles rec). covered R al x (rec_id rec))"

definition shm_ok :: "shm_api \<Rightarrow> shm_state \<Rightarrow> bool" where
  "shm_ok api s \<longleftrightarrow> memory_ok api s \<and> contexts_ok api (context_map s) (next_record s) (mem_log s)
     \<and> all_covered (set (tracker s)) (allocations s) (context_map s)"

lemma all_coveredD: "all_covered R al cm \<Longrightarrow> (c, rec) \<in> set cm \<Longrightarrow> (x, m) \<in> set (mem_handles rec) \<Longrightarrow> covered R al x (rec_id rec)"
  unfolding all_covered_def by (drule (1) bspec) (auto dest: bspec)

lemma all_coveredI: "(\<And>c rec x m. (c, rec) \<in> set cm \<Longrightarrow> (x, m) \<in> set (mem_handles rec) \<Longrightarrow> covered R al x (rec_id rec)) \<Longrightarrow> all_covered R al cm"
  unfolding all_covered_def by auto

lemma coveredE:
  assumes "covered R al x rid"
  obtains k r ar where "(k, r) \<in> R" "lies_in x (k, size_in_bytes r)" "map_of (al (tracked_allocator r)) k = Some ar"
    "Unregister_Fn x rid \<in> set (clean_up_fns ar)"
  using assms unfolding covered_def by auto

lemma coveredI:
  "(k, r) \<in> R \<Longrightarrow> lies_in x (k, size_in_bytes r) \<Longrightarrow> map_of (al (tracked_allocator r)) k = Some ar \<Longrightarrow>
   Unregister_Fn x rid \<in> set (clean_up_fns ar) \<Longrightarrow> covered R al x rid"
  unfolding covered_def by auto

lemma heldE:
  assumes "(h, c, x) \<in> held cm"
  obtains rec m where "(c, rec) \<in> set cm" "(x, m) \<in> set (mem_handles rec)" "mem_handle m = h"
  using assms unfolding held_def by auto

lemma all_covered_smaller: "all_covered R al cm \<Longrightarrow> smaller cm cm' \<Longrightarrow> all_covered R al cm'"
  unfolding all_covered_def smaller_def by fastforce

lemma covered_mono:
  "covered R al x rid \<Longrightarrow> R \<subseteq> R' \<Longrightarrow>
   (\<And>i k ar. map_of (al i) k = Some ar \<Longrightarrow> \<exists>ar'. map_of (al' i) k = Some ar' \<and> set (clean_up_fns ar) \<subseteq> set (clean_up_fns ar')) \<Longrightarrow>
   covered R' al' x rid"
  unfolding covered_def by (fastforce simp: split_beta)

lemma all_covered_mono:
  "all_covered R al cm \<Longrightarrow> R \<subseteq> R' \<Longrightarrow>
   (\<And>i k ar. map_of (al i) k = Some ar \<Longrightarrow> \<exists>ar'. map_of (al' i) k = Some ar' \<and> set (clean_up_fns ar) \<subseteq> set (clean_up_fns ar')) \<Longrightarrow>
   all_covered R' al' cm"
  unfolding all_covered_def using covered_mono by (fastforce simp: split_beta)

lemma tracker_entry_unique:
  "tracker_ok tr \<Longrightarrow> (k, r) \<in> set tr \<Longrightarrow> (k, r') \<in> set tr \<Longrightarrow> r = r'"
  using tracker_ok_distinct eq_key_imp_eq_value by metis

lemma range_entry:
  "tracker_ok tr \<Longrightarrow> blocks_ok (ranges tr) \<Longrightarrow> (k, r) \<in> set tr \<Longrightarrow> (k', r') \<in> set tr \<Longrightarrow>
   lies_in x (k, size_in_bytes r) \<Longrightarrow> lies_in x (k', size_in_bytes r') \<Longrightarrow> (k, r) = (k', r')"
  using blocks_ok_unique [of "ranges tr" "(k, size_in_bytes r)" "(k', size_in_bytes r')" x] tracker_entry_unique [of tr]
  unfolding ranges_def by force

lemma records_match_erase:
  assumes "records_match api R al" "R' = {(k, q) \<in> R. k \<noteq> a}" "al' = al(i := erase a (al i))"
    and "\<And>r. (a, r) \<in> R \<Longrightarrow> tracked_allocator r = i"
  shows "records_match api R' al'"
  unfolding records_match_def
proof (intro conjI ballI allI impI)
  fix kr assume "kr \<in> R'"
  then obtain k r where "kr = (k, r)" "(k, r) \<in> R" "k \<noteq> a" using assms(2) by auto
  then show "case kr of (k, r) \<Rightarrow> \<exists>ar. map_of (al' (tracked_allocator r)) k = Some ar
      \<and> shared_memory_info ar = \<lparr>shm_fd = rpcmem_to_fd api k, shm_offset = 0, shm_total_size = size_in_bytes r\<rparr>"
    using assms(1,3) unfolding records_match_def by auto
next
  fix j b ar assume "map_of (al' j) b = Some ar"
  then have b: "map_of (al j) b = Some ar" "\<not> (j = i \<and> b = a)" using assms(3) by (auto split: if_splits)
  then obtain r where r: "(b, r) \<in> R" "tracked_allocator r = j" using assms(1) unfolding records_match_def by blast
  then have "b \<noteq> a" using b(2) assms(4) by blast
  then show "\<exists>r. (b, r) \<in> R' \<and> tracked_allocator r = j" using r assms(2) by auto
qed

section \<open>Each operation keeps the invariant\<close>

lemma contexts_ok_alloc:
  "contexts_ok api cm n es \<Longrightarrow> contexts_ok api cm n (es @ [Rpc_Alloc a k]) \<and> mem_now (es @ [Rpc_Alloc a k]) = ((a, k) # fst (mem_now es), snd (mem_now es))"
  by (cases "mem_now es") (simp add: contexts_ok_def safe_log_snoc)

lemma contexts_ok_free:
  assumes "contexts_ok api cm n es" "(a, k) \<in> set (fst (mem_now es))" "\<forall>(h, c, x) \<in> held cm. \<not> lies_in x (a, k)"
  shows "contexts_ok api cm n (es @ [Rpc_Free a]) \<and> mem_now (es @ [Rpc_Free a]) = (filter (\<lambda>(b, _). b \<noteq> a) (fst (mem_now es)), snd (mem_now es))"
  using assms by (cases "mem_now es") (auto simp: contexts_ok_def safe_log_snoc)

text \<open>A block that is returned to the library before it was tracked leaves no trace.\<close>

lemma alloc_undone:
  assumes "shm_ok api s" "libraries_ok api" "a = rpcmem_alloc api (mem_log s) n" "a \<noteq> 0"
  shows "shm_ok api (s\<lparr>mem_log := (mem_log s @ [Rpc_Alloc a n]) @ [Rpc_Free a]\<rparr>)"
proof -
  let ?es = "mem_log s @ [Rpc_Alloc a n]"
  have m: "memory_ok api s" and c: "contexts_ok api (context_map s) (next_record s) (mem_log s)"
    and cov: "all_covered (set (tracker s)) (allocations s) (context_map s)"
    using assms(1) by (simp_all add: shm_ok_def)
  have new: "apart (a, n) x" if "x \<in> ranges (tracker s)" for x
    using assms(2-4) m that by (simp add: libraries_ok_def memory_ok_def)
  have no: "\<not> lies_in x (a, n)" if "(h, c, x) \<in> held (context_map s)" for h c x
  proof
    assume x: "lies_in x (a, n)"
    from that cov obtain k r where "(k, r) \<in> set (tracker s)" "lies_in x (k, size_in_bytes r)"
      unfolding held_def all_covered_def covered_def by fastforce
    then show False using new [of "(k, size_in_bytes r)"] x unfolding ranges_def apart_def lies_in_def by fastforce
  qed
  note al = contexts_ok_alloc [OF c, of a n]
  have fr: "contexts_ok api (context_map s) (next_record s) (?es @ [Rpc_Free a])
      \<and> mem_now (?es @ [Rpc_Free a]) = (filter (\<lambda>(b, _). b \<noteq> a) (fst (mem_now ?es)), snd (mem_now ?es))"
    by (rule contexts_ok_free [where k = n]) (use al no in auto)
  have "filter (\<lambda>(b, _). b \<noteq> a) (fst (mem_now (mem_log s))) = fst (mem_now (mem_log s))"
    unfolding filter_id_conv using new m by (fastforce simp: memory_ok_def apart_def)
  then have "mem_now (?es @ [Rpc_Free a]) = mem_now (mem_log s)" using fr al by simp
  then show ?thesis using m cov fr by (simp add: shm_ok_def memory_ok_def)
qed

lemma alloc_tracked:
  assumes "shm_ok api s" "libraries_ok api" "a = rpcmem_alloc api (mem_log s) n" "a \<noteq> 0"
  obtains records where "RegisterAllocation a n i (tracker s) = (records, True)"
    "map_of (allocations s i) a = None"
    "shm_ok api (s\<lparr>mem_log := mem_log s @ [Rpc_Alloc a n],
       allocations := (allocations s)(i := (a, \<lparr>shared_memory_info = \<lparr>shm_fd = rpcmem_to_fd api a, shm_offset = 0, shm_total_size = n\<rparr>,
         clean_up_fns = []\<rparr>) # allocations s i),
       tracker := records\<rparr>)"
proof -
  have m: "memory_ok api s" and c: "contexts_ok api (context_map s) (next_record s) (mem_log s)"
    and cov: "all_covered (set (tracker s)) (allocations s) (context_map s)"
    using assms(1) by (simp_all add: shm_ok_def)
  have new: "apart (a, n) x" if "x \<in> ranges (tracker s)" for x
    using assms(2-4) m that by (simp add: libraries_ok_def memory_ok_def)
  have key: "a \<notin> fst ` set (tracker s)"
  proof
    assume "a \<in> fst ` set (tracker s)"
    then obtain r where "(a, r) \<in> set (tracker s)" by auto
    then have "(a, size_in_bytes r) \<in> ranges (tracker s)" by (force simp: ranges_def)
    then show False using new [of "(a, size_in_bytes r)"] by (simp add: apart_def)
  qed
  let ?r = "\<lparr>base_address = a, size_in_bytes = n, tracked_allocator = i\<rparr>"
  let ?ar = "\<lparr>shared_memory_info = \<lparr>shm_fd = rpcmem_to_fd api a, shm_offset = 0, shm_total_size = n\<rparr>, clean_up_fns = []\<rparr>"
  let ?al = "(allocations s)(i := (a, ?ar) # allocations s i)"
  obtain records where r: "RegisterAllocation a n i (tracker s) = (records, True)" "tracker_ok records"
      "set records = insert (a, ?r) (set (tracker s))"
    using RegisterAllocation_new [OF _ key] m unfolding memory_ok_def by metis
  have free: "map_of (allocations s j) a = None" for j
  proof (rule ccontr)
    assume "map_of (allocations s j) a \<noteq> None"
    then show False using m key by (force simp: memory_ok_def records_match_def)
  qed
  have rng: "ranges records = insert (a, n) (ranges (tracker s))" unfolding ranges_def r(3) by simp
  have sym: "apart x (a, n)" if "x \<in> ranges (tracker s)" for x using new [OF that] by (auto simp: apart_def)
  have "blocks_ok (ranges records)" using m new sym unfolding rng blocks_ok_def memory_ok_def by blast
  moreover have "records_match api (set records) ?al"
    using m free unfolding r(3) memory_ok_def records_match_def by (auto split: if_splits) fastforce+
  moreover have "all_covered (set records) ?al (context_map s)"
    by (rule all_covered_mono [OF cov]) (use r(3) free in \<open>auto split: if_splits\<close>)
  ultimately have "shm_ok api (s\<lparr>mem_log := mem_log s @ [Rpc_Alloc a n], allocations := ?al, tracker := records\<rparr>)"
    using m r(2) rng contexts_ok_alloc [OF c, of a n] by (simp add: shm_ok_def memory_ok_def)
  then show thesis using that r(1) free by blast
qed

lemma AllocImpl_ok:
  assumes "shm_ok api s" "libraries_ok api"
  shows "shm_ok api (snd (AllocImpl api i n s))"
proof (cases "rpcmem_loaded api \<and> n < 2 ^ 31 \<and> rpcmem_alloc api (mem_log s) n \<noteq> 0")
  case True
  let ?a = "rpcmem_alloc api (mem_log s) n"
  have ne: "?a \<noteq> 0" using True by blast
  have undone: "shm_ok api (s\<lparr>mem_log := (mem_log s @ [Rpc_Alloc ?a n]) @ [Rpc_Free ?a]\<rparr>)"
    by (rule alloc_undone [OF assms refl ne])
  obtain records where r: "RegisterAllocation ?a n i (tracker s) = (records, True)" "map_of (allocations s i) ?a = None"
    "shm_ok api (s\<lparr>mem_log := mem_log s @ [Rpc_Alloc ?a n],
       allocations := (allocations s)(i := (?a, \<lparr>shared_memory_info = \<lparr>shm_fd = rpcmem_to_fd api ?a, shm_offset = 0, shm_total_size = n\<rparr>,
         clean_up_fns = []\<rparr>) # allocations s i),
       tracker := records\<rparr>)"
    by (rule alloc_tracked [OF assms refl ne])
  show ?thesis
    using True undone r(3) by (simp add: AllocImpl_def Let_def r(1,2) emplace_def not_le)
qed (use assms(1) in \<open>auto simp: AllocImpl_def Let_def\<close>)

lemma FreeImpl_ok:
  assumes "shm_ok api s"
  shows "shm_ok api (snd (FreeImpl i a s))"
proof (cases "a = 0 \<or> map_of (allocations s i) a = None")
  case False
  then obtain ar where ar: "map_of (allocations s i) a = Some ar" "a \<noteq> 0" by auto
  have m: "memory_ok api s" and c: "contexts_ok api (context_map s) (next_record s) (mem_log s)"
    and cov: "all_covered (set (tracker s)) (allocations s) (context_map s)"
    using assms by (simp_all add: shm_ok_def)
  obtain r where r: "(a, r) \<in> set (tracker s)" "tracked_allocator r = i"
    using m ar(1) unfolding memory_ok_def records_match_def by blast
  have tr: "tracker_ok (tracker s)" "blocks_ok (ranges (tracker s))" using m by (simp_all add: memory_ok_def)
  define tr' where "tr' = fst (UnregisterAllocation a (tracker s))"
  define al' where "al' = (allocations s)(i := erase a (allocations s i))"
  define s1 where "s1 = s\<lparr>allocations := al', tracker := tr'\<rparr>"
  define s2 where "s2 = fold run_clean_up (clean_up_fns ar) s1"
  have tr': "tracker_ok tr'" "set tr' = {(k, q) \<in> set (tracker s). k \<noteq> a}"
    using UnregisterAllocation_ok tr(1) unfolding tr'_def by blast+
  have c1: "contexts_ok api (context_map s1) (next_record s1) (mem_log s1)" using c by (simp add: s1_def)
  note cl = clean_ups_ok [OF c1, of "clean_up_fns ar", folded s2_def]
  then obtain cm es where s2: "s2 = s1\<lparr>context_map := cm, mem_log := es\<rparr>" and ok2: "contexts_ok api cm (next_record s) es"
      "smaller (context_map s) cm" "fst (mem_now es) = fst (mem_now (mem_log s))"
    by (auto simp: cleans_def s1_def)
  have gone: "unregistered cm x rid" if "Unregister_Fn x rid \<in> set (clean_up_fns ar)" for x rid
    using cl that s2 by auto
  have cov2: "all_covered (set (tracker s)) (allocations s) cm" using all_covered_smaller [OF cov ok2(2)] .
  have out: "\<not> lies_in x (a, size_in_bytes r) \<and> covered (set tr') al' x (rec_id rec)"
    if h: "(d, rec) \<in> set cm" "(x, mh) \<in> set (mem_handles rec)" for d rec x mh
  proof -
    obtain k q ar' where q: "(k, q) \<in> set (tracker s)" "lies_in x (k, size_in_bytes q)"
        "map_of (allocations s (tracked_allocator q)) k = Some ar'" "Unregister_Fn x (rec_id rec) \<in> set (clean_up_fns ar')"
      by (rule coveredE [OF all_coveredD [OF cov2 h]])
    have ka: "k \<noteq> a"
    proof
      assume "k = a"
      then have "q = r" using tracker_entry_unique [OF tr(1)] q(1) r(1) by blast
      then have "Unregister_Fn x (rec_id rec) \<in> set (clean_up_fns ar)" using q(3,4) ar(1) r(2) \<open>k = a\<close> by simp
      then have "unregistered cm x (rec_id rec)" by (rule gone)
      then show False using h unfolding unregistered_def by (auto dest!: bspec [OF _ h(1)] simp: image_iff)
    qed
    then have "\<not> lies_in x (a, size_in_bytes r)" using range_entry [OF tr q(1) r(1) q(2)] by auto
    moreover have "covered (set tr') al' x (rec_id rec)"
      by (rule coveredI [OF _ q(2) _ q(4)]) (use q(1,3) ka tr'(2) in \<open>auto simp: al'_def\<close>)
    ultimately show ?thesis by blast
  qed
  have blk: "(a, size_in_bytes r) \<in> set (fst (mem_now es))"
    using m r(1) unfolding ok2(3) by (force simp: memory_ok_def ranges_def)
  have "\<forall>(h, d, x) \<in> held cm. \<not> lies_in x (a, size_in_bytes r)" using out by (auto elim!: heldE)
  note fr = contexts_ok_free [OF ok2(1) blk this]
  have "all_covered (set tr') al' cm" using out by (intro all_coveredI) blast
  moreover have "blocks_ok (ranges tr')"
    by (rule blocks_ok_subset [OF tr(2)]) (auto simp: ranges_def tr'(2))
  moreover have "set (fst (mem_now (es @ [Rpc_Free a]))) = ranges tr'"
    using fr ok2(3) m by (auto simp: memory_ok_def ranges_def tr'(2))
  moreover have "records_match api (set tr') al'"
    by (rule records_match_erase [OF _ tr'(2) al'_def]) (use m r tracker_entry_unique [OF tr(1)] in \<open>auto simp: memory_ok_def\<close>)
  ultimately have "shm_ok api (log_event (Rpc_Free a) s2)"
    using fr tr'(1) s2 by (simp add: shm_ok_def memory_ok_def s1_def)
  moreover have "snd (FreeImpl i a s) = log_event (Rpc_Free a) s2"
    using ar by (simp add: FreeImpl_def Let_def s2_def s1_def al'_def tr'_def)
  ultimately show ?thesis by simp
qed (use assms in \<open>auto simp: FreeImpl_def\<close>)

lemma AddQnnContextHandle_ok:
  assumes "shm_ok api s" "map_of (context_map s) c = None"
  shows "shm_ok api (snd (AddQnnContextHandle c s))"
proof -
  have "c \<notin> fst ` set (context_map s)" using assms(2) by (simp add: map_of_eq_None_iff)
  moreover have "\<forall>y \<in> set (context_map s). rec_id (snd y) < next_record s"
    using assms(1) by (fastforce simp: shm_ok_def contexts_ok_def)
  ultimately have "contexts_ok api ((c, \<lparr>rec_id = next_record s, mem_handles = []\<rparr>) # context_map s) (next_record s + 1) (mem_log s)"
    using assms(1) by (auto simp: shm_ok_def contexts_ok_def held_Cons less_Suc_eq)
  then show ?thesis
    using assms by (simp add: AddQnnContextHandle_def emplace_def shm_ok_def memory_ok_def all_covered_def)
qed

lemma all_covered_subset: "all_covered R al cm \<Longrightarrow> set cm' \<subseteq> set cm \<Longrightarrow> all_covered R al cm'"
  unfolding all_covered_def by blast

lemma ReleaseSpecificContextHandle_ok:
  assumes "shm_ok api s"
  shows "shm_ok api (ReleaseSpecificContextHandle c s)"
proof (cases "map_of (context_map s) c")
  case None
  then show ?thesis using assms by (simp add: ReleaseSpecificContextHandle_def shm_ok_def memory_ok_def)
next
  case (Some rec)
  then obtain cm1 cm2 where cm: "context_map s = cm1 @ (c, rec) # cm2" by (metis in_set_conv_decomp map_of_SomeD)
  have c: "contexts_ok api (cm1 @ (c, rec) # cm2) (next_record s) (mem_log s)" using assms cm by (simp add: shm_ok_def)
  have "erase c (context_map s) = cm1 @ cm2" unfolding cm by (rule erase_split) (use c in \<open>simp add: contexts_ok_def\<close>)
  moreover have "all_covered (set (tracker s)) (allocations s) (cm1 @ cm2)"
    by (rule all_covered_subset [of _ _ "context_map s"]) (use assms cm in \<open>auto simp: shm_ok_def\<close>)
  ultimately show ?thesis
    using assms Some destroy_one [OF c] by (simp add: ReleaseSpecificContextHandle_def shm_ok_def memory_ok_def)
qed

lemma ReleaseContext_ok:
  assumes "shm_ok api s"
  shows "shm_ok api (ReleaseContext s)"
  using assms destroy_all [of api "context_map s" "next_record s" "mem_log s"]
  by (simp add: ReleaseContext_def shm_ok_def memory_ok_def all_covered_def)

text \<open>What the lookup of a shared memory block returns.\<close>

lemma GetAllocationSharedMemoryInfo_found:
  assumes "memory_ok api s" "(k, r) \<in> set (tracker s)" "lies_in x (k, size_in_bytes r)"
  shows "GetAllocationSharedMemoryInfo x s
    = Inr \<lparr>shm_fd = rpcmem_to_fd api k, shm_offset = x - k, shm_total_size = size_in_bytes r\<rparr>"
proof -
  have tr: "tracker_ok (tracker s)" "blocks_ok (ranges (tracker s))" using assms(1) by (simp_all add: memory_ok_def)
  have k: "base_address r = k" using tracker_ok_base [OF tr(1) assms(2)] .
  have l: "LookUp x (tracker s) = Some r" using LookUp_iff [OF tr] assms(2,3) k by simp
  obtain ar where "map_of (allocations s (tracked_allocator r)) k = Some ar"
      "shared_memory_info ar = \<lparr>shm_fd = rpcmem_to_fd api k, shm_offset = 0, shm_total_size = size_in_bytes r\<rparr>"
    using assms(1,2) unfolding memory_ok_def records_match_def by blast
  then show ?thesis
    using l k by (simp add: GetAllocationSharedMemoryInfo_def GetAllocationSharedMemoryInfoForThisAllocator_def)
qed

lemma GetAllocationSharedMemoryInfo_Inr:
  assumes "memory_ok api s" "GetAllocationSharedMemoryInfo x s = Inr info"
  obtains k r where "(k, r) \<in> set (tracker s)" "lies_in x (k, size_in_bytes r)"
    "info = \<lparr>shm_fd = rpcmem_to_fd api k, shm_offset = x - k, shm_total_size = size_in_bytes r\<rparr>"
proof -
  have tr: "tracker_ok (tracker s)" "blocks_ok (ranges (tracker s))" using assms(1) by (simp_all add: memory_ok_def)
  obtain r where "LookUp x (tracker s) = Some r"
    using assms(2) by (cases "LookUp x (tracker s)") (simp_all add: GetAllocationSharedMemoryInfo_def)
  then have r: "(base_address r, r) \<in> set (tracker s)" "lies_in x (base_address r, size_in_bytes r)"
    using LookUp_iff [OF tr] by blast+
  show thesis using that [OF r] GetAllocationSharedMemoryInfo_found [OF assms(1) r] assms(2) by simp
qed

lemma AddAllocationCleanUp_found:
  assumes "memory_ok api s" "(k, r) \<in> set (tracker s)" "lies_in x (k, size_in_bytes r)"
  obtains ar where "map_of (allocations s (tracked_allocator r)) k = Some ar"
    "AddAllocationCleanUp x (Unregister_Fn y rid) s = (Inr (), s\<lparr>allocations := (allocations s)(tracked_allocator r :=
       assign k (ar\<lparr>clean_up_fns := clean_up_fns ar @ [Unregister_Fn y rid]\<rparr>) (allocations s (tracked_allocator r)))\<rparr>)"
proof -
  have tr: "tracker_ok (tracker s)" "blocks_ok (ranges (tracker s))" using assms(1) by (simp_all add: memory_ok_def)
  have k: "base_address r = k" using tracker_ok_base [OF tr(1) assms(2)] .
  have l: "LookUp x (tracker s) = Some r" using LookUp_iff [OF tr] assms(2,3) k by simp
  obtain ar where "map_of (allocations s (tracked_allocator r)) k = Some ar"
    using assms(1,2) unfolding memory_ok_def records_match_def by blast
  then show thesis using that l k by (simp add: AddAllocationCleanUp_def AddAllocationCleanUpForThisAllocator_def)
qed

lemma memory_ok_context_map [simp]: "memory_ok api (s\<lparr>context_map := cm\<rparr>) = memory_ok api s"
  by (simp add: memory_ok_def)

lemma registered_ok:
  assumes "shm_ok api s" "context_map s = cm1 @ (c, rec) # cm2" "x \<notin> fst ` set (mem_handles rec)"
    and "(k, r) \<in> set (tracker s)" "lies_in x (k, size_in_bytes r)"
    and "safe_event api (Mem_Register (mem_handle m) c x d) (mem_now (mem_log s))"
    and "s1 = s\<lparr>context_map := cm1 @ (c, rec\<lparr>mem_handles := (x, m) # mem_handles rec\<rparr>) # cm2,
               mem_log := mem_log s @ [Mem_Register (mem_handle m) c x d]\<rparr>"
  shows "shm_ok api (snd (AddAllocationCleanUp x (Unregister_Fn x (rec_id rec)) s1))"
proof -
  let ?i = "tracked_allocator r" and ?cm = "cm1 @ (c, rec\<lparr>mem_handles := (x, m) # mem_handles rec\<rparr>) # cm2"
  have m: "memory_ok api s" and cov: "all_covered (set (tracker s)) (allocations s) (context_map s)"
    and c: "contexts_ok api (cm1 @ (c, rec) # cm2) (next_record s) (mem_log s)"
    using assms(1,2) by (simp_all add: shm_ok_def)
  note reg = register_one [OF c assms(3,6)]
  have m1: "memory_ok api s1" using m reg assms(7) by (simp add: memory_ok_def)
  have e: "tracker s1 = tracker s" "allocations s1 = allocations s" "context_map s1 = ?cm"
    "next_record s1 = next_record s" "mem_log s1 = mem_log s @ [Mem_Register (mem_handle m) c x d]"
    using assms(7) by simp_all
  obtain ar where ar: "map_of (allocations s1 ?i) k = Some ar"
    "AddAllocationCleanUp x (Unregister_Fn x (rec_id rec)) s1 = (Inr (), s1\<lparr>allocations := (allocations s1)(?i :=
       assign k (ar\<lparr>clean_up_fns := clean_up_fns ar @ [Unregister_Fn x (rec_id rec)]\<rparr>) (allocations s1 ?i))\<rparr>)"
    by (rule AddAllocationCleanUp_found [OF m1]) (use assms(4,5) e in auto)
  let ?al = "(allocations s)(?i := assign k (ar\<lparr>clean_up_fns := clean_up_fns ar @ [Unregister_Fn x (rec_id rec)]\<rparr>) (allocations s ?i))"
  have grow: "\<exists>ar'. map_of (?al j) b = Some ar' \<and> set (clean_up_fns a) \<subseteq> set (clean_up_fns ar')" if "map_of (allocations s j) b = Some a" for j b a
    using that ar(1) e by auto
  have "records_match api (set (tracker s)) ?al"
    using m ar(1) e unfolding memory_ok_def records_match_def by (auto split: if_splits) fastforce+
  then have "memory_ok api (s1\<lparr>allocations := ?al\<rparr>)" using m1 e by (simp add: memory_ok_def)
  moreover have "all_covered (set (tracker s)) ?al ?cm"
  proof (rule all_coveredI)
    fix d rec' y mh assume in_cm: "(d, rec') \<in> set ?cm" and y: "(y, mh) \<in> set (mem_handles rec')"
    have here: "covered (set (tracker s)) ?al x (rec_id rec)"
      by (rule coveredI [OF assms(4,5), where ar = "ar\<lparr>clean_up_fns := clean_up_fns ar @ [Unregister_Fn x (rec_id rec)]\<rparr>"]) simp_all
    have old: "covered (set (tracker s)) ?al y (rec_id q)" if "(d, q) \<in> set (context_map s)" "(y, mh) \<in> set (mem_handles q)" for q
      by (rule covered_mono [OF all_coveredD [OF cov that] subset_refl grow])
    show "covered (set (tracker s)) ?al y (rec_id rec')"
      using in_cm y here old [of rec'] old [of rec] assms(2) by auto
  qed
  ultimately show ?thesis using reg ar(2) e by (simp add: shm_ok_def)
qed

lemma GetOrRegister_cases:
  assumes "GetOrRegister api ty c x t hs s = (r, (hs', es'))"
  shows "(hs' = hs \<and> es' = mem_log s \<and> (\<forall>h. r \<noteq> Inr (h, True)))
    \<or> (\<exists>m info d. map_of hs x = None \<and> IsHtpSharedMemoryAllocator ty \<and> GetAllocationSharedMemoryInfo x s = Inr info
         \<and> memRegister api (mem_log s) c d = Inr (mem_handle m) \<and> (\<exists>ds rank dt. d = htp_descriptor ds rank dt info)
         \<and> r = Inr (mem_handle m, True) \<and> hs' = (x, m) # hs \<and> es' = mem_log s @ [Mem_Register (mem_handle m) c x d])"
proof (cases "\<exists>info rank ds dt n h. GetAllocationSharedMemoryInfo x s = Inr info \<and> map_of hs x = None \<and> IsHtpSharedMemoryAllocator ty
    \<and> and_then (GetQnnTensorRank t) (\<lambda>rank. and_then (GetQnnTensorDims t) (\<lambda>ds.
              and_then (GetQnnTensorDataType t) (\<lambda>dt.
              and_then (GetQnnTensorDataSizeInBytes t) (\<lambda>n. Inr (rank, ds, dt, n))))) = Inr (rank, ds, dt, n)
    \<and> memRegister api (mem_log s) c (htp_descriptor ds rank dt info) = Inr h")
  case True
  then obtain info rank ds dt n h where new: "GetAllocationSharedMemoryInfo x s = Inr info" "map_of hs x = None"
    "IsHtpSharedMemoryAllocator ty" "and_then (GetQnnTensorRank t) (\<lambda>rank. and_then (GetQnnTensorDims t) (\<lambda>ds.
              and_then (GetQnnTensorDataType t) (\<lambda>dt.
              and_then (GetQnnTensorDataSizeInBytes t) (\<lambda>n. Inr (rank, ds, dt, n))))) = Inr (rank, ds, dt, n)"
    "memRegister api (mem_log s) c (htp_descriptor ds rank dt info) = Inr h"
    by blast
  let ?m = "\<lparr>registered_tensor_data_size = n, mem_handle = h\<rparr>"
  have "r = Inr (mem_handle ?m, True)" "hs' = (x, ?m) # hs"
      "es' = mem_log s @ [Mem_Register (mem_handle ?m) c x (htp_descriptor ds rank dt info)]"
    using assms new by (simp_all add: GetOrRegister_def emplace_def)
  then show ?thesis using new by (intro disjI2 exI [of _ ?m] exI [of _ info] exI [of _ "htp_descriptor ds rank dt info"]) auto
next
  case False
  then show ?thesis
    using assms by (auto simp: GetOrRegister_def Let_def split: sum.splits option.splits if_splits)
qed

lemma GetOrRegisterContextMemHandle_ok:
  assumes "shm_ok api s" "libraries_ok api"
  shows "shm_ok api (snd (GetOrRegisterContextMemHandle api ty c x t s))"
proof (cases "map_of (context_map s) c")
  case None
  then show ?thesis using assms(1) by (simp add: GetOrRegisterContextMemHandle_def)
next
  case (Some rec)
  obtain cm1 cm2 where cm: "context_map s = cm1 @ (c, rec) # cm2" using Some by (metis in_set_conv_decomp map_of_SomeD)
  have dist: "distinct (map fst (cm1 @ (c, rec) # cm2))" using assms(1) cm by (simp add: shm_ok_def contexts_ok_def)
  have m: "memory_ok api s" using assms(1) by (simp add: shm_ok_def)
  obtain r hs es where g: "GetOrRegister api ty c x t (mem_handles rec) s = (r, (hs, es))"
    by (cases "GetOrRegister api ty c x t (mem_handles rec) s") auto
  from GetOrRegister_cases [OF g] show ?thesis
  proof (elim disjE exE conjE)
    assume "hs = mem_handles rec" "es = mem_log s" and no: "\<forall>h. r \<noteq> Inr (h, True)"
    moreover have "assign c rec (context_map s) = context_map s" by (simp add: cm assign_split [OF dist])
    ultimately have "s\<lparr>context_map := assign c (rec\<lparr>mem_handles := hs\<rparr>) (context_map s), mem_log := es\<rparr> = s" by simp
    then show ?thesis
      using assms(1) Some g no by (cases r) (auto simp: GetOrRegisterContextMemHandle_def split: prod.splits)
  next
    fix mh info d ds rank dt
    assume desc: "d = htp_descriptor ds rank dt info" and new: "map_of (mem_handles rec) x = None" "IsHtpSharedMemoryAllocator ty" "GetAllocationSharedMemoryInfo x s = Inr info"
      "memRegister api (mem_log s) c d = Inr (mem_handle mh)" "r = Inr (mem_handle mh, True)" "hs = (x, mh) # mem_handles rec"
      "es = mem_log s @ [Mem_Register (mem_handle mh) c x d]"
    obtain k q where q: "(k, q) \<in> set (tracker s)" "lies_in x (k, size_in_bytes q)"
      "info = \<lparr>shm_fd = rpcmem_to_fd api k, shm_offset = x - k, shm_total_size = size_in_bytes q\<rparr>"
      by (rule GetAllocationSharedMemoryInfo_Inr [OF m new(3)])
    have x: "x \<notin> fst ` set (mem_handles rec)" using new(1) by (simp add: map_of_eq_None_iff)
    have "(k, size_in_bytes q) \<in> set (fst (mem_now (mem_log s)))" using m q(1) by (force simp: memory_ok_def ranges_def)
    moreover have "mem_handle mh \<notin> fst ` set (snd (mem_now (mem_log s)))"
      using assms(2) new(4) unfolding libraries_ok_def by blast
    ultimately have safe: "safe_event api (Mem_Register (mem_handle mh) c x d) (mem_now (mem_log s))"
      using q desc by (cases "mem_now (mem_log s)") (auto simp: htp_descriptor_def)
    let ?s1 = "s\<lparr>context_map := cm1 @ (c, rec\<lparr>mem_handles := (x, mh) # mem_handles rec\<rparr>) # cm2, mem_log := es\<rparr>"
    have ok: "shm_ok api (snd (AddAllocationCleanUp x (Unregister_Fn x (rec_id rec)) ?s1))"
      by (rule registered_ok [OF assms(1) cm x q(1,2) safe]) (simp add: new(7))
    obtain r2 s2 where a: "AddAllocationCleanUp x (Unregister_Fn x (rec_id rec)) ?s1 = (r2, s2)"
      by (cases "AddAllocationCleanUp x (Unregister_Fn x (rec_id rec)) ?s1") blast
    have "GetOrRegisterContextMemHandle api ty c x t s = then_s (r2, s2) (\<lambda>_ s. (Inr (mem_handle mh), s))"
      using Some g new(2,5,6) a by (simp add: GetOrRegisterContextMemHandle_def cm assign_split [OF dist])
    then show ?thesis using ok a by (cases r2) simp_all
  qed
qed

section \<open>Reachable states\<close>

text \<open>
  Sessions allocate and free, contexts come and go, and models ask for handles, in any order.  The library hands out a context
  handle that is not in use.
\<close>

inductive shm_reach :: "shm_api \<Rightarrow> QnnAllocatorType \<Rightarrow> shm_state \<Rightarrow> bool" for api ty where
  start: "tracker s = [] \<Longrightarrow> allocations s = (\<lambda>_. []) \<Longrightarrow> context_map s = [] \<Longrightarrow> mem_log s = [] \<Longrightarrow> shm_reach api ty s"
| alloc: "shm_reach api ty s \<Longrightarrow> shm_reach api ty (snd (AllocImpl api i n s))"
| free: "shm_reach api ty s \<Longrightarrow> shm_reach api ty (snd (FreeImpl i a s))"
| add_context: "shm_reach api ty s \<Longrightarrow> \<not> HasContextHandle c s \<Longrightarrow> shm_reach api ty (snd (AddQnnContextHandle c s))"
| release_context: "shm_reach api ty s \<Longrightarrow> shm_reach api ty (ReleaseSpecificContextHandle c s)"
| release_all_contexts: "shm_reach api ty s \<Longrightarrow> shm_reach api ty (ReleaseContext s)"
| get_handle: "shm_reach api ty s \<Longrightarrow> shm_reach api ty (snd (GetOrRegisterContextMemHandle api ty c x t s))"

lemma shm_reach_ok:
  assumes "libraries_ok api"
  shows "shm_reach api ty s \<Longrightarrow> shm_ok api s"
proof (induction rule: shm_reach.induct)
  case (start s)
  then show ?case
    by (simp add: shm_ok_def memory_ok_def contexts_ok_def all_covered_def tracker_ok_def ranges_def blocks_ok_def
        records_match_def held_def mem_now_def)
next
  case (add_context s c)
  then show ?case using AddQnnContextHandle_ok by (simp add: HasContextHandle_def)
qed (simp_all add: AllocImpl_ok FreeImpl_ok ReleaseSpecificContextHandle_ok ReleaseContext_ok GetOrRegisterContextMemHandle_ok assms)

section \<open>Properties\<close>

text \<open>
  The witnesses use a library that hands out the first aligned address above all live blocks and the first handle above all
  registered ones.
\<close>

definition sample_api :: shm_api where
  "sample_api =
     \<lparr>rpcmem_loaded = True,
      rpcmem_alloc = \<lambda>es n. 64 * (1 + sum_list (map (\<lambda>(a, k). a + k) (fst (mem_now es)))),
      rpcmem_to_fd = int,
      memRegister = \<lambda>es c d. Inr (1 + sum_list (map fst (snd (mem_now es))))\<rparr>"

lemma sample_api_ok: "libraries_ok sample_api"
proof -
  have 1: "apart (rpcmem_alloc sample_api es n, n) x" if "x \<in> set (fst (mem_now es))" for es n x
  proof -
    have "fst x + snd x \<in> set (map (\<lambda>(a, k). a + k) (fst (mem_now es)))" using that by (force simp: case_prod_beta)
    then have "fst x + snd x \<le> sum_list (map (\<lambda>(a, k). a + k) (fst (mem_now es)))" by (rule member_le_sum_list) simp
    then show ?thesis by (simp add: apart_def sample_api_def)
  qed
  have 2: "1 + sum_list (map fst (snd (mem_now es))) \<notin> fst ` set (snd (mem_now es))" for es
  proof
    assume "1 + sum_list (map fst (snd (mem_now es))) \<in> fst ` set (snd (mem_now es))"
    then have "1 + sum_list (map fst (snd (mem_now es))) \<in> set (map fst (snd (mem_now es)))" by simp
    from member_le_sum_list [OF this] show False by simp
  qed
  show ?thesis unfolding libraries_ok_def using 1 2 by (auto simp: sample_api_def)
qed

definition sample_start :: shm_state where
  "sample_start = \<lparr>tracker = [], allocations = \<lambda>_. [], context_map = [], contexts = [], ep_context_handle_map = [], next_record = 0, mem_log = []\<rparr>"

definition sample_tensor :: Qnn_Tensor_t where
  "sample_tensor =
     Tensor_V1 \<lparr>t_id = 1, t_name = Some ''x'', t_type = QNN_TENSOR_TYPE_APP_WRITE, t_dataFormat = 0, t_dataType = QNN_DATATYPE_UINT_8,
       t_quantizeParams = QNN_QUANTIZE_PARAMS_INIT, t_rank = 1, t_dimensions = Some [4], t_memType = QNN_TENSORMEMTYPE_MEMHANDLE,
       t_storage = Mem_Handle 0\<rparr>"

text \<open>A block of 100 bytes, a context 7 with a handle for the address 10 bytes into the block; then the block is freed.\<close>

definition sample_used :: shm_state where
  "sample_used = snd (GetOrRegisterContextMemHandle sample_api HTP_SHARED 7 74 sample_tensor
     (snd (AddQnnContextHandle 7 (snd (AllocImpl sample_api 0 100 sample_start)))))"

lemma sample_size: "GetQnnTensorDataSizeInBytes sample_tensor = Inr 4"
  by (simp add: sample_tensor_def GetQnnTensorDataSizeInBytes_def dims_span_def tensor_defs body_of_def first_n_def
      GetQnnTensorDataSizeInBytes_shape_def GetQnnTensorDataSizeInBytes_elems_def GetElementSizeByType_def qnn_type_sizes_def
      safe_size_def size_max_def)

lemma sample_used_eq:
  "sample_used = \<lparr>tracker = [(64, \<lparr>base_address = 64, size_in_bytes = 100, tracked_allocator = 0\<rparr>)],
     allocations = (\<lambda>_. [])(0 := [(64, \<lparr>shared_memory_info = \<lparr>shm_fd = 64, shm_offset = 0, shm_total_size = 100\<rparr>,
                                       clean_up_fns = [Unregister_Fn 74 0]\<rparr>)]),
     context_map = [(7, \<lparr>rec_id = 0, mem_handles = [(74, \<lparr>registered_tensor_data_size = 4, mem_handle = 1\<rparr>)]\<rparr>)],
     contexts = [7], ep_context_handle_map = [], next_record = 1,
     mem_log = [Rpc_Alloc 64 100, Mem_Register 1 7 74 (htp_descriptor (Some [4]) 1 QNN_DATATYPE_UINT_8
                  \<lparr>shm_fd = 64, shm_offset = 10, shm_total_size = 100\<rparr>)]\<rparr>"
proof -
  have t: "GetQnnTensorRank sample_tensor = Inr 1" "GetQnnTensorDims sample_tensor = Inr (Some [4])"
      "GetQnnTensorDataType sample_tensor = Inr QNN_DATATYPE_UINT_8"
    by (simp_all add: sample_tensor_def tensor_defs body_of_def)
  have a: "snd (AllocImpl sample_api 0 100 sample_start) = sample_start\<lparr>mem_log := [Rpc_Alloc 64 100],
      tracker := [(64, \<lparr>base_address = 64, size_in_bytes = 100, tracked_allocator = 0\<rparr>)],
      allocations := (\<lambda>_. [])(0 := [(64, \<lparr>shared_memory_info = \<lparr>shm_fd = 64, shm_offset = 0, shm_total_size = 100\<rparr>, clean_up_fns = []\<rparr>)])\<rparr>"
    by (simp add: AllocImpl_def sample_api_def sample_start_def mem_now_def IsAligned_def AllocationAlignment_def
        RegisterAllocation_def emplace_def)
  show ?thesis
    unfolding sample_used_def a
    by (simp add: AddQnnContextHandle_def sample_start_def emplace_def GetOrRegisterContextMemHandle_def GetOrRegister_def t sample_size
        IsHtpSharedMemoryAllocator_def GetAllocationSharedMemoryInfo_def GetAllocationSharedMemoryInfoForThisAllocator_def LookUp_def
        sample_api_def mem_now_def AddAllocationCleanUp_def AddAllocationCleanUpForThisAllocator_def assign_def)
qed

lemma sample_reach: "shm_reach sample_api HTP_SHARED sample_used"
proof -
  have "shm_reach sample_api HTP_SHARED sample_start" by (rule shm_reach.start) (simp_all add: sample_start_def)
  then have "shm_reach sample_api HTP_SHARED (snd (AllocImpl sample_api 0 100 sample_start))" by (rule shm_reach.alloc)
  moreover have "\<not> HasContextHandle 7 (snd (AllocImpl sample_api 0 100 sample_start))"
    by (simp add: HasContextHandle_def AllocImpl_def sample_start_def sample_api_def Let_def split: prod.split)
  ultimately show ?thesis unfolding sample_used_def by (intro shm_reach.get_handle shm_reach.add_context)
qed

text \<open>
  C5.  Memory shared with the accelerator is used safely, whatever sessions, contexts and models do in whatever order.  A block
  is freed only while no context has a handle for an address in it; a handle is registered for a live block with the block's
  file descriptor, size and the right offset; each handle is released exactly once; a context is freed only after its handles.
  At every moment each registered handle lies in a live block.
\<close>

theorem shared_memory_is_safe:
  assumes "libraries_ok api" "shm_reach api ty s"
  shows "safe_log api (mem_log s)
       \<and> (\<forall>(h, c, x) \<in> set (snd (mem_now (mem_log s))). \<exists>b \<in> set (fst (mem_now (mem_log s))). lies_in x b)"
proof -
  have ok: "shm_ok api s" by (rule shm_reach_ok [OF assms])
  have "\<exists>b \<in> set (fst (mem_now (mem_log s))). lies_in x b" if reg: "(h, c, x) \<in> set (snd (mem_now (mem_log s)))" for h c x
  proof -
    have "(h, c, x) \<in> held (context_map s)" using ok reg by (simp add: shm_ok_def contexts_ok_def)
    then obtain rec m where m: "(c, rec) \<in> set (context_map s)" "(x, m) \<in> set (mem_handles rec)" by (rule heldE)
    have "covered (set (tracker s)) (allocations s) x (rec_id rec)"
      using ok m by (intro all_coveredD [of _ _ "context_map s"]) (simp_all add: shm_ok_def)
    then obtain k r where "(k, r) \<in> set (tracker s)" "lies_in x (k, size_in_bytes r)" by (rule coveredE)
    then show ?thesis using ok by (force simp: shm_ok_def memory_ok_def ranges_def)
  qed
  then show ?thesis using ok by (auto simp: shm_ok_def contexts_ok_def)
qed

theorem shared_memory_is_safe_witness:
  "safe_log sample_api (mem_log (snd (FreeImpl 0 64 sample_used)))
   \<and> drop 2 (mem_log (snd (FreeImpl 0 64 sample_used))) = [Mem_DeRegister 1, Rpc_Free 64]"
proof -
  have "drop 2 (mem_log (snd (FreeImpl 0 64 sample_used))) = [Mem_DeRegister 1, Rpc_Free 64]"
    by (simp add: sample_used_eq FreeImpl_def Let_def run_clean_up_def Unregister_def)
  then show ?thesis using shared_memory_is_safe [OF sample_api_ok shm_reach.free [OF sample_reach, of 0 64]] by simp
qed

text \<open>
  C19.  The tracker answers for every address inside every live block and for no other address.  In every reachable state
  \<open>GetAllocationSharedMemoryInfo\<close> succeeds exactly for the addresses inside a live block, and returns the file descriptor
  and the size of that block and the offset of the address in it.
\<close>

theorem tracker_refines_live_blocks:
  assumes "libraries_ok api" "shm_reach api ty s"
  shows "(IsAllocationTracked x s \<longleftrightarrow> (\<exists>b \<in> set (fst (mem_now (mem_log s))). lies_in x b))
    \<and> (\<forall>b \<in> set (fst (mem_now (mem_log s))). lies_in x b \<longrightarrow>
         GetAllocationSharedMemoryInfo x s = Inr \<lparr>shm_fd = rpcmem_to_fd api (fst b), shm_offset = x - fst b, shm_total_size = snd b\<rparr>)"
proof -
  have m: "memory_ok api s" using shm_reach_ok [OF assms] by (simp add: shm_ok_def)
  then have tr: "tracker_ok (tracker s)" "blocks_ok (ranges (tracker s))" and b: "set (fst (mem_now (mem_log s))) = ranges (tracker s)"
    by (simp_all add: memory_ok_def)
  have "IsAllocationTracked x s \<longleftrightarrow> (\<exists>b \<in> ranges (tracker s). lies_in x b)"
  proof
    assume "IsAllocationTracked x s"
    then obtain r where "LookUp x (tracker s) = Some r" by (auto simp: IsAllocationTracked_def)
    then show "\<exists>b \<in> ranges (tracker s). lies_in x b" using LookUp_iff [OF tr] by (force simp: ranges_def)
  next
    assume "\<exists>b \<in> ranges (tracker s). lies_in x b"
    then obtain k r where "(k, r) \<in> set (tracker s)" "lies_in x (k, size_in_bytes r)" by (auto simp: ranges_def)
    then have "LookUp x (tracker s) = Some r" using LookUp_iff [OF tr] tracker_ok_base [OF tr(1)] by metis
    then show "IsAllocationTracked x s" by (simp add: IsAllocationTracked_def)
  qed
  then show ?thesis using GetAllocationSharedMemoryInfo_found [OF m] unfolding b by (auto simp: ranges_def)
qed

theorem tracker_refines_live_blocks_witness:
  "GetAllocationSharedMemoryInfo 163 sample_used = Inr \<lparr>shm_fd = 64, shm_offset = 99, shm_total_size = 100\<rparr>
   \<and> \<not> IsAllocationTracked 164 sample_used"
proof -
  have b: "fst (mem_now (mem_log sample_used)) = [(64, 100)]" by (simp add: sample_used_eq mem_now_def)
  show ?thesis
    using tracker_refines_live_blocks [OF sample_api_ok sample_reach, of 163] tracker_refines_live_blocks [OF sample_api_ok sample_reach, of 164]
    unfolding b by (simp add: lies_in_def sample_api_def)
qed



text \<open>
  C40.  Adding a context that the manager already has is refused, but the rejected record owns the handle as well and frees the
  context when it is destroyed: the map keeps a context that the library has freed, with its memory handles still registered.
\<close>

theorem adding_a_context_twice_frees_it:
  assumes "libraries_ok api" "shm_reach api ty s" "(h, c, x) \<in> set (snd (mem_now (mem_log s)))"
  shows "\<not> is_ok (fst (AddQnnContextHandle c s)) \<and> HasContextHandle c (snd (AddQnnContextHandle c s))
    \<and> last (mem_log (snd (AddQnnContextHandle c s))) = Context_Free c \<and> \<not> safe_log api (mem_log (snd (AddQnnContextHandle c s)))"
proof -
  have "(h, c, x) \<in> held (context_map s)" using shm_reach_ok [OF assms(1,2)] assms(3) by (simp add: shm_ok_def contexts_ok_def)
  then have "map_of (context_map s) c \<noteq> None" unfolding map_of_eq_None_iff by (simp add: held_context)
  moreover have "\<not> safe_event api (Context_Free c) (mem_now (mem_log s))"
    using assms(3) by (cases "mem_now (mem_log s)") (auto intro!: bexI [of _ "(h, c, x)"])
  ultimately show ?thesis
    by (auto simp: AddQnnContextHandle_def HasContextHandle_def destroy_record_def Clear_def safe_log_snoc)
qed

theorem adding_a_context_twice_frees_it_witness:
  "\<not> safe_log sample_api (mem_log (snd (AddQnnContextHandle 7 sample_used)))"
proof -
  have "(1, 7, 74) \<in> set (snd (mem_now (mem_log sample_used)))" by (simp add: sample_used_eq mem_now_def)
  from adding_a_context_twice_frees_it [OF sample_api_ok sample_reach this] show ?thesis by blast
qed

end
