(* ===== verification/Qdq_Selector.thy ===== *)
theory Qdq_Selector
  imports Partition Qnn_Tensor
begin

text \<open>
  Forming node units: \<open>builder/qdq_node_group_selector.cc\<close> groups an operator with the DequantizeLinear (DQ) nodes in front of it
  and the QuantizeLinear (Q) nodes behind it, and \<open>GetAllOrtNodeUnits\<close> builds the units and the map from nodes to units that
  grouping and partitioning work on.

  The graph is that of \<open>Partition\<close>, extended by the further calls of the C API the selectors make.  A reply \<open>Inl _\<close> is a failing
  status.  A null \<open>OrtValueInfo\<close> is \<^const>\<open>None\<close>; passing it on where the code does not test it is undefined behaviour, as is an
  index outside a vector.  \<open>Ort::ConstNode::GetOperatorType\<close> throws when the call fails.

  A float is a real number, an infinity or NaN; products of finite floats are exact.
\<close>

section \<open>Floats\<close>

datatype fval = Num real | Pos_Inf | Neg_Inf | NaN

fun f_le :: "fval \<Rightarrow> fval \<Rightarrow> bool" where
  "f_le NaN _ = False"
| "f_le _ NaN = False"
| "f_le Neg_Inf _ = True"
| "f_le _ Pos_Inf = True"
| "f_le (Num a) (Num b) = (a \<le> b)"
| "f_le _ _ = False"

definition f_pos :: "fval \<Rightarrow> bool" where
  "f_pos x = (case x of Num r \<Rightarrow> r > 0 | Pos_Inf \<Rightarrow> True | _ \<Rightarrow> False)"

definition f_eq :: "fval \<Rightarrow> fval \<Rightarrow> bool" where
  "f_eq x y = (x \<noteq> NaN \<and> x = y)"

definition f_mul :: "fval \<Rightarrow> real \<Rightarrow> fval" where
  "f_mul x r =
     (case x of
        Num a \<Rightarrow> Num (a * r)
      | Pos_Inf \<Rightarrow> (if r > 0 then Pos_Inf else if r < 0 then Neg_Inf else NaN)
      | Neg_Inf \<Rightarrow> (if r > 0 then Neg_Inf else if r < 0 then Pos_Inf else NaN)
      | NaN \<Rightarrow> NaN)"

definition float_max :: real where
  "float_max = (2 - 1 / 2 ^ 23) * 2 ^ 127"

section \<open>The graph interface\<close>

record tensor_info =
  tensor_elem_type :: "ONNXTensorElementDataType result"
  tensor_dims :: "int list result"
  tensor_has_shape :: bool

record ort_value =
  value_type :: "ONNXTensorElementDataType result"
  value_dims :: "int list result"
  value_data :: "byte list option result"

datatype attr_value = A_Float fval | A_Int int | A_Other

record qdq_graph = Partition.ort_graph +
  Node_GetOperatorType :: "node \<Rightarrow> string result"
  Node_GetDomain :: "node \<Rightarrow> string result"
  Node_GetSinceVersion :: "node \<Rightarrow> int result"
  Node_GetAttributeByName :: "node \<Rightarrow> string \<Rightarrow> attr_value option"
  GetValueInfoName :: "valueinfo \<Rightarrow> string result"
  ValueInfo_TensorInfo :: "valueinfo \<Rightarrow> tensor_info option result"
  ValueInfo_IsGraphOutput :: "valueinfo \<Rightarrow> bool result"
  ValueInfo_IsConstantInitializer :: "valueinfo \<Rightarrow> bool result"
  Graph_GetInitializers :: "valueinfo list result"
  ValueInfo_GetInitializerValue :: "valueinfo \<Rightarrow> ort_value option result"
  float_bits :: "32 word \<Rightarrow> fval"
  double_bits :: "64 word \<Rightarrow> fval"

text \<open>
  \<open>on_fail r d f\<close> is a call of the C API whose failure is answered by \<open>d\<close>; \<open>check_then c k\<close> is \<open>if (!c) return false; k\<close>.
\<close>

definition on_fail :: "'a result \<Rightarrow> 'b \<Rightarrow> ('a \<Rightarrow> 'b) \<Rightarrow> 'b" where
  "on_fail r d f = (case r of Inl _ \<Rightarrow> d | Inr x \<Rightarrow> f x)"

definition check_then :: "bool result \<Rightarrow> bool result \<Rightarrow> bool result" where
  "check_then c k = and_then c (\<lambda>b. if b then k else Inr False)"

definition nonnull :: "'a option \<Rightarrow> 'a result" where
  "nonnull p = (case p of None \<Rightarrow> Inl (Undefined_Behaviour ''null pointer'') | Some x \<Rightarrow> Inr x)"

definition vec_at :: "'a list \<Rightarrow> nat \<Rightarrow> 'a result" where
  "vec_at xs i = (if i < length xs then Inr (xs ! i) else Inl (Undefined_Behaviour ''index out of range''))"

definition OperatorType :: "('g) qdq_graph_scheme \<Rightarrow> node \<Rightarrow> string result" where
  "OperatorType g n = (case Node_GetOperatorType g n of Inl _ \<Rightarrow> Inl (Thrown ''Ort::Exception'') | Inr s \<Rightarrow> Inr s)"

definition Attr_float :: "('g) qdq_graph_scheme \<Rightarrow> node \<Rightarrow> string \<Rightarrow> fval \<Rightarrow> fval" where
  "Attr_float g n key def_val = (case Node_GetAttributeByName g n key of Some (A_Float v) \<Rightarrow> v | _ \<Rightarrow> def_val)"

definition Attr_int64 :: "('g) qdq_graph_scheme \<Rightarrow> node \<Rightarrow> string \<Rightarrow> int \<Rightarrow> int" where
  "Attr_int64 g n key def_val = (case Node_GetAttributeByName g n key of Some (A_Int v) \<Rightarrow> v | _ \<Rightarrow> def_val)"

definition HasAttr :: "('g) qdq_graph_scheme \<Rightarrow> node \<Rightarrow> string \<Rightarrow> bool" where
  "HasAttr g n key = (Node_GetAttributeByName g n key \<noteq> None)"

section \<open>Element types and shapes\<close>

definition GetDataTypeFromValueInfo :: "('g) qdq_graph_scheme \<Rightarrow> valueinfo \<Rightarrow> ONNXTensorElementDataType option" where
  "GetDataTypeFromValueInfo g v =
     on_fail (ValueInfo_TensorInfo g v) None (\<lambda>info.
       case info of None \<Rightarrow> None | Some t \<Rightarrow> on_fail (tensor_elem_type t) None Some)"

definition GetNodeInputDataType :: "('g) qdq_graph_scheme \<Rightarrow> node \<Rightarrow> nat \<Rightarrow> ONNXTensorElementDataType option result" where
  "GetNodeInputDataType g n index =
     on_fail (Node_GetInputs g n) (Inr None) (\<lambda>inputs.
       if index \<ge> length inputs then Inr None
       else and_then (nonnull (inputs ! index)) (\<lambda>v. Inr (GetDataTypeFromValueInfo g v)))"

definition GetNodeOutputDataType :: "('g) qdq_graph_scheme \<Rightarrow> node \<Rightarrow> nat \<Rightarrow> ONNXTensorElementDataType option result" where
  "GetNodeOutputDataType g n index =
     on_fail (Node_GetOutputs g n) (Inr None) (\<lambda>outputs.
       if index \<ge> length outputs then Inr None
       else and_then (nonnull (outputs ! index)) (\<lambda>v. Inr (GetDataTypeFromValueInfo g v)))"

definition FixedPointBitWidth :: "ONNXTensorElementDataType \<Rightarrow> nat" where
  "FixedPointBitWidth t =
     (if t = ONNX_UINT4 \<or> t = ONNX_INT4 then 4
      else if t = ONNX_UINT8 \<or> t = ONNX_INT8 then 8
      else if t = ONNX_UINT16 \<or> t = ONNX_INT16 then 16
      else 0)"

definition IsConvertibleFixedPointType :: "ONNXTensorElementDataType \<Rightarrow> bool" where
  "IsConvertibleFixedPointType t \<longleftrightarrow> FixedPointBitWidth t \<noteq> 0"

definition NeedsPrecisionConvert :: "ONNXTensorElementDataType \<Rightarrow> ONNXTensorElementDataType \<Rightarrow> bool" where
  "NeedsPrecisionConvert a b \<longleftrightarrow> a \<noteq> b \<and> IsConvertibleFixedPointType a \<and> IsConvertibleFixedPointType b"

definition GetValueInfoShape :: "('g) qdq_graph_scheme \<Rightarrow> valueinfo \<Rightarrow> int list option" where
  "GetValueInfoShape g v =
     on_fail (ValueInfo_TensorInfo g v) None (\<lambda>info.
       case info of None \<Rightarrow> None | Some t \<Rightarrow> on_fail (tensor_dims t) None Some)"

definition IsConvertCompatibleUnaryOp :: "string \<Rightarrow> bool" where
  "IsConvertCompatibleUnaryOp op_type \<longleftrightarrow> op_type \<in> set
     [''Abs'', ''Asin'', ''Atan'', ''Ceil'', ''Cos'', ''Elu'', ''Exp'', ''Floor'', ''Gelu'', ''HardSigmoid'', ''HardSwish'',
      ''LeakyRelu'', ''Log'', ''Neg'', ''Relu'', ''Round'', ''Sigmoid'', ''Sign'', ''Sin'', ''Softplus'', ''Sqrt'', ''Tanh'']"

definition IsConvertCompatibleBinaryOp :: "string \<Rightarrow> bool" where
  "IsConvertCompatibleBinaryOp op_type \<longleftrightarrow> op_type \<in> set [''Add'', ''Div'', ''Mul'', ''Pow'', ''Sub'']"

definition IsCompatibleFcBiasShape :: "int list \<Rightarrow> int \<Rightarrow> bool" where
  "IsCompatibleFcBiasShape bias_shape output_channels \<longleftrightarrow>
     bias_shape = [] \<and> output_channels = 1
     \<or> length bias_shape = 1 \<and> bias_shape ! 0 = output_channels
     \<or> length bias_shape = 2 \<and> bias_shape ! 0 = 1 \<and> bias_shape ! 1 = output_channels"

definition GetQminQmax :: "Qnn_DataType_t \<Rightarrow> bool \<Rightarrow> (int \<times> int) result" where
  "GetQminQmax qnn_data_type symmetric =
     (let k = (if symmetric then 1 else 0)
      in case qnn_data_type of
           QNN_DATATYPE_SFIXED_POINT_8 \<Rightarrow> Inr (- 128 + k, 127)
         | QNN_DATATYPE_UFIXED_POINT_8 \<Rightarrow> Inr (0, 255)
         | QNN_DATATYPE_SFIXED_POINT_16 \<Rightarrow> Inr (- 32768 + k, 32767)
         | QNN_DATATYPE_UFIXED_POINT_16 \<Rightarrow> Inr (0, 65535)
         | QNN_DATATYPE_SFIXED_POINT_4 \<Rightarrow> Inr (- 8 + k, 7)
         | QNN_DATATYPE_UFIXED_POINT_4 \<Rightarrow> Inr (0, 15)
         | QNN_DATATYPE_SFIXED_POINT_32 \<Rightarrow> Inr (- 2147483648 + k, 2147483647)
         | _ \<Rightarrow> Inl (Status_Fail ''Qnn Data Type not supported yet.''))"

section \<open>Initializers\<close>

primrec find_initializer :: "('g) qdq_graph_scheme \<Rightarrow> string \<Rightarrow> valueinfo list \<Rightarrow> ort_value option" where
  "find_initializer g name [] = None"
| "find_initializer g name (v # vs) =
     on_fail (GetValueInfoName g v) (find_initializer g name vs) (\<lambda>n.
       if n = name then on_fail (ValueInfo_GetInitializerValue g v) (find_initializer g name vs) (\<lambda>i. i)
       else find_initializer g name vs)"

definition GetConstantInitializer :: "('g) qdq_graph_scheme \<Rightarrow> string \<Rightarrow> ort_value option" where
  "GetConstantInitializer g name = on_fail (Graph_GetInitializers g) None (find_initializer g name)"

definition GetInitializerFromValueInfo :: "('g) qdq_graph_scheme \<Rightarrow> valueinfo \<Rightarrow> ort_value option" where
  "GetInitializerFromValueInfo g v = on_fail (GetValueInfoName g v) None (GetConstantInitializer g)"

definition IsConstantInitializerValueInfo :: "('g) qdq_graph_scheme \<Rightarrow> valueinfo option \<Rightarrow> bool" where
  "IsConstantInitializerValueInfo g p =
     (case p of
        None \<Rightarrow> False
      | Some v \<Rightarrow> GetInitializerFromValueInfo g v \<noteq> None \<and> ValueInfo_IsConstantInitializer g v = Inr True)"

definition IsConstantOrInitializerValueInfo :: "('g) qdq_graph_scheme \<Rightarrow> valueinfo option \<Rightarrow> bool result" where
  "IsConstantOrInitializerValueInfo g p =
     (case p of
        None \<Rightarrow> Inr False
      | Some v \<Rightarrow>
          (if IsConstantInitializerValueInfo g p then Inr True
           else on_fail (ValueInfo_GetValueProducer g v) (Inr False) (\<lambda>producer.
             case producer of
               None \<Rightarrow> Inr False
             | Some n \<Rightarrow> and_then (OperatorType g n) (\<lambda>t. Inr (t = ''Constant'')))))"

definition GetNodeInputValueInfo :: "('g) qdq_graph_scheme \<Rightarrow> node \<Rightarrow> nat \<Rightarrow> valueinfo option" where
  "GetNodeInputValueInfo g n index =
     on_fail (Node_GetInputs g n) None (\<lambda>inputs. if index < length inputs then inputs ! index else None)"

definition producer_of_type :: "('g) qdq_graph_scheme \<Rightarrow> valueinfo \<Rightarrow> string \<Rightarrow> node option result" where
  "producer_of_type g v op_type =
     on_fail (ValueInfo_GetValueProducer g v) (Inr None) (\<lambda>producer.
       case producer of
         None \<Rightarrow> Inr None
       | Some n \<Rightarrow> and_then (OperatorType g n) (\<lambda>t. Inr (if t = op_type then Some n else None)))"

definition IsStaticQdqBias :: "('g) qdq_graph_scheme \<Rightarrow> valueinfo \<Rightarrow> bool result" where
  "IsStaticQdqBias g bias_vi =
     and_then (IsConstantOrInitializerValueInfo g (Some bias_vi)) (\<lambda>is_const.
       if is_const then Inr True
       else and_then (producer_of_type g bias_vi ''DequantizeLinear'') (\<lambda>dq.
         case dq of
           None \<Rightarrow> Inr False
         | Some bias_producer \<Rightarrow>
             (case GetNodeInputValueInfo g bias_producer 0 of
                None \<Rightarrow> Inr False
              | Some dq_data_input \<Rightarrow>
                  and_then (IsConstantOrInitializerValueInfo g (Some dq_data_input)) (\<lambda>is_const.
                    if is_const then Inr True
                    else and_then (producer_of_type g dq_data_input ''QuantizeLinear'') (\<lambda>q.
                      case q of
                        None \<Rightarrow> Inr False
                      | Some dq_data_producer \<Rightarrow>
                          (case GetNodeInputValueInfo g dq_data_producer 0 of
                             None \<Rightarrow> Inr False
                           | Some q_data_input \<Rightarrow> IsConstantOrInitializerValueInfo g (Some q_data_input)))))))"

definition read_scalar :: "nat \<Rightarrow> byte list \<Rightarrow> 'a::len word result" where
  "read_scalar w bs =
     (if length bs < w then Inl (Undefined_Behaviour ''read past the end of a tensor'') else Inr (of_bytes (take w bs)))"

text \<open>The result is \<^const>\<open>None\<close> where the code returns false.  The element type of the initializer is not looked at.\<close>

definition GetScalarValue_float :: "('g) qdq_graph_scheme \<Rightarrow> ort_value \<Rightarrow> fval option result" where
  "GetScalarValue_float g i =
     on_fail (value_data i) (Inr None) (\<lambda>data.
       and_then (nonnull data) (\<lambda>bs. and_then (read_scalar 4 bs) (\<lambda>w. Inr (Some (float_bits g w)))))"

definition GetZeroPointValue :: "ort_value \<Rightarrow> (int \<times> Qnn_DataType_t) option result" where
  "GetZeroPointValue zp_init =
     on_fail (value_type zp_init) (Inr None) (\<lambda>zp_type.
     on_fail (value_data zp_init) (Inr None) (\<lambda>data.
       case data of
         None \<Rightarrow> Inr None
       | Some bs \<Rightarrow>
           (case zp_type of
              ONNX_UINT8 \<Rightarrow> and_then (read_scalar 1 bs) (\<lambda>w :: 8 word. Inr (Some (uint w, QNN_DATATYPE_UFIXED_POINT_8)))
            | ONNX_UINT16 \<Rightarrow> and_then (read_scalar 2 bs) (\<lambda>w :: 16 word. Inr (Some (uint w, QNN_DATATYPE_UFIXED_POINT_16)))
            | ONNX_INT8 \<Rightarrow> and_then (read_scalar 1 bs) (\<lambda>w :: 8 word. Inr (Some (sint w, QNN_DATATYPE_SFIXED_POINT_8)))
            | ONNX_INT16 \<Rightarrow> and_then (read_scalar 2 bs) (\<lambda>w :: 16 word. Inr (Some (sint w, QNN_DATATYPE_SFIXED_POINT_16)))
            | _ \<Rightarrow> Inr None)))"

definition initializer_at :: "('g) qdq_graph_scheme \<Rightarrow> valueinfo option \<Rightarrow> ort_value option result" where
  "initializer_at g p = and_then (nonnull p) (\<lambda>v. Inr (GetInitializerFromValueInfo g v))"

definition GetQNodeScaleAndZeroPoint :: "('g) qdq_graph_scheme \<Rightarrow> node \<Rightarrow> (fval \<times> int \<times> Qnn_DataType_t) option result" where
  "GetQNodeScaleAndZeroPoint g q_node =
     on_fail (Node_GetInputs g q_node) (Inr None) (\<lambda>inputs.
       if length inputs < 3 then Inr None
       else and_then (initializer_at g (inputs ! 1)) (\<lambda>scale_init.
         case scale_init of
           None \<Rightarrow> Inr None
         | Some si \<Rightarrow> and_then (GetScalarValue_float g si) (\<lambda>scale.
             case scale of
               None \<Rightarrow> Inr None
             | Some sc \<Rightarrow> and_then (initializer_at g (inputs ! 2)) (\<lambda>zp_init.
                 case zp_init of
                   None \<Rightarrow> Inr None
                 | Some zi \<Rightarrow> and_then (GetZeroPointValue zi) (\<lambda>zp. Inr (map_option (Pair sc) zp))))))"

definition clip_bound :: "('g) qdq_graph_scheme \<Rightarrow> valueinfo option list \<Rightarrow> nat \<Rightarrow> fval \<Rightarrow> fval result" where
  "clip_bound g clip_inputs i bound =
     (if i < length clip_inputs \<and> clip_inputs ! i \<noteq> None
      then (case GetInitializerFromValueInfo g (the (clip_inputs ! i)) of
              None \<Rightarrow> Inr bound
            | Some init \<Rightarrow> and_then (GetScalarValue_float g init) (\<lambda>v. Inr (case v of None \<Rightarrow> bound | Some x \<Rightarrow> x)))
      else Inr bound)"

definition GetClipMinMax :: "('g) qdq_graph_scheme \<Rightarrow> node \<Rightarrow> (fval \<times> fval) result" where
  "GetClipMinMax g clip_node =
     (let clip_min = Num (- float_max); clip_max = Num float_max
      in if HasAttr g clip_node ''min'' \<or> HasAttr g clip_node ''max''
         then Inr (Attr_float g clip_node ''min'' clip_min, Attr_float g clip_node ''max'' clip_max)
         else on_fail (Node_GetInputs g clip_node) (Inr (clip_min, clip_max)) (\<lambda>clip_inputs.
           if length clip_inputs < 2 then Inr (clip_min, clip_max)
           else and_then (clip_bound g clip_inputs 1 clip_min) (\<lambda>lo.
                and_then (clip_bound g clip_inputs 2 clip_max) (\<lambda>hi. Inr (lo, hi)))))"

section \<open>Absorbing an activation or a reshape\<close>

definition IsActivationEncodingSafe :: "('g) qdq_graph_scheme \<Rightarrow> node \<Rightarrow> string \<Rightarrow> node \<Rightarrow> bool result" where
  "IsActivationEncodingSafe g activation_node op_type q_node =
     and_then (GetQNodeScaleAndZeroPoint g q_node) (\<lambda>quant.
       case quant of
         None \<Rightarrow> Inr False
       | Some (scale_val, zero_point, qnn_dt) \<Rightarrow>
           on_fail (GetQminQmax qnn_dt False) (Inr False) (\<lambda>(qmin, qmax).
             let encoding_min = f_mul scale_val (of_int (qmin - zero_point));
                 encoding_max = f_mul scale_val (of_int (qmax - zero_point))
             in and_then (if op_type = ''Clip'' then GetClipMinMax g activation_node else Inr (Num 0, Num float_max))
                  (\<lambda>(activation_min, activation_max).
                     Inr (f_le activation_min encoding_min \<and> f_le encoding_max activation_max))))"

definition GetSoleNonOutputConsumer :: "('g) qdq_graph_scheme \<Rightarrow> valueinfo \<Rightarrow> node option" where
  "GetSoleNonOutputConsumer g v =
     (if ValueInfo_IsGraphOutput g v = Inr False
      then on_fail (ValueInfo_GetValueConsumers g v) None (\<lambda>consumers. case consumers of [n] \<Rightarrow> Some n | _ \<Rightarrow> None)
      else None)"

definition GetSingleOutput :: "('g) qdq_graph_scheme \<Rightarrow> node \<Rightarrow> valueinfo option" where
  "GetSingleOutput g n =
     on_fail (Node_GetOutputs g n) None (\<lambda>outputs. case outputs of [out] \<Rightarrow> out | _ \<Rightarrow> None)"

definition sole_consumer_of_node :: "('g) qdq_graph_scheme \<Rightarrow> node \<Rightarrow> node option" where
  "sole_consumer_of_node g n =
     (case GetSingleOutput g n of None \<Rightarrow> None | Some out \<Rightarrow> GetSoleNonOutputConsumer g out)"

definition q_behind_activation :: "('g) qdq_graph_scheme \<Rightarrow> node \<Rightarrow> string \<Rightarrow> bool result" where
  "q_behind_activation g activation act_op =
     (case sole_consumer_of_node g activation of
        None \<Rightarrow> Inr False
      | Some q_node \<Rightarrow>
          and_then (OperatorType g q_node) (\<lambda>t.
            if t \<noteq> ''QuantizeLinear'' then Inr False else IsActivationEncodingSafe g activation act_op q_node))"

definition TryFoldRedundantActivation :: "('g) qdq_graph_scheme \<Rightarrow> node \<Rightarrow> node option result" where
  "TryFoldRedundantActivation g n =
     (case sole_consumer_of_node g n of
        None \<Rightarrow> Inr None
      | Some activation \<Rightarrow>
          and_then (OperatorType g activation) (\<lambda>act_op.
            if act_op \<noteq> ''Relu'' \<and> act_op \<noteq> ''Clip'' then Inr None
            else and_then (q_behind_activation g activation act_op) (\<lambda>safe. Inr (if safe then Some activation else None))))"

definition IsGemmWeightBlockQuantized :: "('g) qdq_graph_scheme \<Rightarrow> valueinfo \<Rightarrow> bool result" where
  "IsGemmWeightBlockQuantized g weight_vi =
     and_then (producer_of_type g weight_vi ''DequantizeLinear'') (\<lambda>dq.
       case dq of
         None \<Rightarrow> Inr False
       | Some dq \<Rightarrow>
           on_fail (Node_GetInputs g dq) (Inr False) (\<lambda>dq_inputs.
             if length dq_inputs < 2 then Inr False
             else and_then (nonnull (dq_inputs ! 1)) (\<lambda>v.
               Inr (case GetValueInfoShape g v of None \<Rightarrow> False | Some sh \<Rightarrow> length sh = 2))))"

definition bias_fits :: "('g) qdq_graph_scheme \<Rightarrow> valueinfo \<Rightarrow> valueinfo \<Rightarrow> bool" where
  "bias_fits g weight_vi bias_vi =
     (case (GetValueInfoShape g weight_vi, GetValueInfoShape g bias_vi) of
        (Some weight_shape, Some bias_shape) \<Rightarrow>
          length weight_shape = 2 \<and> (\<forall>d \<in> set weight_shape. d \<ge> 0) \<and> (\<forall>d \<in> set bias_shape. d \<ge> 0)
          \<and> IsCompatibleFcBiasShape bias_shape (weight_shape ! 1)
      | _ \<Rightarrow> False)"

definition IsGemmSafeForAbsorbedReshape :: "('g) qdq_graph_scheme \<Rightarrow> node \<Rightarrow> bool result" where
  "IsGemmSafeForAbsorbedReshape g gemm_node =
     (if Attr_int64 g gemm_node ''transA'' 0 \<noteq> 0 \<or> Attr_int64 g gemm_node ''transB'' 0 \<noteq> 0 then Inr False
      else on_fail (Node_GetInputs g gemm_node) (Inr False) (\<lambda>inputs.
        if length inputs < 2 then Inr False
        else case inputs ! 1 of
               None \<Rightarrow> Inr False
             | Some weight_vi \<Rightarrow>
                 and_then (IsGemmWeightBlockQuantized g weight_vi) (\<lambda>block_quantized.
                   if block_quantized then Inr False
                   else if length inputs < 3 then Inr True
                   else case inputs ! 2 of
                          None \<Rightarrow> Inr True
                        | Some bias_vi \<Rightarrow>
                            (if Attr_float g gemm_node ''beta'' (Num 1) = Num 0 then Inr True
                             else if \<not> bias_fits g weight_vi bias_vi then Inr False
                             else IsStaticQdqBias g bias_vi))))"

text \<open>The result is the absorbed Reshape and the folded activation, if any.\<close>

definition TryAbsorbTrailingReshape :: "('g) qdq_graph_scheme \<Rightarrow> node \<Rightarrow> (node option \<times> node option) result" where
  "TryAbsorbTrailingReshape g gemm_node =
     and_then (OperatorType g gemm_node) (\<lambda>op_type.
       if op_type \<noteq> ''Gemm'' then Inr (None, None)
       else and_then (IsGemmSafeForAbsorbedReshape g gemm_node) (\<lambda>safe.
         if \<not> safe then Inr (None, None)
         else case sole_consumer_of_node g gemm_node of
                None \<Rightarrow> Inr (None, None)
              | Some reshape_node \<Rightarrow>
                  and_then (OperatorType g reshape_node) (\<lambda>reshape_op.
                    if reshape_op \<noteq> ''Reshape'' then Inr (None, None)
                    else case sole_consumer_of_node g reshape_node of
                           None \<Rightarrow> Inr (None, None)
                         | Some next_node \<Rightarrow>
                             and_then (OperatorType g next_node) (\<lambda>next_op.
                               if next_op = ''QuantizeLinear'' then Inr (Some reshape_node, None)
                               else if next_op \<noteq> ''Relu'' \<and> next_op \<noteq> ''Clip'' then Inr (None, None)
                               else and_then (q_behind_activation g next_node next_op) (\<lambda>safe.
                                 Inr (if safe then (Some reshape_node, Some next_node) else (None, None)))))))"

section \<open>The group checks\<close>

fun output_counts :: "('g) qdq_graph_scheme \<Rightarrow> valueinfo option list \<Rightarrow> nat \<times> nat \<times> bool" where
  "output_counts g [] = (0, 0, False)"
| "output_counts g (None # outs) = output_counts g outs"
| "output_counts g (Some v # outs) =
     (let (present_outputs, total_consumers, produces_graph_output) = output_counts g outs
      in case ValueInfo_IsGraphOutput g v of
           Inl _ \<Rightarrow> (present_outputs + 1, total_consumers, produces_graph_output)
         | Inr is_graph_output \<Rightarrow>
             (case ValueInfo_GetValueConsumers g v of
                Inl _ \<Rightarrow> (present_outputs + 1, total_consumers, is_graph_output \<or> produces_graph_output)
              | Inr consumers \<Rightarrow>
                  (present_outputs + 1, length consumers + total_consumers, is_graph_output \<or> produces_graph_output)))"

definition CheckQDQNodes ::
  "('g) qdq_graph_scheme \<Rightarrow> node \<Rightarrow> node list \<Rightarrow> node list \<Rightarrow> int \<Rightarrow> bool \<Rightarrow> bool" where
  "CheckQDQNodes g n dqs qs num_dq_inputs is_empty_q_nodes_allowed =
     on_fail (if num_dq_inputs = - 1 then and_then (Node_GetInputs g n) (\<lambda>inputs. Inr (int (length inputs))) else Inr num_dq_inputs)
       False (\<lambda>num_dq_inputs.
         if num_dq_inputs \<noteq> int (length dqs) then False
         else if qs = [] then is_empty_q_nodes_allowed
         else on_fail (Node_GetOutputs g n) False (\<lambda>outputs.
           let (present_outputs, total_consumers, produces_graph_output) = output_counts g outputs
           in present_outputs = length qs \<and> length qs = total_consumers \<and> \<not> produces_graph_output))"

primrec absorbed_outputs :: "('g) qdq_graph_scheme \<Rightarrow> node list \<Rightarrow> valueinfo option list \<Rightarrow> nat \<Rightarrow> nat option result" where
  "absorbed_outputs g qs [] acc = Inr (Some acc)"
| "absorbed_outputs g qs (p # outs) acc =
     and_then (nonnull p) (\<lambda>v.
       on_fail (ValueInfo_GetValueConsumers g v) (absorbed_outputs g qs outs acc) (\<lambda>consumers.
         case consumers of
           [consumer] \<Rightarrow>
             (if consumer \<notin> set qs then absorbed_outputs g qs outs acc
              else on_fail (ValueInfo_IsGraphOutput g v) (absorbed_outputs g qs outs acc) (\<lambda>is_graph_output.
                if is_graph_output then Inr None else absorbed_outputs g qs outs (acc + 1)))
         | _ \<Rightarrow> absorbed_outputs g qs outs acc))"

definition CanCreateNodeGroup :: "('g) qdq_graph_scheme \<Rightarrow> node \<Rightarrow> node list \<Rightarrow> node list \<Rightarrow> bool result" where
  "CanCreateNodeGroup g n dqs qs =
     (if dqs = [] then Inr False
      else on_fail (Node_GetInputs g n) (Inr False) (\<lambda>inputs.
        if length inputs < length dqs then Inr False
        else if qs = [] then Inr False
        else on_fail (Node_GetOutputs g n) (Inr False) (\<lambda>outputs.
          and_then (absorbed_outputs g qs outputs 0) (\<lambda>r. Inr (r = Some (length qs))))))"

definition scale_input_name :: "('g) qdq_graph_scheme \<Rightarrow> node \<Rightarrow> string option result" where
  "scale_input_name g n =
     on_fail (Node_GetInputs g n) (Inr None) (\<lambda>inputs.
       if length inputs < 2 then Inr None
       else and_then (nonnull (inputs ! 1)) (\<lambda>v. Inr (on_fail (GetValueInfoName g v) None Some)))"

definition scalar_data :: "ort_value \<Rightarrow> nat \<Rightarrow> ('a::len word \<Rightarrow> fval) \<Rightarrow> fval option result" where
  "scalar_data i w decode =
     on_fail (value_data i) (Inr None) (\<lambda>data.
       and_then (nonnull data) (\<lambda>bs. and_then (read_scalar w bs) (\<lambda>x. Inr (Some (decode x)))))"

definition scale_value :: "('g) qdq_graph_scheme \<Rightarrow> ONNXTensorElementDataType \<Rightarrow> ort_value \<Rightarrow> fval option result" where
  "scale_value g t i =
     (if t = ONNX_FLOAT then scalar_data i 4 (float_bits g)
      else if t = ONNX_DOUBLE then scalar_data i 8 (double_bits g)
      else Inr None)"

definition IsQOrDQScalePositiveConstantScalar :: "('g) qdq_graph_scheme \<Rightarrow> node \<Rightarrow> bool result" where
  "IsQOrDQScalePositiveConstantScalar g q_node =
     and_then (scale_input_name g q_node) (\<lambda>name.
       case name of
         None \<Rightarrow> Inr False
       | Some scale_name \<Rightarrow>
           (case GetConstantInitializer g scale_name of
              None \<Rightarrow> Inr False
            | Some i \<Rightarrow>
                on_fail (value_dims i) (Inr False) (\<lambda>dims.
                  if dims \<noteq> [] then Inr False
                  else on_fail (value_type i) (Inr False) (\<lambda>t.
                    and_then (scale_value g t i) (\<lambda>v. Inr (case v of None \<Rightarrow> False | Some x \<Rightarrow> f_pos x))))))"

definition IsQDQPairSupported :: "('g) qdq_graph_scheme \<Rightarrow> node \<Rightarrow> node \<Rightarrow> bool result" where
  "IsQDQPairSupported g q_node dq_node =
     and_then (scale_input_name g q_node) (\<lambda>q_name.
     and_then (scale_input_name g dq_node) (\<lambda>dq_name.
       case (q_name, dq_name) of
         (Some q_scale_name, Some dq_scale_name) \<Rightarrow>
           (if q_scale_name = dq_scale_name then Inr True
            else
              (case (GetConstantInitializer g q_scale_name, GetConstantInitializer g dq_scale_name) of
                 (Some qi, Some di) \<Rightarrow>
                   on_fail (value_type qi) (Inr False) (\<lambda>q_type.
                   on_fail (value_type di) (Inr False) (\<lambda>dq_type.
                     if q_type \<noteq> dq_type then Inr False
                     else and_then (scale_value g q_type qi) (\<lambda>a.
                          and_then (scale_value g dq_type di) (\<lambda>b.
                            Inr (case (a, b) of (Some x, Some y) \<Rightarrow> f_eq x y | _ \<Rightarrow> False)))))
               | _ \<Rightarrow> Inr False))
       | _ \<Rightarrow> Inr False))"

section \<open>The selectors\<close>

definition dq_type :: "('g) qdq_graph_scheme \<Rightarrow> node list \<Rightarrow> nat \<Rightarrow> ONNXTensorElementDataType option result" where
  "dq_type g dqs i = and_then (vec_at dqs i) (\<lambda>n. GetNodeInputDataType g n 0)"

definition q_type :: "('g) qdq_graph_scheme \<Rightarrow> node list \<Rightarrow> nat \<Rightarrow> ONNXTensorElementDataType option result" where
  "q_type g qs i = and_then (vec_at qs i) (\<lambda>n. GetNodeOutputDataType g n 0)"

text \<open>Input and output type of a group; \<open>f\<close> decides when both are known.\<close>

definition in_out_types ::
  "('g) qdq_graph_scheme \<Rightarrow> node list \<Rightarrow> node list
   \<Rightarrow> (ONNXTensorElementDataType \<Rightarrow> ONNXTensorElementDataType \<Rightarrow> bool result) \<Rightarrow> bool result" where
  "in_out_types g dqs qs f =
     and_then (dq_type g dqs 0) (\<lambda>dt_input.
     and_then (q_type g qs 0) (\<lambda>dt_output.
       case (dt_input, dt_output) of (Some a, Some b) \<Rightarrow> f a b | _ \<Rightarrow> Inr False))"

definition Check_DropQDQ :: "bool \<Rightarrow> ('g) qdq_graph_scheme \<Rightarrow> node \<Rightarrow> node option \<Rightarrow> node list \<Rightarrow> node list \<Rightarrow> bool result" where
  "Check_DropQDQ allow_nonpositive_scale g n clip dqs qs =
     (if clip \<noteq> None then Inr False
      else if \<not> CheckQDQNodes g n dqs qs 1 False then Inr False
      else in_out_types g dqs qs (\<lambda>dt_input dt_output.
        if dt_input \<noteq> dt_output then Inr False
        else and_then (vec_at dqs 0) (\<lambda>dq_node. and_then (vec_at qs 0) (\<lambda>q_node.
          check_then (if allow_nonpositive_scale then Inr True else IsQOrDQScalePositiveConstantScalar g q_node)
            (IsQDQPairSupported g q_node dq_node)))))"

definition Check_DropDQ :: "('g) qdq_graph_scheme \<Rightarrow> node \<Rightarrow> node option \<Rightarrow> node list \<Rightarrow> node list \<Rightarrow> bool result" where
  "Check_DropDQ g n clip dqs qs =
     (if clip \<noteq> None \<or> length dqs \<noteq> 1 then Inr False
      else and_then (dq_type g dqs 0) (\<lambda>dt_input. Inr (dt_input \<noteq> None)))"

definition Check_Unary :: "('g) qdq_graph_scheme \<Rightarrow> node \<Rightarrow> node option \<Rightarrow> node list \<Rightarrow> node list \<Rightarrow> bool result" where
  "Check_Unary g n clip dqs qs =
     (if \<not> CheckQDQNodes g n dqs qs 1 False then Inr False
      else in_out_types g dqs qs (\<lambda>dt_input dt_output.
        if dt_input = dt_output then Inr True
        else and_then (OperatorType g n) (\<lambda>op_type.
          Inr (IsConvertCompatibleUnaryOp op_type \<and> NeedsPrecisionConvert dt_input dt_output))))"

definition Check_Clip :: "('g) qdq_graph_scheme \<Rightarrow> node \<Rightarrow> node option \<Rightarrow> node list \<Rightarrow> node list \<Rightarrow> bool result" where
  "Check_Clip g n clip dqs qs =
     (if length dqs < 1 \<or> length dqs > 3 then Inr False
      else if \<not> CheckQDQNodes g n dqs qs (int (length dqs)) False then Inr False
      else check_then
        (if qs = [] then Inr True
         else on_fail (Node_GetInputs g n) (Inr False) (\<lambda>clip_inputs.
           and_then (vec_at clip_inputs 0) (\<lambda>p. and_then (nonnull p) (\<lambda>v.
             on_fail (ValueInfo_GetValueProducer g v) (Inr False) (\<lambda>producer.
               case producer of
                 None \<Rightarrow> Inr False
               | Some data_producer \<Rightarrow>
                   and_then (OperatorType g data_producer) (\<lambda>t.
                     Inr (t = ''DequantizeLinear'' \<and> data_producer \<in> set dqs)))))))
        (in_out_types g dqs qs (\<lambda>dt_input dt_output. Inr (dt_input = dt_output))))"

definition Check_Binary :: "('g) qdq_graph_scheme \<Rightarrow> node \<Rightarrow> node option \<Rightarrow> node list \<Rightarrow> node list \<Rightarrow> bool result" where
  "Check_Binary g n clip dqs qs =
     (if \<not> CheckQDQNodes g n dqs qs 2 False then Inr False
      else and_then (dq_type g dqs 1) (\<lambda>dt_input_2.
        in_out_types g dqs qs (\<lambda>dt_input_1 dt_output.
          case dt_input_2 of
            None \<Rightarrow> Inr False
          | Some dt_input_2 \<Rightarrow>
              (if dt_input_1 = dt_input_2 \<and> dt_input_1 = dt_output then Inr True
               else and_then (OperatorType g n) (\<lambda>op_type.
                 Inr (IsConvertCompatibleBinaryOp op_type \<and> IsConvertibleFixedPointType dt_input_1
                      \<and> IsConvertibleFixedPointType dt_input_2 \<and> IsConvertibleFixedPointType dt_output))))))"

primrec all_types :: "(node \<Rightarrow> ONNXTensorElementDataType option result) \<Rightarrow> ONNXTensorElementDataType \<Rightarrow> node list \<Rightarrow> bool result" where
  "all_types f t [] = Inr True"
| "all_types f t (n # ns) = and_then (f n) (\<lambda>dt. if dt \<noteq> Some t then Inr False else all_types f t ns)"

definition Check_Variadic :: "('g) qdq_graph_scheme \<Rightarrow> node \<Rightarrow> node option \<Rightarrow> node list \<Rightarrow> node list \<Rightarrow> bool result" where
  "Check_Variadic g n clip dqs qs =
     (if \<not> CheckQDQNodes g n dqs qs (- 1) False then Inr False
      else and_then (dq_type g dqs 0) (\<lambda>dt_input.
        case dt_input of
          None \<Rightarrow> Inr False
        | Some a \<Rightarrow>
            check_then (all_types (\<lambda>m. GetNodeInputDataType g m 0) a (tl dqs))
              (and_then (q_type g qs 0) (\<lambda>dt_output.
                 case dt_output of
                   None \<Rightarrow> Inr False
                 | Some b \<Rightarrow> check_then (all_types (\<lambda>m. GetNodeOutputDataType g m 0) b (tl qs)) (Inr (a = b))))))"

primrec split_outputs :: "bool \<Rightarrow> ('g) qdq_graph_scheme \<Rightarrow> node \<Rightarrow> ONNXTensorElementDataType \<Rightarrow> node list \<Rightarrow> bool result" where
  "split_outputs req_equal g dq_node dt_input [] = Inr True"
| "split_outputs req_equal g dq_node dt_input (q_node # qs) =
     and_then (GetNodeOutputDataType g q_node 0) (\<lambda>dt_output.
       if dt_output \<noteq> Some dt_input then Inr False
       else check_then (if req_equal then IsQDQPairSupported g q_node dq_node else Inr True)
              (split_outputs req_equal g dq_node dt_input qs))"

definition Check_Split :: "bool \<Rightarrow> ('g) qdq_graph_scheme \<Rightarrow> node \<Rightarrow> node option \<Rightarrow> node list \<Rightarrow> node list \<Rightarrow> bool result" where
  "Check_Split req_equal_quant_params g n clip dqs qs =
     (if clip \<noteq> None then Inr False
      else if \<not> CheckQDQNodes g n dqs qs 1 False then Inr False
      else and_then (vec_at dqs 0) (\<lambda>dq_node. and_then (GetNodeInputDataType g dq_node 0) (\<lambda>dt_input.
        case dt_input of None \<Rightarrow> Inr False | Some t \<Rightarrow> split_outputs req_equal_quant_params g dq_node t qs)))"

definition IsSupportedActivationOutputTypePair ::
  "('g) qdq_graph_scheme \<Rightarrow> ONNXTensorElementDataType \<Rightarrow> ONNXTensorElementDataType \<Rightarrow> node \<Rightarrow> bool result" where
  "IsSupportedActivationOutputTypePair g dt_input dt_output q_node =
     (if dt_input = dt_output then Inr True
      else if (dt_input = ONNX_UINT16 \<or> dt_input = ONNX_INT16) \<and> (dt_output = ONNX_UINT8 \<or> dt_output = ONNX_INT8)
      then IsQOrDQScalePositiveConstantScalar g q_node
      else Inr False)"

definition is_htp_width :: "ONNXTensorElementDataType \<Rightarrow> bool" where
  "is_htp_width t \<longleftrightarrow> FixedPointBitWidth t = 8 \<or> FixedPointBitWidth t = 16"

definition IsConvertBeforeOpGroup ::
  "ONNXTensorElementDataType \<Rightarrow> ONNXTensorElementDataType \<Rightarrow> ONNXTensorElementDataType \<Rightarrow> bool" where
  "IsConvertBeforeOpGroup dt_input dt_weight dt_output \<longleftrightarrow>
     NeedsPrecisionConvert dt_input dt_output \<and> is_htp_width dt_input \<and> is_htp_width dt_weight \<and> is_htp_width dt_output
     \<and> FixedPointBitWidth dt_input \<le> FixedPointBitWidth dt_output
     \<and> FixedPointBitWidth dt_weight \<le> FixedPointBitWidth dt_output
     \<and> (dt_output \<noteq> ONNX_INT16 \<or> dt_weight = ONNX_INT8)"

definition IsConvertActivationToOutputGroup ::
  "('g) qdq_graph_scheme \<Rightarrow> ONNXTensorElementDataType \<Rightarrow> ONNXTensorElementDataType \<Rightarrow> node \<Rightarrow> bool result" where
  "IsConvertActivationToOutputGroup g dt_input dt_output dq_node =
     (if NeedsPrecisionConvert dt_input dt_output \<and> FixedPointBitWidth dt_input \<le> FixedPointBitWidth dt_output
         \<and> dt_output \<noteq> ONNX_INT16
      then IsQOrDQScalePositiveConstantScalar g dq_node
      else Inr False)"

definition IsPerChannelConstantWeightOnlyGroup :: "('g) qdq_graph_scheme \<Rightarrow> node \<Rightarrow> node list \<Rightarrow> node list \<Rightarrow> bool result" where
  "IsPerChannelConstantWeightOnlyGroup g n dqs qs =
     (case (dqs, qs) of
        ([dq], []) \<Rightarrow>
          on_fail (Node_GetInputs g n) (Inr False) (\<lambda>inputs.
            if length inputs < 2 then Inr False
            else case inputs ! 1 of
                   None \<Rightarrow> Inr False
                 | Some weight \<Rightarrow>
                     on_fail (ValueInfo_GetValueProducer g weight) (Inr False) (\<lambda>weight_producer.
                       if weight_producer \<noteq> Some dq \<or> GetSoleNonOutputConsumer g weight \<noteq> Some n then Inr False
                       else on_fail (Node_GetInputs g dq) (Inr False) (\<lambda>dq_inputs.
                         if length dq_inputs < 2 then Inr False
                         else and_then (initializer_at g (dq_inputs ! 0)) (\<lambda>init.
                           if init = None then Inr False
                           else and_then (nonnull (dq_inputs ! 1)) (\<lambda>v.
                             Inr (case GetValueInfoShape g v of
                                    None \<Rightarrow> False
                                  | Some sh \<Rightarrow> length sh = 1 \<and> sh ! 0 > 1))))))
      | _ \<Rightarrow> Inr False)"

definition dq_produced :: "('g) qdq_graph_scheme \<Rightarrow> valueinfo option \<Rightarrow> bool result" where
  "dq_produced g p =
     (case p of
        None \<Rightarrow> Inr False
      | Some v \<Rightarrow> and_then (producer_of_type g v ''DequantizeLinear'') (\<lambda>dq. Inr (dq \<noteq> None)))"

definition conv_output_type_ok ::
  "('g) qdq_graph_scheme \<Rightarrow> ONNXTensorElementDataType \<Rightarrow> ONNXTensorElementDataType \<Rightarrow> node \<Rightarrow> valueinfo option \<Rightarrow> bool result" where
  "conv_output_type_ok g dt_input dt_output q_node data_input =
     and_then (IsSupportedActivationOutputTypePair g dt_input dt_output q_node) (\<lambda>pair_ok.
       if pair_ok then Inr True
       else if \<not> NeedsPrecisionConvert dt_input dt_output then Inr False
       else and_then (nonnull data_input) (\<lambda>v.
         Inr (case GetValueInfoShape g v of None \<Rightarrow> False | Some sh \<Rightarrow> length sh \<noteq> 3)))"

definition Check_Conv :: "('g) qdq_graph_scheme \<Rightarrow> node \<Rightarrow> node option \<Rightarrow> node list \<Rightarrow> node list \<Rightarrow> bool result" where
  "Check_Conv g n clip dqs qs =
     and_then (IsPerChannelConstantWeightOnlyGroup g n dqs qs) (\<lambda>weight_only.
       if weight_only then Inr True
       else if length dqs < 2 \<or> length dqs > 3 then Inr False
       else if \<not> CheckQDQNodes g n dqs qs (int (length dqs)) False then Inr False
       else on_fail (Node_GetInputs g n) (Inr False) (\<lambda>node_inputs.
         if length node_inputs < 2 then Inr False
         else check_then (dq_produced g (node_inputs ! 0))
             (check_then (dq_produced g (node_inputs ! 1))
               (and_then (dq_type g dqs 1) (\<lambda>dt_weight.
                in_out_types g dqs qs (\<lambda>dt_input dt_output.
                  case dt_weight of
                    None \<Rightarrow> Inr False
                  | Some dt_weight \<Rightarrow>
                      and_then (vec_at qs 0) (\<lambda>q_node.
                        check_then (conv_output_type_ok g dt_input dt_output q_node (node_inputs ! 0))
                          (if dt_input = ONNX_INT8 \<and> dt_weight \<noteq> dt_input then Inr False
                           else if length dqs = 3
                           then and_then (dq_type g dqs 2) (\<lambda>dt_bias. Inr (dt_bias = Some ONNX_INT32))
                           else Inr True))))))))"

primrec types_known :: "('g) qdq_graph_scheme \<Rightarrow> node list \<Rightarrow> bool result" where
  "types_known g [] = Inr True"
| "types_known g (n # ns) = and_then (GetNodeInputDataType g n 0) (\<lambda>dt. if dt = None then Inr False else types_known g ns)"

definition Check_Einsum :: "('g) qdq_graph_scheme \<Rightarrow> node \<Rightarrow> node option \<Rightarrow> node list \<Rightarrow> node list \<Rightarrow> bool result" where
  "Check_Einsum g n clip dqs qs =
     (if \<not> CheckQDQNodes g n dqs qs (- 1) True then Inr False
      else check_then (types_known g dqs)
        (if qs = [] then Inr True else in_out_types g dqs qs (\<lambda>dt_input0 dt_output. Inr (dt_input0 = dt_output))))"

definition Check_Reciprocal :: "('g) qdq_graph_scheme \<Rightarrow> node \<Rightarrow> node option \<Rightarrow> node list \<Rightarrow> node list \<Rightarrow> bool result" where
  "Check_Reciprocal g n clip dqs qs =
     (if \<not> CheckQDQNodes g n dqs qs (- 1) True then Inr False
      else check_then (types_known g dqs)
        (if qs = [] then Inr True else in_out_types g dqs qs (\<lambda>dt_input0 dt_output. Inr (dt_input0 = dt_output))))"

definition Check_MatMul :: "('g) qdq_graph_scheme \<Rightarrow> node \<Rightarrow> node option \<Rightarrow> node list \<Rightarrow> node list \<Rightarrow> bool result" where
  "Check_MatMul g n clip dqs qs =
     and_then (IsPerChannelConstantWeightOnlyGroup g n dqs qs) (\<lambda>weight_only.
       if weight_only then Inr True
       else if length dqs \<noteq> 2 then Inr False
       else and_then (dq_type g dqs 0) (\<lambda>dt_input. and_then (dq_type g dqs 1) (\<lambda>dt_weight.
         case (dt_input, dt_weight) of
           (Some a, Some w) \<Rightarrow>
             (if a = ONNX_INT8 \<and> w \<noteq> a then Inr False
              else if qs = [] then Inr False
              else if \<not> CheckQDQNodes g n dqs qs (- 1) False then Inr False
              else and_then (q_type g qs 0) (\<lambda>dt_output.
                case dt_output of
                  None \<Rightarrow> Inr False
                | Some b \<Rightarrow>
                    and_then (vec_at qs 0) (\<lambda>q_node.
                    and_then (IsSupportedActivationOutputTypePair g a b q_node) (\<lambda>pair_ok.
                      Inr (pair_ok \<or> IsConvertBeforeOpGroup a w b)))))
         | _ \<Rightarrow> Inr False)))"

definition Check_Gemm :: "('g) qdq_graph_scheme \<Rightarrow> node \<Rightarrow> node option \<Rightarrow> node list \<Rightarrow> node list \<Rightarrow> bool result" where
  "Check_Gemm g n clip dqs qs =
     (if \<not> CheckQDQNodes g n dqs qs (- 1) True then Inr False
      else if length dqs < 2 then Inr False
      else and_then (dq_type g dqs 0) (\<lambda>dt_A. and_then (dq_type g dqs 1) (\<lambda>dt_B.
        case (dt_A, dt_B) of
          (Some a, Some b) \<Rightarrow>
            (if a = ONNX_INT8 \<and> a \<noteq> b then Inr False
             else check_then
               (if qs = [] then Inr True
                else and_then (q_type g qs 0) (\<lambda>dt_Y.
                  case dt_Y of
                    None \<Rightarrow> Inr False
                  | Some y \<Rightarrow>
                      and_then (vec_at qs 0) (\<lambda>q_node.
                      and_then (IsSupportedActivationOutputTypePair g a y q_node) (\<lambda>pair_ok.
                        Inr (pair_ok \<or> IsConvertBeforeOpGroup a b y)))))
               (if length dqs < 3 then Inr True
                else if Attr_float g n ''beta'' (Num 0) \<noteq> Num 1 then Inr False
                else and_then (dq_type g dqs 2) (\<lambda>dt_bias. Inr (dt_bias = Some ONNX_INT32))))
        | _ \<Rightarrow> Inr False)))"

definition Check_Where :: "('g) qdq_graph_scheme \<Rightarrow> node \<Rightarrow> node option \<Rightarrow> node list \<Rightarrow> node list \<Rightarrow> bool result" where
  "Check_Where g n clip dqs qs =
     (if \<not> CheckQDQNodes g n dqs qs 2 False then Inr False
      else and_then (dq_type g dqs 1) (\<lambda>dt_input_2.
        in_out_types g dqs qs (\<lambda>dt_input_1 dt_output. Inr (dt_input_2 = Some dt_input_1 \<and> dt_input_1 = dt_output))))"

definition Check_Pad :: "('g) qdq_graph_scheme \<Rightarrow> node \<Rightarrow> node option \<Rightarrow> node list \<Rightarrow> node list \<Rightarrow> bool result" where
  "Check_Pad g n clip dqs qs =
     (if length dqs < 1 \<or> length dqs > 2 then Inr False
      else if \<not> CheckQDQNodes g n dqs qs (int (length dqs)) False then Inr False
      else in_out_types g dqs qs (\<lambda>dt_input_1 dt_output.
        if length dqs > 1
        then and_then (dq_type g dqs 1) (\<lambda>dt_input_2. Inr (dt_input_2 = Some dt_input_1 \<and> dt_input_1 = dt_output))
        else Inr (dt_input_1 = dt_output)))"

definition Check_InstanceAndLayerNormalization ::
  "('g) qdq_graph_scheme \<Rightarrow> node \<Rightarrow> node option \<Rightarrow> node list \<Rightarrow> node list \<Rightarrow> bool result" where
  "Check_InstanceAndLayerNormalization g n clip dqs qs =
     (if \<not> CheckQDQNodes g n dqs qs (- 1) False then Inr False
      else in_out_types g dqs qs (\<lambda>dt_input dt_output.
        and_then (if length dqs > 2 then dq_type g dqs 2 else Inr (Some ONNX_INT32)) (\<lambda>dt_bias.
          if dt_bias = None then Inr False
          else and_then
            (if dt_input = dt_output then Inr True
             else and_then (OperatorType g n) (\<lambda>op_type.
               if op_type \<noteq> ''LayerNormalization'' then Inr False
               else and_then (vec_at qs 0) (\<lambda>q_node.
                 and_then (IsSupportedActivationOutputTypePair g dt_input dt_output q_node) (\<lambda>pair_ok.
                   if pair_ok then Inr True
                   else if length dqs > 1
                   then and_then (vec_at dqs 0) (IsConvertActivationToOutputGroup g dt_input dt_output)
                   else Inr False))))
            (\<lambda>supported_activation_output. Inr (supported_activation_output \<and> dt_bias = Some ONNX_INT32)))))"

definition Check_BatchNormalization ::
  "('g) qdq_graph_scheme \<Rightarrow> node \<Rightarrow> node option \<Rightarrow> node list \<Rightarrow> node list \<Rightarrow> bool result" where
  "Check_BatchNormalization g n clip dqs qs =
     (if length dqs < 2 \<or> length dqs > 5 then Inr False
      else if \<not> CheckQDQNodes g n dqs qs (int (length dqs)) True then Inr False
      else and_then (dq_type g dqs 0) (\<lambda>dt_input. and_then (dq_type g dqs 1) (\<lambda>dt_scale.
        case (dt_input, dt_scale) of
          (Some a, Some sc) \<Rightarrow>
            check_then
              (if qs = [] then Inr True else and_then (q_type g qs 0) (\<lambda>dt_output. Inr (dt_output = Some a)))
              (Inr (\<not> (a = ONNX_INT8 \<and> sc \<noteq> a)))
        | _ \<Rightarrow> Inr False)))"

definition Check_LogicalComparison ::
  "('g) qdq_graph_scheme \<Rightarrow> node \<Rightarrow> node option \<Rightarrow> node list \<Rightarrow> node list \<Rightarrow> bool result" where
  "Check_LogicalComparison g n clip dqs qs =
     (if \<not> CheckQDQNodes g n dqs qs (- 1) True then Inr False
      else and_then (dq_type g dqs 0) (\<lambda>dt_input_1. and_then (dq_type g dqs 1) (\<lambda>dt_input_2.
        Inr (dt_input_1 \<noteq> None \<and> dt_input_2 \<noteq> None \<and> dt_input_1 = dt_input_2))))"

definition Check_TopK :: "('g) qdq_graph_scheme \<Rightarrow> node \<Rightarrow> node option \<Rightarrow> node list \<Rightarrow> node list \<Rightarrow> bool result" where
  "Check_TopK g n clip dqs qs =
     (if clip \<noteq> None then Inr False
      else if length dqs \<noteq> 1 then Inr False
      else check_then (CanCreateNodeGroup g n dqs qs)
        (if length qs \<noteq> 1 then Inr False
         else in_out_types g dqs qs (\<lambda>dt_input dt_output.
           if dt_input \<noteq> dt_output then Inr False
           else and_then (vec_at qs 0) (\<lambda>q_node. and_then (vec_at dqs 0) (\<lambda>dq_node. IsQDQPairSupported g q_node dq_node)))))"

definition Check_CumSum :: "('g) qdq_graph_scheme \<Rightarrow> node \<Rightarrow> node option \<Rightarrow> node list \<Rightarrow> node list \<Rightarrow> bool result" where
  "Check_CumSum g n clip dqs qs =
     (if \<not> CheckQDQNodes g n dqs qs 1 False then Inr False
      else in_out_types g dqs qs (\<lambda>dt_input dt_output. Inr (dt_input = dt_output)))"

definition Check_ScatterElements ::
  "('g) qdq_graph_scheme \<Rightarrow> node \<Rightarrow> node option \<Rightarrow> node list \<Rightarrow> node list \<Rightarrow> bool result" where
  "Check_ScatterElements g n clip dqs qs =
     (if \<not> CheckQDQNodes g n dqs qs 2 False then Inr False
      else and_then (dq_type g dqs 1) (\<lambda>dt_input_2.
        in_out_types g dqs qs (\<lambda>dt_input_1 dt_output. Inr (dt_input_2 = Some dt_input_1 \<and> dt_input_1 = dt_output))))"

definition Check_RMSNormalization ::
  "('g) qdq_graph_scheme \<Rightarrow> node \<Rightarrow> node option \<Rightarrow> node list \<Rightarrow> node list \<Rightarrow> bool result" where
  "Check_RMSNormalization g n clip dqs qs =
     (if \<not> CheckQDQNodes g n dqs qs (- 1) False then Inr False
      else in_out_types g dqs qs (\<lambda>dt_input dt_output. Inr (dt_input = dt_output)))"

definition Check_MatMulNBits :: "('g) qdq_graph_scheme \<Rightarrow> node \<Rightarrow> node option \<Rightarrow> node list \<Rightarrow> node list \<Rightarrow> bool result" where
  "Check_MatMulNBits g n clip dqs qs =
     (if \<not> CheckQDQNodes g n dqs qs 1 False then Inr False
      else in_out_types g dqs qs (\<lambda>dt_input dt_output. Inr (dt_input = dt_output)))"

definition IsOutputDataTypeMatchingFirstInput :: "('g) qdq_graph_scheme \<Rightarrow> node \<Rightarrow> node list \<Rightarrow> bool result" where
  "IsOutputDataTypeMatchingFirstInput g n qs =
     on_fail (Node_GetInputs g n) (Inr False) (\<lambda>inputs.
       if inputs = [] then Inr False
       else case inputs ! 0 of
              None \<Rightarrow> Inr False
            | Some v \<Rightarrow>
                and_then (producer_of_type g v ''DequantizeLinear'') (\<lambda>x_dq.
                  case x_dq of
                    None \<Rightarrow> Inr False
                  | Some x_dq_node \<Rightarrow>
                      and_then (GetNodeInputDataType g x_dq_node 0) (\<lambda>dt_x.
                        case dt_x of
                          None \<Rightarrow> Inr False
                        | Some t \<Rightarrow> all_types (\<lambda>m. GetNodeOutputDataType g m 0) t qs)))"

definition Check_GRU :: "('g) qdq_graph_scheme \<Rightarrow> node \<Rightarrow> node option \<Rightarrow> node list \<Rightarrow> node list \<Rightarrow> bool result" where
  "Check_GRU g n clip dqs qs =
     (if \<not> CheckQDQNodes g n dqs qs (int (length dqs)) False then Inr False
      else IsOutputDataTypeMatchingFirstInput g n qs)"

section \<open>Selecting groups and forming units\<close>

datatype selector =
    DropQDQ bool | DropDQ | Unary | Clip | Binary | Variadic | Split bool | Conv | Einsum | Reciprocal | MatMul | Gemm | GRU
  | InstanceAndLayerNormalization | BatchNormalization | LogicalComparison | Where | Pad | TopK | CumSum | ScatterElements
  | RMSNormalization | MatMulNBits

definition Check :: "selector \<Rightarrow> ('g) qdq_graph_scheme \<Rightarrow> node \<Rightarrow> node option \<Rightarrow> node list \<Rightarrow> node list \<Rightarrow> bool result" where
  "Check sel =
     (case sel of
        DropQDQ allow_nonpositive_scale \<Rightarrow> Check_DropQDQ allow_nonpositive_scale
      | DropDQ \<Rightarrow> Check_DropDQ
      | Unary \<Rightarrow> Check_Unary
      | Clip \<Rightarrow> Check_Clip
      | Binary \<Rightarrow> Check_Binary
      | Variadic \<Rightarrow> Check_Variadic
      | Split req_equal_quant_params \<Rightarrow> Check_Split req_equal_quant_params
      | Conv \<Rightarrow> Check_Conv
      | Einsum \<Rightarrow> Check_Einsum
      | Reciprocal \<Rightarrow> Check_Reciprocal
      | MatMul \<Rightarrow> Check_MatMul
      | Gemm \<Rightarrow> Check_Gemm
      | GRU \<Rightarrow> Check_GRU
      | InstanceAndLayerNormalization \<Rightarrow> Check_InstanceAndLayerNormalization
      | BatchNormalization \<Rightarrow> Check_BatchNormalization
      | LogicalComparison \<Rightarrow> Check_LogicalComparison
      | Where \<Rightarrow> Check_Where
      | Pad \<Rightarrow> Check_Pad
      | TopK \<Rightarrow> Check_TopK
      | CumSum \<Rightarrow> Check_CumSum
      | ScatterElements \<Rightarrow> Check_ScatterElements
      | RMSNormalization \<Rightarrow> Check_RMSNormalization
      | MatMulNBits \<Rightarrow> Check_MatMulNBits)"

type_synonym selector_entry = "(string \<times> int list) list \<times> selector"

definition any_version :: "string list \<Rightarrow> (string \<times> int list) list" where
  "any_version ops = map (\<lambda>op. (op, [])) ops"

definition CreateSelectors :: "selector_entry list" where
  "CreateSelectors =
     [((''MaxPool'', [12]) # any_version [''Expand'', ''Flatten'', ''Gather'', ''GatherElements'', ''Reshape'', ''Resize'',
         ''Squeeze'', ''Tile'', ''Transpose'', ''Unsqueeze''], DropQDQ True),
      (any_version [''ArgMax'', ''ArgMin'', ''NonZero''], DropDQ),
      (any_version [''Abs'', ''Asin'', ''Atan'', ''AveragePool'', ''Buffer'', ''Ceil'', ''Cos'', ''DepthToSpace'', ''Elu'',
         ''Erf'', ''Exp'', ''Floor'', ''Gelu'', ''GlobalAveragePool'', ''GlobalMaxPool'', ''HardSigmoid'', ''HardSwish'',
         ''LRN'', ''LeakyRelu'', ''Log'', ''LogSoftmax'', ''LpNormalization'', ''Neg'', ''ReduceL2'', ''ReduceLogSumExp'',
         ''ReduceMax'', ''ReduceMean'', ''ReduceMin'', ''ReduceProd'', ''ReduceSum'', ''Relu'', ''Round'', ''Sigmoid'',
         ''Sign'', ''Sin'', ''Slice'', ''Softmax'', ''Softplus'', ''SpaceToDepth'', ''Sqrt'', ''Swish'', ''Tanh''], Unary),
      (any_version [''Clip''], Clip),
      (any_version [''Add'', ''Div'', ''GridSample'', ''Mul'', ''Pow'', ''PRelu'', ''Sub''], Binary),
      (any_version [''Concat'', ''Max'', ''Min''], Variadic),
      (any_version [''Split''], Split False),
      (any_version [''Conv''], Conv),
      (any_version [''ConvTranspose''], Conv),
      (any_version [''Einsum''], Einsum),
      (any_version [''Reciprocal''], Reciprocal),
      (any_version [''MatMul''], MatMul),
      (any_version [''Gemm''], Gemm),
      (any_version [''GRU'', ''StatefulGru''], GRU),
      (any_version [''InstanceNormalization'', ''LayerNormalization''], InstanceAndLayerNormalization),
      (any_version [''BatchNormalization''], BatchNormalization),
      (any_version [''Equal'', ''Greater'', ''GreaterOrEqual'', ''Less'', ''LessOrEqual''], LogicalComparison),
      (any_version [''Where''], Where),
      (any_version [''Pad''], Pad),
      (any_version [''TopK''], TopK),
      (any_version [''CumSum''], CumSum),
      (any_version [''ScatterElements''], ScatterElements),
      (any_version [''RMSNormalization'', ''SimplifiedLayerNormalization''], RMSNormalization),
      (any_version [''MatMulNBits''], MatMulNBits)]"

definition InitializeSelectorsMap :: "selector_entry list \<Rightarrow> (string \<times> int list \<times> selector) list" where
  "InitializeSelectorsMap selectors_set =
     fold (\<lambda>(ops, sel). fold (\<lambda>(op, versions). emplace op (versions, sel)) ops) selectors_set []"

record OrtNodeGroup =
  group_dq_nodes :: "node list"
  group_q_nodes :: "node list"
  group_target_node :: node
  group_redundant_clip_node :: "node option"
  group_output_reshape_node :: "node option"

primrec dq_producers :: "('g) qdq_graph_scheme \<Rightarrow> valueinfo option list \<Rightarrow> node list result" where
  "dq_producers g [] = Inr []"
| "dq_producers g (p # inputs) =
     (case p of
        None \<Rightarrow> dq_producers g inputs
      | Some v \<Rightarrow>
          and_then (producer_of_type g v ''DequantizeLinear'') (\<lambda>dq.
          and_then (dq_producers g inputs) (\<lambda>rest. Inr (case dq of None \<Rightarrow> rest | Some n \<Rightarrow> n # rest))))"

primrec quantizers :: "('g) qdq_graph_scheme \<Rightarrow> node list \<Rightarrow> node list result" where
  "quantizers g [] = Inr []"
| "quantizers g (n # ns) =
     and_then (OperatorType g n) (\<lambda>t.
     and_then (quantizers g ns) (\<lambda>rest. Inr (if t = ''QuantizeLinear'' then n # rest else rest)))"

primrec q_consumers :: "('g) qdq_graph_scheme \<Rightarrow> valueinfo option list \<Rightarrow> node list result" where
  "q_consumers g [] = Inr []"
| "q_consumers g (p # outputs) =
     (case p of
        None \<Rightarrow> q_consumers g outputs
      | Some v \<Rightarrow>
          on_fail (ValueInfo_GetValueConsumers g v) (q_consumers g outputs) (\<lambda>consumers.
            and_then (quantizers g consumers) (\<lambda>here.
            and_then (q_consumers g outputs) (\<lambda>rest. Inr (here @ rest)))))"

text \<open>The Relu or Clip and the Reshape that extend the group behind the operator.\<close>

definition forward_extension :: "('g) qdq_graph_scheme \<Rightarrow> node \<Rightarrow> nat \<Rightarrow> (node option \<times> node option) result" where
  "forward_extension g n output_count =
     (if output_count \<noteq> 1 then Inr (None, None)
      else and_then (TryFoldRedundantActivation g n) (\<lambda>clip_node.
        if clip_node \<noteq> None then Inr (clip_node, None)
        else and_then (TryAbsorbTrailingReshape g n) (\<lambda>(absorbed_reshape, folded_activation).
          Inr (folded_activation, absorbed_reshape))))"

definition GetOrtQDQSelection :: "('g) qdq_graph_scheme \<Rightarrow> node \<Rightarrow> selector \<Rightarrow> OrtNodeGroup option result" where
  "GetOrtQDQSelection g n sel =
     on_fail (Node_GetInputs g n) (Inr None) (\<lambda>inputs.
     and_then (dq_producers g inputs) (\<lambda>dqs.
     on_fail (Node_GetOutputs g n) (Inr None) (\<lambda>node_outputs.
     and_then (forward_extension g n (length node_outputs)) (\<lambda>(clip_node, output_reshape_node).
       let q_anchor = (case clip_node of Some c \<Rightarrow> c | None \<Rightarrow> (case output_reshape_node of Some r \<Rightarrow> r | None \<Rightarrow> n))
       in on_fail (Node_GetOutputs g q_anchor) (Inr None) (\<lambda>outputs.
            and_then (q_consumers g outputs) (\<lambda>qs.
            and_then (Check sel g n clip_node dqs qs) (\<lambda>ok.
              Inr (if ok then Some \<lparr>group_dq_nodes = dqs, group_q_nodes = qs, group_target_node = n,
                                    group_redundant_clip_node = clip_node, group_output_reshape_node = output_reshape_node\<rparr>
                   else None))))))))"

definition selection_domains :: "string list" where
  "selection_domains = [[], ''com.ms.internal.nhwc'', ''com.microsoft'', ''ai.onnx.ml'', ''qti_aisw'']"

text \<open>The selection for one node; \<^const>\<open>None\<close> is the \<open>continue\<close> of the loop.\<close>

definition select_node :: "('g) qdq_graph_scheme \<Rightarrow> node \<Rightarrow> OrtNodeGroup option result" where
  "select_node g n =
     and_then (OperatorType g n) (\<lambda>op_type.
     on_fail (Node_GetDomain g n) (Inr None) (\<lambda>domain.
       if domain \<notin> set selection_domains then Inr None
       else case map_of (InitializeSelectorsMap CreateSelectors) op_type of
              None \<Rightarrow> Inr None
            | Some (versions, sel) \<Rightarrow>
                (if versions = [] then GetOrtQDQSelection g n sel
                 else on_fail (Node_GetSinceVersion g n) (Inr None) (\<lambda>since_version.
                   if since_version \<notin> set versions then Inr None else GetOrtQDQSelection g n sel))))"

primrec select_nodes :: "('g) qdq_graph_scheme \<Rightarrow> node list \<Rightarrow> OrtNodeGroup list result" where
  "select_nodes g [] = Inr []"
| "select_nodes g (n # ns) =
     and_then (select_node g n) (\<lambda>sel.
     and_then (select_nodes g ns) (\<lambda>rest. Inr (case sel of None \<Rightarrow> rest | Some grp \<Rightarrow> grp # rest)))"

definition GetOrtQDQSelections :: "('g) qdq_graph_scheme \<Rightarrow> OrtNodeGroup list result" where
  "GetOrtQDQSelections g = on_fail (Graph_GetNodes g) (Inr []) (select_nodes g)"

definition qdq_unit :: "OrtNodeGroup \<Rightarrow> OrtNodeUnit" where
  "qdq_unit grp =
     \<lparr>dq_nodes = group_dq_nodes grp, target_node = group_target_node grp,
      redundant_clip_node = group_redundant_clip_node grp, output_reshape_node = group_output_reshape_node grp,
      q_nodes = group_q_nodes grp, unit_type = QDQGroup\<rparr>"

definition single_unit :: "node \<Rightarrow> OrtNodeUnit" where
  "single_unit n =
     \<lparr>dq_nodes = [], target_node = n, redundant_clip_node = None, output_reshape_node = None, q_nodes = [],
      unit_type = SingleNode\<rparr>"

definition add_node_unit_to_map :: "node list \<Rightarrow> OrtNodeUnit \<Rightarrow> node_unit_map \<Rightarrow> node_unit_map" where
  "add_node_unit_to_map ns u um = fold (\<lambda>n m. m(n \<mapsto> u)) ns um"

definition add_qdq_unit :: "OrtNodeGroup \<Rightarrow> OrtNodeUnit list \<times> node_unit_map \<Rightarrow> OrtNodeUnit list \<times> node_unit_map" where
  "add_qdq_unit grp s =
     (let (holder, um) = s;
          u = qdq_unit grp;
          um = add_node_unit_to_map (group_dq_nodes grp) u um;
          um = add_node_unit_to_map (group_q_nodes grp) u um;
          um = add_node_unit_to_map [group_target_node grp] u um;
          um = (case group_redundant_clip_node grp of None \<Rightarrow> um | Some c \<Rightarrow> add_node_unit_to_map [c] u um);
          um = (case group_output_reshape_node grp of None \<Rightarrow> um | Some r \<Rightarrow> add_node_unit_to_map [r] u um)
      in (holder @ [u], um))"

definition add_single_unit :: "node \<Rightarrow> OrtNodeUnit list \<times> node_unit_map \<Rightarrow> OrtNodeUnit list \<times> node_unit_map" where
  "add_single_unit n s =
     (let (holder, um) = s
      in if um n \<noteq> None then s else (holder @ [single_unit n], um(n \<mapsto> single_unit n)))"

definition GetAllOrtNodeUnits :: "('g) qdq_graph_scheme \<Rightarrow> (OrtNodeUnit list \<times> node_unit_map) result" where
  "GetAllOrtNodeUnits g =
     on_fail (Graph_GetNodes g) (Inr ([], Map.empty)) (\<lambda>nodes.
     and_then (GetOrtQDQSelections g) (\<lambda>qdq_selections.
       Inr (fold add_single_unit nodes (fold add_qdq_unit qdq_selections ([], Map.empty)))))"

end
