(* ===== verification/Qdq_Units.thy ===== *)
theory Qdq_Units
  imports Qdq_Selector
begin

text \<open>
  What the formation of node units guarantees: the units cover the graph, no node that a unit absorbs is the operator of
  another unit, no value that an absorbed Q hides is read outside the unit, and a folded activation cannot be observed behind
  the Q.  The graph contract \<open>graph_ok\<close> is what ONNX Runtime documents of its graph API.
\<close>

section \<open>Rules for the checks\<close>

lemma on_fail_simps [simp]: "on_fail (Inl e) d f = d" "on_fail (Inr x) d f = f x"
  by (simp_all add: on_fail_def)

lemma on_fail_ok: "is_ok r \<Longrightarrow> \<exists>x. r = Inr x"
  by (cases r) auto

lemma on_fail_True [simp]:
  "on_fail r False f \<longleftrightarrow> (\<exists>x. r = Inr x \<and> f x)"
  "on_fail r (Inr False) h = Inr True \<longleftrightarrow> (\<exists>x. r = Inr x \<and> h x = Inr True)"
  by (cases r; simp)+

lemma on_fail_Some [simp]:
  "on_fail r (Inr None) f = Inr (Some y) \<longleftrightarrow> (\<exists>x. r = Inr x \<and> f x = Inr (Some y))"
  "on_fail r None h = Some y \<longleftrightarrow> (\<exists>x. r = Inr x \<and> h x = Some y)"
  by (cases r; simp)+

lemma check_then_True [simp]: "check_then c k = Inr True \<longleftrightarrow> c = Inr True \<and> k = Inr True"
  by (cases c) (auto simp: check_then_def)

lemma nonnull_Inr [simp]: "nonnull p = Inr x \<longleftrightarrow> p = Some x" "is_ok (nonnull p) \<longleftrightarrow> p \<noteq> None"
  by (auto simp: nonnull_def split: option.splits)

lemma vec_at_Inr [simp]: "vec_at xs i = Inr x \<longleftrightarrow> i < length xs \<and> xs ! i = x" "is_ok (vec_at xs i) \<longleftrightarrow> i < length xs"
  by (auto simp: vec_at_def)

lemma OperatorType_Inr [simp]: "OperatorType g n = Inr t \<longleftrightarrow> Node_GetOperatorType g n = Inr t"
  "is_ok (OperatorType g n) \<longleftrightarrow> is_ok (Node_GetOperatorType g n)"
  by (auto simp: OperatorType_def split: sum.splits)

lemma producer_of_type_Some [simp]:
  "producer_of_type g v op_type = Inr (Some n) \<longleftrightarrow>
     ValueInfo_GetValueProducer g v = Inr (Some n) \<and> Node_GetOperatorType g n = Inr op_type"
  by (auto simp: producer_of_type_def and_then_eq_Inr_iff split: option.splits if_splits)

section \<open>The graph contract\<close>

definition ins :: "('g) qdq_graph_scheme \<Rightarrow> node \<Rightarrow> valueinfo option list" where
  "ins g n = on_fail (Node_GetInputs g n) [] (\<lambda>xs. xs)"

definition outs :: "('g) qdq_graph_scheme \<Rightarrow> node \<Rightarrow> valueinfo option list" where
  "outs g n = on_fail (Node_GetOutputs g n) [] (\<lambda>xs. xs)"

definition consumers_of :: "('g) qdq_graph_scheme \<Rightarrow> valueinfo \<Rightarrow> node list" where
  "consumers_of g v = on_fail (ValueInfo_GetValueConsumers g v) [] (\<lambda>xs. xs)"

definition op_of :: "('g) qdq_graph_scheme \<Rightarrow> node \<Rightarrow> string" where
  "op_of g n = on_fail (Node_GetOperatorType g n) [] (\<lambda>t. t)"

text \<open>
  Every call about a node of the graph or a value it reads or writes succeeds.  The producer of an output is the node that has
  it; a consumer reads the value; producers and consumers are nodes of the graph.
\<close>

definition output_ok :: "('g) qdq_graph_scheme \<Rightarrow> node list \<Rightarrow> node \<Rightarrow> valueinfo \<Rightarrow> bool" where
  "output_ok g ns n v \<longleftrightarrow>
     ValueInfo_GetValueProducer g v = Inr (Some n) \<and> is_ok (ValueInfo_GetValueConsumers g v) \<and> is_ok (ValueInfo_IsGraphOutput g v)
     \<and> (\<forall>c \<in> set (consumers_of g v). c \<in> set ns \<and> Some v \<in> set (ins g c))"

definition input_ok :: "('g) qdq_graph_scheme \<Rightarrow> node list \<Rightarrow> valueinfo \<Rightarrow> bool" where
  "input_ok g ns v \<longleftrightarrow>
     (case ValueInfo_GetValueProducer g v of
        Inl _ \<Rightarrow> False
      | Inr None \<Rightarrow> True
      | Inr (Some p) \<Rightarrow> p \<in> set ns \<and> Some v \<in> set (outs g p))"

definition node_ok :: "('g) qdq_graph_scheme \<Rightarrow> node list \<Rightarrow> node \<Rightarrow> bool" where
  "node_ok g ns n \<longleftrightarrow>
     is_ok (Node_GetInputs g n) \<and> is_ok (Node_GetOutputs g n) \<and> is_ok (Node_GetOperatorType g n)
     \<and> (\<forall>v. Some v \<in> set (outs g n) \<longrightarrow> output_ok g ns n v)
     \<and> (\<forall>v. Some v \<in> set (ins g n) \<longrightarrow> input_ok g ns v)"

definition graph_ok :: "('g) qdq_graph_scheme \<Rightarrow> node list \<Rightarrow> bool" where
  "graph_ok g ns \<longleftrightarrow> Graph_GetNodes g = Inr ns \<and> distinct ns \<and> (\<forall>n \<in> set ns. node_ok g ns n)"

text \<open>
  Only the first input of a Relu, Clip or Reshape carries data.  A further input of a Relu or Clip (the bounds) is produced by no
  node; a further input of a Reshape (the shape, integers) is not produced by a DequantizeLinear or a Gemm.
\<close>

definition data_input_first :: "('g) qdq_graph_scheme \<Rightarrow> node \<Rightarrow> bool" where
  "data_input_first g n \<longleftrightarrow>
     (\<forall>v p. Some v \<in> set (tl (ins g n)) \<longrightarrow> ValueInfo_GetValueProducer g v = Inr (Some p) \<longrightarrow>
        op_of g n \<notin> {''Relu'', ''Clip''} \<and> (op_of g n = ''Reshape'' \<longrightarrow> op_of g p \<notin> {''DequantizeLinear'', ''Gemm''}))"

lemma is_ok_ins: "is_ok (Node_GetInputs g n) \<Longrightarrow> Node_GetInputs g n = Inr (ins g n)"
  by (auto simp: ins_def dest!: on_fail_ok)

lemma is_ok_outs: "is_ok (Node_GetOutputs g n) \<Longrightarrow> Node_GetOutputs g n = Inr (outs g n)"
  by (auto simp: outs_def dest!: on_fail_ok)

lemma is_ok_op: "is_ok (Node_GetOperatorType g n) \<Longrightarrow> Node_GetOperatorType g n = Inr (op_of g n)"
  by (auto simp: op_of_def dest!: on_fail_ok)

lemma is_ok_consumers: "is_ok (ValueInfo_GetValueConsumers g v) \<Longrightarrow> ValueInfo_GetValueConsumers g v = Inr (consumers_of g v)"
  by (auto simp: consumers_of_def dest!: on_fail_ok)

lemma graph_node:
  assumes "graph_ok g ns" "n \<in> set ns"
  shows "Node_GetInputs g n = Inr (ins g n)" "Node_GetOutputs g n = Inr (outs g n)"
    "Node_GetOperatorType g n = Inr (op_of g n)"
  using assms by (auto simp: graph_ok_def node_ok_def intro: is_ok_ins is_ok_outs is_ok_op)

lemma graph_output:
  assumes "graph_ok g ns" "n \<in> set ns" "Some v \<in> set (outs g n)"
  shows "ValueInfo_GetValueProducer g v = Inr (Some n)" "ValueInfo_GetValueConsumers g v = Inr (consumers_of g v)"
    "is_ok (ValueInfo_IsGraphOutput g v)" "c \<in> set (consumers_of g v) \<Longrightarrow> c \<in> set ns \<and> Some v \<in> set (ins g c)"
  using assms by (auto simp: graph_ok_def node_ok_def output_ok_def intro: is_ok_consumers)

lemma graph_producer:
  assumes "graph_ok g ns" "n \<in> set ns" "Some v \<in> set (ins g n)" "ValueInfo_GetValueProducer g v = Inr (Some p)"
  shows "p \<in> set ns" "Some v \<in> set (outs g p)"
  using assms by (force simp: graph_ok_def node_ok_def input_ok_def)+

section \<open>The structure of a selected group\<close>

lemma dq_producers_ops:
  "dq_producers g inputs = Inr dqs \<Longrightarrow> d \<in> set dqs \<Longrightarrow>
     Node_GetOperatorType g d = Inr ''DequantizeLinear'' \<and> (\<exists>v. Some v \<in> set inputs \<and> ValueInfo_GetValueProducer g v = Inr (Some d))"
proof (induction inputs arbitrary: dqs)
  case (Cons p inputs)
  show ?case
  proof (cases p)
    case None
    then show ?thesis using Cons by auto
  next
    case (Some v)
    then obtain dq rest where r: "producer_of_type g v ''DequantizeLinear'' = Inr dq" "dq_producers g inputs = Inr rest"
      "dqs = (case dq of None \<Rightarrow> rest | Some n \<Rightarrow> n # rest)"
      using Cons.prems(1) by (auto simp: and_then_eq_Inr_iff)
    show ?thesis using Cons.IH [OF r(2)] Cons.prems(2) r Some by (cases dq) auto
  qed
qed simp

lemma dq_producers_complete:
  "dq_producers g inputs = Inr dqs \<Longrightarrow> Some v \<in> set inputs \<Longrightarrow> ValueInfo_GetValueProducer g v = Inr (Some d) \<Longrightarrow>
     Node_GetOperatorType g d = Inr ''DequantizeLinear'' \<Longrightarrow> d \<in> set dqs"
proof (induction inputs arbitrary: dqs)
  case (Cons p inputs)
  show ?case
  proof (cases p)
    case None
    then show ?thesis using Cons by auto
  next
    case (Some w)
    then obtain dq rest where r: "producer_of_type g w ''DequantizeLinear'' = Inr dq" "dq_producers g inputs = Inr rest"
      "dqs = (case dq of None \<Rightarrow> rest | Some n \<Rightarrow> n # rest)"
      using Cons.prems(1) by (auto simp: and_then_eq_Inr_iff)
    show ?thesis
    proof (cases "Some v \<in> set inputs")
      case True
      then show ?thesis using Cons.IH [OF r(2)] Cons.prems(3,4) r(3) by (cases dq) auto
    next
      case False
      then have "w = v" using Cons.prems(2) Some by auto
      then have "producer_of_type g w ''DequantizeLinear'' = Inr (Some d)" using Cons.prems(3,4) by simp
      then have "dq = Some d" using r(1) by simp
      then show ?thesis using r(3) by simp
    qed
  qed
qed simp

lemma consumers_of_simps:
  "ValueInfo_GetValueConsumers g v = Inl e \<Longrightarrow> consumers_of g v = []"
  "ValueInfo_GetValueConsumers g v = Inr cs \<Longrightarrow> consumers_of g v = cs"
  by (simp_all add: consumers_of_def)

lemma quantizers_eq:
  "quantizers g ns = Inr qs \<Longrightarrow> qs = filter (\<lambda>n. Node_GetOperatorType g n = Inr ''QuantizeLinear'') ns"
  by (induction ns arbitrary: qs) (auto simp: and_then_eq_Inr_iff)

lemma q_consumers_eq:
  "q_consumers g os = Inr qs \<Longrightarrow>
     qs = concat (map (\<lambda>p. case p of
       None \<Rightarrow> []
     | Some v \<Rightarrow> filter (\<lambda>n. Node_GetOperatorType g n = Inr ''QuantizeLinear'') (consumers_of g v)) os)"
proof (induction os arbitrary: qs)
  case (Cons p os)
  show ?case
  proof (cases p)
    case None
    then show ?thesis using Cons by simp
  next
    case (Some v)
    show ?thesis
    proof (cases "ValueInfo_GetValueConsumers g v")
      case (Inl e)
      then show ?thesis using Cons Some by (simp add: consumers_of_simps)
    next
      case (Inr cs)
      then obtain here rest where "quantizers g cs = Inr here" "q_consumers g os = Inr rest" "qs = here @ rest"
        using Cons.prems Some by (auto simp: and_then_eq_Inr_iff)
      then show ?thesis using Cons.IH Some Inr by (simp add: quantizers_eq consumers_of_simps)
    qed
  qed
qed simp

lemma q_consumers_ops:
  assumes "q_consumers g os = Inr qs" "q \<in> set qs"
  shows "Node_GetOperatorType g q = Inr ''QuantizeLinear'' \<and> (\<exists>v. Some v \<in> set os \<and> q \<in> set (consumers_of g v))"
  using assms(2) unfolding q_consumers_eq [OF assms(1)] by (auto split: option.splits)

lemma singleton_case_Some: "(case xs of [x] \<Rightarrow> f x | _ \<Rightarrow> None) = Some y \<longleftrightarrow> (\<exists>x. xs = [x] \<and> f x = Some y)"
  by (cases xs; cases "tl xs") auto

lemma sole_consumer:
  assumes "sole_consumer_of_node g n = Some c"
  obtains v where "Node_GetOutputs g n = Inr [Some v]" "ValueInfo_IsGraphOutput g v = Inr False"
    "ValueInfo_GetValueConsumers g v = Inr [c]"
  using assms
  by (auto simp: sole_consumer_of_node_def GetSingleOutput_def GetSoleNonOutputConsumer_def singleton_case_Some
      split: option.splits if_splits)

definition activation :: "('g) qdq_graph_scheme \<Rightarrow> node \<Rightarrow> node \<Rightarrow> bool" where
  "activation g a q \<longleftrightarrow>
     (\<exists>t. Node_GetOperatorType g a = Inr t \<and> t \<in> {''Relu'', ''Clip''} \<and> sole_consumer_of_node g a = Some q
        \<and> Node_GetOperatorType g q = Inr ''QuantizeLinear'' \<and> IsActivationEncodingSafe g a t q = Inr True)"

lemma q_behind_activation_True:
  "q_behind_activation g a t = Inr True \<longleftrightarrow>
     (\<exists>q. sole_consumer_of_node g a = Some q \<and> Node_GetOperatorType g q = Inr ''QuantizeLinear''
        \<and> IsActivationEncodingSafe g a t q = Inr True)"
  by (auto simp: q_behind_activation_def and_then_eq_Inr_iff split: option.splits)

lemma TryFoldRedundantActivation_Some:
  "TryFoldRedundantActivation g n = Inr (Some a) \<Longrightarrow> sole_consumer_of_node g n = Some a \<and> (\<exists>q. activation g a q)"
  by (auto simp: TryFoldRedundantActivation_def and_then_eq_Inr_iff activation_def q_behind_activation_True
      split: option.splits if_splits)

lemma TryAbsorbTrailingReshape_cases:
  assumes "TryAbsorbTrailingReshape g n = Inr (r, c)"
  obtains "r = None" "c = None"
  | rn q where "r = Some rn" "c = None" "Node_GetOperatorType g n = Inr ''Gemm''" "sole_consumer_of_node g n = Some rn"
      "Node_GetOperatorType g rn = Inr ''Reshape''" "sole_consumer_of_node g rn = Some q"
      "Node_GetOperatorType g q = Inr ''QuantizeLinear''"
  | rn a q where "r = Some rn" "c = Some a" "Node_GetOperatorType g n = Inr ''Gemm''" "sole_consumer_of_node g n = Some rn"
      "Node_GetOperatorType g rn = Inr ''Reshape''" "sole_consumer_of_node g rn = Some a" "activation g a q"
proof (cases "r = None \<and> c = None")
  case False
  then obtain rn m where n: "Node_GetOperatorType g n = Inr ''Gemm''" "sole_consumer_of_node g n = Some rn"
    "Node_GetOperatorType g rn = Inr ''Reshape''" "sole_consumer_of_node g rn = Some m"
    using assms
    by (auto simp: TryAbsorbTrailingReshape_def and_then_eq_Inr_iff split: option.splits if_splits)
  obtain t where t: "Node_GetOperatorType g m = Inr t" "t = ''QuantizeLinear'' \<and> r = Some rn \<and> c = None
    \<or> t \<in> {''Relu'', ''Clip''} \<and> q_behind_activation g m t = Inr True \<and> r = Some rn \<and> c = Some m"
    using assms n False
    by (auto simp: TryAbsorbTrailingReshape_def and_then_eq_Inr_iff split: option.splits if_splits)
  from t(2) show thesis
  proof (elim disjE conjE)
    assume "t = ''QuantizeLinear''" "r = Some rn" "c = None"
    then show thesis using that(2) n t(1) by blast
  next
    assume a: "t \<in> {''Relu'', ''Clip''}" "q_behind_activation g m t = Inr True" "r = Some rn" "c = Some m"
    then obtain q where "activation g m q" using t(1) unfolding activation_def q_behind_activation_True by blast
    then show thesis using that(3) n a(3,4) by blast
  qed
qed (use that(1) in blast)

lemma forward_extension_cases:
  assumes "forward_extension g n k = Inr (c, r)"
  obtains "r = None" "c = None"
  | a q where "r = None" "c = Some a" "sole_consumer_of_node g n = Some a" "activation g a q"
  | rn q where "r = Some rn" "c = None" "Node_GetOperatorType g n = Inr ''Gemm''" "sole_consumer_of_node g n = Some rn"
      "Node_GetOperatorType g rn = Inr ''Reshape''" "sole_consumer_of_node g rn = Some q"
      "Node_GetOperatorType g q = Inr ''QuantizeLinear''"
  | rn a q where "r = Some rn" "c = Some a" "Node_GetOperatorType g n = Inr ''Gemm''" "sole_consumer_of_node g n = Some rn"
      "Node_GetOperatorType g rn = Inr ''Reshape''" "sole_consumer_of_node g rn = Some a" "activation g a q"
proof -
  have "r = None \<and> c = None \<or> (\<exists>a. r = None \<and> c = Some a \<and> TryFoldRedundantActivation g n = Inr (Some a))
    \<or> TryAbsorbTrailingReshape g n = Inr (r, c)"
    using assms by (auto simp: forward_extension_def and_then_eq_Inr_iff split: if_splits)
  then show thesis
  proof (elim disjE exE conjE)
    fix a assume "r = None" "c = Some a" "TryFoldRedundantActivation g n = Inr (Some a)"
    then show thesis using that(2) TryFoldRedundantActivation_Some by blast
  next
    assume "TryAbsorbTrailingReshape g n = Inr (r, c)"
    then show thesis by (rule TryAbsorbTrailingReshape_cases) (use that in \<open>blast+\<close>)
  qed (use that(1) in blast)
qed

definition anchor :: "OrtNodeGroup \<Rightarrow> node" where
  "anchor grp =
     (case group_redundant_clip_node grp of
        Some c \<Rightarrow> c
      | None \<Rightarrow> (case group_output_reshape_node grp of Some r \<Rightarrow> r | None \<Rightarrow> group_target_node grp))"

definition selected :: "('g) qdq_graph_scheme \<Rightarrow> node \<Rightarrow> selector \<Rightarrow> OrtNodeGroup \<Rightarrow> bool" where
  "selected g n sel grp \<longleftrightarrow>
     group_target_node grp = n \<and> is_ok (Node_GetInputs g n) \<and> dq_producers g (ins g n) = Inr (group_dq_nodes grp)
     \<and> forward_extension g n (length (outs g n)) = Inr (group_redundant_clip_node grp, group_output_reshape_node grp)
     \<and> is_ok (Node_GetOutputs g (anchor grp)) \<and> q_consumers g (outs g (anchor grp)) = Inr (group_q_nodes grp)
     \<and> Check sel g n (group_redundant_clip_node grp) (group_dq_nodes grp) (group_q_nodes grp) = Inr True"

lemma GetOrtQDQSelection_selected:
  assumes "GetOrtQDQSelection g n sel = Inr (Some grp)"
  shows "selected g n sel grp"
proof -
  obtain inputs dqs node_outputs c r where 1: "Node_GetInputs g n = Inr inputs" "dq_producers g inputs = Inr dqs"
    "Node_GetOutputs g n = Inr node_outputs" "forward_extension g n (length node_outputs) = Inr (c, r)"
    using assms by (auto simp: GetOrtQDQSelection_def and_then_eq_Inr_iff)
  obtain outputs qs where 2: "Node_GetOutputs g (case c of Some c \<Rightarrow> c | None \<Rightarrow> (case r of Some r \<Rightarrow> r | None \<Rightarrow> n)) = Inr outputs"
    "q_consumers g outputs = Inr qs" "Check sel g n c dqs qs = Inr True"
    "grp = \<lparr>group_dq_nodes = dqs, group_q_nodes = qs, group_target_node = n, group_redundant_clip_node = c,
            group_output_reshape_node = r\<rparr>"
    using assms 1 by (auto simp: GetOrtQDQSelection_def and_then_eq_Inr_iff Let_def split: if_splits)
  have a: "anchor grp = (case c of Some c \<Rightarrow> c | None \<Rightarrow> (case r of Some r \<Rightarrow> r | None \<Rightarrow> n))"
    using 2(4) by (cases c; cases r; simp add: anchor_def)
  show ?thesis using 1 2 unfolding selected_def a by (simp add: ins_def outs_def)
qed

lemma map_of_fold_emplace: "map_of (fold (\<lambda>(k, v). emplace k (f v)) xs m) k = (case map_of m k of
    Some v \<Rightarrow> Some v | None \<Rightarrow> map_option f (map_of xs k))"
  by (induction xs arbitrary: m) (auto split: option.splits)

lemma map_of_selectors:
  "map_of (InitializeSelectorsMap S) op =
     map_of (concat (map (\<lambda>(ops, sel). map (\<lambda>(op, versions). (op, (versions, sel))) ops) S)) op"
proof -
  have step: "map_of (map (\<lambda>(op, versions). (op, (versions, sel))) ops) op = map_option (\<lambda>v. (v, sel)) (map_of ops op)" for ops sel
    by (induction ops) auto
  have "map_of (fold (\<lambda>(ops, sel). fold (\<lambda>(op, versions). emplace op (versions, sel)) ops) S m) op =
      (case map_of m op of Some v \<Rightarrow> Some v | None \<Rightarrow>
        map_of (concat (map (\<lambda>(ops, sel). map (\<lambda>(op, versions). (op, (versions, sel))) ops) S)) op)" for m
    by (induction S arbitrary: m)
      (auto simp: map_of_fold_emplace [where f = "\<lambda>v. (v, _)"] step map_add_def split: option.splits)
  then show ?thesis by (simp add: InitializeSelectorsMap_def)
qed

lemma selector_of_ops:
  "map_of (InitializeSelectorsMap CreateSelectors) ''DequantizeLinear'' = None"
  "map_of (InitializeSelectorsMap CreateSelectors) ''QuantizeLinear'' = None"
  "map_of (InitializeSelectorsMap CreateSelectors) ''Relu'' = Some ([], Unary)"
  "map_of (InitializeSelectorsMap CreateSelectors) ''Clip'' = Some ([], Clip)"
  "map_of (InitializeSelectorsMap CreateSelectors) ''Reshape'' = Some ([], DropQDQ True)"
  by (simp_all add: map_of_selectors CreateSelectors_def any_version_def)

lemma select_node_selected:
  assumes "select_node g n = Inr (Some grp)"
  obtains t versions sel where "Node_GetOperatorType g n = Inr t"
    "map_of (InitializeSelectorsMap CreateSelectors) t = Some (versions, sel)" "selected g n sel grp"
  using assms
  by (auto simp: select_node_def and_then_eq_Inr_iff split: option.splits if_splits dest!: GetOrtQDQSelection_selected)

section \<open>An absorbed node is not the operator of another unit\<close>

lemma no_dq_no_group:
  assumes "sel = Unary \<or> sel = Clip \<or> (\<exists>b. sel = DropQDQ b)"
  shows "Check sel g n clip [] qs \<noteq> Inr True"
  using assms by (auto simp: Check_def Check_Unary_def Check_Clip_def Check_DropQDQ_def CheckQDQNodes_def
      split: if_splits)

lemma no_dq_inputs:
  assumes g: "graph_ok g ns" and x: "x \<in> set ns" "op_of g x \<noteq> ''DequantizeLinear''" "sole_consumer_of_node g x = Some a"
    and a: "data_input_first g a" "op_of g a \<in> {''Relu'', ''Clip''} \<or> op_of g a = ''Reshape'' \<and> op_of g x = ''Gemm''"
    and d: "dq_producers g (ins g a) = Inr dqs"
  shows "dqs = []"
proof (rule ccontr)
  assume "dqs \<noteq> []"
  then obtain e where "e \<in> set dqs" by (meson list.set_sel(1))
  then obtain w where e: "Node_GetOperatorType g e = Inr ''DequantizeLinear''" "Some w \<in> set (ins g a)"
    "ValueInfo_GetValueProducer g w = Inr (Some e)"
    using dq_producers_ops [OF d] by blast
  obtain v where v: "Node_GetOutputs g x = Inr [Some v]" "ValueInfo_GetValueConsumers g v = Inr [a]"
    using sole_consumer [OF x(3)] by metis
  have out: "Some v \<in> set (outs g x)" using v(1) by (simp add: outs_def)
  have "a \<in> set (consumers_of g v)" using v(2) by (simp add: consumers_of_simps)
  note c = graph_output [OF g x(1) out]
  have va: "Some v \<in> set (ins g a)" using c(4) \<open>a \<in> set (consumers_of g v)\<close> by blast
  have op_e: "op_of g e = ''DequantizeLinear''" using e(1) by (simp add: op_of_def)
  have "Some v \<notin> set (tl (ins g a))" using a c(1) unfolding data_input_first_def by auto
  then have hd: "ins g a = Some v # tl (ins g a)" using va by (cases "ins g a") auto
  have "Some w \<notin> set (tl (ins g a))" using a e(3) op_e unfolding data_input_first_def by auto
  then have "w = v" using e(2) hd by (metis option.inject set_ConsD)
  then have "e = x" using e(3) c(1) by simp
  then show False using op_e x(2) by simp
qed

lemma absorbed_is_not_selected:
  assumes g: "graph_ok g ns" and x: "x \<in> set ns" "op_of g x \<noteq> ''DequantizeLinear''" "sole_consumer_of_node g x = Some a"
    and a: "data_input_first g a" "op_of g a \<in> {''Relu'', ''Clip''} \<or> op_of g a = ''Reshape'' \<and> op_of g x = ''Gemm''"
  shows "select_node g a \<noteq> Inr (Some grp)"
proof
  assume "select_node g a = Inr (Some grp)"
  then obtain t versions sel where t: "Node_GetOperatorType g a = Inr t"
    "map_of (InitializeSelectorsMap CreateSelectors) t = Some (versions, sel)" and s: "selected g a sel grp"
    by (rule select_node_selected)
  have "group_dq_nodes grp = []"
    using no_dq_inputs [OF g x a] s by (simp add: selected_def)
  moreover have "t \<in> {''Relu'', ''Clip'', ''Reshape''}" using a(2) t(1) by (auto simp: op_of_def)
  then have "sel = Unary \<or> sel = Clip \<or> (\<exists>b. sel = DropQDQ b)" using t(2) selector_of_ops by auto
  ultimately show False using s no_dq_no_group [of sel g a] by (simp add: selected_def)
qed

lemma sole_consumer_in_graph:
  assumes "graph_ok g ns" "x \<in> set ns" "sole_consumer_of_node g x = Some a"
  shows "a \<in> set ns"
proof -
  obtain v where v: "Node_GetOutputs g x = Inr [Some v]" "ValueInfo_GetValueConsumers g v = Inr [a]"
    using sole_consumer [OF assms(3)] by metis
  then have "Some v \<in> set (outs g x)" "a \<in> set (consumers_of g v)" by (auto simp: outs_def consumers_of_simps)
  then show ?thesis using graph_output(4) [OF assms(1,2)] by blast
qed

definition group_nodes :: "OrtNodeGroup \<Rightarrow> node set" where
  "group_nodes grp = set (GetAllNodesInGroup (qdq_unit grp))"

lemma group_nodes_eq:
  "group_nodes grp = insert (group_target_node grp) (satellites (qdq_unit grp))"
  by (auto simp: group_nodes_def GetAllNodesInGroup_def satellites_def qdq_unit_def split: option.splits)

lemma satellites_qdq_unit:
  "satellites (qdq_unit grp) = set (group_dq_nodes grp) \<union> set (group_q_nodes grp)
     \<union> set_option (group_output_reshape_node grp) \<union> set_option (group_redundant_clip_node grp)"
  by (simp add: satellites_def qdq_unit_def)

text \<open>The forward chain of a selected group lies in the graph, and none of its absorbed nodes is selected itself.\<close>

lemma selected_extension:
  assumes g: "graph_ok g ns" and d: "\<forall>n \<in> set ns. data_input_first g n" and n: "n \<in> set ns"
    and op: "op_of g n \<noteq> ''DequantizeLinear''"
    and f: "forward_extension g n k = Inr (c, r)"
    and m: "m \<in> set_option r \<union> set_option c"
  shows "m \<in> set ns \<and> select_node g m \<noteq> Inr (Some grp)"
  using f
proof (cases rule: forward_extension_cases)
  case (2 a q)
  then have "a \<in> set ns" "op_of g a \<in> {''Relu'', ''Clip''}" "m = a"
    using sole_consumer_in_graph [OF g n] m by (auto simp: activation_def op_of_def)
  then show ?thesis using absorbed_is_not_selected [OF g n op 2(3)] d by blast
next
  case (3 rn q)
  then have "rn \<in> set ns" "op_of g rn = ''Reshape''" "op_of g n = ''Gemm''" "m = rn"
    using sole_consumer_in_graph [OF g n] m by (auto simp: op_of_def)
  then show ?thesis using absorbed_is_not_selected [OF g n op 3(4)] d by blast
next
  case (4 rn a q)
  have rn: "rn \<in> set ns" "op_of g rn = ''Reshape''" "op_of g n = ''Gemm''"
    using 4 sole_consumer_in_graph [OF g n] by (auto simp: op_of_def)
  have a: "a \<in> set ns" "op_of g a \<in> {''Relu'', ''Clip''}"
    using 4 sole_consumer_in_graph [OF g rn(1)] by (auto simp: activation_def op_of_def)
  have "op_of g rn \<noteq> ''DequantizeLinear''" using rn(2) by simp
  then have "select_node g a \<noteq> Inr (Some grp)" using absorbed_is_not_selected [OF g rn(1) _ 4(6)] d a by blast
  moreover have "select_node g rn \<noteq> Inr (Some grp)" using absorbed_is_not_selected [OF g n op 4(4)] d rn by blast
  ultimately show ?thesis using m 4(1,2) rn(1) a(1) by auto
qed (use m in simp)

lemma anchor_in_graph:
  assumes "graph_ok g ns" "\<forall>n \<in> set ns. data_input_first g n" "n \<in> set ns" "op_of g n \<noteq> ''DequantizeLinear''" "selected g n sel grp"
  shows "anchor grp \<in> set ns"
  using selected_extension [OF assms(1-4)] assms(3,5) unfolding selected_def anchor_def
  by (fastforce split: option.splits)

lemma satellite_facts:
  assumes g: "graph_ok g ns" and d: "\<forall>n \<in> set ns. data_input_first g n" and n: "n \<in> set ns"
    and sel: "select_node g n = Inr (Some grp)" and m: "m \<in> satellites (qdq_unit grp)"
  shows "m \<in> set ns \<and> select_node g m \<noteq> Inr (Some grp')"
proof -
  obtain t versions sel where t: "Node_GetOperatorType g n = Inr t"
    "map_of (InitializeSelectorsMap CreateSelectors) t = Some (versions, sel)" and s: "selected g n sel grp"
    using sel by (rule select_node_selected)
  have op: "op_of g n \<noteq> ''DequantizeLinear''" using t selector_of_ops(1) by (auto simp: op_of_def)
  have no_sel: "select_node g x \<noteq> Inr (Some grp')" if "Node_GetOperatorType g x = Inr u"
    "map_of (InitializeSelectorsMap CreateSelectors) u = None" for x u
    using that by (auto elim!: select_node_selected)
  consider "m \<in> set (group_dq_nodes grp)" | "m \<in> set (group_q_nodes grp)"
    | "m \<in> set_option (group_output_reshape_node grp) \<union> set_option (group_redundant_clip_node grp)"
    using m unfolding satellites_qdq_unit by blast
  then show ?thesis
  proof cases
    case 1
    then have "Node_GetOperatorType g m = Inr ''DequantizeLinear''" "\<exists>v. Some v \<in> set (ins g n) \<and> ValueInfo_GetValueProducer g v = Inr (Some m)"
      using dq_producers_ops s unfolding selected_def by blast+
    then show ?thesis using no_sel selector_of_ops(1) graph_producer(1) [OF g n] by blast
  next
    case 2
    then have q: "Node_GetOperatorType g m = Inr ''QuantizeLinear''" "\<exists>v. Some v \<in> set (outs g (anchor grp)) \<and> m \<in> set (consumers_of g v)"
      using q_consumers_ops s unfolding selected_def by blast+
    then show ?thesis
      using no_sel selector_of_ops(2) graph_output(4) [OF g anchor_in_graph [OF g d n op s]] by blast
  next
    case 3
    then show ?thesis using selected_extension [OF g d n op] s unfolding selected_def by blast
  qed
qed

section \<open>The units and the map\<close>

definition selects :: "('g) qdq_graph_scheme \<Rightarrow> node \<Rightarrow> OrtNodeGroup option" where
  "selects g n = on_fail (select_node g n) None (\<lambda>x. x)"

lemma select_nodes_eq:
  "select_nodes g ns = Inr S \<Longrightarrow>
     S = List.map_filter (selects g) ns \<and> (\<forall>n \<in> set ns. select_node g n = Inr (selects g n))"
proof (induction ns arbitrary: S)
  case (Cons n ns)
  then obtain x rest where x: "select_node g n = Inr x" "select_nodes g ns = Inr rest"
    "S = (case x of None \<Rightarrow> rest | Some grp \<Rightarrow> grp # rest)"
    by (auto simp: and_then_eq_Inr_iff)
  then show ?case using Cons.IH [OF x(2)] by (cases x) (auto simp: selects_def map_filter_simps)
qed (simp add: map_filter_simps)

lemma selects_target: "select_node g n = Inr (Some grp) \<Longrightarrow> group_target_node grp = n"
  by (auto elim!: select_node_selected simp: selected_def)

lemma selections_targets:
  assumes "select_nodes g ns = Inr S"
  shows "map group_target_node S = filter (\<lambda>n. selects g n \<noteq> None) ns"
proof -
  have "\<forall>n \<in> set ns. select_node g n = Inr (selects g n)" using select_nodes_eq [OF assms] by blast
  then have "map group_target_node (List.map_filter (selects g) ns) = filter (\<lambda>n. selects g n \<noteq> None) ns"
    by (induction ns) (auto simp: map_filter_simps selects_target split: option.splits)
  then show ?thesis using select_nodes_eq [OF assms] by simp
qed

lemma selection_mem:
  assumes "select_nodes g ns = Inr S" "grp \<in> set S"
  shows "group_target_node grp \<in> set ns \<and> select_node g (group_target_node grp) = Inr (Some grp)"
proof -
  have "grp \<in> set (List.map_filter (selects g) ns)" "\<forall>n \<in> set ns. select_node g n = Inr (selects g n)"
    using select_nodes_eq [OF assms(1)] assms(2) by auto
  then obtain n where "n \<in> set ns" "selects g n = Some grp" "select_node g n = Inr (Some grp)"
    by (auto simp: map_filter_def)
  then show ?thesis using selects_target by metis
qed

lemma add_node_unit_to_map_eq [simp]: "add_node_unit_to_map ns u um = (\<lambda>n. if n \<in> set ns then Some u else um n)"
  by (induction ns arbitrary: um) (auto simp: add_node_unit_to_map_def fun_eq_iff)

lemma add_qdq_unit_eq:
  "add_qdq_unit grp (holder, um) = (holder @ [qdq_unit grp], \<lambda>n. if n \<in> group_nodes grp then Some (qdq_unit grp) else um n)"
  by (auto simp: add_qdq_unit_def Let_def group_nodes_eq satellites_qdq_unit fun_eq_iff split: option.splits)

text \<open>The state after the QDQ units, and after some single units.\<close>

definition qdq_done :: "OrtNodeGroup list \<Rightarrow> OrtNodeUnit list \<times> node_unit_map \<Rightarrow> bool" where
  "qdq_done S st \<longleftrightarrow>
     fst st = map qdq_unit S
     \<and> (\<forall>n u. snd st n = Some u \<longrightarrow> (\<exists>grp \<in> set S. u = qdq_unit grp \<and> n \<in> group_nodes grp))
     \<and> (\<forall>grp \<in> set S. snd st (group_target_node grp) = Some (qdq_unit grp) \<and> group_nodes grp \<subseteq> dom (snd st))"

lemma qdq_doneI:
  assumes "fst st = map qdq_unit S"
    "\<And>n u. snd st n = Some u \<Longrightarrow> \<exists>grp \<in> set S. u = qdq_unit grp \<and> n \<in> group_nodes grp"
    "\<And>grp. grp \<in> set S \<Longrightarrow> snd st (group_target_node grp) = Some (qdq_unit grp)"
    "\<And>grp. grp \<in> set S \<Longrightarrow> group_nodes grp \<subseteq> dom (snd st)"
  shows "qdq_done S st"
  using assms unfolding qdq_done_def by blast

lemma fold_qdq_done:
  assumes "\<And>grp grp'. grp \<in> set S \<Longrightarrow> grp' \<in> set S \<Longrightarrow> grp \<noteq> grp' \<Longrightarrow> group_target_node grp \<notin> group_nodes grp'"
  shows "qdq_done S (fold add_qdq_unit S ([], Map.empty))"
  using assms
proof (induction S rule: rev_induct)
  case Nil
  then show ?case by (simp add: qdq_done_def)
next
  case (snoc grp S)
  obtain holder um where st: "fold add_qdq_unit S ([], Map.empty) = (holder, um)" by fastforce
  have IH: "qdq_done S (holder, um)" using snoc unfolding st by simp
  then have h: "holder = map qdq_unit S" "\<And>n u. um n = Some u \<Longrightarrow> \<exists>grp \<in> set S. u = qdq_unit grp \<and> n \<in> group_nodes grp"
    "\<And>grp. grp \<in> set S \<Longrightarrow> um (group_target_node grp) = Some (qdq_unit grp) \<and> group_nodes grp \<subseteq> dom um"
    unfolding qdq_done_def by auto
  let ?um = "\<lambda>n. if n \<in> group_nodes grp then Some (qdq_unit grp) else um n"
  have "qdq_done (S @ [grp]) (holder @ [qdq_unit grp], ?um)"
  proof (rule qdq_doneI)
    fix n u assume "snd (holder @ [qdq_unit grp], ?um) n = Some u"
    then show "\<exists>grp \<in> set (S @ [grp]). u = qdq_unit grp \<and> n \<in> group_nodes grp"
      using h(2) [of n u] by (auto split: if_splits)
  next
    fix grp' assume g': "grp' \<in> set (S @ [grp])"
    show "snd (holder @ [qdq_unit grp], ?um) (group_target_node grp') = Some (qdq_unit grp')"
    proof (cases "grp' = grp")
      case True
      then show ?thesis by (simp add: group_nodes_eq)
    next
      case False
      then have "grp' \<in> set S" "group_target_node grp' \<notin> group_nodes grp" using g' snoc.prems by auto
      then show ?thesis using h(3) by simp
    qed
    show "group_nodes grp' \<subseteq> dom (snd (holder @ [qdq_unit grp], ?um))"
      using g' h(3) [of grp'] by (cases "grp' = grp") (auto split: if_splits)
  qed (use h(1) in simp)
  then show ?case by (simp add: st add_qdq_unit_eq)
qed

lemma fold_single:
  "fold add_single_unit ns (holder, um) =
     (holder @ map single_unit (filter (\<lambda>n. um n = None) ns),
      \<lambda>n. if um n = None \<and> n \<in> set ns then Some (single_unit n) else um n)"
  if "distinct ns"
  using that
proof (induction ns arbitrary: holder um)
  case (Cons n ns)
  have f: "filter (\<lambda>m. m \<noteq> n \<and> (m \<noteq> n \<longrightarrow> um m = None)) ns = filter (\<lambda>m. um m = None) ns"
    using Cons.prems by (intro filter_cong) auto
  show ?case
  proof (cases "um n")
    case None
    then have "fold add_single_unit (n # ns) (holder, um) =
      fold add_single_unit ns (holder @ [single_unit n], um(n \<mapsto> single_unit n))"
      by (simp add: add_single_unit_def)
    then show ?thesis using Cons None by (auto simp: f fun_eq_iff)
  next
    case (Some u)
    then have "fold add_single_unit (n # ns) (holder, um) = fold add_single_unit ns (holder, um)"
      by (simp add: add_single_unit_def)
    then show ?thesis using Cons Some by (auto simp: fun_eq_iff)
  qed
qed simp

lemma GetAllOrtNodeUnits_unfold:
  assumes "graph_ok g ns" "GetAllOrtNodeUnits g = Inr (holder, um)"
  obtains S where "select_nodes g ns = Inr S" "fold add_single_unit ns (fold add_qdq_unit S ([], Map.empty)) = (holder, um)"
  using assms by (auto simp: GetAllOrtNodeUnits_def GetOrtQDQSelections_def graph_ok_def and_then_eq_Inr_iff)

definition units_cover :: "node list \<Rightarrow> OrtNodeUnit list \<Rightarrow> node_unit_map \<Rightarrow> bool" where
  "units_cover ns holder um \<longleftrightarrow>
     dom um = set ns \<and> distinct (map target_node holder)
     \<and> (\<forall>n u. um n = Some u \<longrightarrow> u \<in> set holder \<and> n \<in> set (GetAllNodesInGroup u))
     \<and> (\<forall>u \<in> set holder. um (target_node u) = Some u \<and> set (GetAllNodesInGroup u) \<subseteq> set ns
          \<and> satellites u \<inter> target_node ` set holder = {})"

lemma single_unit_simps [simp]:
  "GetAllNodesInGroup (single_unit n) = [n]" "target_node (single_unit n) = n" "satellites (single_unit n) = {}"
  by (simp_all add: GetAllNodesInGroup_def satellites_def single_unit_def)

lemma target_qdq_unit [simp]: "target_node (qdq_unit grp) = group_target_node grp"
  by (simp add: qdq_unit_def)

lemma GetAllOrtNodeUnits_cover:
  assumes g: "graph_ok g ns" and d: "\<forall>n \<in> set ns. data_input_first g n" and u: "GetAllOrtNodeUnits g = Inr (holder, um)"
  shows "units_cover ns holder um"
proof -
  obtain S where S: "select_nodes g ns = Inr S" "fold add_single_unit ns (fold add_qdq_unit S ([], Map.empty)) = (holder, um)"
    using g u by (rule GetAllOrtNodeUnits_unfold)
  have sub: "group_nodes grp \<subseteq> set ns" and not_sat: "group_target_node grp' \<notin> satellites (qdq_unit grp)"
    if "grp \<in> set S" "grp' \<in> set S" for grp grp'
    using satellite_facts [OF g d] selection_mem [OF S(1)] that by (fastforce simp: group_nodes_eq)+
  have inj: "grp = grp'" if "grp \<in> set S" "grp' \<in> set S" "group_target_node grp = group_target_node grp'" for grp grp'
    using selection_mem [OF S(1)] that by (metis Inr_inject option.inject)
  obtain h0 um0 where st: "fold add_qdq_unit S ([], Map.empty) = (h0, um0)" by fastforce
  have "qdq_done S (h0, um0)"
    using fold_qdq_done [of S] not_sat inj unfolding st by (fastforce simp: group_nodes_eq)
  then have q: "h0 = map qdq_unit S" "\<And>n v. um0 n = Some v \<Longrightarrow> \<exists>grp \<in> set S. v = qdq_unit grp \<and> n \<in> group_nodes grp"
    "\<And>grp. grp \<in> set S \<Longrightarrow> um0 (group_target_node grp) = Some (qdq_unit grp)"
    "\<And>grp. grp \<in> set S \<Longrightarrow> group_nodes grp \<subseteq> dom um0"
    unfolding qdq_done_def by auto
  have "distinct ns" using g by (simp add: graph_ok_def)
  then have h: "holder = h0 @ map single_unit (filter (\<lambda>n. um0 n = None) ns)"
    and um: "um = (\<lambda>n. if um0 n = None \<and> n \<in> set ns then Some (single_unit n) else um0 n)"
    using S(2) by (auto simp: st fold_single)
  have dom0: "dom um0 \<subseteq> set ns" using q(2) sub by blast
  have targets: "map target_node holder = filter (\<lambda>n. selects g n \<noteq> None) ns @ filter (\<lambda>n. um0 n = None) ns"
    using selections_targets [OF S(1)] by (simp add: h q(1) comp_def)
  have qt: "um0 t \<noteq> None" if "t \<in> group_target_node ` set S" for t using q(3) that by force
  have tset: "group_target_node ` set S = {n \<in> set ns. selects g n \<noteq> None}"
    using arg_cong [OF selections_targets [OF S(1)], of set] by simp
  have "um0 n \<noteq> None" if "n \<in> set ns" "selects g n \<noteq> None" for n using qt that unfolding tset by blast
  then have dist: "distinct (map target_node holder)"
    using \<open>distinct ns\<close> unfolding targets by (auto simp del: not_None_eq)
  have "um n = Some v \<longrightarrow> v \<in> set holder \<and> n \<in> set (GetAllNodesInGroup v)" for n v
    using q(2) [of n v] by (auto simp: um h q(1) group_nodes_def split: if_splits)
  moreover have "um (target_node v) = Some v \<and> set (GetAllNodesInGroup v) \<subseteq> set ns \<and> satellites v \<inter> target_node ` set holder = {}"
    if v: "v \<in> set holder" for v
  proof -
    consider grp where "grp \<in> set S" "v = qdq_unit grp" | n where "n \<in> set ns" "um0 n = None" "v = single_unit n"
      using v by (auto simp: h q(1))
    then show ?thesis
    proof cases
      case (1 grp)
      have "t \<notin> satellites (qdq_unit grp)" if "t \<in> target_node ` set holder" for t
      proof -
        have "t \<in> group_target_node ` set S \<or> um0 t = None" using that by (auto simp: h q(1))
        then show ?thesis using not_sat [OF 1(1)] q(4) [OF 1(1)] by (auto simp: group_nodes_eq)
      qed
      then show ?thesis using 1 q(3) sub by (auto simp: um group_nodes_def)
    next
      case (2 n)
      then show ?thesis by (simp add: um)
    qed
  qed
  moreover have "dom um = set ns" using dom0 unfolding um subset_iff domIff by (force split: if_splits)
  ultimately show ?thesis using dist by (simp add: units_cover_def)
qed

end
