(* ===== verification/Qdq_Hiding.thy ===== *)
theory Qdq_Hiding
  imports Qdq_Units
begin

text \<open>
  What a node unit hides.  A group that is selected because its outputs are quantized turns the operator, the reshape and
  the activation behind it into one QNN node, so the values between them never exist; the lemmas show that nothing outside
  the group reads one of them.
\<close>

section \<open>No hidden value is read outside a unit\<close>

definition keeps_float_outputs :: "selector \<Rightarrow> bool" where
  "keeps_float_outputs sel \<longleftrightarrow> sel = DropDQ \<or> sel = TopK"

lemma Check_uses_CheckQDQNodes:
  assumes "Check sel g n clip dqs qs = Inr True" "\<not> keeps_float_outputs sel" "qs \<noteq> []"
  shows "\<exists>k b. CheckQDQNodes g n dqs qs k b"
  using assms
  by (cases sel)
    (auto simp: Check_def keeps_float_outputs_def Check_DropQDQ_def Check_Unary_def Check_Clip_def Check_Binary_def
      Check_Variadic_def Check_Split_def Check_Conv_def Check_Einsum_def Check_Reciprocal_def Check_MatMul_def Check_Gemm_def
      Check_GRU_def Check_InstanceAndLayerNormalization_def Check_BatchNormalization_def Check_LogicalComparison_def
      Check_Where_def Check_Pad_def Check_CumSum_def Check_ScatterElements_def Check_RMSNormalization_def
      Check_MatMulNBits_def and_then_eq_Inr_iff IsPerChannelConstantWeightOnlyGroup_def
      split: if_splits option.splits list.splits)

text \<open>The number of outputs present, of their consumers, and whether one is a graph output.\<close>

lemma output_counts_eq:
  assumes "\<And>v. Some v \<in> set os \<Longrightarrow> is_ok (ValueInfo_IsGraphOutput g v) \<and> is_ok (ValueInfo_GetValueConsumers g v)"
  shows "output_counts g os =
     (length (List.map_filter id os), length (concat (map (consumers_of g) (List.map_filter id os))),
      \<exists>v. Some v \<in> set os \<and> ValueInfo_IsGraphOutput g v = Inr True)"
  using assms
proof (induction os)
  case (Cons p os)
  show ?case
  proof (cases p)
    case None
    then show ?thesis using Cons by (simp add: map_filter_simps)
  next
    case (Some v)
    then obtain b cs where "ValueInfo_IsGraphOutput g v = Inr b" "ValueInfo_GetValueConsumers g v = Inr cs"
      using Cons.prems [of v] by (auto dest!: on_fail_ok)
    then show ?thesis using Cons Some by (auto simp: map_filter_simps consumers_of_simps)
  qed
qed (simp add: map_filter_simps)

lemma filter_concat_all:
  assumes "length (concat (map (\<lambda>v. filter P (f v)) vs)) = length (concat (map f vs))"
  shows "\<forall>v \<in> set vs. \<forall>x \<in> set (f v). P x"
  using assms
proof (induction vs)
  case (Cons v vs)
  have le: "length (concat (map (\<lambda>v. filter P (f v)) vs)) \<le> length (concat (map f vs))"
    by (induction vs) (auto intro: add_mono)
  have le': "length (filter P (f v)) \<le> length (f v)" by (rule length_filter_le)
  have sum: "length (filter P (f v)) + length (concat (map (\<lambda>v. filter P (f v)) vs)) = length (f v) + length (concat (map f vs))"
    using Cons.prems by simp
  from le le' sum have "length (filter P (f v)) = length (f v)"
    "length (concat (map (\<lambda>v. filter P (f v)) vs)) = length (concat (map f vs))" by linarith+
  then show ?case using Cons.IH length_filter_less [of _ "f v" P] by fastforce
qed simp

definition hidden_from :: "('g) qdq_graph_scheme \<Rightarrow> node set \<Rightarrow> node \<Rightarrow> bool" where
  "hidden_from g N n \<longleftrightarrow>
     (\<forall>v. Some v \<in> set (outs g n) \<longrightarrow> ValueInfo_IsGraphOutput g v = Inr False \<and> set (consumers_of g v) \<subseteq> N)"

lemma sole_consumer_hidden: "sole_consumer_of_node g n = Some c \<Longrightarrow> c \<in> N \<Longrightarrow> hidden_from g N n"
  by (auto simp: hidden_from_def outs_def consumers_of_def elim!: sole_consumer)

text \<open>The value between the operator and the Q: every output of the operator and of the nodes absorbed behind it.\<close>

lemma q_list_eq:
  assumes "q_consumers g os = Inr qs"
  shows "qs = concat (map (\<lambda>v. filter (\<lambda>n. Node_GetOperatorType g n = Inr ''QuantizeLinear'') (consumers_of g v)) (List.map_filter id os))"
proof -
  have "concat (map (\<lambda>p. case p of None \<Rightarrow> [] | Some v \<Rightarrow> F v) os) = concat (map F (List.map_filter id os))" for F :: "nat \<Rightarrow> nat list"
    by (induction os) (auto simp: map_filter_simps split: option.splits)
  then show ?thesis using q_consumers_eq [OF assms] by simp
qed

lemma CheckQDQNodes_counts:
  assumes g: "graph_ok g ns" and n: "n \<in> set ns" and q: "qs \<noteq> []" and c: "CheckQDQNodes g n dqs qs k b"
  shows "length qs = length (List.map_filter id (outs g n))"
    "length qs = length (concat (map (consumers_of g) (List.map_filter id (outs g n))))"
    "\<not> (\<exists>v. Some v \<in> set (outs g n) \<and> ValueInfo_IsGraphOutput g v = Inr True)"
proof -
  let ?vs = "List.map_filter id (outs g n)"
  have oc: "output_counts g (outs g n) = (length ?vs, length (concat (map (consumers_of g) ?vs)),
      \<exists>v. Some v \<in> set (outs g n) \<and> ValueInfo_IsGraphOutput g v = Inr True)"
    by (rule output_counts_eq) (use graph_output [OF g n] in simp)
  have "on_fail (Node_GetOutputs g n) False (\<lambda>outputs.
      let (present_outputs, total_consumers, produces_graph_output) = output_counts g outputs
      in present_outputs = length qs \<and> length qs = total_consumers \<and> \<not> produces_graph_output)"
    using c q unfolding CheckQDQNodes_def on_fail_True(1) by (auto split: if_splits)
  then show "length qs = length ?vs" "length qs = length (concat (map (consumers_of g) ?vs))"
    "\<not> (\<exists>v. Some v \<in> set (outs g n) \<and> ValueInfo_IsGraphOutput g v = Inr True)"
    unfolding graph_node(2) [OF g n] on_fail_simps oc by simp_all
qed

lemma CheckQDQNodes_hidden:
  assumes g: "graph_ok g ns" and n: "n \<in> set ns" and q: "q_consumers g (outs g n) = Inr qs" "qs \<noteq> []"
    and c: "CheckQDQNodes g n dqs qs k b"
  shows "hidden_from g (set qs) n"
proof -
  let ?P = "\<lambda>m. Node_GetOperatorType g m = Inr ''QuantizeLinear''"
  let ?vs = "List.map_filter id (outs g n)"
  note len = CheckQDQNodes_counts(2) [OF g n q(2) c] and no_out = CheckQDQNodes_counts(3) [OF g n q(2) c]
  have P: "\<forall>v \<in> set ?vs. \<forall>x \<in> set (consumers_of g v). ?P x"
    by (rule filter_concat_all) (simp only: len [symmetric] q_list_eq [OF q(1), symmetric])
  have "set (consumers_of g v) \<subseteq> set qs" if "Some v \<in> set (outs g n)" for v
  proof
    fix x assume x: "x \<in> set (consumers_of g v)"
    have "v \<in> set ?vs" using that by (force simp: map_filter_def)
    then have "x \<in> set (filter ?P (consumers_of g v))" using x P by simp
    then show "x \<in> set qs" using \<open>v \<in> set ?vs\<close> by (subst q_list_eq [OF q(1)]) (simp only: set_concat set_map UN_iff bex_simps image_iff, blast)
  qed
  moreover have "ValueInfo_IsGraphOutput g v = Inr False" if v: "Some v \<in> set (outs g n)" for v
    using graph_output(3) [OF g n v] no_out v by (cases "ValueInfo_IsGraphOutput g v") auto
  ultimately show ?thesis by (simp add: hidden_from_def)
qed

lemma sole_q_consumer:
  assumes "sole_consumer_of_node g a = Some q" "Node_GetOperatorType g q = Inr ''QuantizeLinear''" "q_consumers g (outs g a) = Inr qs"
  shows "qs = [q]"
  using assms(1)
  by (rule sole_consumer) (use assms(2) q_list_eq [OF assms(3)] in \<open>simp add: outs_def consumers_of_simps map_filter_simps\<close>)

lemma activation_sole: "activation g a q \<Longrightarrow> sole_consumer_of_node g a = Some q \<and> Node_GetOperatorType g q = Inr ''QuantizeLinear''"
  by (auto simp: activation_def)

lemma hidden_from_mono: "hidden_from g N n \<Longrightarrow> N \<subseteq> M \<Longrightarrow> hidden_from g M n"
  unfolding hidden_from_def by (meson subset_trans)

lemma absorbed_in_group:
  "set (group_q_nodes grp) \<subseteq> group_nodes grp"
  "group_output_reshape_node grp = Some r \<Longrightarrow> r \<in> group_nodes grp"
  "group_redundant_clip_node grp = Some c \<Longrightarrow> c \<in> group_nodes grp"
  by (auto simp: group_nodes_eq satellites_qdq_unit)

lemma anchor_simps:
  "group_redundant_clip_node grp = Some c \<Longrightarrow> anchor grp = c"
  "group_redundant_clip_node grp = None \<Longrightarrow> group_output_reshape_node grp = Some r \<Longrightarrow> anchor grp = r"
  "group_redundant_clip_node grp = None \<Longrightarrow> group_output_reshape_node grp = None \<Longrightarrow> anchor grp = group_target_node grp"
  by (simp_all add: anchor_def)

lemma anchor_hidden:
  assumes qs: "q_consumers g (outs g a) = Inr (group_q_nodes grp)"
    and a: "sole_consumer_of_node g a = Some q" "Node_GetOperatorType g q = Inr ''QuantizeLinear''"
  shows "hidden_from g (group_nodes grp) a"
proof (rule sole_consumer_hidden [OF a(1)])
  show "q \<in> group_nodes grp" using sole_q_consumer [OF a qs] absorbed_in_group(1) [of grp] by simp
qed

lemma selected_hidden:
  assumes g: "graph_ok g ns" and n: "n \<in> set ns" and s: "selected g n sel grp" and k: "\<not> keeps_float_outputs sel"
    and q: "group_q_nodes grp \<noteq> []"
    and m: "m = n \<or> group_output_reshape_node grp = Some m \<or> group_redundant_clip_node grp = Some m"
  shows "hidden_from g (group_nodes grp) m"
proof -
  have f: "forward_extension g n (length (outs g n)) = Inr (group_redundant_clip_node grp, group_output_reshape_node grp)"
    and qs: "q_consumers g (outs g (anchor grp)) = Inr (group_q_nodes grp)"
    and t: "group_target_node grp = n"
    and c: "Check sel g n (group_redundant_clip_node grp) (group_dq_nodes grp) (group_q_nodes grp) = Inr True"
    using s by (simp_all add: selected_def)
  from f show ?thesis
  proof (cases rule: forward_extension_cases)
    case 1
    obtain j b where j: "CheckQDQNodes g n (group_dq_nodes grp) (group_q_nodes grp) j b"
      using Check_uses_CheckQDQNodes [OF c k q] by (elim exE)
    have "hidden_from g (set (group_q_nodes grp)) n"
      using CheckQDQNodes_hidden [OF g n _ q j] qs by (simp add: anchor_simps(3) [OF 1(2,1)] t)
    then show ?thesis using m 1 hidden_from_mono [OF _ absorbed_in_group(1)] by simp
  next
    case (2 a qn)
    have "hidden_from g (group_nodes grp) a"
      using anchor_hidden [OF _ conjunct1 conjunct2, OF _ activation_sole activation_sole, OF _ 2(4) 2(4)] qs
      unfolding anchor_simps(1) [OF 2(2)] by simp
    moreover have "hidden_from g (group_nodes grp) n" by (rule sole_consumer_hidden [OF 2(3) absorbed_in_group(3) [OF 2(2)]])
    ultimately show ?thesis using m by (elim disjE) (simp_all add: 2(1,2))
  next
    case (3 rn qn)
    have "hidden_from g (group_nodes grp) rn"
      using anchor_hidden [OF _ 3(6,7)] qs unfolding anchor_simps(2) [OF 3(2,1)] by simp
    moreover have "hidden_from g (group_nodes grp) n" by (rule sole_consumer_hidden [OF 3(4) absorbed_in_group(2) [OF 3(1)]])
    ultimately show ?thesis using m by (elim disjE) (simp_all add: 3(1,2))
  next
    case (4 rn a qn)
    have "hidden_from g (group_nodes grp) a"
      using anchor_hidden [OF _ conjunct1 conjunct2, OF _ activation_sole activation_sole, OF _ 4(7) 4(7)] qs
      unfolding anchor_simps(1) [OF 4(2)] by simp
    moreover have "hidden_from g (group_nodes grp) rn" by (rule sole_consumer_hidden [OF 4(6) absorbed_in_group(3) [OF 4(2)]])
    moreover have "hidden_from g (group_nodes grp) n" by (rule sole_consumer_hidden [OF 4(4) absorbed_in_group(2) [OF 4(1)]])
    ultimately show ?thesis using m by (elim disjE) (simp_all add: 4(1,2))
  qed
qed

section \<open>The units of a graph\<close>

lemma fold_qdq_holder: "fst (fold add_qdq_unit S (holder, um)) = holder @ map qdq_unit S"
  by (induction S arbitrary: holder um) (simp_all add: add_qdq_unit_eq)

lemma unit_origin:
  assumes g: "graph_ok g ns" and u: "GetAllOrtNodeUnits g = Inr (holder, um)" "u \<in> set holder"
  obtains n where "n \<in> set ns" "u = single_unit n"
  | grp versions sel where "u = qdq_unit grp" "group_target_node grp \<in> set ns"
      "map_of (InitializeSelectorsMap CreateSelectors) (op_of g (group_target_node grp)) = Some (versions, sel)"
      "selected g (group_target_node grp) sel grp"
proof -
  obtain S where S: "select_nodes g ns = Inr S" "fold add_single_unit ns (fold add_qdq_unit S ([], Map.empty)) = (holder, um)"
    using g u(1) by (rule GetAllOrtNodeUnits_unfold)
  obtain h0 um0 where st: "fold add_qdq_unit S ([], Map.empty) = (h0, um0)" by fastforce
  have h0: "h0 = map qdq_unit S" using fold_qdq_holder [of S "[]" Map.empty] by (simp add: st)
  have "distinct ns" using g by (simp add: graph_ok_def)
  then have "holder = h0 @ map single_unit (filter (\<lambda>n. um0 n = None) ns)" using S(2) by (simp add: st fold_single)
  then consider grp where "grp \<in> set S" "u = qdq_unit grp" | n where "n \<in> set ns" "u = single_unit n" using u(2) h0 by auto
  then show thesis
  proof cases
    case (1 grp)
    then have s: "group_target_node grp \<in> set ns" "select_node g (group_target_node grp) = Inr (Some grp)"
      using selection_mem [OF S(1)] by blast+
    from s(2) obtain t versions sel where "Node_GetOperatorType g (group_target_node grp) = Inr t"
      "map_of (InitializeSelectorsMap CreateSelectors) t = Some (versions, sel)" "selected g (group_target_node grp) sel grp"
      by (rule select_node_selected)
    then show thesis using that(2) [OF 1(2) s(1)] by (simp add: op_of_def)
  qed (rule that(1))
qed

lemma selector_row:
  assumes "map_of (InitializeSelectorsMap CreateSelectors) op = Some (versions, sel)"
  obtains ops where "(ops, sel) \<in> set CreateSelectors" "op \<in> fst ` set ops"
  using map_of_SomeD [OF assms [unfolded map_of_selectors]] by force

lemma float_output_ops:
  assumes "map_of (InitializeSelectorsMap CreateSelectors) op = Some (versions, sel)" "keeps_float_outputs sel"
  shows "op \<in> {''ArgMax'', ''ArgMin'', ''NonZero'', ''TopK''}"
proof -
  obtain ops where ops: "(ops, sel) \<in> set CreateSelectors" "op \<in> fst ` set ops" using assms(1) by (rule selector_row)
  have "sel = DropDQ \<or> sel = TopK" using assms(2) by (simp add: keeps_float_outputs_def)
  then show ?thesis using ops by (elim disjE) (simp_all add: CreateSelectors_def any_version_def, blast)
qed

lemma unit_hides_values:
  assumes "graph_ok g ns" "GetAllOrtNodeUnits g = Inr (holder, um)" "u \<in> set holder" "q_nodes u \<noteq> []"
    and "op_of g (target_node u) \<notin> {''ArgMax'', ''ArgMin'', ''NonZero'', ''TopK''}"
    and "m = target_node u \<or> output_reshape_node u = Some m \<or> redundant_clip_node u = Some m"
  shows "hidden_from g (set (GetAllNodesInGroup u)) m"
  using assms(1-3)
proof (cases rule: unit_origin)
  case (1 n)
  then show ?thesis using assms(4) by (simp add: single_unit_def)
next
  case (2 grp versions sel)
  have "\<not> keeps_float_outputs sel" using float_output_ops [OF 2(3)] assms(5) by (auto simp: 2(1))
  moreover have "m = group_target_node grp \<or> group_output_reshape_node grp = Some m \<or> group_redundant_clip_node grp = Some m"
    and "group_q_nodes grp \<noteq> []" using assms(4,6) by (simp_all add: 2(1) qdq_unit_def)
  ultimately show ?thesis using selected_hidden [OF assms(1) 2(2,4)] by (simp add: 2(1) group_nodes_def)
qed

end
