(* ===== verification/Qdq_Folding.thy ===== *)
theory Qdq_Folding
  imports Qdq_Hiding
begin

text \<open>
  Folding a Relu or Clip into the Q behind it.  \<open>quantize\<close> is QuantizeLinear of ONNX over the reals, with the rounding mode
  as a parameter; \<open>clip_at\<close> says which bounds a Clip can run with.  The fold is sound when the bounds are fixed by
  the model; with a bound computed at run time the selector drops a clamp that matters.
\<close>

section \<open>What the operators compute\<close>

definition rounding :: "(real \<Rightarrow> int) \<Rightarrow> bool" where
  "rounding rnd \<longleftrightarrow> mono rnd \<and> (\<forall>i. rnd (of_int i) = i)"

definition quantize :: "(real \<Rightarrow> int) \<Rightarrow> real \<Rightarrow> int \<Rightarrow> int \<times> int \<Rightarrow> real \<Rightarrow> int" where
  "quantize rnd scale zero_point qrange x = max (fst qrange) (min (snd qrange) (rnd (x / scale) + zero_point))"

definition at_least :: "fval \<Rightarrow> real \<Rightarrow> real" where
  "at_least lo x = (case lo of Num l \<Rightarrow> max x l | _ \<Rightarrow> x)"

definition at_most :: "fval \<Rightarrow> real \<Rightarrow> real" where
  "at_most hi x = (case hi of Num h \<Rightarrow> min x h | _ \<Rightarrow> x)"

definition activate :: "string \<Rightarrow> fval \<times> fval \<Rightarrow> real \<Rightarrow> real" where
  "activate op_type bounds x = (if op_type = ''Clip'' then at_most (snd bounds) (at_least (fst bounds) x) else max x 0)"

text \<open>
  The bounds of a Clip: the attributes of opset 6; later the inputs 1 and 2, each the value of an initializer, the type's
  extreme when absent, and any value when it is computed at run time.
\<close>

definition bound_at :: "('g) qdq_graph_scheme \<Rightarrow> node \<Rightarrow> nat \<Rightarrow> fval \<Rightarrow> fval \<Rightarrow> bool" where
  "bound_at g n i dflt b \<longleftrightarrow>
     (if i < length (ins g n) \<and> ins g n ! i \<noteq> None
      then (case GetInitializerFromValueInfo g (the (ins g n ! i)) of
              None \<Rightarrow> True
            | Some init \<Rightarrow> GetScalarValue_float g init = Inr (Some b))
      else b = dflt)"

definition clip_at :: "('g) qdq_graph_scheme \<Rightarrow> node \<Rightarrow> fval \<times> fval \<Rightarrow> bool" where
  "clip_at g n bounds \<longleftrightarrow>
     (if HasAttr g n ''min'' \<or> HasAttr g n ''max''
      then bounds = (Attr_float g n ''min'' (Num (- float_max)), Attr_float g n ''max'' (Num float_max))
      else bound_at g n 1 (Num (- float_max)) (fst bounds) \<and> bound_at g n 2 (Num float_max) (snd bounds))"

text \<open>Every bound given as an input is an initializer.\<close>

definition static_bounds :: "('g) qdq_graph_scheme \<Rightarrow> node \<Rightarrow> bool" where
  "static_bounds g n \<longleftrightarrow>
     HasAttr g n ''min'' \<or> HasAttr g n ''max''
     \<or> (\<forall>i \<in> {1, 2}. i < length (ins g n) \<longrightarrow> ins g n ! i \<noteq> None \<longrightarrow> GetInitializerFromValueInfo g (the (ins g n ! i)) \<noteq> None)"

section \<open>Clamping inside the encoding cannot be seen\<close>

lemma quantize_below:
  assumes "rounding rnd" "0 < s" "x \<le> s * of_int (qmin - zp)" "qmin \<le> qmax"
  shows "quantize rnd s zp (qmin, qmax) x = qmin"
proof -
  have "x / s \<le> of_int (qmin - zp)" using assms(2,3) by (simp add: pos_divide_le_eq mult.commute)
  then have "rnd (x / s) \<le> rnd (of_int (qmin - zp))" using assms(1) unfolding rounding_def mono_def by blast
  then have "rnd (x / s) + zp \<le> qmin" using assms(1) unfolding rounding_def by (simp del: of_int_diff)
  then show ?thesis using assms(4) by (simp add: quantize_def)
qed

lemma quantize_above:
  assumes "rounding rnd" "0 < s" "s * of_int (qmax - zp) \<le> x" "qmin \<le> qmax"
  shows "quantize rnd s zp (qmin, qmax) x = qmax"
proof -
  have "of_int (qmax - zp) \<le> x / s" using assms(2,3) by (simp add: pos_le_divide_eq mult.commute)
  then have "rnd (of_int (qmax - zp)) \<le> rnd (x / s)" using assms(1) unfolding rounding_def mono_def by blast
  then have "qmax \<le> rnd (x / s) + zp" using assms(1) unfolding rounding_def by (simp del: of_int_diff)
  then show ?thesis using assms(4) by (simp add: quantize_def)
qed

lemma quantize_at_least:
  assumes q: "rounding rnd" "0 < s" "qmin \<le> qmax" and lo: "f_le lo (Num (s * of_int (qmin - zp)))"
  shows "quantize rnd s zp (qmin, qmax) (at_least lo x) = quantize rnd s zp (qmin, qmax) x"
proof (cases lo)
  case (Num l)
  then have l: "l \<le> s * of_int (qmin - zp)" using lo by simp
  show ?thesis
  proof (cases "l \<le> x")
    case False
    then have "x \<le> s * of_int (qmin - zp)" using l by linarith
    then show ?thesis using quantize_below [OF q(1,2) _ q(3)] l False by (simp add: Num at_least_def max_def)
  qed (simp add: Num at_least_def max_def)
qed (simp_all add: at_least_def)

lemma quantize_at_most:
  assumes q: "rounding rnd" "0 < s" "qmin \<le> qmax" and hi: "f_le (Num (s * of_int (qmax - zp))) hi"
  shows "quantize rnd s zp (qmin, qmax) (at_most hi x) = quantize rnd s zp (qmin, qmax) x"
proof (cases hi)
  case (Num h)
  then have h: "s * of_int (qmax - zp) \<le> h" using hi by simp
  show ?thesis
  proof (cases "x \<le> h")
    case False
    then have "s * of_int (qmax - zp) \<le> x" using h by linarith
    then show ?thesis using quantize_above [OF q(1,2) _ q(3)] h False by (simp add: Num at_most_def min_def)
  qed (simp add: Num at_most_def min_def)
qed (simp_all add: at_most_def)

lemma GetQminQmax_le: "GetQminQmax t b = Inr (qmin, qmax) \<Longrightarrow> qmin \<le> qmax"
  by (auto simp: GetQminQmax_def Let_def split: Qnn_DataType_t.splits if_splits)

section \<open>The selector's bounds are those of the node\<close>

lemma clip_bound_eq:
  assumes "clip_bound g (ins g n) i dflt = Inr b" "bound_at g n i dflt b'"
    and "i < length (ins g n) \<Longrightarrow> ins g n ! i \<noteq> None \<Longrightarrow> GetInitializerFromValueInfo g (the (ins g n ! i)) \<noteq> None"
  shows "b = b'"
  using assms by (auto simp: clip_bound_def bound_at_def and_then_eq_Inr_iff split: if_splits option.splits)

lemma GetClipMinMax_eq:
  assumes "is_ok (Node_GetInputs g n)" "GetClipMinMax g n = Inr b" "clip_at g n b'" "static_bounds g n"
  shows "b = b'"
proof (cases "HasAttr g n ''min'' \<or> HasAttr g n ''max''")
  case True
  then show ?thesis using assms(2,3) by (simp add: GetClipMinMax_def clip_at_def Let_def)
next
  case False
  have i: "Node_GetInputs g n = Inr (ins g n)" using assms(1) by (rule is_ok_ins)
  have b': "bound_at g n 1 (Num (- float_max)) (fst b')" "bound_at g n 2 (Num float_max) (snd b')"
    using assms(3) False by (simp_all add: clip_at_def)
  have st: "ins g n ! j \<noteq> None \<Longrightarrow> GetInitializerFromValueInfo g (the (ins g n ! j)) \<noteq> None"
    if "j = 1 \<or> j = 2" "j < length (ins g n)" for j
    using assms(4) False that unfolding static_bounds_def by blast
  show ?thesis
  proof (cases "length (ins g n) < 2")
    case True
    then show ?thesis using assms(2) b' False i by (cases b') (simp add: GetClipMinMax_def bound_at_def Let_def)
  next
    case long: False
    then obtain lo hi where lh: "clip_bound g (ins g n) 1 (Num (- float_max)) = Inr lo"
      "clip_bound g (ins g n) 2 (Num float_max) = Inr hi" "b = (lo, hi)"
      using assms(2) False i by (auto simp: GetClipMinMax_def Let_def and_then_eq_Inr_iff)
    have "lo = fst b'" by (rule clip_bound_eq [OF lh(1) b'(1)]) (use st in simp)
    moreover have "hi = snd b'" by (rule clip_bound_eq [OF lh(2) b'(2)]) (use st in simp)
    ultimately show ?thesis by (simp add: lh(3))
  qed
qed

lemma IsActivationEncodingSafe_cases:
  assumes "IsActivationEncodingSafe g a t q = Inr True" "GetQNodeScaleAndZeroPoint g q = Inr (Some (Num s, zp, dt))"
  obtains qmin qmax lo hi where "GetQminQmax dt False = Inr (qmin, qmax)"
    "if t = ''Clip'' then GetClipMinMax g a = Inr (lo, hi) else (lo, hi) = (Num 0, Num float_max)"
    "f_le lo (Num (s * of_int (qmin - zp)))" "f_le (Num (s * of_int (qmax - zp))) hi"
proof -
  obtain qmin qmax where r: "GetQminQmax dt False = Inr (qmin, qmax)"
    using assms by (auto simp: IsActivationEncodingSafe_def)
  obtain lo hi where "(if t = ''Clip'' then GetClipMinMax g a else Inr (Num 0, Num float_max)) = Inr (lo, hi)"
    "f_le lo (Num (s * of_int (qmin - zp)))" "f_le (Num (s * of_int (qmax - zp))) hi"
    using assms r by (auto simp: IsActivationEncodingSafe_def Let_def and_then_eq_Inr_iff f_mul_def)
  then show thesis using that r by (cases "t = ''Clip''") auto
qed

lemma activation_invisible:
  assumes a: "IsActivationEncodingSafe g a t q = Inr True" "GetQNodeScaleAndZeroPoint g q = Inr (Some (Num s, zp, dt))"
    and n: "is_ok (Node_GetInputs g a)" "t = ''Clip'' \<Longrightarrow> clip_at g a bounds \<and> static_bounds g a"
    and q: "rounding rnd" "0 < s" "GetQminQmax dt False = Inr qrange"
  shows "quantize rnd s zp qrange (activate t bounds x) = quantize rnd s zp qrange x"
proof -
  obtain qmin qmax lo hi where r: "GetQminQmax dt False = Inr (qmin, qmax)"
    "if t = ''Clip'' then GetClipMinMax g a = Inr (lo, hi) else (lo, hi) = (Num 0, Num float_max)"
    "f_le lo (Num (s * of_int (qmin - zp)))" "f_le (Num (s * of_int (qmax - zp))) hi"
    using a by (rule IsActivationEncodingSafe_cases)
  have qrange: "qrange = (qmin, qmax)" "qmin \<le> qmax" using q(3) r(1) GetQminQmax_le by auto
  show ?thesis
  proof (cases "t = ''Clip''")
    case True
    then have "bounds = (lo, hi)" using GetClipMinMax_eq [OF n(1)] n(2) r(2) by fastforce
    then show ?thesis
      using True r(3,4) qrange(2) q by (simp add: qrange(1) activate_def quantize_at_least quantize_at_most)
  next
    case False
    then have "activate t bounds x = at_least lo x" using r(2) by (simp add: activate_def at_least_def)
    then show ?thesis using r(3) qrange(2) q by (simp add: qrange(1) quantize_at_least)
  qed
qed

section \<open>Folding in a unit\<close>

lemma folded_activation:
  assumes "graph_ok g ns" "n \<in> set ns" "selected g n sel grp" "group_redundant_clip_node grp = Some a"
  obtains q where "a \<in> set ns" "activation g a q" "group_q_nodes grp = [q]"
proof -
  have f: "forward_extension g n (length (outs g n)) = Inr (Some a, group_output_reshape_node grp)"
    and qs: "q_consumers g (outs g a) = Inr (group_q_nodes grp)"
    using assms(3,4) by (simp_all add: selected_def anchor_simps(1))
  from f obtain q where "activation g a q" "a \<in> set ns"
  proof (cases rule: forward_extension_cases)
    case (2 a' q)
    then show thesis using that sole_consumer_in_graph [OF assms(1,2)] by simp
  next
    case (4 rn a' q)
    then show thesis using that sole_consumer_in_graph [OF assms(1) sole_consumer_in_graph [OF assms(1,2)]] by simp
  qed simp_all
  then show thesis using that sole_q_consumer [OF _ _ qs] activation_sole by blast
qed

lemma folded_unit:
  assumes "graph_ok g ns" "GetAllOrtNodeUnits g = Inr (holder, um)" "u \<in> set holder"
    and "redundant_clip_node u = Some a" "q \<in> set (q_nodes u)"
    and "GetQNodeScaleAndZeroPoint g q = Inr (Some (Num s, zp, dt))" "0 < s" "GetQminQmax dt False = Inr qrange"
    and "op_of g a = ''Clip'' \<Longrightarrow> clip_at g a bounds \<and> static_bounds g a"
    and "rounding rnd"
  shows "quantize rnd s zp qrange (activate (op_of g a) bounds x) = quantize rnd s zp qrange x"
  using assms(1-3)
proof (cases rule: unit_origin)
  case (1 n)
  then show ?thesis using assms(4) by (simp add: single_unit_def)
next
  case (2 grp versions sel)
  have "group_redundant_clip_node grp = Some a" using assms(4) by (simp add: 2(1) qdq_unit_def)
  with assms(1) 2(2,4) obtain q' where q': "a \<in> set ns" "activation g a q'" "group_q_nodes grp = [q']"
    by (rule folded_activation)
  have "q' = q" using assms(5) q'(3) by (simp add: 2(1) qdq_unit_def)
  then have "IsActivationEncodingSafe g a (op_of g a) q = Inr True" "is_ok (Node_GetInputs g a)"
    using q'(2) graph_node [OF assms(1) q'(1)] by (auto simp: activation_def)
  then show ?thesis using assms(9) by (intro activation_invisible [OF _ assms(6) _ _ assms(10,7,8)])
qed

end
