(* ===== verification/Unit_Edges.thy ===== *)
theory Unit_Edges
  imports Qdq_Folding
begin

text \<open>
  Node units meet the partitioner.  The partitioning loop relies on \<open>wf_unit_graph\<close>: in particular the number of input edges
  \<open>GetInputEdgesCount\<close> computes for a unit has to be the number of edges that \<open>GetOutputNodes\<close> reports towards it.  The two
  are computed from different ends of the edges; here they are shown to agree for the units \<open>GetAllOrtNodeUnits\<close> forms, by
  counting the edges between the nodes of the graph.
\<close>

section \<open>Edges between nodes\<close>

abbreviation base :: "('g) qdq_graph_scheme \<Rightarrow> ort_graph" where
  "base g \<equiv> ort_graph.truncate g"

lemma base_simps [simp]:
  "Graph_GetNodes (base g) = Graph_GetNodes g" "Node_GetId (base g) = Node_GetId g"
  "Node_GetInputs (base g) = Node_GetInputs g" "Node_GetOutputs (base g) = Node_GetOutputs g"
  "ValueInfo_GetValueProducer (base g) = ValueInfo_GetValueProducer g"
  "ValueInfo_GetValueConsumers (base g) = ValueInfo_GetValueConsumers g" "Node_GetEpName (base g) = Node_GetEpName g"
  by (simp_all add: ort_graph.defs)

definition users :: "('g) qdq_graph_scheme \<Rightarrow> node \<Rightarrow> node list" where
  "users g n = get_consumers (base g) n"

definition made_by :: "('g) qdq_graph_scheme \<Rightarrow> node \<Rightarrow> valueinfo option \<Rightarrow> bool" where
  "made_by g p i \<longleftrightarrow> (\<exists>v. i = Some v \<and> ValueInfo_GetValueProducer g v = Inr (Some p))"

definition edges :: "('g) qdq_graph_scheme \<Rightarrow> node \<Rightarrow> node \<Rightarrow> nat" where
  "edges g p c = length (filter (made_by g p) (ins g c))"

text \<open>
  The contract of the edges: a value is one output of one node, and its consumers are listed once for every input that reads it.
\<close>

definition edges_ok :: "('g) qdq_graph_scheme \<Rightarrow> node list \<Rightarrow> bool" where
  "edges_ok g ns \<longleftrightarrow>
     (\<forall>p \<in> set ns. distinct (List.map_filter id (outs g p))
        \<and> (\<forall>v c. Some v \<in> set (outs g p) \<longrightarrow> c \<in> set ns \<longrightarrow> count_list (consumers_of g v) c = count_list (ins g c) (Some v)))"

lemma users_eq: "users g n = concat (map (consumers_of g) (List.map_filter id (outs g n)))"
proof -
  have "concat (map (\<lambda>output. case output of None \<Rightarrow> [] | Some v \<Rightarrow> consumers_of g v) os)
      = concat (map (consumers_of g) (List.map_filter id os))" for os
    by (induction os) (auto simp: map_filter_simps split: option.splits)
  moreover have "(case ValueInfo_GetValueConsumers g v of Inl _ \<Rightarrow> [] | Inr cs \<Rightarrow> cs) = consumers_of g v" for v
    by (simp add: consumers_of_def on_fail_def)
  ultimately show ?thesis
    by (cases "Node_GetOutputs g n") (simp_all add: users_def get_consumers_def outs_def map_filter_simps)
qed

lemma set_users: "set (users g n) = (\<Union>v \<in> {v. Some v \<in> set (outs g n)}. set (consumers_of g v))"
  by (force simp: users_eq map_filter_def)

lemma users_in_graph:
  assumes "graph_ok g ns" "n \<in> set ns"
  shows "set (users g n) \<subseteq> set ns"
  using graph_output(4) [OF assms] by (auto simp: set_users)

lemma count_list_concat: "count_list (concat xss) x = sum_list (map (\<lambda>xs. count_list xs x) xss)"
  by (induction xss) simp_all

lemma count_members:
  "distinct vs \<Longrightarrow> sum_list (map (\<lambda>v. count_list xs (Some v)) vs) = length (filter (\<lambda>i. \<exists>v \<in> set vs. i = Some v) xs)"
proof (induction vs)
  case (Cons v vs)
  have "count_list xs (Some v) + length (filter (\<lambda>i. \<exists>v \<in> set vs. i = Some v) xs) =
      length (filter (\<lambda>i. \<exists>v \<in> set (v # vs). i = Some v) xs)"
    using Cons.prems by (induction xs) auto
  then show ?case using Cons by simp
qed simp

lemma users_edges:
  assumes g: "graph_ok g ns" "edges_ok g ns" and p: "p \<in> set ns" and c: "c \<in> set ns"
  shows "count_list (users g p) c = edges g p c"
proof -
  let ?vs = "List.map_filter id (outs g p)"
  have vs: "v \<in> set ?vs \<longleftrightarrow> Some v \<in> set (outs g p)" for v by (force simp: map_filter_def)
  have "count_list (users g p) c = sum_list (map (\<lambda>v. count_list (ins g c) (Some v)) ?vs)"
    unfolding users_eq count_list_concat map_map comp_def
    using g(2) p c by (intro arg_cong [where f = sum_list] map_cong) (auto simp: edges_ok_def vs)
  also have "\<dots> = length (filter (\<lambda>i. \<exists>v \<in> set ?vs. i = Some v) (ins g c))"
    by (rule count_members) (use g(2) p in \<open>simp add: edges_ok_def\<close>)
  also have "filter (\<lambda>i. \<exists>v \<in> set ?vs. i = Some v) (ins g c) = filter (made_by g p) (ins g c)"
    using graph_output(1) [OF g(1) p] graph_producer(2) [OF g(1) c] by (intro filter_cong) (auto simp: made_by_def vs)
  finally show ?thesis by (simp add: edges_def)
qed

lemma count_edges_eq:
  assumes g: "graph_ok g ns" and c: "c \<in> set ns"
  shows "count_edges (base g) c = (\<Sum>p \<in> set ns. edges g p c)"
proof -
  have one: "(if \<exists>q. made_by g q i then 1 else 0) = (\<Sum>p \<in> set ns. if made_by g p i then 1 else (0::nat))" if i: "i \<in> set (ins g c)" for i
  proof (cases "\<exists>q. made_by g q i")
    case True
    then obtain q where q: "made_by g q i" "q \<in> set ns" using graph_producer(1) [OF g c] i by (auto simp: made_by_def)
    have "(\<Sum>p \<in> set ns. if made_by g p i then 1 else (0::nat)) = (\<Sum>p \<in> set ns. if p = q then 1 else 0)"
      using q(1) by (intro sum.cong) (auto simp: made_by_def)
    then show ?thesis using True q(2) by simp
  qed simp
  have len: "length (filter P xs) = sum_list (map (\<lambda>i. if P i then 1 else 0) xs)" for P :: "valueinfo option \<Rightarrow> bool" and xs
    by (induction xs) simp_all
  have made: "(case i of None \<Rightarrow> False
      | Some v \<Rightarrow> (case ValueInfo_GetValueProducer g v of Inl _ \<Rightarrow> False | Inr producer \<Rightarrow> producer \<noteq> None)) \<longleftrightarrow> (\<exists>q. made_by g q i)" for i
  proof (cases i)
    case (Some v)
    then show ?thesis by (cases "ValueInfo_GetValueProducer g v") (auto simp: made_by_def)
  qed (simp add: made_by_def)
  have swap: "sum_list (map (\<lambda>i. \<Sum>p \<in> set ns. f p i) xs) = (\<Sum>p \<in> set ns. sum_list (map (f p) xs))"
    for f :: "node \<Rightarrow> valueinfo option \<Rightarrow> nat" and xs
    by (induction xs) (simp_all add: sum.distrib)
  have "count_edges (base g) c = length (filter (\<lambda>i. \<exists>q. made_by g q i) (ins g c))"
    unfolding count_edges_def base_simps graph_node(1) [OF g c] sum.case by (intro arg_cong [where f = length] filter_cong made refl)
  also have "\<dots> = sum_list (map (\<lambda>i. \<Sum>p \<in> set ns. if made_by g p i then 1 else 0) (ins g c))"
    unfolding len using one by (intro arg_cong [where f = sum_list] map_cong) auto
  also have "\<dots> = (\<Sum>p \<in> set ns. edges g p c)"
    unfolding edges_def len by (rule swap)
  finally show ?thesis .
qed

lemma single_pred:
  assumes g: "graph_ok g ns" "edges_ok g ns" and p: "p \<in> set ns" "q \<in> set ns"
    and c: "c \<in> set (users g p)" "c \<in> set (users g q)" "count_edges (base g) c \<le> 1"
  shows "p = q"
proof (rule ccontr)
  assume "p \<noteq> q"
  have "c \<in> set ns" using users_in_graph [OF g(1) p(1)] c(1) by blast
  then have "edges g p c \<noteq> 0" "edges g q c \<noteq> 0"
    using users_edges [OF g p(1)] users_edges [OF g p(2)] c(1,2) by (metis count_list_0_iff)+
  moreover have "edges g p c + edges g q c \<le> (\<Sum>r \<in> set ns. edges g r c)"
    using sum_mono2 [of "set ns" "{p, q}" "\<lambda>r. edges g r c"] p \<open>p \<noteq> q\<close> by simp
  ultimately show False using c(3) count_edges_eq [OF g(1) \<open>c \<in> set ns\<close>] by simp
qed

section \<open>The shape of a unit\<close>

text \<open>
  What the formation of units relies on besides the graph contract.  A DQ has one consumer (ONNX Runtime gives every consumer a
  DQ of its own).  A Q, a Relu and a Clip, and a Reshape behind a Gemm, read at most one value that a node computes.
\<close>

definition unit_contract :: "('g) qdq_graph_scheme \<Rightarrow> node list \<Rightarrow> bool" where
  "unit_contract g ns \<longleftrightarrow>
     graph_ok g ns \<and> edges_ok g ns
     \<and> (\<forall>n \<in> set ns. data_input_first g n
          \<and> (op_of g n = ''DequantizeLinear'' \<longrightarrow> length (users g n) \<le> 1)
          \<and> (op_of g n \<in> {''QuantizeLinear'', ''Relu'', ''Clip''} \<longrightarrow> count_edges (base g) n \<le> 1)
          \<and> (op_of g n = ''Gemm'' \<longrightarrow>
               (\<forall>r \<in> set (users g n). op_of g r = ''Reshape'' \<longrightarrow> count_edges (base g) r \<le> 1)))"

lemma unit_contractD:
  assumes "unit_contract g ns"
  shows "graph_ok g ns" "edges_ok g ns" "\<forall>n \<in> set ns. data_input_first g n"
    "n \<in> set ns \<Longrightarrow> op_of g n = ''DequantizeLinear'' \<Longrightarrow> length (users g n) \<le> 1"
    "n \<in> set ns \<Longrightarrow> op_of g n \<in> {''QuantizeLinear'', ''Relu'', ''Clip''} \<Longrightarrow> count_edges (base g) n \<le> 1"
    "n \<in> set ns \<Longrightarrow> op_of g n = ''Gemm'' \<Longrightarrow> r \<in> set (users g n) \<Longrightarrow> op_of g r = ''Reshape'' \<Longrightarrow> count_edges (base g) r \<le> 1"
  using assms unfolding unit_contract_def by blast+

lemma sole_consumer_users: "sole_consumer_of_node g n = Some c \<Longrightarrow> users g n = [c]"
  by (erule sole_consumer) (simp add: users_eq outs_def map_filter_simps consumers_of_simps)

lemma op_of_eq: "Node_GetOperatorType g n = Inr t \<Longrightarrow> op_of g n = t"
  by (simp add: op_of_def)

lemma dq_producers_count:
  assumes "Node_GetOperatorType g d = Inr ''DequantizeLinear''"
  shows "dq_producers g inputs = Inr dqs \<Longrightarrow> count_list dqs d = length (filter (made_by g d) inputs)"
proof (induction inputs arbitrary: dqs)
  case (Cons i inputs)
  show ?case
  proof (cases i)
    case None
    then show ?thesis using Cons by (simp add: made_by_def)
  next
    case (Some v)
    then obtain dq rest where r: "producer_of_type g v ''DequantizeLinear'' = Inr dq" "dq_producers g inputs = Inr rest"
      "dqs = (case dq of None \<Rightarrow> rest | Some n \<Rightarrow> n # rest)"
      using Cons.prems by (auto simp: and_then_eq_Inr_iff)
    have "dq = Some d \<longleftrightarrow> made_by g d i" using r(1) assms producer_of_type_Some [of g v "''DequantizeLinear''" d]
      unfolding made_by_def Some by (metis Inr_inject option.inject)
    then show ?thesis using Cons.IH [OF r(2)] r(3) by (cases dq) auto
  qed
qed simp

text \<open>The node in front of a folded activation.\<close>

definition before_clip :: "OrtNodeUnit \<Rightarrow> node" where
  "before_clip u = (case output_reshape_node u of Some r \<Rightarrow> r | None \<Rightarrow> target_node u)"

definition unit_shape :: "('g) qdq_graph_scheme \<Rightarrow> node list \<Rightarrow> OrtNodeUnit \<Rightarrow> bool" where
  "unit_shape g ns u \<longleftrightarrow>
     set (GetAllNodesInGroup u) \<subseteq> set ns \<and> distinct (dq_nodes u)
     \<and> (\<forall>d \<in> set (dq_nodes u). op_of g d = ''DequantizeLinear'' \<and> users g d = [target_node u])
     \<and> (\<forall>r. output_reshape_node u = Some r \<longrightarrow> op_of g r = ''Reshape'' \<and> users g (target_node u) = [r] \<and> count_edges (base g) r = 1)
     \<and> (\<forall>c. redundant_clip_node u = Some c \<longrightarrow>
          op_of g c \<in> {''Relu'', ''Clip''} \<and> users g (before_clip u) = [c] \<and> count_edges (base g) c = 1)
     \<and> (\<forall>q \<in> set (q_nodes u). op_of g q = ''QuantizeLinear'' \<and> q \<in> set (users g (output_producer u)) \<and> count_edges (base g) q = 1)"

lemma one_edge:
  assumes g: "graph_ok g ns" "edges_ok g ns" and p: "p \<in> set ns" "c \<in> set (users g p)" "count_edges (base g) c \<le> 1"
  shows "count_edges (base g) c = 1"
proof -
  have c: "c \<in> set ns" using users_in_graph [OF g(1) p(1)] p(2) by blast
  have "edges g p c \<noteq> 0" using users_edges [OF g p(1) c] p(2) by (metis count_list_0_iff)
  moreover have "edges g p c \<le> (\<Sum>r \<in> set ns. edges g r c)" using p(1) by (intro member_le_sum) simp_all
  ultimately show ?thesis using count_edges_eq [OF g(1) c] p(3) by simp
qed

lemma dq_shape:
  assumes c: "unit_contract g ns" and n: "n \<in> set ns" and d: "dq_producers g (ins g n) = Inr dqs"
  shows "distinct dqs \<and> (\<forall>d \<in> set dqs. d \<in> set ns \<and> op_of g d = ''DequantizeLinear'' \<and> users g d = [n])"
proof -
  note g = unit_contractD(1,2) [OF c]
  have dq: "d \<in> set ns \<and> op_of g d = ''DequantizeLinear'' \<and> users g d = [n] \<and> count_list dqs d = 1" if "d \<in> set dqs" for d
  proof -
    obtain v where v: "Node_GetOperatorType g d = Inr ''DequantizeLinear''" "Some v \<in> set (ins g n)"
      "ValueInfo_GetValueProducer g v = Inr (Some d)"
      using dq_producers_ops [OF assms(3) \<open>d \<in> set dqs\<close>] by blast
    have ns: "d \<in> set ns" using graph_producer(1) [OF g(1) n v(2,3)] .
    have "count_list dqs d = edges g d n" using dq_producers_count [OF v(1) assms(3)] by (simp add: edges_def)
    then have "count_list (users g d) n = count_list dqs d" using users_edges [OF g ns n] by simp
    moreover have "count_list dqs d \<noteq> 0" using that by (simp add: count_list_0_iff)
    moreover have "length (users g d) \<le> 1" using unit_contractD(4) [OF c ns op_of_eq [OF v(1)]] .
    ultimately show ?thesis using ns op_of_eq [OF v(1)] by (cases "users g d") (auto split: if_splits)
  qed
  have "distinct dqs" unfolding distinct_count_atmost_1 using dq by (metis count_list_0_iff count_mset)
  then show ?thesis using dq by blast
qed

lemma qdq_unit_fields [simp]:
  "dq_nodes (qdq_unit grp) = group_dq_nodes grp" "q_nodes (qdq_unit grp) = group_q_nodes grp"
  "output_reshape_node (qdq_unit grp) = group_output_reshape_node grp"
  "redundant_clip_node (qdq_unit grp) = group_redundant_clip_node grp" "unit_type (qdq_unit grp) = QDQGroup"
  by (simp_all add: qdq_unit_def)

lemma single_unit_fields [simp]:
  "dq_nodes (single_unit n) = []" "q_nodes (single_unit n) = []" "output_reshape_node (single_unit n) = None"
  "redundant_clip_node (single_unit n) = None" "unit_type (single_unit n) = SingleNode"
  by (simp_all add: single_unit_def)

lemma output_producer_anchor: "output_producer (qdq_unit grp) = anchor grp"
  by (simp add: output_producer_def anchor_def split: option.split)

lemma extension_shape:
  assumes c: "unit_contract g ns" and n: "n \<in> set ns" and s: "selected g n sel grp"
  shows "\<forall>r. group_output_reshape_node grp = Some r \<longrightarrow> op_of g r = ''Reshape'' \<and> users g n = [r] \<and> count_edges (base g) r = 1"
    "\<forall>a. group_redundant_clip_node grp = Some a \<longrightarrow>
       op_of g a \<in> {''Relu'', ''Clip''} \<and> users g (before_clip (qdq_unit grp)) = [a] \<and> count_edges (base g) a = 1"
proof -
  note g = unit_contractD(1,2) [OF c]
  have f: "forward_extension g n (length (outs g n)) = Inr (group_redundant_clip_node grp, group_output_reshape_node grp)"
    and t: "group_target_node grp = n"
    using s by (simp_all add: selected_def)
  have reshape: "op_of g r = ''Reshape'' \<and> users g n = [r] \<and> count_edges (base g) r = 1 \<and> r \<in> set ns"
    if "sole_consumer_of_node g n = Some r" "Node_GetOperatorType g n = Inr ''Gemm''" "Node_GetOperatorType g r = Inr ''Reshape''" for r
    using that sole_consumer_users [OF that(1)] sole_consumer_in_graph [OF g(1) n that(1)]
      unit_contractD(6) [OF c n op_of_eq [OF that(2)] _ op_of_eq [OF that(3)]] one_edge [OF g n] by (auto simp: op_of_eq)
  have clip: "op_of g a \<in> {''Relu'', ''Clip''} \<and> users g b = [a] \<and> count_edges (base g) a = 1"
    if b: "b \<in> set ns" "sole_consumer_of_node g b = Some a" "activation g a q" for a b q
  proof -
    have "op_of g a \<in> {''Relu'', ''Clip''}" using b(3) by (auto simp: activation_def op_of_eq)
    then have "count_edges (base g) a \<le> 1"
      using unit_contractD(5) [OF c sole_consumer_in_graph [OF g(1) b(1,2)]] by blast
    then show ?thesis using \<open>op_of g a \<in> _\<close> sole_consumer_users [OF b(2)] one_edge [OF g b(1)] by simp
  qed
  from f show "\<forall>r. group_output_reshape_node grp = Some r \<longrightarrow> op_of g r = ''Reshape'' \<and> users g n = [r] \<and> count_edges (base g) r = 1"
    by (cases rule: forward_extension_cases) (use reshape in auto)
  from f show "\<forall>a. group_redundant_clip_node grp = Some a \<longrightarrow>
       op_of g a \<in> {''Relu'', ''Clip''} \<and> users g (before_clip (qdq_unit grp)) = [a] \<and> count_edges (base g) a = 1"
  proof (cases rule: forward_extension_cases)
    case (2 a q)
    then show ?thesis using clip [OF n 2(3,4)] by (simp add: before_clip_def t)
  next
    case (4 r a q)
    then show ?thesis using clip [OF sole_consumer_in_graph [OF g(1) n 4(4)] 4(6,7)] by (simp add: before_clip_def)
  qed simp_all
qed

lemma unit_shape_holder:
  assumes c: "unit_contract g ns" and u: "GetAllOrtNodeUnits g = Inr (holder, um)" "u \<in> set holder"
  shows "unit_shape g ns u"
  using unit_contractD(1) [OF c] u
proof (cases rule: unit_origin)
  case (1 n)
  then show ?thesis by (simp add: unit_shape_def)
next
  case (2 grp versions sel)
  note g = unit_contractD(1,2) [OF c]
  have "units_cover ns holder um" using GetAllOrtNodeUnits_cover [OF g(1) unit_contractD(3) [OF c] u(1)] .
  then have sub: "set (GetAllNodesInGroup u) \<subseteq> set ns" using u(2) by (simp add: units_cover_def)
  have dq: "dq_producers g (ins g (group_target_node grp)) = Inr (group_dq_nodes grp)"
    and qs: "q_consumers g (outs g (anchor grp)) = Inr (group_q_nodes grp)"
    using 2(4) by (simp_all add: selected_def)
  have "anchor grp \<in> set ns" using sub unfolding 2(1) GetAllNodesInGroup_def anchor_def by (auto split: option.splits)
  then have "op_of g q = ''QuantizeLinear'' \<and> q \<in> set (users g (anchor grp)) \<and> count_edges (base g) q = 1"
    if "q \<in> set (group_q_nodes grp)" for q
    using q_consumers_ops [OF qs that] users_in_graph [OF g(1)] unit_contractD(5) [OF c, of q] one_edge [OF g, of "anchor grp" q]
    by (auto simp: set_users op_of_eq)
  then show ?thesis
    using sub dq_shape [OF c 2(2) dq] extension_shape [OF c 2(2,4)]
    unfolding unit_shape_def 2(1) by (simp add: output_producer_anchor)
qed

section \<open>A node belongs to one unit\<close>

lemma nodes_satellites: "set (GetAllNodesInGroup u) = insert (target_node u) (satellites u)"
  by (auto simp: GetAllNodesInGroup_def satellites_def split: option.splits)

lemma unit_shapeD:
  assumes "unit_shape g ns u"
  shows "target_node u \<in> set ns" "satellites u \<subseteq> set ns" "distinct (dq_nodes u)"
    "d \<in> set (dq_nodes u) \<Longrightarrow> op_of g d = ''DequantizeLinear'' \<and> users g d = [target_node u]"
    "output_reshape_node u = Some r \<Longrightarrow> op_of g r = ''Reshape'' \<and> users g (target_node u) = [r] \<and> count_edges (base g) r = 1"
    "redundant_clip_node u = Some c \<Longrightarrow>
       op_of g c \<in> {''Relu'', ''Clip''} \<and> users g (before_clip u) = [c] \<and> count_edges (base g) c = 1"
    "q \<in> set (q_nodes u) \<Longrightarrow>
       op_of g q = ''QuantizeLinear'' \<and> q \<in> set (users g (output_producer u)) \<and> count_edges (base g) q = 1"
  using assms unfolding unit_shape_def nodes_satellites by auto

lemma chain_in_graph:
  assumes "unit_shape g ns u"
  shows "before_clip u \<in> set ns" "output_producer u \<in> set ns"
  using unit_shapeD(1,2) [OF assms]
  by (auto simp: before_clip_def output_producer_def satellites_def split: option.splits)

lemma shared_before_clip:
  assumes g: "graph_ok g ns" "edges_ok g ns" and u: "unit_shape g ns u" "unit_shape g ns u'"
    and t: "target_node u \<notin> satellites u'" "target_node u' \<notin> satellites u"
    and eq: "before_clip u = before_clip u'"
  shows "target_node u = target_node u'"
proof (cases "output_reshape_node u")
  case None
  then show ?thesis using eq t(1) by (cases "output_reshape_node u'") (auto simp: before_clip_def satellites_def)
next
  case (Some r)
  then have "output_reshape_node u' = Some r"
    using eq t(2) by (cases "output_reshape_node u'") (auto simp: before_clip_def satellites_def)
  then show ?thesis
    using unit_shapeD(5) [OF u(1) Some] unit_shapeD(5) [OF u(2), of r] unit_shapeD(1) [OF u(1)] unit_shapeD(1) [OF u(2)]
    by (intro single_pred [OF g, where c = r]) auto
qed

lemma shared_clip:
  assumes g: "graph_ok g ns" "edges_ok g ns" and u: "unit_shape g ns u" "unit_shape g ns u'"
    and t: "target_node u \<notin> satellites u'" "target_node u' \<notin> satellites u"
    and c: "redundant_clip_node u = Some c" "redundant_clip_node u' = Some c"
  shows "target_node u = target_node u'"
proof (rule shared_before_clip [OF g u t])
  show "before_clip u = before_clip u'"
    using unit_shapeD(6) [OF u(1) c(1)] unit_shapeD(6) [OF u(2) c(2)] chain_in_graph(1) [OF u(1)] chain_in_graph(1) [OF u(2)]
    by (intro single_pred [OF g, where c = c]) auto
qed

lemma output_producer_cases:
  obtains c where "redundant_clip_node u = Some c" "output_producer u = c"
  | "redundant_clip_node u = None" "output_producer u = before_clip u"
  by (cases "redundant_clip_node u") (simp_all add: output_producer_def before_clip_def)

lemma before_clip_no_clip:
  assumes u: "unit_shape g ns u" "unit_shape g ns u'" and t: "target_node u \<notin> satellites u'"
    and c: "redundant_clip_node u' = Some c"
  shows "before_clip u \<noteq> c"
proof (cases "output_reshape_node u")
  case None
  then show ?thesis using t c by (auto simp: before_clip_def satellites_def)
next
  case (Some r)
  then show ?thesis using unit_shapeD(5) [OF u(1) Some] unit_shapeD(6) [OF u(2) c] by (auto simp: before_clip_def)
qed

lemma shared_producer:
  assumes g: "graph_ok g ns" "edges_ok g ns" and u: "unit_shape g ns u" "unit_shape g ns u'"
    and t: "target_node u \<notin> satellites u'" "target_node u' \<notin> satellites u"
    and eq: "output_producer u = output_producer u'"
  shows "target_node u = target_node u'"
proof (cases rule: output_producer_cases [of u])
  case (1 c)
  then have "redundant_clip_node u' = Some c"
    using eq before_clip_no_clip [OF u(2,1) t(2) 1(1)] by (cases rule: output_producer_cases [of u']) auto
  then show ?thesis using shared_clip [OF g u t 1(1)] by blast
next
  case 2
  then have "before_clip u = before_clip u'"
    using eq before_clip_no_clip [OF u t(1)] by (cases rule: output_producer_cases [of u']) auto
  then show ?thesis by (rule shared_before_clip [OF g u t])
qed

lemma satellite_ops:
  assumes "unit_shape g ns u" "m \<in> satellites u"
  shows "m \<in> set (dq_nodes u) \<and> op_of g m = ''DequantizeLinear''
    \<or> output_reshape_node u = Some m \<and> op_of g m = ''Reshape''
    \<or> redundant_clip_node u = Some m \<and> op_of g m \<in> {''Relu'', ''Clip''}
    \<or> m \<in> set (q_nodes u) \<and> op_of g m = ''QuantizeLinear''"
  using assms(2) unit_shapeD(4-7) [OF assms(1)] unfolding satellites_def by auto

lemma shared_node:
  assumes g: "graph_ok g ns" "edges_ok g ns" and u: "unit_shape g ns u" "unit_shape g ns u'"
    and t: "target_node u \<notin> satellites u'" "target_node u' \<notin> satellites u"
    and m: "m \<in> set (GetAllNodesInGroup u)" "m \<in> set (GetAllNodesInGroup u')"
  shows "target_node u = target_node u'"
proof (cases "m \<in> satellites u \<and> m \<in> satellites u'")
  case False
  then show ?thesis using m t by (auto simp: nodes_satellites)
next
  case True
  then consider "m \<in> set (dq_nodes u)" "m \<in> set (dq_nodes u')"
    | "output_reshape_node u = Some m" "output_reshape_node u' = Some m"
    | "redundant_clip_node u = Some m" "redundant_clip_node u' = Some m"
    | "m \<in> set (q_nodes u)" "m \<in> set (q_nodes u')"
    using satellite_ops [OF u(1), of m] satellite_ops [OF u(2), of m] by auto
  then show ?thesis
  proof cases
    case 1
    then show ?thesis using unit_shapeD(4) [OF u(1)] unit_shapeD(4) [OF u(2)] by fastforce
  next
    case 2
    then show ?thesis by (intro shared_before_clip [OF g u t]) (simp add: before_clip_def)
  next
    case 3
    then show ?thesis by (rule shared_clip [OF g u t])
  next
    case 4
    then have "output_producer u = output_producer u'"
      using unit_shapeD(7) [OF u(1)] unit_shapeD(7) [OF u(2)] chain_in_graph(2) [OF u(1)] chain_in_graph(2) [OF u(2)]
      by (intro single_pred [OF g, where c = m]) auto
    then show ?thesis by (rule shared_producer [OF g u t])
  qed
qed

end
