(* ===== verification/Unit_Partition.thy ===== *)
theory Unit_Partition
  imports Unit_Edges
begin

text \<open>
  Counting the edges between units, and partitioning a graph into the groups of supported units: the composition of
  \<open>GetAllOrtNodeUnits\<close> with \<open>CreateSupportedPartitionNodeGroups\<close> the way \<open>GetCapability\<close> calls them.
\<close>

section \<open>Sums over the nodes of a unit\<close>

definition hits :: "node set \<Rightarrow> node list \<Rightarrow> nat" where
  "hits M xs = length (filter (\<lambda>x. x \<in> M) xs)"

lemma hits_simps [simp]:
  "hits M [] = 0" "hits M (x # xs) = (if x \<in> M then 1 else 0) + hits M xs" "hits M (xs @ ys) = hits M xs + hits M ys"
  by (simp_all add: hits_def)

lemma hits_concat: "hits M (concat xss) = sum_list (map (hits M) xss)"
  by (induction xss) simp_all

lemma sum_count_list: "finite M \<Longrightarrow> (\<Sum>m \<in> M. count_list xs m) = hits M xs"
proof (induction xs)
  case (Cons x xs)
  have "(\<Sum>m \<in> M. count_list (x # xs) m) = (\<Sum>m \<in> M. (if m = x then 1 else 0) + count_list xs m)"
    by (intro sum.cong) auto
  then show ?case using Cons by (simp add: sum.distrib)
qed simp

definition opt_sum :: "('a \<Rightarrow> nat) \<Rightarrow> 'a option \<Rightarrow> nat" where
  "opt_sum f x = (case x of None \<Rightarrow> 0 | Some y \<Rightarrow> f y)"

lemma opt_sum_simps [simp]: "opt_sum f None = 0" "opt_sum f (Some y) = f y"
  by (simp_all add: opt_sum_def)

lemma sum_set_option [simp]: "sum f (set_option x) = opt_sum f x"
  by (cases x) simp_all

lemma roles_disjoint:
  assumes u: "unit_shape g ns u"
  shows "set (dq_nodes u) \<inter> set_option (output_reshape_node u) = {}"
    "(set (dq_nodes u) \<union> set_option (output_reshape_node u)) \<inter> set_option (redundant_clip_node u) = {}"
    "(set (dq_nodes u) \<union> set_option (output_reshape_node u) \<union> set_option (redundant_clip_node u)) \<inter> set (q_nodes u) = {}"
  using unit_shapeD(4-7) [OF u] by fastforce+

lemma sum_nodes:
  assumes u: "unit_shape g ns u" and t: "target_node u \<notin> satellites u"
  shows "sum F (set (GetAllNodesInGroup u)) =
    F (target_node u) + sum F (set (dq_nodes u)) + opt_sum F (output_reshape_node u) + opt_sum F (redundant_clip_node u)
    + sum F (set (q_nodes u))"
proof -
  have "satellites u = set (dq_nodes u) \<union> set_option (output_reshape_node u) \<union> set_option (redundant_clip_node u) \<union> set (q_nodes u)"
    by (auto simp: satellites_def)
  then show ?thesis using t roles_disjoint [OF u] by (simp add: nodes_satellites sum.union_disjoint)
qed

section \<open>The edges out of a unit\<close>

lemma sum_list_split:
  fixes h :: "node \<Rightarrow> nat"
  assumes "finite Q" "\<And>q. q \<in> Q \<Longrightarrow> count_list xs q = 1"
  shows "sum_list (map h xs) = sum h Q + sum_list (map h (filter (\<lambda>x. x \<notin> Q) xs))"
proof -
  have "count_list (filter (\<lambda>x. x \<in> Q) xs) q = (if q \<in> Q then 1 else 0)" for q
  proof -
    have "count_list (filter (\<lambda>x. x \<in> Q) ys) q = (if q \<in> Q then count_list ys q else 0)" for ys by (induction ys) auto
    then show ?thesis using assms(2) by simp
  qed
  moreover have s: "set (filter (\<lambda>x. x \<in> Q) xs) = Q"
  proof -
    have "q \<in> set xs" if "q \<in> Q" for q using assms(2) [OF that] count_list_0_iff [of xs q] by auto
    then show ?thesis by auto
  qed
  ultimately have d: "distinct (filter (\<lambda>x. x \<in> Q) xs)" unfolding distinct_count_atmost_1 count_mset s by simp
  have "sum_list (map h xs) = sum_list (map h (filter (\<lambda>x. x \<in> Q) xs)) + sum_list (map h (filter (\<lambda>x. x \<notin> Q) xs))"
    by (induction xs) auto
  also have "sum_list (map h (filter (\<lambda>x. x \<in> Q) xs)) = sum h Q" using sum_list_distinct_conv_sum_set [OF d, of h] s by simp
  finally show ?thesis .
qed

lemma hits_sum_list: "hits M xs = sum_list (map (\<lambda>x. if x \<in> M then 1 else 0) xs)"
  by (induction xs) simp_all

lemma q_used_once:
  assumes g: "graph_ok g ns" "edges_ok g ns" and u: "unit_shape g ns u" and q: "q \<in> set (q_nodes u)"
  shows "count_list (users g (output_producer u)) q = 1"
proof -
  let ?p = "output_producer u"
  have p: "?p \<in> set ns" by (rule chain_in_graph(2) [OF u])
  have q': "q \<in> set (users g ?p)" "count_edges (base g) q = 1" "q \<in> set ns"
    using unit_shapeD(7) [OF u q] unit_shapeD(2) [OF u] q by (auto simp: satellites_def)
  have "edges g ?p q \<le> count_edges (base g) q"
    unfolding count_edges_eq [OF g(1) q'(3)] using p by (intro member_le_sum) simp_all
  moreover have "count_list (users g ?p) q \<noteq> 0" using q'(1) by (simp add: count_list_0_iff)
  ultimately show ?thesis using users_edges [OF g p q'(3)] q'(2) by simp
qed

definition inner :: "OrtNodeUnit \<Rightarrow> node set \<Rightarrow> nat" where
  "inner u M =
     (if target_node u \<in> M then card (set (dq_nodes u)) else 0)
     + opt_sum (\<lambda>r. if r \<in> M then 1 else 0) (output_reshape_node u)
     + opt_sum (\<lambda>c. if c \<in> M then 1 else 0) (redundant_clip_node u)
     + (\<Sum>q \<in> set (q_nodes u). if q \<in> M then 1 else 0)"

lemma chain_users:
  assumes u: "unit_shape g ns u"
  shows "hits M (users g (target_node u)) + opt_sum (\<lambda>r. hits M (users g r)) (output_reshape_node u)
      + opt_sum (\<lambda>c. hits M (users g c)) (redundant_clip_node u)
    = opt_sum (\<lambda>r. if r \<in> M then 1 else 0) (output_reshape_node u)
      + opt_sum (\<lambda>c. if c \<in> M then 1 else 0) (redundant_clip_node u) + hits M (users g (output_producer u))"
  using unit_shapeD(5) [OF u] unit_shapeD(6) [OF u]
  by (cases "output_reshape_node u"; cases "redundant_clip_node u") (auto simp: before_clip_def output_producer_def)

lemma unit_out_edges:
  assumes g: "graph_ok g ns" "edges_ok g ns" and u: "unit_shape g ns u" and t: "target_node u \<notin> satellites u"
  shows "(\<Sum>p \<in> set (GetAllNodesInGroup u). hits M (users g p)) = hits M (GetOutputNodes (base g) u) + inner u M"
proof -
  let ?xs = "users g (output_producer u)" and ?Q = "set (q_nodes u)"
  let ?rest = "filter (\<lambda>x. x \<notin> ?Q) ?xs"
  note split = sum_list_split [OF finite_set q_used_once [OF g u]]
  have "hits M (GetOutputNodes (base g) u) = sum_list (map (\<lambda>n. hits M (if n \<in> ?Q then users g n else [n])) ?xs)"
    unfolding GetOutputNodes_def hits_concat users_def map_map comp_def ..
  also have "\<dots> = (\<Sum>q \<in> ?Q. hits M (if q \<in> ?Q then users g q else [q]))
      + sum_list (map (\<lambda>n. hits M (if n \<in> ?Q then users g n else [n])) ?rest)" by (rule split)
  also have "(\<Sum>q \<in> ?Q. hits M (if q \<in> ?Q then users g q else [q])) = (\<Sum>q \<in> ?Q. hits M (users g q))" by simp
  also have "sum_list (map (\<lambda>n. hits M (if n \<in> ?Q then users g n else [n])) ?rest) = hits M ?rest"
    unfolding hits_sum_list [of M ?rest] by (intro arg_cong [where f = sum_list] map_cong) auto
  finally have out: "hits M (GetOutputNodes (base g) u) = (\<Sum>q \<in> ?Q. hits M (users g q)) + hits M ?rest" .
  have last: "hits M ?xs = (\<Sum>q \<in> ?Q. if q \<in> M then 1 else 0) + hits M ?rest"
    unfolding hits_sum_list by (rule split)
  have "(\<Sum>d \<in> set (dq_nodes u). hits M (users g d)) = (\<Sum>d \<in> set (dq_nodes u). if target_node u \<in> M then 1 else 0)"
    using unit_shapeD(4) [OF u] by (intro sum.cong) auto
  then have dq: "(\<Sum>d \<in> set (dq_nodes u). hits M (users g d)) = (if target_node u \<in> M then card (set (dq_nodes u)) else 0)" by simp
  show ?thesis unfolding sum_nodes [OF u t] dq inner_def out using chain_users [OF u, of M] last by simp
qed

section \<open>The units partition the nodes\<close>

lemma owner:
  assumes c: "unit_contract g ns" and u: "GetAllOrtNodeUnits g = Inr (holder, um)" "u \<in> set holder"
    and m: "m \<in> set (GetAllNodesInGroup u)"
  shows "um m = Some u"
proof -
  have cover: "units_cover ns holder um" using GetAllOrtNodeUnits_cover [OF unit_contractD(1,3) [OF c] u(1)] .
  then have "m \<in> dom um" using u(2) m by (auto simp: units_cover_def)
  then obtain u' where u': "um m = Some u'" "u' \<in> set holder" "m \<in> set (GetAllNodesInGroup u')"
    using cover unfolding units_cover_def by blast
  have "target_node u = target_node u'"
    using cover u(2) u'(2) m u'(3) unfolding units_cover_def
    by (intro shared_node [OF unit_contractD(1,2) [OF c] unit_shape_holder [OF c u] unit_shape_holder [OF c u(1) u'(2)]]) blast+
  then have "u = u'" using cover u(2) u'(2) unfolding units_cover_def by (metis option.inject)
  then show ?thesis using u'(1) by simp
qed

definition unit_nodes :: "node_unit_map \<Rightarrow> node \<Rightarrow> node set" where
  "unit_nodes um t = set (GetAllNodesInGroup (unit_of um t))"

lemma units_layout:
  assumes c: "unit_contract g ns" and u: "GetAllOrtNodeUnits g = Inr (holder, um)"
  shows "set (unit_targets um ns) = target_node ` set holder"
    "t \<in> set (unit_targets um ns) \<Longrightarrow> unit_of um t \<in> set holder \<and> target_node (unit_of um t) = t
       \<and> unit_shape g ns (unit_of um t) \<and> satellites (unit_of um t) \<inter> set (unit_targets um ns) = {}"
    "t \<in> set (unit_targets um ns) \<Longrightarrow> m \<in> unit_nodes um t \<Longrightarrow> m \<in> set ns \<and> um m = Some (unit_of um t)"
    "m \<in> set ns \<Longrightarrow> um m = Some (unit_of um m) \<and> target_node (unit_of um m) \<in> set (unit_targets um ns)
       \<and> unit_of um (target_node (unit_of um m)) = unit_of um m \<and> m \<in> unit_nodes um (target_node (unit_of um m))"
proof -
  have cover: "units_cover ns holder um" using GetAllOrtNodeUnits_cover [OF unit_contractD(1,3) [OF c] u] .
  have holder: "um (target_node v) = Some v \<and> target_node v \<in> set ns" if "v \<in> set holder" for v
    using cover that by (auto simp: units_cover_def nodes_satellites)
  have unit: "v \<in> set holder \<and> m \<in> set (GetAllNodesInGroup v)" if "um m = Some v" for m v
    using cover that unfolding units_cover_def by blast
  show T: "set (unit_targets um ns) = target_node ` set holder"
    using holder unit by (fastforce simp: unit_targets_def split: option.splits)
  show 2: "unit_of um t \<in> set holder \<and> target_node (unit_of um t) = t
       \<and> unit_shape g ns (unit_of um t) \<and> satellites (unit_of um t) \<inter> set (unit_targets um ns) = {}"
    if "t \<in> set (unit_targets um ns)" for t
  proof -
    obtain v where "v \<in> set holder" "t = target_node v" using \<open>t \<in> _\<close> unfolding T by blast
    then show ?thesis using holder unit_shape_holder [OF c u] cover unfolding T by (auto simp: unit_of_def units_cover_def)
  qed
  show "m \<in> set ns \<and> um m = Some (unit_of um t)" if "t \<in> set (unit_targets um ns)" "m \<in> unit_nodes um t" for t m
    using owner [OF c u] 2 [OF that(1)] that(2) cover unfolding unit_nodes_def units_cover_def by blast
  show "um m = Some (unit_of um m) \<and> target_node (unit_of um m) \<in> set (unit_targets um ns)
       \<and> unit_of um (target_node (unit_of um m)) = unit_of um m \<and> m \<in> unit_nodes um (target_node (unit_of um m))"
    if "m \<in> set ns" for m
  proof -
    have "m \<in> dom um" using cover \<open>m \<in> set ns\<close> unfolding units_cover_def by simp
    then obtain v where "um m = Some v" by blast
    then show ?thesis using unit [of m v] holder [of v] unfolding T unit_nodes_def unit_of_def by auto
  qed
qed

lemma unit_nodes_iff:
  assumes c: "unit_contract g ns" and u: "GetAllOrtNodeUnits g = Inr (holder, um)"
    and t: "t \<in> set (unit_targets um ns)" and m: "m \<in> set ns"
  shows "m \<in> unit_nodes um t \<longleftrightarrow> target_node (unit_of um m) = t"
  using units_layout(2,3) [OF c u t] units_layout(4) [OF c u m] by (auto simp: unit_of_def)

lemma sum_over_units:
  assumes c: "unit_contract g ns" and u: "GetAllOrtNodeUnits g = Inr (holder, um)"
  shows "sum F (set ns) = (\<Sum>s \<in> set (unit_targets um ns). sum F (unit_nodes um s))"
proof -
  have "set ns = (\<Union>s \<in> set (unit_targets um ns). unit_nodes um s)"
    using units_layout(3,4) [OF c u] by blast
  moreover have "unit_nodes um s \<inter> unit_nodes um t = {}" if "s \<in> set (unit_targets um ns)" "t \<in> set (unit_targets um ns)" "s \<noteq> t" for s t
    using units_layout(2,3) [OF c u] that by (metis disjoint_iff option.inject)
  ultimately show ?thesis by (simp add: sum.UNION_disjoint unit_nodes_def)
qed

section \<open>The edges of the units agree\<close>

lemma GetOutputNodes_in_graph:
  assumes "graph_ok g ns" "unit_shape g ns u"
  shows "set (GetOutputNodes (base g) u) \<subseteq> set ns"
proof
  fix x assume "x \<in> set (GetOutputNodes (base g) u)"
  then obtain n where n: "n \<in> set (users g (output_producer u))" "x \<in> set (if n \<in> set (q_nodes u) then users g n else [n])"
    unfolding GetOutputNodes_def users_def by auto
  have "n \<in> set ns" using users_in_graph [OF assms(1) chain_in_graph(2) [OF assms(2)]] n(1) by blast
  then show "x \<in> set ns" using users_in_graph [OF assms(1) \<open>n \<in> set ns\<close>] n(2) by (cases "n \<in> set (q_nodes u)") auto
qed

lemma inner_other:
  assumes "set (GetAllNodesInGroup u) \<inter> M = {}"
  shows "inner u M = 0"
  using assms unfolding nodes_satellites satellites_def inner_def
  by (cases "output_reshape_node u"; cases "redundant_clip_node u") auto

lemma inner_self:
  "inner u (set (GetAllNodesInGroup u)) =
     card (set (dq_nodes u)) + opt_sum (\<lambda>r. 1) (output_reshape_node u) + opt_sum (\<lambda>c. 1) (redundant_clip_node u) + card (set (q_nodes u))"
  unfolding nodes_satellites satellites_def inner_def
  by (cases "output_reshape_node u"; cases "redundant_clip_node u") simp_all

lemma count_downstream:
  assumes c: "unit_contract g ns" and u: "GetAllOrtNodeUnits g = Inr (holder, um)"
    and s: "s \<in> set (unit_targets um ns)" and t: "t \<in> set (unit_targets um ns)"
  shows "count_list (downstream (base g) um s) t = hits (unit_nodes um t) (GetOutputNodes (base g) (unit_of um s))"
proof -
  have sub: "set (GetOutputNodes (base g) (unit_of um s)) \<subseteq> set ns"
    using GetOutputNodes_in_graph [OF unit_contractD(1) [OF c]] units_layout(2) [OF c u s] by blast
  have "count_list (map (\<lambda>m. target_node (unit_of um m)) xs) t = hits (unit_nodes um t) xs" if "set xs \<subseteq> set ns" for xs
    using that by (induction xs) (auto simp: unit_nodes_iff [OF c u t])
  then show ?thesis using sub by (simp add: downstream_def)
qed

lemma pending_edges:
  assumes c: "unit_contract g ns" and u: "GetAllOrtNodeUnits g = Inr (holder, um)" and t: "t \<in> set (unit_targets um ns)"
  shows "pending (base g) um (set (unit_targets um ns)) t + card (set (dq_nodes (unit_of um t)))
    = (\<Sum>d \<in> set (dq_nodes (unit_of um t)). count_edges (base g) d) + count_edges (base g) t"
proof -
  let ?T = "set (unit_targets um ns)" and ?M = "unit_nodes um t" and ?u = "unit_of um t"
  note g = unit_contractD(1,2) [OF c]
  have shape: "unit_shape g ns (unit_of um s)" "target_node (unit_of um s) \<notin> satellites (unit_of um s)" if "s \<in> ?T" for s
    using units_layout(2) [OF c u that] that by auto
  have "?M \<subseteq> set ns" using units_layout(3) [OF c u t] by blast
  then have "(\<Sum>m \<in> ?M. count_edges (base g) m) = (\<Sum>m \<in> ?M. \<Sum>p \<in> set ns. count_list (users g p) m)"
    by (intro sum.cong) (auto simp: count_edges_eq [OF g(1)] users_edges [OF g] subset_iff)
  also have "\<dots> = (\<Sum>p \<in> set ns. hits ?M (users g p))"
    using sum_count_list [of ?M] by (subst sum.swap) (simp add: unit_nodes_def)
  also have "\<dots> = (\<Sum>s \<in> ?T. hits ?M (GetOutputNodes (base g) (unit_of um s)) + inner (unit_of um s) ?M)"
    unfolding sum_over_units [OF c u] using unit_out_edges [OF g shape] by (intro sum.cong) (simp_all add: unit_nodes_def)
  also have "\<dots> = pending (base g) um ?T t + (\<Sum>s \<in> ?T. inner (unit_of um s) ?M)"
    unfolding pending_def by (simp add: sum.distrib count_downstream [OF c u _ t])
  also have "(\<Sum>s \<in> ?T. inner (unit_of um s) ?M) = (\<Sum>s \<in> ?T. if s = t then inner ?u ?M else 0)"
  proof (intro sum.cong refl)
    fix s assume s: "s \<in> ?T"
    have "unit_nodes um s \<inter> ?M = {}" if "s \<noteq> t"
      using units_layout(2,3) [OF c u s] units_layout(2,3) [OF c u t] that by (metis disjoint_iff option.inject)
    then show "inner (unit_of um s) ?M = (if s = t then inner ?u ?M else 0)"
      using inner_other [of "unit_of um s" ?M] by (auto simp: unit_nodes_def)
  qed
  finally have total: "(\<Sum>m \<in> ?M. count_edges (base g) m) = pending (base g) um ?T t + inner ?u ?M" using t by simp
  have one: "opt_sum (count_edges (base g)) (output_reshape_node ?u) = opt_sum (\<lambda>r. 1) (output_reshape_node ?u)"
    "opt_sum (count_edges (base g)) (redundant_clip_node ?u) = opt_sum (\<lambda>r. 1) (redundant_clip_node ?u)"
    "(\<Sum>q \<in> set (q_nodes ?u). count_edges (base g) q) = card (set (q_nodes ?u))"
    using unit_shapeD(5-7) [OF shape(1) [OF t]] by (auto simp: opt_sum_def split: option.split)
  show ?thesis
    using total units_layout(2) [OF c u t] unfolding unit_nodes_def inner_self sum_nodes [OF shape [OF t]] one by simp
qed

lemma fold_edges: "distinct ds \<Longrightarrow> foldl (\<lambda>acc n. acc + of_nat (f n)) a ds = a + of_nat (sum f (set ds))"
  by (induction ds arbitrary: a) (simp_all add: add.assoc)

lemma GetInputEdgesCount_pending:
  assumes c: "unit_contract g ns" and u: "GetAllOrtNodeUnits g = Inr (holder, um)" and t: "t \<in> set (unit_targets um ns)"
    and small: "(\<Sum>n \<in> set ns. count_edges (base g) n) < 2 ^ 64"
  shows "pending (base g) um (set (unit_targets um ns)) t < 2 ^ 64"
    "unat (GetInputEdgesCount (base g) (unit_of um t)) = pending (base g) um (set (unit_targets um ns)) t"
proof -
  let ?u = "unit_of um t" and ?E = "count_edges (base g)" and ?P = "pending (base g) um (set (unit_targets um ns)) t"
  have v: "?u \<in> set holder" "target_node ?u = t" "unit_shape g ns ?u" "t \<notin> satellites ?u"
    using units_layout(2) [OF c u t] t by auto
  have sum: "?P + card (set (dq_nodes ?u)) = sum ?E (set (dq_nodes ?u)) + ?E t" by (rule pending_edges [OF c u t])
  have "t \<notin> set (dq_nodes ?u)" "insert t (set (dq_nodes ?u)) \<subseteq> set ns"
    using v(2,4) unit_shapeD(1,2) [OF v(3)] by (auto simp: satellites_def)
  then have "?E t + sum ?E (set (dq_nodes ?u)) \<le> sum ?E (set ns)"
    using sum_mono2 [of "set ns" "insert t (set (dq_nodes ?u))" ?E] by simp
  then show P: "?P < 2 ^ 64" using sum small by linarith
  have "GetInputEdgesCount (base g) ?u = of_nat (sum ?E (set (dq_nodes ?u)) + ?E t) - of_nat (card (set (dq_nodes ?u)))"
  proof (cases "unit_type ?u")
    case SingleNode
    from unit_contractD(1) [OF c] u v(1) have "dq_nodes ?u = []" by (cases rule: unit_origin) (use SingleNode in auto)
    then show ?thesis using SingleNode v(2) by (simp add: GetInputEdgesCount_def)
  next
    case QDQGroup
    then show ?thesis
      using v(2) unit_shapeD(3) [OF v(3)] by (simp add: GetInputEdgesCount_def fold_edges distinct_card)
  qed
  then have "GetInputEdgesCount (base g) ?u = of_nat ?P" unfolding sum [symmetric] by simp
  then show "unat (GetInputEdgesCount (base g) ?u) = ?P" using P by (simp add: unat_of_nat)
qed

lemma units_wf:
  assumes c: "unit_contract g ns" and u: "GetAllOrtNodeUnits g = Inr (holder, um)"
    and api: "\<forall>n \<in> set ns. is_ok (Node_GetEpName g n)" "inj_on (Node_GetId g) (set ns)"
    and small: "(\<Sum>n \<in> set ns. count_edges (base g) n) < 2 ^ 64"
  shows "wf_unit_graph (base g) um ns"
proof -
  have sub: "set (unit_targets um ns) \<subseteq> set ns" by (auto simp: unit_targets_def)
  have total: "case um n of None \<Rightarrow> False | Some v \<Rightarrow> target_node v \<in> set ns \<and> um (target_node v) = Some v" if n: "n \<in> set ns" for n
  proof -
    obtain v where v: "um n = Some v" "unit_of um n = v" using units_layout(4) [OF c u n] by blast
    then have "target_node v \<in> set ns" using units_layout(4) [OF c u n] sub by blast
    then show ?thesis using units_layout(4) [OF c u n] units_layout(4) [OF c u \<open>target_node v \<in> _\<close>] v by simp
  qed
  have "distinct ns" using unit_contractD(1) [OF c] by (simp add: graph_ok_def)
  moreover have "inj_on (Node_GetId (base g)) (set (unit_targets um ns))" using api(2) sub by (auto intro: inj_on_subset)
  moreover have "set (GetOutputNodes (base g) (unit_of um t)) \<subseteq> set ns \<and> is_ok (Node_GetEpName (base g) t)
      \<and> satellites (unit_of um t) \<inter> set (unit_targets um ns) = {}" if t: "t \<in> set (unit_targets um ns)" for t
    using units_layout(2) [OF c u t] GetOutputNodes_in_graph [OF unit_contractD(1) [OF c]] api(1) sub t by auto
  ultimately show ?thesis
    using GetInputEdgesCount_pending [OF c u _ small] total unfolding wf_unit_graph_def by blast
qed

section \<open>An order of the nodes orders the units\<close>

definition node_order :: "('g) qdq_graph_scheme \<Rightarrow> node list \<Rightarrow> (node \<Rightarrow> nat) \<Rightarrow> bool" where
  "node_order g ns rank \<longleftrightarrow> (\<forall>p \<in> set ns. \<forall>c \<in> set (users g p). rank p < rank c)"

lemma chain_order:
  assumes o: "node_order g ns rank" and u: "unit_shape g ns u"
  shows "rank (target_node u) \<le> rank (before_clip u)" "rank (before_clip u) \<le> rank (output_producer u)"
    "output_reshape_node u = Some r \<Longrightarrow> rank (target_node u) < rank (before_clip u)"
    "redundant_clip_node u = Some c \<Longrightarrow> rank (before_clip u) < rank (output_producer u)"
    "q \<in> set (q_nodes u) \<Longrightarrow> rank (output_producer u) < rank q"
    "d \<in> set (dq_nodes u) \<Longrightarrow> rank d < rank (target_node u)"
proof -
  have step: "rank p < rank x" if "p \<in> set ns" "x \<in> set (users g p)" for p x using o that by (auto simp: node_order_def)
  have r: "rank (target_node u) < rank (before_clip u)" if "output_reshape_node u = Some r" for r
    using step [OF unit_shapeD(1) [OF u], of r] unit_shapeD(5) [OF u that] by (simp add: before_clip_def that)
  have cl: "rank (before_clip u) < rank (output_producer u)" if "redundant_clip_node u = Some c" for c
    using step [OF chain_in_graph(1) [OF u], of c] unit_shapeD(6) [OF u that] by (simp add: output_producer_def that)
  show "rank (target_node u) \<le> rank (before_clip u)"
    using r by (cases "output_reshape_node u") (auto simp: before_clip_def)
  show "rank (before_clip u) \<le> rank (output_producer u)"
    using cl by (cases "redundant_clip_node u") (auto simp: before_clip_def output_producer_def)
  show "output_reshape_node u = Some r \<Longrightarrow> rank (target_node u) < rank (before_clip u)" by (rule r)
  show "redundant_clip_node u = Some c \<Longrightarrow> rank (before_clip u) < rank (output_producer u)" by (rule cl)
  show "q \<in> set (q_nodes u) \<Longrightarrow> rank (output_producer u) < rank q"
    using step [OF chain_in_graph(2) [OF u]] unit_shapeD(7) [OF u] by blast
  show "rank d < rank (target_node u)" if "d \<in> set (dq_nodes u)"
    using step [of d "target_node u"] unit_shapeD(2) [OF u] unit_shapeD(4) [OF u that] that by (auto simp: satellites_def)
qed

text \<open>An edge that leaves a unit through its output enters the other unit at the operator or at a DQ.\<close>

lemma entry_node:
  assumes g: "graph_ok g ns" "edges_ok g ns" and o: "node_order g ns rank" and u: "unit_shape g ns u"
    and p: "p = output_producer u \<and> x \<notin> set (q_nodes u) \<or> p \<in> set (q_nodes u)" "x \<in> set (users g p)"
    and u': "unit_shape g ns u'" and x: "x \<in> set (GetAllNodesInGroup u')"
    and same: "p \<in> set (GetAllNodesInGroup u') \<Longrightarrow> u' = u"
  shows "x = target_node u' \<or> x \<in> set (dq_nodes u')"
proof (rule ccontr)
  assume no: "\<not> ?thesis"
  have p_ns: "p \<in> set ns" using p(1) chain_in_graph(2) [OF u] unit_shapeD(2) [OF u] by (auto simp: satellites_def)
  define b where "b = (if output_reshape_node u' = Some x then target_node u'
    else if redundant_clip_node u' = Some x then before_clip u' else output_producer u')"
  have x': "output_reshape_node u' = Some x \<or> redundant_clip_node u' = Some x \<or> x \<in> set (q_nodes u')"
    using no x by (auto simp: nodes_satellites satellites_def)
  then have "x \<in> set (users g b) \<and> count_edges (base g) x \<le> 1"
    using unit_shapeD(5-7) [OF u'] by (auto simp: b_def)
  moreover have "b \<in> set ns" using chain_in_graph [OF u'] unit_shapeD(1) [OF u'] by (simp add: b_def)
  ultimately have "p = b" using single_pred [OF g p_ns _ p(2)] by blast
  moreover have "b \<in> set (GetAllNodesInGroup u')"
    by (auto simp: b_def before_clip_def output_producer_def nodes_satellites satellites_def split: option.splits)
  ultimately have "u' = u" using same by blast
  note ord = chain_order [OF o u]
  have "b = output_producer u \<and> x \<notin> set (q_nodes u) \<or> rank (output_producer u) < rank b"
    using p(1) ord(5) [of p] \<open>p = b\<close> by blast
  then show False
    using x' ord(1,2) ord(3) [of x] ord(4) [of x] unfolding b_def \<open>u' = u\<close> by (auto split: if_splits)
qed

lemma units_ordered:
  assumes c: "unit_contract g ns" and u: "GetAllOrtNodeUnits g = Inr (holder, um)" and o: "node_order g ns rank"
  shows "topological_rank (base g) um ns rank"
  unfolding topological_rank_def
proof (intro ballI)
  fix s t assume s: "s \<in> set (unit_targets um ns)" and t: "t \<in> set (downstream (base g) um s)"
  note g = unit_contractD(1,2) [OF c]
  let ?u = "unit_of um s"
  have shape: "unit_shape g ns ?u" "target_node ?u = s" using units_layout(2) [OF c u s] by auto
  obtain x where x: "x \<in> set (GetOutputNodes (base g) ?u)" "t = target_node (unit_of um x)"
    using t by (auto simp: downstream_def)
  obtain n where n: "n \<in> set (users g (output_producer ?u))" "x \<in> set (if n \<in> set (q_nodes ?u) then users g n else [n])"
    using x(1) unfolding GetOutputNodes_def users_def by auto
  define p where "p = (if n \<in> set (q_nodes ?u) then n else output_producer ?u)"
  have p: "p = output_producer ?u \<and> x \<notin> set (q_nodes ?u) \<or> p \<in> set (q_nodes ?u)" "x \<in> set (users g p)"
    using n by (auto simp: p_def split: if_splits)
  have p_node: "p \<in> unit_nodes um s"
    using p(1) by (auto simp: unit_nodes_def nodes_satellites satellites_def output_producer_def split: option.splits)
  have p_ns: "p \<in> set ns" using units_layout(3) [OF c u s p_node] by blast
  have x_ns: "x \<in> set ns" using GetOutputNodes_in_graph [OF g(1) shape(1)] x(1) by blast
  note xu = units_layout(4) [OF c u x_ns, folded x(2)]
  have shape': "unit_shape g ns (unit_of um t)" "target_node (unit_of um t) = t" using units_layout(2) [OF c u, of t] xu by auto
  have same: "unit_of um t = ?u" if "p \<in> set (GetAllNodesInGroup (unit_of um t))"
    using units_layout(3) [OF c u, of t p] units_layout(3) [OF c u s p_node] xu that by (simp add: unit_nodes_def)
  have "x \<in> set (GetAllNodesInGroup (unit_of um t))" using xu unfolding unit_nodes_def by blast
  then have "x = t \<or> x \<in> set (dq_nodes (unit_of um t))"
    using entry_node [OF g o shape(1) p shape'(1) _ same] unfolding shape'(2) by blast
  then have "rank x \<le> rank t" using chain_order(6) [OF o shape'(1)] shape'(2) by fastforce
  moreover have "rank p < rank x" using o p_ns p(2) by (auto simp: node_order_def)
  moreover have "rank s \<le> rank p"
    using p(1) chain_order(1,2) [OF o shape(1)] chain_order(5) [OF o shape(1), of p] shape(2) by auto
  ultimately show "rank s < rank t" by linarith
qed

section \<open>Forming units and partitioning\<close>

lemma q_nodes_distinct:
  assumes c: "unit_contract g ns" and u: "GetAllOrtNodeUnits g = Inr (holder, um)" "v \<in> set holder"
  shows "distinct (q_nodes v)"
  using unit_contractD(1) [OF c] u
proof (cases rule: unit_origin)
  case (2 grp versions sel)
  let ?P = "\<lambda>m. Node_GetOperatorType g m = Inr ''QuantizeLinear''"
  have "q_consumers g (outs g (anchor grp)) = Inr (group_q_nodes grp)" using 2(4) by (simp add: selected_def)
  from q_list_eq [OF this] have q: "group_q_nodes grp = filter ?P (users g (anchor grp))"
    by (simp add: users_eq filter_concat comp_def)
  have le: "count_list (filter ?P xs) x \<le> count_list xs x" for xs x by (induction xs) auto
  have "count_list (group_q_nodes grp) x = 1" if x: "x \<in> set (group_q_nodes grp)" for x
  proof -
    have "count_list (users g (anchor grp)) x = 1"
      using q_used_once [OF unit_contractD(1,2) [OF c] unit_shape_holder [OF c u], of x] x
      by (simp add: 2(1) output_producer_anchor)
    then have "count_list (group_q_nodes grp) x \<le> 1" using le [of "users g (anchor grp)" x] unfolding q by simp
    moreover have "count_list (group_q_nodes grp) x \<noteq> 0" using x by (simp add: count_list_0_iff)
    ultimately show ?thesis by linarith
  qed
  then have "count_list (group_q_nodes grp) x = (if x \<in> set (group_q_nodes grp) then 1 else 0)" for x
    by (cases "x \<in> set (group_q_nodes grp)") (simp_all add: count_list_0_iff)
  then show ?thesis unfolding 2(1) by (simp add: distinct_count_atmost_1 count_mset)
qed simp

lemma members_eq:
  assumes c: "unit_contract g ns" and u: "GetAllOrtNodeUnits g = Inr (holder, um)" and t: "t \<in> set (unit_targets um ns)"
  shows "distinct (members um t)" "set (members um t) = unit_nodes um t"
proof -
  let ?u = "unit_of um t"
  have v: "?u \<in> set holder" "target_node ?u = t" "unit_shape g ns ?u" "t \<notin> satellites ?u"
    using units_layout(2) [OF c u t] t by auto
  have single: "unit_type ?u = QDQGroup \<or> GetAllNodesInGroup ?u = [t]"
    using unit_contractD(1) [OF c] u v(1) by (cases rule: unit_origin) (use v(2) in auto)
  have "distinct (GetAllNodesInGroup ?u)"
    using v(2,4) unit_shapeD(3) [OF v(3)] q_nodes_distinct [OF c u v(1)] roles_disjoint [OF v(3)]
    by (cases "output_reshape_node ?u"; cases "redundant_clip_node ?u") (auto simp: GetAllNodesInGroup_def satellites_def)
  then show "distinct (members um t)" "set (members um t) = unit_nodes um t"
    using single by (auto simp: members_def unit_nodes_def)
qed

lemma units_partitioned:
  assumes c: "unit_contract g ns" and u: "GetAllOrtNodeUnits g = Inr (holder, um)" and o: "node_order g ns rank"
    and api: "\<forall>n \<in> set ns. is_ok (Node_GetEpName g n)" "inj_on (Node_GetId g) (set ns)"
    and small: "(\<Sum>n \<in> set ns. count_edges (base g) n) < 2 ^ 64"
  shows "\<exists>gs. CreateSupportedPartitionNodeGroups (base g) sn ep um = Some (Inr gs) \<and> [] \<notin> set gs \<and> distinct (concat gs)
    \<and> set (concat gs) = {n \<in> set ns. Partition.supported (base g) sn ep (target_node (unit_of um n))}"
proof -
  let ?T = "set (unit_targets um ns)" and ?S = "Partition.supported (base g) sn ep"
  have "Graph_GetNodes (base g) = Inr ns" using unit_contractD(1) [OF c] by (simp add: graph_ok_def)
  then obtain segs where segs: "distinct (concat segs)" "set (concat segs) \<subseteq> ?T"
    "\<forall>t \<in> ?T - set (concat segs). pending (base g) um (?T - set (concat segs)) t \<noteq> 0"
    "CreateSupportedPartitionNodeGroups (base g) sn ep um = Some (if set (concat segs) = ?T
       then Inr (filter (\<lambda>grp. grp \<noteq> []) (map (group_of (base g) sn ep um) segs))
       else Inl (Thrown ''Processed node count differs from the expected count''))"
    using partition_result [OF _ units_wf [OF c u api small], of sn ep] by blast
  have T: "set (concat segs) = ?T" by (rule acyclic_all_processed [OF units_ordered [OF c u o] refl segs(2,3)])
  define gs where "gs = filter (\<lambda>grp. grp \<noteq> []) (map (group_of (base g) sn ep um) segs)"
  have gs: "concat gs = concat (map (members um) (filter ?S (concat segs)))"
    unfolding gs_def concat_filter_nonempty group_of_concat group_of_def ..
  have dis: "set (members um s) \<inter> set (members um t) = {}" if "s \<in> ?T" "t \<in> ?T" "s \<noteq> t" for s t
    using units_layout(2,3) [OF c u that(1)] units_layout(2,3) [OF c u that(2)] members_eq(2) [OF c u] that
    by (metis disjoint_iff option.inject)
  have all: "distinct (concat (map (members um) xs))" if "distinct xs" "set xs \<subseteq> ?T" for xs
    using that by (induction xs) (use members_eq(1) [OF c u] dis in fastforce)+
  have "distinct (concat gs)" unfolding gs by (rule all) (use segs(1,2) in auto)
  moreover have "set (concat gs) = {n \<in> set ns. ?S (target_node (unit_of um n))}"
  proof -
    have "set (concat gs) = (\<Union>t \<in> {t \<in> ?T. ?S t}. unit_nodes um t)"
      unfolding gs set_concat [of "map _ _"] set_map set_filter T using members_eq(2) [OF c u] by simp
    also have "\<dots> = {n \<in> set ns. ?S (target_node (unit_of um n))}"
      using units_layout(3,4) [OF c u] unit_nodes_iff [OF c u] by fastforce
    finally show ?thesis .
  qed
  moreover have "CreateSupportedPartitionNodeGroups (base g) sn ep um = Some (Inr gs)" using segs(4) T by (simp add: gs_def)
  ultimately show ?thesis by (intro exI [of _ gs]) (simp add: gs_def)
qed

end
