(* ===== verification/Qdq_Total.thy ===== *)
theory Qdq_Total
  imports Unit_Partition
begin

text \<open>
  Forming the units always succeeds.  The selectors index vectors, follow pointers and read the first element of initializers
  without a test in many places; the contract \<open>formable\<close> collects what makes every one of these accesses defined.  It holds
  of every model with the arities that ONNX prescribes whose Q scales and Clip bounds are 32-bit floats; a half-precision
  scale breaks it, and the code then reads behind the tensor.
\<close>

section \<open>The contract\<close>

definition data_ok :: "ort_value \<Rightarrow> nat \<Rightarrow> bool" where
  "data_ok i k \<longleftrightarrow> (\<forall>d. value_data i = Inr d \<longrightarrow> (\<exists>bs. d = Some bs \<and> k \<le> length bs))"

definition element_bytes :: "ONNXTensorElementDataType \<Rightarrow> nat" where
  "element_bytes t =
     (if t = ONNX_DOUBLE then 8 else if t = ONNX_FLOAT then 4
      else if t = ONNX_UINT16 \<or> t = ONNX_INT16 then 2 else if t = ONNX_UINT8 \<or> t = ONNX_INT8 then 1 else 0)"

definition node_formable :: "('g) qdq_graph_scheme \<Rightarrow> node \<Rightarrow> bool" where
  "node_formable g n \<longleftrightarrow>
     is_ok (Node_GetOperatorType g n)
     \<and> (op_of g n \<in> {''QuantizeLinear'', ''DequantizeLinear''} \<longrightarrow>
          2 \<le> length (ins g n) \<and> None \<notin> set (ins g n) \<and> outs g n \<noteq> [] \<and> hd (outs g n) \<noteq> None)
     \<and> (map_of (InitializeSelectorsMap CreateSelectors) (op_of g n) \<noteq> None \<longrightarrow> ins g n \<noteq> [])
     \<and> (op_of g n \<in> {''Equal'', ''Greater'', ''GreaterOrEqual'', ''Less'', ''LessOrEqual''} \<longrightarrow> 2 \<le> length (ins g n))
     \<and> (op_of g n = ''Clip'' \<longrightarrow> hd (ins g n) \<noteq> None)
     \<and> (op_of g n = ''TopK'' \<longrightarrow> None \<notin> set (outs g n))"

definition floats_ok :: "('g) qdq_graph_scheme \<Rightarrow> node \<Rightarrow> bool" where
  "floats_ok g n \<longleftrightarrow>
     (\<forall>k v i. (k = 1 \<and> op_of g n = ''QuantizeLinear'' \<or> k \<in> {1, 2} \<and> op_of g n = ''Clip'') \<longrightarrow>
        k < length (ins g n) \<longrightarrow> ins g n ! k = Some v \<longrightarrow> GetInitializerFromValueInfo g v = Some i \<longrightarrow> data_ok i 4)"

definition formable :: "('g) qdq_graph_scheme \<Rightarrow> bool" where
  "formable g \<longleftrightarrow>
     (\<forall>n. node_formable g n \<and> floats_ok g n)
     \<and> (\<forall>name i t. GetConstantInitializer g name = Some i \<longrightarrow> value_type i = Inr t \<longrightarrow> data_ok i (element_bytes t))"

section \<open>Success of a step\<close>

lemma is_ok_and_then [intro!]: "is_ok r \<Longrightarrow> (\<And>x. r = Inr x \<Longrightarrow> is_ok (f x)) \<Longrightarrow> is_ok (and_then r f)"
  by (cases r) auto

lemma is_ok_on_fail [intro!]: "is_ok d \<Longrightarrow> (\<And>x. r = Inr x \<Longrightarrow> is_ok (f x)) \<Longrightarrow> is_ok (on_fail r d f)"
  by (cases r) auto

lemma is_ok_check_then [intro!]: "is_ok c \<Longrightarrow> (c = Inr True \<Longrightarrow> is_ok k) \<Longrightarrow> is_ok (check_then c k)"
  unfolding check_then_def by (rule is_ok_and_then) auto

lemma is_ok_if [intro!]: "(b \<Longrightarrow> is_ok x) \<Longrightarrow> (\<not> b \<Longrightarrow> is_ok y) \<Longrightarrow> is_ok (if b then x else y)"
  by simp

lemma is_ok_option [intro!]:
  "(p = None \<Longrightarrow> is_ok x) \<Longrightarrow> (\<And>v. p = Some v \<Longrightarrow> is_ok (f v)) \<Longrightarrow> is_ok (case p of None \<Rightarrow> x | Some v \<Rightarrow> f v)"
  by (cases p) auto

lemma is_ok_pair [intro!]:
  "(\<And>v w. p = (v, w) \<Longrightarrow> is_ok (f v w)) \<Longrightarrow> is_ok (case p of (v, w) \<Rightarrow> f v w)"
  by (cases p) auto

lemma read_scalar_ok: "k \<le> length bs \<Longrightarrow> is_ok (read_scalar k bs)"
  by (simp add: read_scalar_def)

lemma formableD:
  assumes "formable g"
  shows "is_ok (Node_GetOperatorType g n)"
    "Node_GetOperatorType g n = Inr ''QuantizeLinear'' \<or> Node_GetOperatorType g n = Inr ''DequantizeLinear'' \<Longrightarrow>
       2 \<le> length (ins g n) \<and> None \<notin> set (ins g n) \<and> outs g n \<noteq> [] \<and> hd (outs g n) \<noteq> None"
    "map_of (InitializeSelectorsMap CreateSelectors) (op_of g n) \<noteq> None \<Longrightarrow> ins g n \<noteq> []"
    "op_of g n \<in> {''Equal'', ''Greater'', ''GreaterOrEqual'', ''Less'', ''LessOrEqual''} \<Longrightarrow> 2 \<le> length (ins g n)"
    "op_of g n = ''Clip'' \<Longrightarrow> hd (ins g n) \<noteq> None"
    "op_of g n = ''TopK'' \<Longrightarrow> None \<notin> set (outs g n)"
    "k = 1 \<and> op_of g n = ''QuantizeLinear'' \<or> k \<in> {1, 2} \<and> op_of g n = ''Clip'' \<Longrightarrow>
       k < length (ins g n) \<Longrightarrow> ins g n ! k = Some v \<Longrightarrow> GetInitializerFromValueInfo g v = Some i \<Longrightarrow> data_ok i 4"
    "GetConstantInitializer g name = Some i \<Longrightarrow> value_type i = Inr t \<Longrightarrow> data_ok i (element_bytes t)"
proof -
  have n: "node_formable g n" "floats_ok g n"
    and i: "\<forall>name i t. GetConstantInitializer g name = Some i \<longrightarrow> value_type i = Inr t \<longrightarrow> data_ok i (element_bytes t)"
    using assms unfolding formable_def by auto
  show "is_ok (Node_GetOperatorType g n)" using n(1) by (simp add: node_formable_def)
  show "Node_GetOperatorType g n = Inr ''QuantizeLinear'' \<or> Node_GetOperatorType g n = Inr ''DequantizeLinear'' \<Longrightarrow>
       2 \<le> length (ins g n) \<and> None \<notin> set (ins g n) \<and> outs g n \<noteq> [] \<and> hd (outs g n) \<noteq> None"
    using n(1) unfolding node_formable_def by (metis insertCI op_of_eq)
  show "map_of (InitializeSelectorsMap CreateSelectors) (op_of g n) \<noteq> None \<Longrightarrow> ins g n \<noteq> []"
    using n(1) unfolding node_formable_def by blast
  show "op_of g n \<in> {''Equal'', ''Greater'', ''GreaterOrEqual'', ''Less'', ''LessOrEqual''} \<Longrightarrow> 2 \<le> length (ins g n)"
    "op_of g n = ''Clip'' \<Longrightarrow> hd (ins g n) \<noteq> None" "op_of g n = ''TopK'' \<Longrightarrow> None \<notin> set (outs g n)"
    using n(1) unfolding node_formable_def by blast+
  show "k = 1 \<and> op_of g n = ''QuantizeLinear'' \<or> k \<in> {1, 2} \<and> op_of g n = ''Clip'' \<Longrightarrow>
       k < length (ins g n) \<Longrightarrow> ins g n ! k = Some v \<Longrightarrow> GetInitializerFromValueInfo g v = Some i \<Longrightarrow> data_ok i 4"
    using n(2) unfolding floats_ok_def by blast
  show "GetConstantInitializer g name = Some i \<Longrightarrow> value_type i = Inr t \<Longrightarrow> data_ok i (element_bytes t)" using i by blast
qed

lemma ins_eq: "Node_GetInputs g n = Inr xs \<Longrightarrow> ins g n = xs"
  by (simp add: ins_def)

lemma outs_eq: "Node_GetOutputs g n = Inr xs \<Longrightarrow> outs g n = xs"
  by (simp add: outs_def)

section \<open>The pieces of the selectors\<close>

definition is_qdq :: "('g) qdq_graph_scheme \<Rightarrow> node \<Rightarrow> bool" where
  "is_qdq g n \<longleftrightarrow> Node_GetOperatorType g n = Inr ''QuantizeLinear'' \<or> Node_GetOperatorType g n = Inr ''DequantizeLinear''"

lemma dq_is_qdq: "Node_GetOperatorType g n = Inr ''DequantizeLinear'' \<Longrightarrow> is_qdq g n"
  by (simp add: is_qdq_def)

lemma qdq_arity:
  assumes "formable g" "is_qdq g n"
  shows "Node_GetInputs g n = Inr xs \<Longrightarrow> i < length xs \<Longrightarrow> \<exists>v. xs ! i = Some v"
    "Node_GetOutputs g n = Inr ys \<Longrightarrow> \<exists>v. ys ! 0 = Some v"
proof -
  have n: "None \<notin> set (ins g n)" "outs g n \<noteq> []" "hd (outs g n) \<noteq> None"
    using formableD(2) [OF assms(1), of n] assms(2) by (auto simp: is_qdq_def)
  show "\<exists>v. xs ! i = Some v" if "Node_GetInputs g n = Inr xs" "i < length xs"
    using n(1) nth_mem [OF that(2)] ins_eq [OF that(1)] by (metis not_None_eq)
  show "\<exists>v. ys ! 0 = Some v" if "Node_GetOutputs g n = Inr ys"
    using n(2,3) outs_eq [OF that] by (auto simp: hd_conv_nth)
qed

lemma OperatorType_ok: "formable g \<Longrightarrow> is_ok (OperatorType g n)"
  by (simp add: formableD(1))

lemma producer_of_type_ok: "formable g \<Longrightarrow> is_ok (producer_of_type g v t)"
  unfolding producer_of_type_def by (auto simp: formableD(1))

lemma GetNodeInputDataType_ok: "formable g \<Longrightarrow> is_qdq g n \<Longrightarrow> is_ok (GetNodeInputDataType g n i)"
  unfolding GetNodeInputDataType_def by (auto intro!: qdq_arity(1))

lemma GetNodeOutputDataType_ok: "formable g \<Longrightarrow> is_qdq g n \<Longrightarrow> is_ok (GetNodeOutputDataType g n 0)"
  unfolding GetNodeOutputDataType_def by (auto dest: qdq_arity(2))

definition all_qdq :: "('g) qdq_graph_scheme \<Rightarrow> node list \<Rightarrow> bool" where
  "all_qdq g ns \<longleftrightarrow> (\<forall>n \<in> set ns. is_qdq g n)"

lemma all_qdq_nth: "all_qdq g ns \<Longrightarrow> i < length ns \<Longrightarrow> is_qdq g (ns ! i)"
  by (simp add: all_qdq_def)

lemma dq_type_ok: "formable g \<Longrightarrow> all_qdq g dqs \<Longrightarrow> i < length dqs \<Longrightarrow> is_ok (dq_type g dqs i)"
  unfolding dq_type_def by (auto intro!: GetNodeInputDataType_ok all_qdq_nth)

lemma q_type_ok: "formable g \<Longrightarrow> all_qdq g qs \<Longrightarrow> i < length qs \<Longrightarrow> is_ok (q_type g qs i)"
  unfolding q_type_def by (auto intro!: GetNodeOutputDataType_ok all_qdq_nth)

lemma in_out_types_ok:
  "formable g \<Longrightarrow> all_qdq g dqs \<Longrightarrow> all_qdq g qs \<Longrightarrow> dqs \<noteq> [] \<Longrightarrow> qs \<noteq> [] \<Longrightarrow> (\<And>a b. is_ok (f a b)) \<Longrightarrow>
   is_ok (in_out_types g dqs qs f)"
  unfolding in_out_types_def by (auto intro: dq_type_ok q_type_ok)

lemma scale_input_name_ok: "formable g \<Longrightarrow> is_qdq g n \<Longrightarrow> is_ok (scale_input_name g n)"
  unfolding scale_input_name_def by (auto intro!: qdq_arity(1))

lemma data_ok_read: "data_ok i k \<Longrightarrow> value_data i = Inr d \<Longrightarrow> \<exists>bs. d = Some bs \<and> k \<le> length bs"
  by (simp add: data_ok_def)

lemma scalar_data_ok: "data_ok i k \<Longrightarrow> is_ok (scalar_data i k f)"
  unfolding scalar_data_def by (auto dest: data_ok_read intro!: read_scalar_ok)

lemma GetScalarValue_float_ok: "data_ok i 4 \<Longrightarrow> is_ok (GetScalarValue_float g i)"
  unfolding GetScalarValue_float_def by (auto dest: data_ok_read intro!: read_scalar_ok)

lemma scale_value_ok:
  assumes "formable g" "GetConstantInitializer g name = Some i" "value_type i = Inr t"
  shows "is_ok (scale_value g t i)"
  using formableD(8) [OF assms] unfolding scale_value_def by (auto intro!: scalar_data_ok simp: element_bytes_def)

lemma GetZeroPointValue_ok:
  assumes "formable g" "GetConstantInitializer g name = Some i"
  shows "is_ok (GetZeroPointValue i)"
proof -
  have "element_bytes t \<le> length bs" if "value_type i = Inr t" "value_data i = Inr (Some bs)" for t bs
    using formableD(8) [OF assms that(1)] that(2) by (auto simp: data_ok_def)
  from this [of _ "_ :: byte list"] show ?thesis
    unfolding GetZeroPointValue_def
    by (auto intro!: read_scalar_ok split: ONNXTensorElementDataType.split) (force simp: element_bytes_def)+
qed

lemma IsQOrDQScalePositiveConstantScalar_ok: "formable g \<Longrightarrow> is_qdq g n \<Longrightarrow> is_ok (IsQOrDQScalePositiveConstantScalar g n)"
  unfolding IsQOrDQScalePositiveConstantScalar_def by (auto intro: scale_input_name_ok scale_value_ok)

lemma IsQDQPairSupported_ok: "formable g \<Longrightarrow> is_qdq g n \<Longrightarrow> is_qdq g m \<Longrightarrow> is_ok (IsQDQPairSupported g n m)"
  unfolding IsQDQPairSupported_def prod.case by (auto intro: scale_input_name_ok scale_value_ok)

lemma initializer_at_ok: "p \<noteq> None \<Longrightarrow> is_ok (initializer_at g p)"
  unfolding initializer_at_def by auto

lemma IsPerChannelConstantWeightOnlyGroup_ok:
  assumes "formable g" "all_qdq g dqs"
  shows "is_ok (IsPerChannelConstantWeightOnlyGroup g n dqs qs)"
proof (cases "\<exists>dq. dqs = [dq] \<and> qs = []")
  case True
  then obtain dq where dq: "dqs = [dq]" "qs = []" by blast
  then have "is_qdq g dq" using assms(2) by (simp add: all_qdq_def)
  then show ?thesis
    unfolding IsPerChannelConstantWeightOnlyGroup_def dq
    by (auto intro!: initializer_at_ok qdq_arity(1) [OF assms(1)] split: option.split)
next
  case False
  then have "IsPerChannelConstantWeightOnlyGroup g n dqs qs = Inr False"
    unfolding IsPerChannelConstantWeightOnlyGroup_def by (auto split: list.split)
  then show ?thesis by simp
qed

lemma IsConstantOrInitializerValueInfo_ok: "formable g \<Longrightarrow> is_ok (IsConstantOrInitializerValueInfo g p)"
  unfolding IsConstantOrInitializerValueInfo_def by (auto simp: formableD(1))

lemma IsStaticQdqBias_ok: "formable g \<Longrightarrow> is_ok (IsStaticQdqBias g v)"
  unfolding IsStaticQdqBias_def by (auto intro!: IsConstantOrInitializerValueInfo_ok producer_of_type_ok)

lemma IsGemmWeightBlockQuantized_ok: "formable g \<Longrightarrow> is_ok (IsGemmWeightBlockQuantized g v)"
  unfolding IsGemmWeightBlockQuantized_def
  by (auto intro!: producer_of_type_ok qdq_arity(1) simp: is_qdq_def)

lemma IsGemmSafeForAbsorbedReshape_ok: "formable g \<Longrightarrow> is_ok (IsGemmSafeForAbsorbedReshape g n)"
  unfolding IsGemmSafeForAbsorbedReshape_def by (auto intro!: IsGemmWeightBlockQuantized_ok IsStaticQdqBias_ok)

section \<open>Absorbing a node\<close>

lemma initializer_by_name: "GetInitializerFromValueInfo g v = Some i \<Longrightarrow> \<exists>name. GetConstantInitializer g name = Some i"
  unfolding GetInitializerFromValueInfo_def by auto

lemma GetQNodeScaleAndZeroPoint_ok:
  assumes g: "formable g" and q: "Node_GetOperatorType g q = Inr ''QuantizeLinear''"
  shows "is_ok (GetQNodeScaleAndZeroPoint g q)"
proof -
  have "is_qdq g q" using q by (simp add: is_qdq_def)
  have scale: "data_ok i 4" if "Node_GetInputs g q = Inr xs" "1 < length xs" "initializer_at g (xs ! 1) = Inr (Some i)" for xs i
    using formableD(7) [OF g, of 1 q] op_of_eq [OF q] ins_eq [OF that(1)] that(2,3)
    by (auto simp: initializer_at_def and_then_eq_Inr_iff)
  have zp: "is_ok (GetZeroPointValue i)" if "initializer_at g p = Inr (Some i)" for p i
    using that initializer_by_name [of g _ i] GetZeroPointValue_ok [OF g]
    unfolding initializer_at_def and_then_eq_Inr_iff by blast
  show ?thesis
    unfolding GetQNodeScaleAndZeroPoint_def
    by (auto intro!: initializer_at_ok GetScalarValue_float_ok zp qdq_arity(1) [OF g \<open>is_qdq g q\<close>] scale)
qed

lemma clip_bound_ok:
  assumes g: "formable g" and n: "op_of g n = ''Clip''" "Node_GetInputs g n = Inr xs" "k \<in> {1, 2}"
  shows "is_ok (clip_bound g xs k b)"
  using formableD(7) [OF g, of k n] n ins_eq [OF n(2)] unfolding clip_bound_def by (auto intro!: GetScalarValue_float_ok)

lemma GetClipMinMax_ok: "formable g \<Longrightarrow> op_of g n = ''Clip'' \<Longrightarrow> is_ok (GetClipMinMax g n)"
  unfolding GetClipMinMax_def Let_def by (auto intro!: clip_bound_ok)

lemma IsActivationEncodingSafe_ok:
  "formable g \<Longrightarrow> Node_GetOperatorType g q = Inr ''QuantizeLinear'' \<Longrightarrow> op_of g n = t \<Longrightarrow> is_ok (IsActivationEncodingSafe g n t q)"
  unfolding IsActivationEncodingSafe_def Let_def by (auto intro!: GetQNodeScaleAndZeroPoint_ok GetClipMinMax_ok)

lemma q_behind_activation_ok: "formable g \<Longrightarrow> op_of g n = t \<Longrightarrow> is_ok (q_behind_activation g n t)"
  unfolding q_behind_activation_def by (auto intro!: IsActivationEncodingSafe_ok simp: formableD(1))

lemma TryFoldRedundantActivation_ok: "formable g \<Longrightarrow> is_ok (TryFoldRedundantActivation g n)"
  unfolding TryFoldRedundantActivation_def by (auto intro!: q_behind_activation_ok simp: formableD(1) op_of_eq)

lemma TryAbsorbTrailingReshape_ok: "formable g \<Longrightarrow> is_ok (TryAbsorbTrailingReshape g n)"
  unfolding TryAbsorbTrailingReshape_def
  by (auto intro!: q_behind_activation_ok IsGemmSafeForAbsorbedReshape_ok simp: formableD(1) op_of_eq)

lemma forward_extension_ok: "formable g \<Longrightarrow> is_ok (forward_extension g n k)"
  unfolding forward_extension_def by (auto intro!: TryFoldRedundantActivation_ok TryAbsorbTrailingReshape_ok)

section \<open>The checks\<close>

lemma CheckQDQNodesD:
  assumes "CheckQDQNodes g n dqs qs k b"
  shows "k = - 1 \<Longrightarrow> length dqs = length (ins g n)" "k \<noteq> - 1 \<Longrightarrow> int (length dqs) = k" "qs \<noteq> [] \<or> b"
  using assms by (auto simp: CheckQDQNodes_def and_then_eq_Inr_iff ins_eq split: if_splits)

lemma all_types_ok: "(\<And>n. n \<in> set ns \<Longrightarrow> is_ok (f n)) \<Longrightarrow> is_ok (all_types f t ns)"
  by (induction ns) auto

lemma split_outputs_ok: "formable g \<Longrightarrow> is_qdq g d \<Longrightarrow> all_qdq g qs \<Longrightarrow> is_ok (split_outputs r g d t qs)"
  by (induction qs) (auto intro!: GetNodeOutputDataType_ok IsQDQPairSupported_ok simp: all_qdq_def)

lemma types_known_ok: "formable g \<Longrightarrow> all_qdq g dqs \<Longrightarrow> is_ok (types_known g dqs)"
  by (induction dqs) (auto intro!: GetNodeInputDataType_ok simp: all_qdq_def)

lemma absorbed_outputs_ok: "None \<notin> set os \<Longrightarrow> is_ok (absorbed_outputs g qs os k)"
proof (induction os arbitrary: k)
  case (Cons p os)
  then show ?case by (auto split: list.split)
qed simp

lemma CanCreateNodeGroup_ok: "None \<notin> set (outs g n) \<Longrightarrow> is_ok (CanCreateNodeGroup g n dqs qs)"
  unfolding CanCreateNodeGroup_def by (auto intro!: absorbed_outputs_ok simp: outs_eq)

lemma IsSupportedActivationOutputTypePair_ok:
  "formable g \<Longrightarrow> is_qdq g q \<Longrightarrow> is_ok (IsSupportedActivationOutputTypePair g a b q)"
  unfolding IsSupportedActivationOutputTypePair_def by (auto intro!: IsQOrDQScalePositiveConstantScalar_ok)

lemma IsConvertActivationToOutputGroup_ok:
  "formable g \<Longrightarrow> is_qdq g q \<Longrightarrow> is_ok (IsConvertActivationToOutputGroup g a b q)"
  unfolding IsConvertActivationToOutputGroup_def by (auto intro!: IsQOrDQScalePositiveConstantScalar_ok)

lemma dq_produced_ok: "formable g \<Longrightarrow> is_ok (dq_produced g p)"
  unfolding dq_produced_def by (auto intro!: producer_of_type_ok)

lemma conv_output_type_ok_ok:
  "formable g \<Longrightarrow> is_qdq g q \<Longrightarrow> p \<noteq> None \<Longrightarrow> is_ok (conv_output_type_ok g a b q p)"
  unfolding conv_output_type_ok_def by (auto intro!: IsSupportedActivationOutputTypePair_ok)

lemmas step_ok = dq_type_ok q_type_ok in_out_types_ok all_qdq_nth GetNodeInputDataType_ok GetNodeOutputDataType_ok OperatorType_ok
  IsQOrDQScalePositiveConstantScalar_ok IsQDQPairSupported_ok IsSupportedActivationOutputTypePair_ok
  IsConvertActivationToOutputGroup_ok IsPerChannelConstantWeightOnlyGroup_ok dq_produced_ok types_known_ok all_types_ok
  split_outputs_ok

lemma all_qdq_tl: "all_qdq g ns \<Longrightarrow> n \<in> set (tl ns) \<Longrightarrow> is_qdq g n"
  by (cases ns) (auto simp: all_qdq_def)

lemma all_qdq_mem: "all_qdq g ns \<Longrightarrow> n \<in> set ns \<Longrightarrow> is_qdq g n"
  by (auto simp: all_qdq_def)

text \<open>The facts about the lists that a successful count gives.\<close>

lemma counted:
  assumes "CheckQDQNodes g n dqs qs k False"
  shows "qs \<noteq> []" "0 < length qs" "k > 0 \<Longrightarrow> dqs \<noteq> []" "k = 2 \<Longrightarrow> 1 < length dqs" "k = - 1 \<Longrightarrow> ins g n \<noteq> [] \<Longrightarrow> dqs \<noteq> []"
  using CheckQDQNodesD [OF assms] by auto

lemma Check_DropQDQ_ok: "formable g \<Longrightarrow> all_qdq g dqs \<Longrightarrow> all_qdq g qs \<Longrightarrow> is_ok (Check_DropQDQ b g n clip dqs qs)"
  unfolding Check_DropQDQ_def by (auto intro!: step_ok dest: counted)

lemma Check_DropDQ_ok: "formable g \<Longrightarrow> all_qdq g dqs \<Longrightarrow> all_qdq g qs \<Longrightarrow> is_ok (Check_DropDQ g n clip dqs qs)"
  unfolding Check_DropDQ_def by (auto intro!: step_ok)

lemma Check_Unary_ok: "formable g \<Longrightarrow> all_qdq g dqs \<Longrightarrow> all_qdq g qs \<Longrightarrow> is_ok (Check_Unary g n clip dqs qs)"
  unfolding Check_Unary_def by (auto intro!: step_ok dest: counted simp: formableD(1))

lemma Check_Binary_ok: "formable g \<Longrightarrow> all_qdq g dqs \<Longrightarrow> all_qdq g qs \<Longrightarrow> is_ok (Check_Binary g n clip dqs qs)"
  unfolding Check_Binary_def by (auto intro!: step_ok dest: counted simp: formableD(1))

lemma Check_Variadic_ok:
  "formable g \<Longrightarrow> all_qdq g dqs \<Longrightarrow> all_qdq g qs \<Longrightarrow> ins g n \<noteq> [] \<Longrightarrow> is_ok (Check_Variadic g n clip dqs qs)"
  unfolding Check_Variadic_def by (auto intro!: step_ok dest: counted simp: formableD(1) all_qdq_tl)

lemma Check_Split_ok: "formable g \<Longrightarrow> all_qdq g dqs \<Longrightarrow> all_qdq g qs \<Longrightarrow> is_ok (Check_Split r g n clip dqs qs)"
  unfolding Check_Split_def by (auto intro!: step_ok dest: counted)

lemma Check_Clip_ok:
  assumes "formable g" "all_qdq g dqs" "all_qdq g qs" "hd (ins g n) \<noteq> None" "ins g n \<noteq> []"
  shows "is_ok (Check_Clip g n clip dqs qs)"
proof -
  have "xs \<noteq> [] \<and> (\<exists>v. xs ! 0 = Some v)" if "Node_GetInputs g n = Inr xs" for xs
    using assms(4,5) ins_eq [OF that] by (auto simp: hd_conv_nth)
  then show ?thesis
    unfolding Check_Clip_def using assms by (auto intro!: step_ok dest: counted simp: formableD(1))
qed

lemma Check_Conv_ok:
  assumes "formable g" "all_qdq g dqs" "all_qdq g qs"
  shows "is_ok (Check_Conv g n clip dqs qs)"
proof -
  have "p \<noteq> None" if "dq_produced g p = Inr True" for p using that by (cases p) (simp_all add: dq_produced_def)
  then show ?thesis
    unfolding Check_Conv_def using assms
    by (auto intro!: step_ok conv_output_type_ok_ok dest: counted simp: formableD(1))
qed

lemma Check_Einsum_ok: "formable g \<Longrightarrow> all_qdq g dqs \<Longrightarrow> all_qdq g qs \<Longrightarrow> ins g n \<noteq> [] \<Longrightarrow> is_ok (Check_Einsum g n clip dqs qs)"
  unfolding Check_Einsum_def by (auto intro!: step_ok dest: CheckQDQNodesD(1))

lemma Check_Reciprocal_ok: "formable g \<Longrightarrow> all_qdq g dqs \<Longrightarrow> all_qdq g qs \<Longrightarrow> ins g n \<noteq> [] \<Longrightarrow> is_ok (Check_Reciprocal g n clip dqs qs)"
  unfolding Check_Reciprocal_def by (auto intro!: step_ok dest: CheckQDQNodesD(1))

lemma Check_MatMul_ok: "formable g \<Longrightarrow> all_qdq g dqs \<Longrightarrow> all_qdq g qs \<Longrightarrow> is_ok (Check_MatMul g n clip dqs qs)"
  unfolding Check_MatMul_def by (auto intro!: step_ok dest: counted simp: formableD(1))

lemma Check_Gemm_ok: "formable g \<Longrightarrow> all_qdq g dqs \<Longrightarrow> all_qdq g qs \<Longrightarrow> is_ok (Check_Gemm g n clip dqs qs)"
  unfolding Check_Gemm_def by (auto intro!: step_ok dest: counted simp: formableD(1))

lemma Check_Where_ok: "formable g \<Longrightarrow> all_qdq g dqs \<Longrightarrow> all_qdq g qs \<Longrightarrow> is_ok (Check_Where g n clip dqs qs)"
  unfolding Check_Where_def by (auto intro!: step_ok dest: counted simp: formableD(1))

lemma Check_Pad_ok: "formable g \<Longrightarrow> all_qdq g dqs \<Longrightarrow> all_qdq g qs \<Longrightarrow> is_ok (Check_Pad g n clip dqs qs)"
  unfolding Check_Pad_def by (auto intro!: step_ok dest: counted simp: formableD(1))

lemma Check_InstanceAndLayerNormalization_ok: "formable g \<Longrightarrow> all_qdq g dqs \<Longrightarrow> all_qdq g qs \<Longrightarrow> ins g n \<noteq> [] \<Longrightarrow> is_ok (Check_InstanceAndLayerNormalization g n clip dqs qs)"
  unfolding Check_InstanceAndLayerNormalization_def by (auto intro!: step_ok dest: counted simp: formableD(1))

lemma Check_BatchNormalization_ok: "formable g \<Longrightarrow> all_qdq g dqs \<Longrightarrow> all_qdq g qs \<Longrightarrow> is_ok (Check_BatchNormalization g n clip dqs qs)"
  unfolding Check_BatchNormalization_def by (auto intro!: step_ok dest: counted simp: formableD(1))

lemma Check_LogicalComparison_ok:
  "formable g \<Longrightarrow> all_qdq g dqs \<Longrightarrow> all_qdq g qs \<Longrightarrow> 2 \<le> length (ins g n) \<Longrightarrow> is_ok (Check_LogicalComparison g n clip dqs qs)"
  unfolding Check_LogicalComparison_def by (auto intro!: step_ok dest!: CheckQDQNodesD(1))

lemma Check_TopK_ok:
  "formable g \<Longrightarrow> all_qdq g dqs \<Longrightarrow> all_qdq g qs \<Longrightarrow> None \<notin> set (outs g n) \<Longrightarrow> is_ok (Check_TopK g n clip dqs qs)"
  unfolding Check_TopK_def by (auto intro!: step_ok CanCreateNodeGroup_ok)

lemma Check_CumSum_ok: "formable g \<Longrightarrow> all_qdq g dqs \<Longrightarrow> all_qdq g qs \<Longrightarrow> is_ok (Check_CumSum g n clip dqs qs)"
  unfolding Check_CumSum_def by (auto intro!: step_ok dest: counted simp: formableD(1))

lemma Check_ScatterElements_ok: "formable g \<Longrightarrow> all_qdq g dqs \<Longrightarrow> all_qdq g qs \<Longrightarrow> is_ok (Check_ScatterElements g n clip dqs qs)"
  unfolding Check_ScatterElements_def by (auto intro!: step_ok dest: counted simp: formableD(1))

lemma Check_RMSNormalization_ok: "formable g \<Longrightarrow> all_qdq g dqs \<Longrightarrow> all_qdq g qs \<Longrightarrow> ins g n \<noteq> [] \<Longrightarrow> is_ok (Check_RMSNormalization g n clip dqs qs)"
  unfolding Check_RMSNormalization_def by (auto intro!: step_ok dest: counted simp: formableD(1))

lemma Check_MatMulNBits_ok: "formable g \<Longrightarrow> all_qdq g dqs \<Longrightarrow> all_qdq g qs \<Longrightarrow> is_ok (Check_MatMulNBits g n clip dqs qs)"
  unfolding Check_MatMulNBits_def by (auto intro!: step_ok dest: counted simp: formableD(1))

lemma Check_GRU_ok: "formable g \<Longrightarrow> all_qdq g dqs \<Longrightarrow> all_qdq g qs \<Longrightarrow> is_ok (Check_GRU g n clip dqs qs)"
  unfolding Check_GRU_def IsOutputDataTypeMatchingFirstInput_def
  by (auto intro!: step_ok producer_of_type_ok intro: dq_is_qdq simp: all_qdq_mem)

lemmas Check_ok = Check_DropQDQ_ok Check_DropDQ_ok Check_Unary_ok Check_Clip_ok Check_Binary_ok Check_Variadic_ok Check_Split_ok
  Check_Conv_ok Check_Einsum_ok Check_Reciprocal_ok Check_MatMul_ok Check_Gemm_ok Check_GRU_ok
  Check_InstanceAndLayerNormalization_ok Check_BatchNormalization_ok Check_LogicalComparison_ok Check_Where_ok Check_Pad_ok
  Check_TopK_ok Check_CumSum_ok Check_ScatterElements_ok Check_RMSNormalization_ok Check_MatMulNBits_ok

section \<open>Selecting and forming\<close>

lemma special_selector_ops:
  assumes "map_of (InitializeSelectorsMap CreateSelectors) op = Some (versions, sel)"
  shows "sel = Clip \<Longrightarrow> op = ''Clip''" "sel = TopK \<Longrightarrow> op = ''TopK''"
    "sel = LogicalComparison \<Longrightarrow> op \<in> {''Equal'', ''Greater'', ''GreaterOrEqual'', ''Less'', ''LessOrEqual''}"
proof -
  obtain ops where ops: "(ops, sel) \<in> set CreateSelectors" "op \<in> fst ` set ops" using assms by (rule selector_row)
  show "sel = Clip \<Longrightarrow> op = ''Clip''" "sel = TopK \<Longrightarrow> op = ''TopK''"
    "sel = LogicalComparison \<Longrightarrow> op \<in> {''Equal'', ''Greater'', ''GreaterOrEqual'', ''Less'', ''LessOrEqual''}"
    using ops by (simp_all add: CreateSelectors_def any_version_def)
qed

lemma Check_sel_ok:
  assumes g: "formable g" and qdq: "all_qdq g dqs" "all_qdq g qs"
    and sel: "map_of (InitializeSelectorsMap CreateSelectors) (op_of g n) = Some (versions, sel)"
  shows "is_ok (Check sel g n clip dqs qs)"
proof -
  have "ins g n \<noteq> []" using formableD(3) [OF g, of n] sel by simp
  moreover have "sel = Clip \<Longrightarrow> hd (ins g n) \<noteq> None" "sel = TopK \<Longrightarrow> None \<notin> set (outs g n)"
    "sel = LogicalComparison \<Longrightarrow> 2 \<le> length (ins g n)"
    using special_selector_ops [OF sel] formableD(4-6) [OF g, of n] by blast+
  ultimately show ?thesis using g qdq unfolding Check_def by (cases sel) (simp_all add: Check_ok)
qed

lemma dq_producers_ok: "formable g \<Longrightarrow> is_ok (dq_producers g xs)"
  by (induction xs) (auto intro!: producer_of_type_ok)

lemma quantizers_ok: "formable g \<Longrightarrow> is_ok (quantizers g xs)"
  by (induction xs) (auto simp: formableD(1))

lemma q_consumers_ok: "formable g \<Longrightarrow> is_ok (q_consumers g xs)"
  by (induction xs) (auto intro!: quantizers_ok)

lemma dq_producers_qdq: "dq_producers g xs = Inr dqs \<Longrightarrow> all_qdq g dqs"
  using dq_producers_ops unfolding all_qdq_def is_qdq_def by blast

lemma q_consumers_qdq: "q_consumers g xs = Inr qs \<Longrightarrow> all_qdq g qs"
  using q_consumers_ops unfolding all_qdq_def is_qdq_def by blast

lemma GetOrtQDQSelection_ok:
  assumes "formable g" "map_of (InitializeSelectorsMap CreateSelectors) (op_of g n) = Some (versions, sel)"
  shows "is_ok (GetOrtQDQSelection g n sel)"
  unfolding GetOrtQDQSelection_def Let_def
  using assms
  by (auto intro!: dq_producers_ok forward_extension_ok q_consumers_ok Check_sel_ok intro: dq_producers_qdq q_consumers_qdq)

lemma select_node_ok: "formable g \<Longrightarrow> is_ok (select_node g n)"
  unfolding select_node_def by (auto intro!: GetOrtQDQSelection_ok simp: formableD(1) op_of_eq)

lemma select_nodes_ok: "formable g \<Longrightarrow> is_ok (select_nodes g ns)"
  by (induction ns) (auto intro!: select_node_ok)

lemma GetAllOrtNodeUnits_ok: "formable g \<Longrightarrow> \<exists>holder um. GetAllOrtNodeUnits g = Inr (holder, um)"
proof -
  assume "formable g"
  then have "is_ok (GetAllOrtNodeUnits g)"
    unfolding GetAllOrtNodeUnits_def GetOrtQDQSelections_def by (auto intro!: select_nodes_ok)
  then show ?thesis by (cases "GetAllOrtNodeUnits g") auto
qed

end
