(* ===== verification/Unit_Io.thy ===== *)
theory Unit_Io
  imports Qdq_Total
begin

text \<open>
  The inputs and outputs of a node unit, \<open>ParseOrtValueInfo\<close>, \<open>GetQDQIODefs\<close> and \<open>InitForSingleNode\<close> of \<open>ort_api.cc\<close>.  An
  input that a DQ produces is described by the input of the DQ, an output that a Q consumes by the output of the Q, with
  the scale and zero point of that node.  The QNN graph is put together by these names: the theory shows that a unit reads
  every computed value under the name under which another unit writes it.
\<close>

section \<open>Definitions\<close>

record OrtQuantParam =
  quant_scale :: "valueinfo option"
  quant_zero_point :: "valueinfo option"
  quant_axis :: "int option"
  quant_block_size :: "int option"

record OrtIODef =
  io_name :: string
  io_type :: ONNXTensorElementDataType
  io_shape :: "int list option"
  io_quant_param :: "OrtQuantParam option"

definition no_io :: OrtIODef where
  "no_io = \<lparr>io_name = [], io_type = ONNX_UNDEFINED, io_shape = None, io_quant_param = None\<rparr>"

definition GetInt64 :: "('g) qdq_graph_scheme \<Rightarrow> node \<Rightarrow> string \<Rightarrow> int option" where
  "GetInt64 g n key = (case Node_GetAttributeByName g n key of Some (A_Int v) \<Rightarrow> Some v | _ \<Rightarrow> None)"

definition ParseOrtValueInfo ::
  "('g) qdq_graph_scheme \<Rightarrow> valueinfo \<Rightarrow> OrtQuantParam option \<Rightarrow> OrtIODef result" where
  "ParseOrtValueInfo g io quant_param =
     and_then (GetValueInfoName g io) (\<lambda>name.
     and_then (ValueInfo_TensorInfo g io) (\<lambda>type_shape.
       case type_shape of
         None \<Rightarrow> Inl (Status_Fail ''io is not a tensor.'')
       | Some t \<Rightarrow>
           and_then (tensor_elem_type t) (\<lambda>elem_type.
           and_then (if tensor_has_shape t then and_then (tensor_dims t) (\<lambda>d. Inr (Some d)) else Inr None) (\<lambda>shape.
             Inr \<lparr>io_name = name, io_type = elem_type, io_shape = shape, io_quant_param = quant_param\<rparr>))))"

definition parse_or_none :: "('g) qdq_graph_scheme \<Rightarrow> valueinfo option \<Rightarrow> OrtQuantParam option \<Rightarrow> OrtIODef" where
  "parse_or_none g p quant_param =
     (case p of None \<Rightarrow> no_io | Some io \<Rightarrow> on_fail (ParseOrtValueInfo g io quant_param) no_io (\<lambda>d. d))"

definition quant_param_of :: "('g) qdq_graph_scheme \<Rightarrow> node \<Rightarrow> valueinfo option list \<Rightarrow> OrtQuantParam result" where
  "quant_param_of g n node_inputs =
     and_then (vec_at node_inputs 1) (\<lambda>scale.
       Inr \<lparr>quant_scale = scale, quant_zero_point = (if length node_inputs = 3 then node_inputs ! 2 else None),
            quant_axis = GetInt64 g n ''axis'', quant_block_size = GetInt64 g n ''block_size''\<rparr>)"

text \<open>The DQ or Q next to an input or output of the operator.\<close>

definition neighbour :: "('g) qdq_graph_scheme \<Rightarrow> bool \<Rightarrow> valueinfo \<Rightarrow> node option" where
  "neighbour g is_input io =
     (if is_input then on_fail (ValueInfo_GetValueProducer g io) None (\<lambda>p. p)
      else on_fail (ValueInfo_GetValueConsumers g io) None (\<lambda>consumers. case consumers of [n] \<Rightarrow> Some n | _ \<Rightarrow> None))"

definition quantized_io_def ::
  "('g) qdq_graph_scheme \<Rightarrow> bool \<Rightarrow> node list \<Rightarrow> valueinfo \<Rightarrow> OrtIODef option result" where
  "quantized_io_def g is_input dq_or_q_nodes io =
     (case neighbour g is_input io of
        None \<Rightarrow> Inr None
      | Some n \<Rightarrow>
          (if n \<notin> set dq_or_q_nodes then Inr None
           else on_fail (Node_GetInputs g n) (Inr None) (\<lambda>node_inputs.
             and_then (quant_param_of g n node_inputs) (\<lambda>quant_param.
               on_fail (if is_input then Inr node_inputs else Node_GetOutputs g n) (Inr None) (\<lambda>ios.
                 and_then (vec_at ios 0) (\<lambda>p. and_then (nonnull p) (\<lambda>v.
                   Inr (on_fail (ParseOrtValueInfo g v (Some quant_param)) None Some))))))))"

definition io_def ::
  "('g) qdq_graph_scheme \<Rightarrow> bool \<Rightarrow> node list \<Rightarrow> valueinfo option \<Rightarrow> OrtIODef result" where
  "io_def g is_input dq_or_q_nodes p =
     (case p of
        None \<Rightarrow> Inr no_io
      | Some io \<Rightarrow>
          and_then (quantized_io_def g is_input dq_or_q_nodes io) (\<lambda>q.
            Inr (case q of Some d \<Rightarrow> d | None \<Rightarrow> parse_or_none g p None)))"

definition GetQDQIODefs :: "('g) qdq_graph_scheme \<Rightarrow> node \<Rightarrow> bool \<Rightarrow> node list \<Rightarrow> OrtIODef list result" where
  "GetQDQIODefs g n is_input dq_or_q_nodes =
     on_fail (if is_input then Node_GetInputs g n else Node_GetOutputs g n) (Inr [])
       (\<lambda>ios. traverse (io_def g is_input dq_or_q_nodes) ios)"

definition lone_io :: "('g) qdq_graph_scheme \<Rightarrow> valueinfo option list \<Rightarrow> OrtQuantParam option \<Rightarrow> OrtIODef list result" where
  "lone_io g ios quant_param =
     and_then (vec_at ios 0) (\<lambda>p. and_then (nonnull p) (\<lambda>v. Inr [parse_or_none g (Some v) quant_param]))"

definition InitForSingleNode :: "('g) qdq_graph_scheme \<Rightarrow> node \<Rightarrow> (OrtIODef list \<times> OrtIODef list) result" where
  "InitForSingleNode g n =
     on_fail (Node_GetInputs g n) (Inr ([], [])) (\<lambda>inputs_data.
     on_fail (Node_GetOutputs g n) (Inr ([], [])) (\<lambda>outputs_data.
     on_fail (Node_GetOperatorType g n) (Inr ([], [])) (\<lambda>op_type.
       if op_type = ''DequantizeLinear'' \<or> op_type = ''QuantizeLinear''
       then and_then (quant_param_of g n inputs_data) (\<lambda>quant_param.
            and_then (lone_io g inputs_data (if op_type = ''DequantizeLinear'' then Some quant_param else None)) (\<lambda>ins.
            and_then (lone_io g outputs_data (if op_type = ''DequantizeLinear'' then None else Some quant_param)) (\<lambda>outs.
              Inr (ins, outs))))
       else Inr (map (\<lambda>p. parse_or_none g p None) inputs_data, map (\<lambda>p. parse_or_none g p None) outputs_data))))"

definition unit_io :: "('g) qdq_graph_scheme \<Rightarrow> OrtNodeUnit \<Rightarrow> (OrtIODef list \<times> OrtIODef list) result" where
  "unit_io g u =
     (if unit_type u = SingleNode then InitForSingleNode g (target_node u)
      else and_then (GetQDQIODefs g (target_node u) True (dq_nodes u)) (\<lambda>inputs.
           and_then (GetQDQIODefs g (output_producer u) False (q_nodes u)) (\<lambda>outputs. Inr (inputs, outputs))))"

section \<open>What an input or output describes\<close>

text \<open>
  What the names rely on.  Every value of a node is a tensor whose description can be read, and a Q or DQ has one output.  A
  value that a Q reads is read by nothing else when it is one of several outputs, or an output of an operator that keeps
  float outputs; for the other operators the selectors make sure of it.
\<close>

definition keeps_floats :: "string \<Rightarrow> bool" where
  "keeps_floats op \<longleftrightarrow> op \<in> {''ArgMax'', ''ArgMin'', ''NonZero'', ''TopK''}"

definition io_contract :: "('g) qdq_graph_scheme \<Rightarrow> node list \<Rightarrow> bool" where
  "io_contract g ns \<longleftrightarrow>
     (\<forall>n \<in> set ns.
        (\<forall>v. Some v \<in> set (ins g n) \<union> set (outs g n) \<longrightarrow> is_ok (ParseOrtValueInfo g v None))
        \<and> (op_of g n \<in> {''QuantizeLinear'', ''DequantizeLinear''} \<longrightarrow> length (outs g n) = 1)
        \<and> (length (outs g n) \<noteq> 1 \<or> keeps_floats (op_of g n) \<longrightarrow>
             (\<forall>v q. Some v \<in> set (outs g n) \<longrightarrow> q \<in> set (consumers_of g v) \<longrightarrow> op_of g q = ''QuantizeLinear'' \<longrightarrow>
                consumers_of g v = [q])))"

lemma io_contractD:
  assumes "io_contract g ns" "n \<in> set ns"
  shows "Some v \<in> set (ins g n) \<union> set (outs g n) \<Longrightarrow> is_ok (ParseOrtValueInfo g v None)"
    "op_of g n \<in> {''QuantizeLinear'', ''DequantizeLinear''} \<Longrightarrow> length (outs g n) = 1"
    "length (outs g n) \<noteq> 1 \<or> keeps_floats (op_of g n) \<Longrightarrow> Some v \<in> set (outs g n) \<Longrightarrow> q \<in> set (consumers_of g v) \<Longrightarrow>
       op_of g q = ''QuantizeLinear'' \<Longrightarrow> consumers_of g v = [q]"
  using assms unfolding io_contract_def by blast+

lemma Parse_quant: "ParseOrtValueInfo g v None = Inr d \<Longrightarrow> ParseOrtValueInfo g v qp = Inr (d\<lparr>io_quant_param := qp\<rparr>)"
  by (cases "GetValueInfoName g v"; cases "ValueInfo_TensorInfo g v")
    (auto simp: ParseOrtValueInfo_def and_then_eq_Inr_iff split: option.splits)

lemma Parse_ok:
  assumes "is_ok (ParseOrtValueInfo g v None)"
  obtains d where "ParseOrtValueInfo g v qp = Inr d"
  using assms Parse_quant [of g v] that by (cases "ParseOrtValueInfo g v None") (simp, blast)

text \<open>The quantization of a Q or DQ.\<close>

definition quant_of :: "('g) qdq_graph_scheme \<Rightarrow> node \<Rightarrow> OrtQuantParam" where
  "quant_of g n = \<lparr>quant_scale = ins g n ! 1, quant_zero_point = (if length (ins g n) = 3 then ins g n ! 2 else None),
     quant_axis = GetInt64 g n ''axis'', quant_block_size = GetInt64 g n ''block_size''\<rparr>"

lemma quant_param_of_eq: "2 \<le> length (ins g n) \<Longrightarrow> quant_param_of g n (ins g n) = Inr (quant_of g n)"
  by (simp add: quant_param_of_def quant_of_def vec_at_def)

lemma qdq_values:
  assumes "formable g" "graph_ok g ns" "n \<in> set ns" "op_of g n \<in> {''QuantizeLinear'', ''DequantizeLinear''}"
  obtains x y where "2 \<le> length (ins g n)" "ins g n ! 0 = Some x" "Some x \<in> set (ins g n)" "outs g n \<noteq> []" "outs g n ! 0 = Some y"
    "Some y \<in> set (outs g n)"
proof -
  have n: "2 \<le> length (ins g n)" "None \<notin> set (ins g n)" "outs g n \<noteq> []" "hd (outs g n) \<noteq> None"
    using formableD(2) [OF assms(1), of n] graph_node(3) [OF assms(2,3)] assms(4) by auto
  have 0: "0 < length (ins g n)" using n(1) by linarith
  obtain x where x: "ins g n ! 0 = Some x" using nth_mem [OF 0] n(2) by (metis not_None_eq)
  obtain y where y: "outs g n ! 0 = Some y" using n(3,4) by (auto simp: hd_conv_nth)
  show thesis using that [OF n(1) x _ n(3) y] nth_mem [OF 0] x n(3) y by (metis length_greater_0_conv nth_mem)
qed

text \<open>An input of the operator: what the DQ in front of it reads, or the value itself.\<close>

lemma io_def_input:
  assumes f: "formable g" and g: "graph_ok g ns" and io: "io_contract g ns" and n: "n \<in> set ns" "Some v \<in> set (ins g n)"
    and dqs: "\<forall>d \<in> set dqs. op_of g d = ''DequantizeLinear''"
  obtains d x e where "ValueInfo_GetValueProducer g v = Inr (Some d)" "d \<in> set dqs" "d \<in> set ns" "ins g d ! 0 = Some x" "Some x \<in> set (ins g d)"
      "ParseOrtValueInfo g x (Some (quant_of g d)) = Inr e" "io_def g True dqs (Some v) = Inr e"
  | e where "\<forall>d \<in> set dqs. ValueInfo_GetValueProducer g v \<noteq> Inr (Some d)"
      "ParseOrtValueInfo g v None = Inr e" "io_def g True dqs (Some v) = Inr e"
proof (cases "\<exists>d \<in> set dqs. ValueInfo_GetValueProducer g v = Inr (Some d)")
  case True
  then obtain d where d: "d \<in> set dqs" "ValueInfo_GetValueProducer g v = Inr (Some d)" by blast
  have ns: "d \<in> set ns" using graph_producer(1) [OF g n d(2)] .
  have "op_of g d \<in> {''QuantizeLinear'', ''DequantizeLinear''}" using dqs d(1) by simp
  with f g ns obtain x where x: "2 \<le> length (ins g d)" "ins g d ! 0 = Some x" "Some x \<in> set (ins g d)"
    by (rule qdq_values)
  have "is_ok (ParseOrtValueInfo g x None)" using io_contractD(1) [OF io ns] x(3) by blast
  then obtain e where e: "ParseOrtValueInfo g x (Some (quant_of g d)) = Inr e" by (rule Parse_ok)
  have "0 < length (ins g d)" using x(1) by linarith
  then have "io_def g True dqs (Some v) = Inr e"
    using d graph_node(1) [OF g ns] quant_param_of_eq [OF x(1)] x(2) e
    by (simp add: io_def_def quantized_io_def_def neighbour_def vec_at_def nonnull_def)
  then show thesis using that(1) [OF d(2,1) ns x(2,3) e] by blast
next
  case False
  have "is_ok (ParseOrtValueInfo g v None)" using io_contractD(1) [OF io n(1)] n(2) by blast
  then obtain e where e: "ParseOrtValueInfo g v None = Inr e" by (rule Parse_ok)
  have "quantized_io_def g True dqs v = Inr None"
    using False by (cases "ValueInfo_GetValueProducer g v") (auto simp: quantized_io_def_def neighbour_def split: option.splits)
  then have "io_def g True dqs (Some v) = Inr e" by (simp add: io_def_def parse_or_none_def e)
  then show thesis using that(2) False e by blast
qed

text \<open>An output of the last node in front of the Qs: what the Q behind it writes, or the value itself.\<close>

lemma io_def_output:
  assumes f: "formable g" and g: "graph_ok g ns" and io: "io_contract g ns" and n: "n \<in> set ns" "Some v \<in> set (outs g n)"
    and qs: "\<forall>q \<in> set qs. op_of g q = ''QuantizeLinear''"
  obtains q y e where "consumers_of g v = [q]" "q \<in> set qs" "q \<in> set ns" "outs g q ! 0 = Some y" "Some y \<in> set (outs g q)"
      "ParseOrtValueInfo g y (Some (quant_of g q)) = Inr e" "io_def g False qs (Some v) = Inr e"
  | e where "\<forall>q \<in> set qs. consumers_of g v \<noteq> [q]" "ParseOrtValueInfo g v None = Inr e" "io_def g False qs (Some v) = Inr e"
proof (cases "\<exists>q \<in> set qs. consumers_of g v = [q]")
  case True
  then obtain q where q: "q \<in> set qs" "consumers_of g v = [q]" by blast
  have ns: "q \<in> set ns" using graph_output(4) [OF g n, of q] q(2) by simp
  have "op_of g q \<in> {''QuantizeLinear'', ''DequantizeLinear''}" using qs q(1) by simp
  with f g ns obtain y where y: "2 \<le> length (ins g q)" "outs g q \<noteq> []" "outs g q ! 0 = Some y" "Some y \<in> set (outs g q)"
    by (rule qdq_values)
  have "is_ok (ParseOrtValueInfo g y None)" using io_contractD(1) [OF io ns] y(4) by blast
  then obtain e where e: "ParseOrtValueInfo g y (Some (quant_of g q)) = Inr e" by (rule Parse_ok)
  have "io_def g False qs (Some v) = Inr e"
    using q graph_node(1,2) [OF g ns] graph_output(2) [OF g n] quant_param_of_eq [OF y(1)] y(2,3) e
    by (simp add: io_def_def quantized_io_def_def neighbour_def vec_at_def nonnull_def)
  then show thesis using that(1) [OF q(2,1) ns y(3,4) e] by blast
next
  case False
  have "is_ok (ParseOrtValueInfo g v None)" using io_contractD(1) [OF io n(1)] n(2) by blast
  then obtain e where e: "ParseOrtValueInfo g v None = Inr e" by (rule Parse_ok)
  have "quantized_io_def g False qs v = Inr None"
    using False graph_output(2) [OF g n] by (auto simp: quantized_io_def_def neighbour_def split: option.splits list.splits)
  then have "io_def g False qs (Some v) = Inr e" by (simp add: io_def_def parse_or_none_def e)
  then show thesis using that(2) False e by blast
qed

section \<open>The inputs and outputs of a unit\<close>

text \<open>The output of a unit that a Q of the unit writes: the value the Q reads has no other reader.\<close>

lemma quantized_alone:
  assumes c: "unit_contract g ns" and io: "io_contract g ns" and u: "GetAllOrtNodeUnits g = Inr (holder, um)" "u \<in> set holder"
    and q: "q \<in> set (q_nodes u)" and v: "Some v \<in> set (outs g (output_producer u))" "q \<in> set (consumers_of g v)"
  shows "consumers_of g v = [q]"
  using unit_contractD(1) [OF c] u
proof (cases rule: unit_origin)
  case (1 n)
  then show ?thesis using q by simp
next
  case (2 grp versions sel)
  note g = unit_contractD(1) [OF c]
  have f: "forward_extension g (group_target_node grp) (length (outs g (group_target_node grp)))
      = Inr (group_redundant_clip_node grp, group_output_reshape_node grp)"
    and ch: "Check sel g (group_target_node grp) (group_redundant_clip_node grp) (group_dq_nodes grp) (group_q_nodes grp) = Inr True"
    using 2(4) by (simp_all add: selected_def)
  have v': "Some v \<in> set (outs g (anchor grp))" using v(1) by (simp add: 2(1) output_producer_anchor)
  have sole: "consumers_of g v = [q]" if "sole_consumer_of_node g (anchor grp) = Some r" for r
    using that v' v(2) by (auto elim!: sole_consumer simp: outs_def consumers_of_simps)
  have op: "op_of g q = ''QuantizeLinear''" using unit_shapeD(7) [OF unit_shape_holder [OF c u] q] by simp
  from f show ?thesis
  proof (cases rule: forward_extension_cases)
    case 1
    have a: "anchor grp = group_target_node grp" by (simp add: anchor_def 1)
    show ?thesis
    proof (cases "length (outs g (group_target_node grp)) \<noteq> 1 \<or> keeps_floats (op_of g (group_target_node grp))")
      case True
      then show ?thesis using io_contractD(3) [OF io 2(2) True] v' v(2) op unfolding a by blast
    next
      case False
      then have outs: "outs g (group_target_node grp) = [Some v]" using v' unfolding a by (auto simp: length_Suc_conv)
      have "\<not> keeps_float_outputs sel" using float_output_ops [OF 2(3)] False by (auto simp: keeps_floats_def)
      moreover have "group_q_nodes grp \<noteq> []" using q by (auto simp: 2(1))
      ultimately obtain k b where "CheckQDQNodes g (group_target_node grp) (group_dq_nodes grp) (group_q_nodes grp) k b"
        using Check_uses_CheckQDQNodes [OF ch] by blast
      from CheckQDQNodes_counts(1,2) [OF g 2(2) \<open>group_q_nodes grp \<noteq> []\<close> this] have "length (consumers_of g v) = 1"
        by (simp add: outs map_filter_simps)
      then show ?thesis using v(2) by (auto simp: length_Suc_conv)
    qed
  next
    case (2 a r)
    have "sole_consumer_of_node g (anchor grp) = Some r" using activation_sole [OF 2(4)] by (simp add: anchor_simps(1) [OF 2(2)])
    then show ?thesis by (rule sole)
  next
    case (3 rn r)
    have "sole_consumer_of_node g (anchor grp) = Some r" using 3(6) by (simp add: anchor_simps(2) [OF 3(2,1)])
    then show ?thesis by (rule sole)
  next
    case (4 rn a r)
    have "sole_consumer_of_node g (anchor grp) = Some r" using activation_sole [OF 4(7)] by (simp add: anchor_simps(1) [OF 4(2)])
    then show ?thesis by (rule sole)
  qed
qed

lemma io_defs_ok:
  assumes f: "formable g" and g: "graph_ok g ns" and io: "io_contract g ns" and n: "n \<in> set ns"
  shows "\<forall>d \<in> set dqs. op_of g d = ''DequantizeLinear'' \<Longrightarrow>
      \<exists>es. GetQDQIODefs g n True dqs = Inr es \<and> length es = length (ins g n) \<and> (\<forall>i < length es. io_def g True dqs (ins g n ! i) = Inr (es ! i))"
    "\<forall>q \<in> set qs. op_of g q = ''QuantizeLinear'' \<Longrightarrow>
      \<exists>es. GetQDQIODefs g n False qs = Inr es \<and> length es = length (outs g n) \<and> (\<forall>i < length es. io_def g False qs (outs g n ! i) = Inr (es ! i))"
proof -
  have traverse: "\<exists>es. traverse h ps = Inr es \<and> length es = length ps \<and> (\<forall>i < length es. h (ps ! i) = Inr (es ! i))"
    if "\<forall>p \<in> set ps. is_ok (h p)" for h and ps :: "valueinfo option list"
  proof -
    have "\<exists>es. traverse h ps = Inr es" using that by (induction ps) (auto dest!: on_fail_ok)
    then obtain es where es: "traverse h ps = Inr es" by (elim exE)
    show ?thesis using es es [unfolded traverse_eq_Inr_iff] by (intro exI [of _ es]) simp
  qed
  have none: "is_ok (io_def g b qs None)" for b qs by (simp add: io_def_def)
  show "\<exists>es. GetQDQIODefs g n True dqs = Inr es \<and> length es = length (ins g n) \<and> (\<forall>i < length es. io_def g True dqs (ins g n ! i) = Inr (es ! i))"
    if dq: "\<forall>d \<in> set dqs. op_of g d = ''DequantizeLinear''"
  proof -
    have "is_ok (io_def g True dqs p)" if p: "p \<in> set (ins g n)" for p
    proof (cases p)
      case (Some v)
      then have "Some v \<in> set (ins g n)" using p by simp
      from f g io n this dq show ?thesis unfolding Some by (rule io_def_input) simp_all
    qed (simp add: none)
    then show ?thesis using traverse [of "ins g n" "io_def g True dqs"] graph_node(1) [OF g n] by (simp add: GetQDQIODefs_def)
  qed
  show "\<exists>es. GetQDQIODefs g n False qs = Inr es \<and> length es = length (outs g n) \<and> (\<forall>i < length es. io_def g False qs (outs g n ! i) = Inr (es ! i))"
    if q: "\<forall>q \<in> set qs. op_of g q = ''QuantizeLinear''"
  proof -
    have "is_ok (io_def g False qs p)" if p: "p \<in> set (outs g n)" for p
    proof (cases p)
      case (Some v)
      then have "Some v \<in> set (outs g n)" using p by simp
      from f g io n this q show ?thesis unfolding Some by (rule io_def_output) simp_all
    qed (simp add: none)
    then show ?thesis using traverse [of "outs g n" "io_def g False qs"] graph_node(2) [OF g n] by (simp add: GetQDQIODefs_def)
  qed
qed

definition describes :: "('g) qdq_graph_scheme \<Rightarrow> OrtIODef \<Rightarrow> valueinfo \<Rightarrow> bool" where
  "describes g d v \<longleftrightarrow> ParseOrtValueInfo g v (io_quant_param d) = Inr d"

lemma Parse_param: "ParseOrtValueInfo g v qp = Inr d \<Longrightarrow> io_quant_param d = qp"
  by (auto simp: ParseOrtValueInfo_def and_then_eq_Inr_iff split: option.splits)

lemma describesI [intro]: "ParseOrtValueInfo g v qp = Inr d \<Longrightarrow> describes g d v"
  using Parse_param [of g v qp d] by (simp add: describes_def)

lemma single_unit_io:
  assumes f: "formable g" and g: "graph_ok g ns" and io: "io_contract g ns" and n: "n \<in> set ns"
  shows "\<exists>es os. unit_io g (single_unit n) = Inr (es, os)
    \<and> (\<forall>d \<in> set es. d = no_io \<or> (\<exists>v. Some v \<in> set (ins g n) \<and> describes g d v))
    \<and> (\<forall>v. Some v \<in> set (outs g n) \<longrightarrow> (\<exists>d \<in> set os. describes g d v))"
proof -
  have parse: "\<exists>d. ParseOrtValueInfo g v qp = Inr d" if "Some v \<in> set (ins g n) \<union> set (outs g n)" for v qp
    using io_contractD(1) [OF io n that] by (rule Parse_ok) blast
  note ok = graph_node [OF g n]
  show ?thesis
  proof (cases "op_of g n \<in> {''QuantizeLinear'', ''DequantizeLinear''}")
    case True
    from f g n True obtain x y where x: "2 \<le> length (ins g n)" "ins g n ! 0 = Some x" "Some x \<in> set (ins g n)"
      and y: "outs g n \<noteq> []" "outs g n ! 0 = Some y" "Some y \<in> set (outs g n)"
      by (rule qdq_values)
    have outs: "outs g n = [Some y]" using io_contractD(2) [OF io n True] y(2) by (auto simp: length_Suc_conv)
    define qi qo where "qi = (if op_of g n = ''DequantizeLinear'' then Some (quant_of g n) else None)"
      and "qo = (if op_of g n = ''DequantizeLinear'' then None else Some (quant_of g n))"
    obtain a b where ab: "ParseOrtValueInfo g x qi = Inr a" "ParseOrtValueInfo g y qo = Inr b" using parse x(3) y(3) by blast
    have "0 < length (ins g n)" using x(1) by linarith
    then have "lone_io g (ins g n) qi = Inr [a]" "lone_io g (outs g n) qo = Inr [b]"
      using x(2) ab by (simp_all add: lone_io_def parse_or_none_def vec_at_def nonnull_def outs)
    then have "unit_io g (single_unit n) = Inr ([a], [b])"
      using True ok quant_param_of_eq [OF x(1)] by (auto simp: unit_io_def InitForSingleNode_def qi_def qo_def)
    moreover have "describes g a x" "describes g b y" using ab by blast+
    ultimately show ?thesis using x(3) by (auto simp: outs)
  next
    case False
    have p: "parse_or_none g p None = no_io \<and> p = None \<or> (\<exists>v. p = Some v \<and> describes g (parse_or_none g p None) v)"
      if m: "p \<in> set (ins g n) \<union> set (outs g n)" for p
    proof (cases p)
      case (Some v)
      then obtain d where d: "ParseOrtValueInfo g v None = Inr d" using parse [of v None] m by blast
      then show ?thesis using Some describesI [OF d] by (simp add: parse_or_none_def)
    qed (simp add: parse_or_none_def)
    have "unit_io g (single_unit n) = Inr (map (\<lambda>p. parse_or_none g p None) (ins g n), map (\<lambda>p. parse_or_none g p None) (outs g n))"
      using False ok by (auto simp: unit_io_def InitForSingleNode_def)
    moreover have "d = no_io \<or> (\<exists>v. Some v \<in> set (ins g n) \<and> describes g d v)"
      if "d \<in> set (map (\<lambda>p. parse_or_none g p None) (ins g n))" for d using that p by force
    moreover have "\<exists>d \<in> set (map (\<lambda>p. parse_or_none g p None) (outs g n)). describes g d v" if "Some v \<in> set (outs g n)" for v
      using that p [of "Some v"] by force
    ultimately show ?thesis by blast
  qed
qed

text \<open>The inputs and outputs of a quantized unit, one for every input of its operator and output of its last node.\<close>

lemma group_unit_io:
  assumes f: "formable g" and g: "graph_ok g ns" and io: "io_contract g ns" and s: "unit_shape g ns u" and t: "unit_type u = QDQGroup"
  obtains es os where "unit_io g u = Inr (es, os)"
    "length es = length (ins g (target_node u))"
    "\<And>i. i < length es \<Longrightarrow> io_def g True (dq_nodes u) (ins g (target_node u) ! i) = Inr (es ! i)"
    "length os = length (outs g (output_producer u))"
    "\<And>i. i < length os \<Longrightarrow> io_def g False (q_nodes u) (outs g (output_producer u) ! i) = Inr (os ! i)"
proof -
  obtain es where es: "GetQDQIODefs g (target_node u) True (dq_nodes u) = Inr es" "length es = length (ins g (target_node u))"
    "\<forall>i < length es. io_def g True (dq_nodes u) (ins g (target_node u) ! i) = Inr (es ! i)"
    using io_defs_ok(1) [OF f g io unit_shapeD(1) [OF s], of "dq_nodes u"] unit_shapeD(4) [OF s] by (elim exE conjE meta_impE) auto
  obtain os where os: "GetQDQIODefs g (output_producer u) False (q_nodes u) = Inr os" "length os = length (outs g (output_producer u))"
    "\<forall>i < length os. io_def g False (q_nodes u) (outs g (output_producer u) ! i) = Inr (os ! i)"
    using io_defs_ok(2) [OF f g io chain_in_graph(2) [OF s], of "q_nodes u"] unit_shapeD(7) [OF s] by (elim exE conjE meta_impE) auto
  have "unit_io g u = Inr (es, os)" using es(1) os(1) t by (simp add: unit_io_def)
  then show thesis using that es(2,3) os(2,3) by blast
qed

section \<open>The units are connected by name\<close>

lemma unit_kind:
  assumes "graph_ok g ns" "GetAllOrtNodeUnits g = Inr (holder, um)" "u \<in> set holder"
  obtains n where "n \<in> set ns" "u = single_unit n" | "unit_type u = QDQGroup"
  using assms(1-3) by (cases rule: unit_origin) (use that in auto)

text \<open>What a unit reads: an input of its operator that none of its DQs makes, or the input of a DQ.\<close>

lemma unit_reads:
  assumes c: "unit_contract g ns" and f: "formable g" and io: "io_contract g ns"
    and u: "GetAllOrtNodeUnits g = Inr (holder, um)" "u \<in> set holder"
  shows "\<exists>es os. unit_io g u = Inr (es, os) \<and> (\<forall>d \<in> set es. d = no_io \<or> (\<exists>v n. describes g d v \<and> n \<in> set ns \<and> Some v \<in> set (ins g n)
    \<and> (n \<in> set (dq_nodes u) \<or> n = target_node u \<and> (\<forall>d \<in> set (dq_nodes u). ValueInfo_GetValueProducer g v \<noteq> Inr (Some d)))))"
  using unit_contractD(1) [OF c] u
proof (cases rule: unit_kind)
  case (1 n)
  obtain es os where "unit_io g u = Inr (es, os)"
    "\<forall>d \<in> set es. d = no_io \<or> (\<exists>v. Some v \<in> set (ins g n) \<and> describes g d v)"
    using single_unit_io [OF f unit_contractD(1) [OF c] io 1(1)] unfolding 1(2) by blast
  then show ?thesis using 1 by (auto simp del: not_None_eq)
next
  case 2
  note g = unit_contractD(1) [OF c] and s = unit_shape_holder [OF c u]
  from f g io s 2 obtain es os where es: "unit_io g u = Inr (es, os)" "length es = length (ins g (target_node u))"
    "\<And>i. i < length es \<Longrightarrow> io_def g True (dq_nodes u) (ins g (target_node u) ! i) = Inr (es ! i)"
    by (rule group_unit_io) blast
  have dqs: "\<forall>d \<in> set (dq_nodes u). op_of g d = ''DequantizeLinear''" using unit_shapeD(4) [OF s] by blast
  have "d = no_io \<or> (\<exists>v n. describes g d v \<and> n \<in> set ns \<and> Some v \<in> set (ins g n)
    \<and> (n \<in> set (dq_nodes u) \<or> n = target_node u \<and> (\<forall>d \<in> set (dq_nodes u). ValueInfo_GetValueProducer g v \<noteq> Inr (Some d))))"
    if d: "d \<in> set es" for d
  proof -
    obtain i where i: "i < length es" "d = es ! i" using d by (auto simp: in_set_conv_nth)
    show ?thesis
    proof (cases "ins g (target_node u) ! i")
      case None
      then show ?thesis using es(3) [OF i(1)] i(2) by (simp add: io_def_def)
    next
      case (Some v)
      then have v: "Some v \<in> set (ins g (target_node u))" using i(1) es(2) by (metis nth_mem)
      have d: "io_def g True (dq_nodes u) (Some v) = Inr d" using es(3) [OF i(1)] i(2) Some by simp
      from f g io unit_shapeD(1) [OF s] v dqs show ?thesis
      proof (cases rule: io_def_input)
        case (1 dq x e)
        then have "describes g d x" using d by auto
        then show ?thesis using 1(2,3,5) by blast
      next
        case (2 e)
        then have "describes g d v" using d by auto
        then show ?thesis using 2(1) v unit_shapeD(1) [OF s] by blast
      qed
    qed
  qed
  then show ?thesis using es(1) by blast
qed

text \<open>What a unit writes: every value of its nodes that a node outside the unit reads.\<close>

lemma producer_of_unit:
  assumes s: "unit_shape g ns u" and p: "p \<in> set (GetAllNodesInGroup u)" "p \<notin> set (dq_nodes u)"
    and r: "r \<in> set (users g p)" "r \<in> satellites u \<longrightarrow> op_of g r = ''DequantizeLinear''"
  shows "p = output_producer u \<or> p \<in> set (q_nodes u)"
proof -
  have no_reshape: "output_reshape_node u \<noteq> Some r" and no_clip: "redundant_clip_node u \<noteq> Some r"
    using r(2) unit_shapeD(5,6) [OF s, of r] by (auto simp: satellites_def)
  consider "p = target_node u" | "output_reshape_node u = Some p" | "redundant_clip_node u = Some p" | "p \<in> set (q_nodes u)"
    using p unfolding nodes_satellites satellites_def by auto
  then show ?thesis
  proof cases
    case 1
    have a: "output_reshape_node u = None"
    proof (cases "output_reshape_node u")
      case (Some m)
      then show ?thesis using unit_shapeD(5) [OF s Some] r(1) no_reshape 1 by simp
    qed
    have "redundant_clip_node u = None"
    proof (cases "redundant_clip_node u")
      case (Some m)
      then show ?thesis using unit_shapeD(6) [OF s Some] r(1) no_clip 1 by (simp add: before_clip_def a)
    qed
    then show ?thesis using a 1 by (simp add: output_producer_def)
  next
    case 2
    have "redundant_clip_node u = None"
    proof (cases "redundant_clip_node u")
      case (Some m)
      then show ?thesis using unit_shapeD(6) [OF s Some] r(1) no_clip by (simp add: before_clip_def 2)
    qed
    then show ?thesis using 2 by (simp add: output_producer_def)
  qed (simp_all add: output_producer_def)
qed

lemma unit_writes:
  assumes c: "unit_contract g ns" and f: "formable g" and io: "io_contract g ns"
    and u: "GetAllOrtNodeUnits g = Inr (holder, um)" "u \<in> set holder"
    and p: "p \<in> set (GetAllNodesInGroup u)" "p \<notin> set (dq_nodes u)" and w: "Some w \<in> set (outs g p)"
    and r: "r \<in> set (consumers_of g w)" "r \<in> satellites u \<longrightarrow> op_of g r = ''DequantizeLinear''"
  shows "\<exists>es os. unit_io g u = Inr (es, os) \<and> (\<exists>d \<in> set os. describes g d w)"
  using unit_contractD(1) [OF c] u
proof (cases rule: unit_kind)
  case (1 n)
  then have "n = p" using p(1) by simp
  then show ?thesis using single_unit_io [OF f unit_contractD(1) [OF c] io 1(1)] w unfolding 1(2) by blast
next
  case 2
  note g = unit_contractD(1) [OF c] and s = unit_shape_holder [OF c u]
  from f g io s 2 obtain es os where io_u: "unit_io g u = Inr (es, os)" "length os = length (outs g (output_producer u))"
    "\<And>i. i < length os \<Longrightarrow> io_def g False (q_nodes u) (outs g (output_producer u) ! i) = Inr (os ! i)"
    by (rule group_unit_io) blast
  have qs: "\<forall>q \<in> set (q_nodes u). op_of g q = ''QuantizeLinear''" using unit_shapeD(7) [OF s] by blast
  have entry: "\<exists>d \<in> set os. io_def g False (q_nodes u) (Some v) = Inr d" if "Some v \<in> set (outs g (output_producer u))" for v
    using that io_u(2,3) by (metis in_set_conv_nth)
  have "r \<in> set (users g p)" using w r(1) by (auto simp: set_users)
  from producer_of_unit [OF s p this r(2)] show ?thesis
  proof
    assume p: "p = output_producer u"
    then have w': "Some w \<in> set (outs g (output_producer u))" using w by simp
    obtain d where d: "d \<in> set os" "io_def g False (q_nodes u) (Some w) = Inr d" using entry [OF w'] by blast
    from f g io chain_in_graph(2) [OF s] w' qs show ?thesis
    proof (cases rule: io_def_output)
      case (1 q y e)
      then have "r = q" using r(1) by simp
      then have "op_of g r = ''QuantizeLinear''" "r \<in> satellites u" using 1(2) qs by (simp_all add: satellites_def)
      then show ?thesis using r(2) by simp
    next
      case (2 e)
      then have "describes g d w" using d(2) by auto
      then show ?thesis using io_u(1) d(1) by blast
    qed
  next
    assume q: "p \<in> set (q_nodes u)"
    then obtain v where v: "Some v \<in> set (outs g (output_producer u))" "p \<in> set (consumers_of g v)"
      using unit_shapeD(7) [OF s q] by (auto simp: set_users)
    have alone: "consumers_of g v = [p]" by (rule quantized_alone [OF c io u q v])
    obtain d where d: "d \<in> set os" "io_def g False (q_nodes u) (Some v) = Inr d" using entry [OF v(1)] by blast
    from f g io chain_in_graph(2) [OF s] v(1) qs show ?thesis
    proof (cases rule: io_def_output)
      case (1 q' y e)
      then have q': "q' = p" using alone by simp
      have "length (outs g p) = 1" using io_contractD(2) [OF io 1(3)] qs q q' by simp
      then have "y = w" using 1(4) w q' by (auto simp: length_Suc_conv)
      then have "describes g d w" using 1(6,7) d(2) by auto
      then show ?thesis using io_u(1) d(1) by blast
    next
      case (2 e)
      then show ?thesis using alone q by blast
    qed
  qed
qed

lemma units_connected:
  assumes c: "unit_contract g ns" and f: "formable g" and io: "io_contract g ns"
    and u: "GetAllOrtNodeUnits g = Inr (holder, um)" "u \<in> set holder"
  shows "\<exists>es os. unit_io g u = Inr (es, os) \<and> (\<forall>d \<in> set es. d = no_io \<or> (\<exists>v. describes g d v \<and>
    (ValueInfo_GetValueProducer g v = Inr None
     \<or> (\<exists>u' \<in> set holder. \<exists>es' os'. unit_io g u' = Inr (es', os') \<and> (\<exists>d' \<in> set os'. describes g d' v)))))"
proof -
  note g = unit_contractD(1) [OF c]
  have cover: "units_cover ns holder um" using GetAllOrtNodeUnits_cover [OF g unit_contractD(3) [OF c] u(1)] .
  have reads: "\<exists>u' \<in> set holder. \<exists>es' os'. unit_io g u' = Inr (es', os') \<and> (\<exists>d' \<in> set os'. describes g d' v)"
    if n: "n \<in> set ns" "Some v \<in> set (ins g n)" and p: "ValueInfo_GetValueProducer g v = Inr (Some p)"
      and k: "n \<in> set (dq_nodes u) \<or> n = target_node u \<and> (\<forall>d \<in> set (dq_nodes u). ValueInfo_GetValueProducer g v \<noteq> Inr (Some d))"
    for n v p
  proof -
    have ps: "p \<in> set ns" "Some v \<in> set (outs g p)" using graph_producer [OF g n p] by blast+
    have "count_list (consumers_of g v) n \<noteq> 0"
      using unit_contractD(2) [OF c] ps n by (simp add: edges_ok_def count_list_0_iff)
    then have r: "n \<in> set (consumers_of g v)" by (simp add: count_list_0_iff)
    have "p \<in> dom um" using cover ps(1) by (simp add: units_cover_def)
    then obtain u' where um: "um p = Some u'" by blast
    then have u': "u' \<in> set holder" "p \<in> set (GetAllNodesInGroup u')" using cover unfolding units_cover_def by blast+
    note s = unit_shape_holder [OF c u] and s' = unit_shape_holder [OF c u(1) u'(1)]
    have sat: "target_node a \<notin> satellites b" if "a \<in> set holder" "b \<in> set holder" for a b
      using cover that unfolding units_cover_def by blast
    have "n \<in> satellites u' \<longrightarrow> op_of g n = ''DequantizeLinear''" using k unit_shapeD(4) [OF s] sat [OF u(2) u'(1)] by blast
    moreover have "p \<notin> set (dq_nodes u')"
    proof
      assume d: "p \<in> set (dq_nodes u')"
      have "n \<in> set (users g p)" using r ps(2) by (auto simp: set_users)
      then have n': "n = target_node u'" using unit_shapeD(4) [OF s' d] by simp
      then have "n \<notin> set (dq_nodes u)" using sat [OF u'(1) u(2)] by (auto simp: satellites_def)
      then have "target_node u = target_node u'" and no: "p \<notin> set (dq_nodes u)" using k n' p by auto
      then have "u = u'" using cover u(2) u'(1) unfolding units_cover_def by (metis option.inject)
      then show False using d no by simp
    qed
    ultimately show ?thesis using unit_writes [OF c f io u(1) u'(1,2) _ ps(2) r] u'(1) by blast
  qed
  obtain es os where es: "unit_io g u = Inr (es, os)"
    "\<forall>d \<in> set es. d = no_io \<or> (\<exists>v n. describes g d v \<and> n \<in> set ns \<and> Some v \<in> set (ins g n)
      \<and> (n \<in> set (dq_nodes u) \<or> n = target_node u \<and> (\<forall>d \<in> set (dq_nodes u). ValueInfo_GetValueProducer g v \<noteq> Inr (Some d))))"
    using unit_reads [OF c f io u] by blast
  have "d = no_io \<or> (\<exists>v. describes g d v \<and> (ValueInfo_GetValueProducer g v = Inr None
     \<or> (\<exists>u' \<in> set holder. \<exists>es' os'. unit_io g u' = Inr (es', os') \<and> (\<exists>d' \<in> set os'. describes g d' v))))" if d: "d \<in> set es" for d
  proof (cases "d = no_io")
    case False
    then obtain v n where v: "describes g d v" "n \<in> set ns" "Some v \<in> set (ins g n)"
      "n \<in> set (dq_nodes u) \<or> n = target_node u \<and> (\<forall>d \<in> set (dq_nodes u). ValueInfo_GetValueProducer g v \<noteq> Inr (Some d))"
      using es(2) d by blast
    have "input_ok g ns v" using g v(2,3) by (simp add: graph_ok_def node_ok_def)
    then consider "ValueInfo_GetValueProducer g v = Inr None" | p where "ValueInfo_GetValueProducer g v = Inr (Some p)"
      by (auto simp: input_ok_def split: sum.splits option.splits)
    then show ?thesis
    proof cases
      case (2 p)
      then show ?thesis using reads [OF v(2,3) 2 v(4)] v(1) by blast
    qed (use v(1) in blast)
  qed simp
  then show ?thesis using es(1) by blast
qed

section \<open>The encodings of a quantized unit\<close>

lemma dq_nodes_complete:
  assumes "graph_ok g ns" "GetAllOrtNodeUnits g = Inr (holder, um)" "u \<in> set holder" "unit_type u = QDQGroup"
    and "Some v \<in> set (ins g (target_node u))" "ValueInfo_GetValueProducer g v = Inr (Some d)" "op_of g d = ''DequantizeLinear''"
  shows "d \<in> set (dq_nodes u)"
  using assms(1-3)
proof (cases rule: unit_origin)
  case (1 n)
  then show ?thesis using assms(4) by simp
next
  case (2 grp versions sel)
  have "dq_producers g (ins g (group_target_node grp)) = Inr (group_dq_nodes grp)" using 2(4) by (simp add: selected_def)
  moreover have "Some v \<in> set (ins g (group_target_node grp))" using assms(5) by (simp add: 2(1))
  moreover have "Node_GetOperatorType g d = Inr ''DequantizeLinear''"
    using graph_node(3) [OF assms(1) graph_producer(1) [OF assms(1) 2(2) _ assms(6)]] calculation(2) assms(7) by simp
  ultimately show ?thesis using dq_producers_complete assms(6) by (simp add: 2(1))
qed

lemma unit_encodings:
  assumes c: "unit_contract g ns" and f: "formable g" and io: "io_contract g ns"
    and u: "GetAllOrtNodeUnits g = Inr (holder, um)" "u \<in> set holder" "unit_type u = QDQGroup"
  obtains es os where "unit_io g u = Inr (es, os)" "length es = length (ins g (target_node u))"
    "length os = length (outs g (output_producer u))"
    "\<And>i v d. i < length es \<Longrightarrow> ins g (target_node u) ! i = Some v \<Longrightarrow> ValueInfo_GetValueProducer g v = Inr (Some d) \<Longrightarrow>
       op_of g d = ''DequantizeLinear'' \<Longrightarrow> \<exists>x. ins g d ! 0 = Some x \<and> ParseOrtValueInfo g x (Some (quant_of g d)) = Inr (es ! i)"
    "\<And>q. q \<in> set (q_nodes u) \<Longrightarrow> \<exists>j y. j < length os \<and> outs g q ! 0 = Some y \<and> ParseOrtValueInfo g y (Some (quant_of g q)) = Inr (os ! j)"
proof -
  note g = unit_contractD(1) [OF c] and s = unit_shape_holder [OF c u(1,2)]
  from f g io s u(3) obtain es os where d: "unit_io g u = Inr (es, os)" "length es = length (ins g (target_node u))"
    "\<And>i. i < length es \<Longrightarrow> io_def g True (dq_nodes u) (ins g (target_node u) ! i) = Inr (es ! i)"
    "length os = length (outs g (output_producer u))"
    "\<And>i. i < length os \<Longrightarrow> io_def g False (q_nodes u) (outs g (output_producer u) ! i) = Inr (os ! i)"
    by (rule group_unit_io) blast
  have dqs: "\<forall>d \<in> set (dq_nodes u). op_of g d = ''DequantizeLinear''" using unit_shapeD(4) [OF s] by blast
  have qs: "\<forall>q \<in> set (q_nodes u). op_of g q = ''QuantizeLinear''" using unit_shapeD(7) [OF s] by blast
  have 1: "\<exists>x. ins g d ! 0 = Some x \<and> ParseOrtValueInfo g x (Some (quant_of g d)) = Inr (es ! i)"
    if i: "i < length es" "ins g (target_node u) ! i = Some v" and p: "ValueInfo_GetValueProducer g v = Inr (Some d)"
      "op_of g d = ''DequantizeLinear''" for i v d
  proof -
    have v: "Some v \<in> set (ins g (target_node u))" using i d(2) by (metis nth_mem)
    have dq: "d \<in> set (dq_nodes u)" by (rule dq_nodes_complete [OF g u v p])
    have e: "io_def g True (dq_nodes u) (Some v) = Inr (es ! i)" using d(3) [OF i(1)] i(2) by simp
    from f g io unit_shapeD(1) [OF s] v dqs show ?thesis
      by (rule io_def_input) (use p(1) dq e in auto)
  qed
  have 2: "\<exists>j y. j < length os \<and> outs g q ! 0 = Some y \<and> ParseOrtValueInfo g y (Some (quant_of g q)) = Inr (os ! j)"
    if q: "q \<in> set (q_nodes u)" for q
  proof -
    obtain v where v: "Some v \<in> set (outs g (output_producer u))" "q \<in> set (consumers_of g v)"
      using unit_shapeD(7) [OF s q] by (auto simp: set_users)
    obtain j where j: "j < length os" "outs g (output_producer u) ! j = Some v" using v(1) d(4) by (auto simp: in_set_conv_nth)
    have alone: "consumers_of g v = [q]" by (rule quantized_alone [OF c io u(1,2) q v])
    have e: "io_def g False (q_nodes u) (Some v) = Inr (os ! j)" using d(5) [OF j(1)] j(2) by simp
    from f g io chain_in_graph(2) [OF s] v(1) qs show ?thesis
      by (rule io_def_output) (use alone q e j(1) in auto)
  qed
  show thesis by (rule that [OF d(1,2,4)]) (use 1 2 in blast)+
qed

end
