(* ===== verification/Qdq_Theorems.thy ===== *)
theory Qdq_Theorems
  imports Unit_Io
begin

text \<open>
  The properties of forming node units, of their inputs and outputs and of partitioning them, and a small quantized model at which they apply:
  DQ, Sigmoid, Clip and Q, with the lower bound of the Clip a constant or an input of the model.
\<close>

section \<open>A quantized model\<close>

text \<open>An IEEE 754 single.\<close>

definition ieee_single :: "32 word \<Rightarrow> fval" where
  "ieee_single w =
     (let sign = (if bit w 31 then - 1 else 1 :: real);
          e = nat (uint (drop_bit 23 w) mod 256);
          m = real_of_int (uint (take_bit 23 w))
      in if e = 255 then (if m \<noteq> 0 then NaN else if bit w 31 then Neg_Inf else Pos_Inf)
         else if e = 0 then Num (sign * m / 2 ^ 149)
         else Num (sign * (2 ^ 23 + m) * 2 ^ e / 2 ^ 150))"

definition float_value :: "byte list \<Rightarrow> ort_value" where
  "float_value bs = \<lparr>value_type = Inr ONNX_FLOAT, value_dims = Inr [], value_data = Inr (Some bs)\<rparr>"

text \<open>Nodes 0 to 3; values 10 (input), 11 (scale 1), 12 (zero point 0), 13, 14, 15 (lower bound), 16 and 17 (output).\<close>

definition sample :: "bool \<Rightarrow> qdq_graph" where
  "sample constant_bound =
     \<lparr>Graph_GetNodes = Inr [0, 1, 2, 3], Node_GetId = (\<lambda>n. n),
      Node_GetInputs = (\<lambda>n. Inr (if n = 0 then [Some 10, Some 11, Some 12] else if n = 1 then [Some 13]
         else if n = 2 then [Some 14, Some 15] else [Some 16, Some 11, Some 12])),
      Node_GetOutputs = (\<lambda>n. Inr [Some (if n = 0 then 13 else if n = 1 then 14 else if n = 2 then 16 else 17)]),
      ValueInfo_GetValueProducer = (\<lambda>v. Inr (if v = 13 then Some 0 else if v = 14 then Some 1 else if v = 16 then Some 2
         else if v = 17 then Some 3 else None)),
      ValueInfo_GetValueConsumers = (\<lambda>v. Inr (if v = 13 then [1] else if v = 14 then [2] else if v = 16 then [3] else [])),
      Node_GetEpName = (\<lambda>n. Inr []),
      Node_GetOperatorType = (\<lambda>n. Inr (if n = 0 then ''DequantizeLinear'' else if n = 1 then ''Sigmoid''
         else if n = 2 then ''Clip'' else ''QuantizeLinear'')),
      Node_GetDomain = (\<lambda>n. Inr []), Node_GetSinceVersion = (\<lambda>n. Inr 13), Node_GetAttributeByName = (\<lambda>n key. None),
      GetValueInfoName = (\<lambda>v. Inr (if v = 11 then ''scale'' else if v = 12 then ''zero'' else if v = 15 then ''low'' else ''x'')),
      ValueInfo_TensorInfo = (\<lambda>v. Inr (Some \<lparr>tensor_elem_type = Inr (if v = 10 \<or> v = 17 then ONNX_UINT8 else ONNX_FLOAT),
         tensor_dims = Inr [], tensor_has_shape = True\<rparr>)),
      ValueInfo_IsGraphOutput = (\<lambda>v. Inr (v = 17)), ValueInfo_IsConstantInitializer = (\<lambda>v. Inr (v = 11 \<or> v = 12)),
      Graph_GetInitializers = Inr (if constant_bound then [11, 12, 15] else [11, 12]),
      ValueInfo_GetInitializerValue = (\<lambda>v. Inr (if v = 11 then Some (float_value [0, 0, 128, 63])
         else if v = 12 then Some \<lparr>value_type = Inr ONNX_UINT8, value_dims = Inr [], value_data = Inr (Some [0])\<rparr>
         else Some (float_value [0, 0, 0, 0]))),
      float_bits = ieee_single, double_bits = (\<lambda>w. NaN)\<rparr>"

definition sample_group :: OrtNodeGroup where
  "sample_group =
     \<lparr>group_dq_nodes = [0], group_q_nodes = [3], group_target_node = 1, group_redundant_clip_node = Some 2,
      group_output_reshape_node = None\<rparr>"

lemma sample_float: "ieee_single (of_bytes [0, 0, 128, 63]) = Num 1" "ieee_single (of_bytes [0, 0, 0, 0]) = Num 0"
  by (simp_all add: ieee_single_def of_bytes_def Let_def)

lemma sample_initializers:
  "GetConstantInitializer (sample b) name =
     (if name = ''scale'' then Some (float_value [0, 0, 128, 63])
      else if name = ''zero'' then Some \<lparr>value_type = Inr ONNX_UINT8, value_dims = Inr [], value_data = Inr (Some [0])\<rparr>
      else if name = ''low'' \<and> b then Some (float_value [0, 0, 0, 0]) else None)"
  by (simp add: GetConstantInitializer_def sample_def)

lemma sample_fields [simp]:
  "Graph_GetNodes (sample b) = Inr [0, 1, 2, 3]" "Node_GetId (sample b) = (\<lambda>n. n)" "Node_GetEpName (sample b) n = Inr []"
  "Node_GetInputs (sample b) n = Inr (if n = 0 then [Some 10, Some 11, Some 12] else if n = 1 then [Some 13]
     else if n = 2 then [Some 14, Some 15] else [Some 16, Some 11, Some 12])"
  "Node_GetOutputs (sample b) n = Inr [Some (if n = 0 then 13 else if n = 1 then 14 else if n = 2 then 16 else 17)]"
  "ValueInfo_GetValueProducer (sample b) v = Inr (if v = 13 then Some 0 else if v = 14 then Some 1 else if v = 16 then Some 2
     else if v = 17 then Some 3 else None)"
  "ValueInfo_GetValueConsumers (sample b) v = Inr (if v = 13 then [1] else if v = 14 then [2] else if v = 16 then [3] else [])"
  "Node_GetOperatorType (sample b) n = Inr (if n = 0 then ''DequantizeLinear'' else if n = 1 then ''Sigmoid''
     else if n = 2 then ''Clip'' else ''QuantizeLinear'')"
  "Node_GetDomain (sample b) n = Inr []" "Node_GetAttributeByName (sample b) n key = None"
  "ValueInfo_IsGraphOutput (sample b) v = Inr (v = 17)" "float_bits (sample b) = ieee_single"
  "GetValueInfoName (sample b) v = Inr (if v = 11 then ''scale'' else if v = 12 then ''zero'' else if v = 15 then ''low'' else ''x'')"
  "ValueInfo_TensorInfo (sample b) v = Inr (Some \<lparr>tensor_elem_type = Inr (if v = 10 \<or> v = 17 then ONNX_UINT8 else ONNX_FLOAT),
     tensor_dims = Inr [], tensor_has_shape = True\<rparr>)"
  by (simp_all add: sample_def)

lemma sample_accessors [simp]:
  "ins (sample b) n = (if n = 0 then [Some 10, Some 11, Some 12] else if n = 1 then [Some 13]
     else if n = 2 then [Some 14, Some 15] else [Some 16, Some 11, Some 12])"
  "outs (sample b) n = [Some (if n = 0 then 13 else if n = 1 then 14 else if n = 2 then 16 else 17)]"
  "consumers_of (sample b) v = (if v = 13 then [1] else if v = 14 then [2] else if v = 16 then [3] else [])"
  "op_of (sample b) n = (if n = 0 then ''DequantizeLinear'' else if n = 1 then ''Sigmoid''
     else if n = 2 then ''Clip'' else ''QuantizeLinear'')"
  by (simp_all add: ins_def outs_def consumers_of_def op_of_def)

lemma sample_graph_ok: "graph_ok (sample b) [0, 1, 2, 3]"
  by (simp add: graph_ok_def node_ok_def output_ok_def input_ok_def)





lemma sample_quant: "GetQNodeScaleAndZeroPoint (sample b) 3 = Inr (Some (Num 1, 0, QNN_DATATYPE_UFIXED_POINT_8))"
  by (simp add: GetQNodeScaleAndZeroPoint_def initializer_at_def nonnull_def GetInitializerFromValueInfo_def sample_initializers
      GetScalarValue_float_def float_value_def read_scalar_def sample_float GetZeroPointValue_def)
    (simp add: of_bytes_def)

lemma sample_bounds: "GetClipMinMax (sample b) 2 = Inr (if b then Num 0 else Num (- float_max), Num float_max)"
  by (simp add: GetClipMinMax_def HasAttr_def Let_def clip_bound_def GetInitializerFromValueInfo_def sample_initializers
      GetScalarValue_float_def float_value_def nonnull_def read_scalar_def sample_float)

lemma sample_fold: "TryFoldRedundantActivation (sample b) 1 = Inr (Some 2)"
  by (simp add: TryFoldRedundantActivation_def sole_consumer_of_node_def GetSingleOutput_def GetSoleNonOutputConsumer_def
      OperatorType_def q_behind_activation_def IsActivationEncodingSafe_def sample_quant sample_bounds GetQminQmax_def f_mul_def
      float_max_def)

lemma sample_selectors:
  "map_of (InitializeSelectorsMap CreateSelectors) ''Sigmoid'' = Some ([], Unary)"
  by (simp add: map_of_selectors CreateSelectors_def any_version_def)

lemma sample_select:
  "select_node (sample b) 0 = Inr None" "select_node (sample b) 1 = Inr (Some sample_group)"
  "select_node (sample b) 2 = Inr None" "select_node (sample b) 3 = Inr None"
proof -
  have extend: "forward_extension (sample b) 1 (Suc 0) = Inr (Some 2, None)"
    by (simp add: forward_extension_def sample_fold del: One_nat_def)
  have "Check Unary (sample b) 1 (Some 2) [0] [3] = Inr True"
    by (simp add: Check_def Check_Unary_def CheckQDQNodes_def in_out_types_def dq_type_def q_type_def vec_at_def
        GetNodeInputDataType_def GetNodeOutputDataType_def nonnull_def GetDataTypeFromValueInfo_def del: One_nat_def)
  then have "GetOrtQDQSelection (sample b) 1 Unary = Inr (Some sample_group)"
    using extend
    by (simp add: GetOrtQDQSelection_def producer_of_type_def OperatorType_def sample_group_def del: One_nat_def)
  then show "select_node (sample b) 1 = Inr (Some sample_group)"
    by (simp add: select_node_def OperatorType_def selection_domains_def sample_selectors)
  have "forward_extension (sample b) 2 1 = Inr (None, None)"
    by (simp add: forward_extension_def TryFoldRedundantActivation_def TryAbsorbTrailingReshape_def sole_consumer_of_node_def
        GetSingleOutput_def GetSoleNonOutputConsumer_def OperatorType_def)
  then show "select_node (sample b) 2 = Inr None"
    by (simp add: select_node_def OperatorType_def selection_domains_def selector_of_ops GetOrtQDQSelection_def
        producer_of_type_def Check_def Check_Clip_def)
  show "select_node (sample b) 0 = Inr None" "select_node (sample b) 3 = Inr None"
    by (simp_all add: select_node_def OperatorType_def selection_domains_def selector_of_ops)
qed

definition sample_units :: node_unit_map where
  "sample_units = (\<lambda>n. if n \<in> {0, 1, 2, 3} then Some (qdq_unit sample_group) else None)"

lemma sample_formed: "GetAllOrtNodeUnits (sample b) = Inr ([qdq_unit sample_group], sample_units)"
  by (simp add: GetAllOrtNodeUnits_def GetOrtQDQSelections_def sample_select add_qdq_unit_def sample_group_def add_single_unit_def
      Let_def sample_units_def qdq_unit_def del: One_nat_def)
    (auto simp: fun_eq_iff qdq_unit_def sample_group_def)

section \<open>Properties\<close>



text \<open>
  C12.  A quantized unit hides its inner values.  When the outputs of an operator are quantized inside the unit (and it is not
  one of ArgMax, ArgMin, NonZero and TopK, which keep outputs of their own), no value that the operator, its absorbed
  Reshape or its folded activation produces is a graph output or is read by a node outside the unit: replacing the unit by
  one quantized QNN node cannot remove a value that another part of the model needs.
\<close>

theorem quantized_units_hide_values:
  assumes "graph_ok g ns" "GetAllOrtNodeUnits g = Inr (holder, um)" "u \<in> set holder" "q_nodes u \<noteq> []"
    and "op_of g (target_node u) \<notin> {''ArgMax'', ''ArgMin'', ''NonZero'', ''TopK''}"
    and "m = target_node u \<or> output_reshape_node u = Some m \<or> redundant_clip_node u = Some m"
  shows "hidden_from g (set (GetAllNodesInGroup u)) m"
  using assms by (rule unit_hides_values)

theorem quantized_units_hide_values_witness: "hidden_from (sample True) {0, 1, 2, 3} 2"
  using quantized_units_hide_values [OF sample_graph_ok [of True] sample_formed, of "qdq_unit sample_group" 2]
  by (simp add: sample_group_def GetAllNodesInGroup_def insert_commute)














section \<open>Where the selectors go wrong\<close>


text \<open>
  The value that is checked for a following activation may feed any of its inputs: an operator that computes the lower bound of
  a Clip folds that Clip, whose data comes from elsewhere, into its own unit.
\<close>

definition bound_producer :: qdq_graph where
  "bound_producer = (sample False)\<lparr>Node_GetInputs := (\<lambda>n. if n = 2 then Inr [Some 18, Some 14] else Node_GetInputs (sample False) n)\<rparr>"

theorem clip_folded_into_its_bound: "TryFoldRedundantActivation bound_producer 1 = Inr (Some 2)"
proof -
  have q: "GetQNodeScaleAndZeroPoint bound_producer 3 = GetQNodeScaleAndZeroPoint (sample False) 3"
    by (simp add: bound_producer_def GetQNodeScaleAndZeroPoint_def initializer_at_def GetInitializerFromValueInfo_def
        GetConstantInitializer_def GetScalarValue_float_def nonnull_def sample_def)
  have "GetClipMinMax bound_producer 2 = Inr (Num (- float_max), Num float_max)"
    by (simp add: bound_producer_def GetClipMinMax_def HasAttr_def Let_def clip_bound_def GetInitializerFromValueInfo_def
        GetConstantInitializer_def sample_def)
  then have "IsActivationEncodingSafe bound_producer 2 ''Clip'' 3 = Inr True"
    by (simp add: IsActivationEncodingSafe_def q sample_quant GetQminQmax_def f_mul_def float_max_def)
  then show ?thesis
    by (simp add: TryFoldRedundantActivation_def q_behind_activation_def sole_consumer_of_node_def GetSingleOutput_def
        GetSoleNonOutputConsumer_def OperatorType_def bound_producer_def)
qed

text \<open>
  The scale of the Q is read as a 32-bit float whatever its element type: a half-precision scale is read past its end.
\<close>

theorem half_precision_scale_overread:
  assumes "Node_GetInputs g q = Inr (x # Some s # z # rest)" "GetInitializerFromValueInfo g s = Some i"
    and "value_data i = Inr (Some bs)" "length bs = 2"
  shows "GetQNodeScaleAndZeroPoint g q = Inl (Undefined_Behaviour ''read past the end of a tensor'')"
  using assms by (simp add: GetQNodeScaleAndZeroPoint_def initializer_at_def nonnull_def GetScalarValue_float_def read_scalar_def)

text \<open>
  Only the first zero point of a Q is looked at.  With the zero points 0 and 128 of a Q per channel the activation is judged by
  the first channel; the second channel can represent negative values, and there dropping the Relu shows.
\<close>

theorem first_zero_point_decides:
  "GetZeroPointValue \<lparr>value_type = Inr ONNX_UINT8, value_dims = Inr [2], value_data = Inr (Some [0, 128])\<rparr>
     = Inr (Some (0, QNN_DATATYPE_UFIXED_POINT_8))
   \<and> quantize round 1 128 (0, 255) (activate ''Relu'' (Num 0, Num float_max) (- 5)) = 128
   \<and> quantize round 1 128 (0, 255) (- 5) = 123"
  by (simp add: GetZeroPointValue_def read_scalar_def of_bytes_def quantize_def activate_def)

text \<open>
  The selectors only count the Qs behind an operator; the outputs of a unit need every Q to read a value of its own.  A Split
  whose first output is quantized twice and whose second is not read is accepted, but its unit then writes the two float
  values and neither of the values its Qs compute.
\<close>

definition split_twice :: qdq_graph where
  "split_twice = (sample True)\<lparr>
     Node_GetInputs := (\<lambda>n. Inr (if n = 0 then [Some 10, Some 11, Some 12] else if n = 1 then [Some 13] else [Some 14, Some 11, Some 12])),
     Node_GetOutputs := (\<lambda>n. Inr (if n = 0 then [Some 13] else if n = 1 then [Some 14, Some 15] else if n = 2 then [Some 16] else [Some 17])),
     ValueInfo_GetValueProducer := (\<lambda>v. Inr (if v = 13 then Some 0 else if v = 14 \<or> v = 15 then Some 1 else if v = 16 then Some 2
       else if v = 17 then Some 3 else None)),
     ValueInfo_GetValueConsumers := (\<lambda>v. Inr (if v = 13 then [1] else if v = 14 then [2, 3] else [])),
     Node_GetOperatorType := (\<lambda>n. Inr (if n = 0 then ''DequantizeLinear'' else if n = 1 then ''Split'' else ''QuantizeLinear'')),
     GetValueInfoName := (\<lambda>v. Inr (if v = 10 then ''x'' else if v = 14 then ''half0'' else if v = 15 then ''half1''
       else if v = 16 then ''quantized0'' else if v = 17 then ''quantized1'' else ''other'')),
     ValueInfo_TensorInfo := (\<lambda>v. Inr (Some \<lparr>tensor_elem_type = Inr (if v \<in> {10, 16, 17} then ONNX_UINT8 else ONNX_FLOAT),
       tensor_dims = Inr [], tensor_has_shape = True\<rparr>))\<rparr>"

theorem twice_quantized_output_lost:
  "\<exists>grp es os. select_node split_twice 1 = Inr (Some grp) \<and> group_q_nodes grp = [2, 3]
     \<and> unit_io split_twice (qdq_unit grp) = Inr (es, os) \<and> map io_name os = [''half0'', ''half1'']"
proof -
  let ?g = "\<lparr>group_dq_nodes = [0], group_q_nodes = [2, 3], group_target_node = 1, group_redundant_clip_node = None,
    group_output_reshape_node = None\<rparr>"
  have "map_of (InitializeSelectorsMap CreateSelectors) ''Split'' = Some ([], Split False)"
    by (simp add: map_of_selectors CreateSelectors_def any_version_def)
  moreover have "Check (Split False) split_twice 1 None [0] [2, 3] = Inr True"
    by (simp add: split_twice_def Check_def Check_Split_def CheckQDQNodes_def vec_at_def GetNodeInputDataType_def nonnull_def
        GetDataTypeFromValueInfo_def GetNodeOutputDataType_def check_then_def)
  ultimately have "select_node split_twice 1 = Inr (Some ?g)"
    by (simp add: select_node_def split_twice_def OperatorType_def selection_domains_def GetOrtQDQSelection_def
        forward_extension_def producer_of_type_def)
  moreover have "\<exists>es os. unit_io split_twice (qdq_unit ?g) = Inr (es, os) \<and> map io_name os = [''half0'', ''half1'']"
    by (simp add: split_twice_def unit_io_def GetQDQIODefs_def io_def_def quantized_io_def_def neighbour_def
        quant_param_of_def vec_at_def nonnull_def ParseOrtValueInfo_def parse_or_none_def qdq_unit_def output_producer_def)
  ultimately show ?thesis by (intro exI [of _ ?g]) auto
qed

end
