(* ===== verification/Op_Affinity.thy ===== *)
theory Op_Affinity
  imports Text_Utils Qnn_Types
begin

text \<open>
  Operators pinned to a backend, \<open>op_affinity/qnn_op_affinity_map.cc\<close>: the map is read from a JSON file, completed by a default
  when the session has resolved its backend, and asked for every operator a session wants to claim.

  The JSON library is not part of the sources.  A value is a \<open>json\<close>; an object has its fields in the order in which the library
  iterates over them, each key once.
\<close>

section \<open>Definitions\<close>

datatype json = J_String string | J_Array "json list" | J_Object "(string \<times> json) list" | J_Scalar

type_synonym OpAffinityMap = "(string \<times> QnnBackendType) list"

definition ToLower :: "string \<Rightarrow> string" where
  "ToLower s = map tolower s"

definition BackendFromName :: "string \<Rightarrow> QnnBackendType option" where
  "BackendFromName raw_name =
     (let name = ToLower raw_name in List.find (\<lambda>backend. name = QnnBackendTypeToString backend) [CPU, GPU, DSP, HTP])"

definition BackendMatches :: "QnnBackendType \<Rightarrow> QnnBackendType \<Rightarrow> bool" where
  "BackendMatches pinned session_backend \<longleftrightarrow> pinned = session_backend"

text \<open>One field of the configuration: the name of a backend, or an array of one name.\<close>

definition backend_name_of :: "json \<Rightarrow> string result" where
  "backend_name_of value =
     (case value of
        J_String s \<Rightarrow> Inr s
      | J_Array [] \<Rightarrow> Inl (Thrown ''must specify exactly one backend, but the array is empty'')
      | J_Array [J_String s] \<Rightarrow> Inr s
      | J_Array [_] \<Rightarrow> Inl (Thrown ''backend must be a string'')
      | J_Array _ \<Rightarrow> Inl (Thrown ''heterogeneous execution is not supported'')
      | _ \<Rightarrow> Inl (Thrown ''value must be a string or a single-element array of strings''))"

fun affinity_fields :: "(string \<times> json) list \<Rightarrow> OpAffinityMap \<Rightarrow> OpAffinityMap result" where
  "affinity_fields [] result = Inr result"
| "affinity_fields ((op_name, value) # fields) result =
     and_then (backend_name_of value) (\<lambda>backend_name.
       case BackendFromName backend_name of
         None \<Rightarrow> Inl (Thrown ''unknown backend'')
       | Some backend \<Rightarrow> affinity_fields fields (assign op_name backend result))"

text \<open>The file: \<^const>\<open>None\<close> when it cannot be opened, \<open>Inl\<close> when it cannot be parsed.\<close>

definition FromConfigFile :: "json result option \<Rightarrow> OpAffinityMap result" where
  "FromConfigFile config_file =
     (case config_file of
        None \<Rightarrow> Inl (Thrown ''op_affinity config file could not be opened'')
      | Some parsed \<Rightarrow>
          and_then parsed (\<lambda>j.
            case j of
              J_Object members \<Rightarrow>
                (case map_of members ''op_type'' of
                   Some (J_Object fields) \<Rightarrow> affinity_fields fields []
                 | _ \<Rightarrow> Inl (Thrown ''top-level op_type object is required''))
            | _ \<Rightarrow> Inl (Thrown ''top-level op_type object is required'')))"

definition Evaluate :: "OpAffinityMap \<Rightarrow> string \<Rightarrow> QnnBackendType \<Rightarrow> unit result" where
  "Evaluate op_to_backend op_type session_backend =
     (case map_of op_to_backend op_type of
        None \<Rightarrow> Inr ()
      | Some pinned \<Rightarrow>
          (if BackendMatches pinned session_backend then Inr ()
           else if pinned = CPU then Inl (Status_Fail ''filtered off QNN by the op_affinity provider option.'')
           else Inl (Status_Fail ''op_affinity pins it to a backend this session is not running.'')))"

definition SeedDefaultIfAbsent :: "string \<Rightarrow> QnnBackendType \<Rightarrow> OpAffinityMap \<Rightarrow> OpAffinityMap" where
  "SeedDefaultIfAbsent op_type default_backend op_to_backend = emplace op_type default_backend op_to_backend"

definition ValidateForSessionBackend :: "OpAffinityMap \<Rightarrow> QnnBackendType \<Rightarrow> unit result" where
  "ValidateForSessionBackend op_to_backend session_backend =
     (if list_ex (\<lambda>(op_type, pinned). pinned \<noteq> CPU \<and> \<not> BackendMatches pinned session_backend) op_to_backend
      then Inl (Status_Fail ''Heterogeneous execution is not supported'') else Inr ())"

text \<open>What a session does with the map once it knows its backend.\<close>

definition resolve_affinity :: "QnnBackendType \<Rightarrow> OpAffinityMap \<Rightarrow> OpAffinityMap result" where
  "resolve_affinity resolved_backend op_affinity =
     (let m = (if resolved_backend = HTP then SeedDefaultIfAbsent ''GroupQueryAttention'' CPU op_affinity else op_affinity)
      in and_then (ValidateForSessionBackend m resolved_backend) (\<lambda>_. Inr m))"

section \<open>The configuration\<close>

lemma BackendFromName_name: "b \<in> {CPU, GPU, DSP, HTP} \<Longrightarrow> BackendFromName (QnnBackendTypeToString b) = Some b"
  by (elim insertE emptyE; hypsubst; code_simp)

lemma BackendFromName_range: "BackendFromName s = Some b \<Longrightarrow> b \<in> {CPU, GPU, DSP, HTP} \<and> ToLower s = QnnBackendTypeToString b"
  by (auto simp add: BackendFromName_def Let_def split: if_splits)

text \<open>The backend a field names.\<close>

definition named :: "json \<Rightarrow> QnnBackendType option" where
  "named value = (case backend_name_of value of Inl _ \<Rightarrow> None | Inr s \<Rightarrow> BackendFromName s)"

lemma affinity_fields_ok:
  "(\<exists>m. affinity_fields fields result = Inr m) \<longleftrightarrow> (\<forall>(op, value) \<in> set fields. named value \<noteq> None)"
proof (induction fields result rule: affinity_fields.induct)
  case (2 op field fields result)
  then show ?case
    by (cases "backend_name_of field") (auto simp: named_def split: option.splits)
qed simp

lemma affinity_fields_lookup:
  "affinity_fields fields result = Inr m \<Longrightarrow> distinct (map fst fields) \<Longrightarrow>
     map_of m op = (case map_of fields op of None \<Rightarrow> map_of result op | Some value \<Rightarrow> named value)"
proof (induction fields result rule: affinity_fields.induct)
  case (2 op' field fields result)
  then obtain s b where s: "backend_name_of field = Inr s" "BackendFromName s = Some b"
    "affinity_fields fields (assign op' b result) = Inr m"
    by (auto simp: and_then_eq_Inr_iff split: option.splits)
  have "map_of m op = (case map_of fields op of None \<Rightarrow> map_of (assign op' b result) op | Some value \<Rightarrow> named value)"
    using "2.IH" [OF s(2,3)] "2.prems"(2) by simp
  moreover have "map_of fields op' = None" using "2.prems"(2) by (simp add: map_of_eq_None_iff)
  ultimately show ?case using s(1,2) by (cases "map_of fields op") (auto simp: named_def)
qed simp

text \<open>
  The pin of an operator in a session: what the configuration says, or else the default of the session's backend.
\<close>

definition pin :: "(string \<times> json) list \<Rightarrow> QnnBackendType \<Rightarrow> string \<Rightarrow> QnnBackendType option" where
  "pin fields backend op =
     (case map_of fields op of
        Some value \<Rightarrow> named value
      | None \<Rightarrow> (if backend = HTP \<and> op = ''GroupQueryAttention'' then Some CPU else None))"

lemma resolve_affinity_lookup:
  assumes "affinity_fields fields [] = Inr m" "distinct (map fst fields)" "resolve_affinity backend m = Inr m'"
  shows "map_of m' op = pin fields backend op"
proof -
  have lookup: "map_of m x = (case map_of fields x of None \<Rightarrow> None | Some value \<Rightarrow> named value)" for x
    using affinity_fields_lookup [OF assms(1,2), of x] by (simp cong: option.case_cong)
  have named: "named field \<noteq> None" if "map_of fields x = Some field" for x field
    using affinity_fields_ok [of fields "[]"] assms(1) map_of_SomeD [OF that] by fastforce
  have m': "m' = (if backend = HTP then emplace ''GroupQueryAttention'' CPU m else m)"
    using assms(3) by (auto simp: resolve_affinity_def SeedDefaultIfAbsent_def Let_def and_then_eq_Inr_iff split: if_splits)
  show ?thesis
  proof (cases "map_of fields op")
    case (Some field)
    then show ?thesis using named [OF Some] by (auto simp: m' pin_def lookup)
  qed (auto simp: m' pin_def lookup)
qed

text \<open>
  C31.  A session that starts with an operator configuration claims an operator exactly when the configuration (or, where it
  says nothing, the default of the backend) pins it to nothing or to the backend of the session.  A refused operator is always
  one that is pinned to the CPU: a configuration with any other pin stops the session before.
\<close>

theorem op_affinity_decides:
  assumes "FromConfigFile (Some (Inr (J_Object members))) = Inr m" "map_of members ''op_type'' = Some (J_Object fields)"
    and "distinct (map fst fields)"
    and "resolve_affinity backend m = Inr m'"
  shows "(Evaluate m' op backend = Inr () \<longleftrightarrow> pin fields backend op \<in> {None, Some backend})
    \<and> (Evaluate m' op backend \<noteq> Inr () \<longrightarrow> pin fields backend op = Some CPU)"
proof -
  have m: "affinity_fields fields [] = Inr m" using assms(1,2) by (simp add: FromConfigFile_def)
  have look: "map_of m' op = pin fields backend op" by (rule resolve_affinity_lookup [OF m assms(3,4)])
  have "pinned = CPU \<or> BackendMatches pinned backend" if "map_of m' op = Some pinned" for pinned
    using map_of_SomeD [OF that] assms(4)
    by (auto simp: resolve_affinity_def Let_def ValidateForSessionBackend_def and_then_eq_Inr_iff list_ex_iff split: if_splits)
  then show ?thesis unfolding look [symmetric]
    by (auto simp: Evaluate_def BackendMatches_def split: option.splits)
qed

theorem op_affinity_decides_witness:
  "\<exists>m'. resolve_affinity HTP [(''MatMul'', CPU)] = Inr m' \<and> Evaluate m' ''MatMul'' HTP \<noteq> Inr ()
     \<and> Evaluate m' ''GroupQueryAttention'' HTP \<noteq> Inr () \<and> Evaluate m' ''Conv'' HTP = Inr ()"
proof -
  let ?f = "[(''MatMul'', J_Array [J_String ''CPU''])]"
  have cpu: "BackendFromName ''CPU'' = Some CPU" by code_simp
  have c: "FromConfigFile (Some (Inr (J_Object [(''op_type'', J_Object ?f)]))) = Inr [(''MatMul'', CPU)]"
    by (simp add: FromConfigFile_def backend_name_of_def cpu assign_def)
  have r: "resolve_affinity HTP [(''MatMul'', CPU)] = Inr [(''GroupQueryAttention'', CPU), (''MatMul'', CPU)]"
    by (simp add: resolve_affinity_def SeedDefaultIfAbsent_def emplace_def ValidateForSessionBackend_def)
  have pins: "pin ?f HTP ''MatMul'' = Some CPU" "pin ?f HTP ''GroupQueryAttention'' = Some CPU" "pin ?f HTP ''Conv'' = None"
    by (simp_all add: pin_def named_def backend_name_of_def cpu)
  have d: "map_of [(''op_type'', J_Object ?f)] ''op_type'' = Some (J_Object ?f)" "distinct (map fst ?f)" by simp_all
  show ?thesis
    using op_affinity_decides [OF c d r, of "''MatMul''"] op_affinity_decides [OF c d r, of "''GroupQueryAttention''"]
      op_affinity_decides [OF c d r, of "''Conv''"] r
    unfolding pins by blast
qed

end
