(* ===== verification/Node_Groups.thy ===== *)
theory Node_Groups
  imports Unit_Io Model_Wrapper Op_Affinity
begin

text \<open>
  Node groups, \<open>builder/qnn_node_group/qnn_node_group.cc\<close>: a group is one node unit or several that a fusion replaces by one
  QNN node.  Fusions are tried first, in the order of the graph; the units left over become groups of their own, and the
  groups are emitted in the order of their target units.

  The fusions are a table from operator types to functions, which user-defined operators can replace.  Three of the
  functions are modelled: \<open>hardsigmoid_mul_fusion.cc\<close>, \<open>cast_lone_q_fusion.cc\<close> and \<open>dql_dq_fusion.cc\<close>, with the searches
  of \<open>utils.cc\<close> they use.  A pointer to a unit is the unit; a pointer to a group is its index in the list of groups.
\<close>

section \<open>Environment\<close>

record named_graph = qdq_graph +
  Node_GetName :: "node \<Rightarrow> string result"

record fusion_env =
  fe_model :: model_env
  fe_unpack :: "OrtQuantParam \<Rightarrow> QuantParam"
  fe_affinity :: OpAffinityMap
  HARD_SWISH :: "32 word"

record node_group =
  group_type :: string
  group_units :: "OrtNodeUnit list"
  group_target_unit :: OrtNodeUnit

type_synonym unit_groups = "OrtNodeUnit \<Rightarrow> nat option"

type_synonym fusion =
  "OrtNodeUnit \<Rightarrow> node_unit_map \<Rightarrow> unit_groups \<Rightarrow> QnnModelWrapper \<Rightarrow> node_group option result \<times> QnnModelWrapper"

text \<open>The C++ wrappers of the graph API throw when a call fails; \<open>succeeded\<close> asks for the status of a call.\<close>

definition throwing :: "'a result \<Rightarrow> 'a result" where
  "throwing r = (case r of Inl _ \<Rightarrow> Inl (Thrown ''Ort::Exception'') | Inr x \<Rightarrow> Inr x)"

definition succeeded :: "unit result \<times> 's \<Rightarrow> bool result \<times> 's" where
  "succeeded r = (case r of (Inl (Status_Fail _), s) \<Rightarrow> (Inr False, s) | (Inl e, s) \<Rightarrow> (Inl e, s) | (Inr _, s) \<Rightarrow> (Inr True, s))"

definition OpType :: "('g) qdq_graph_scheme \<Rightarrow> OrtNodeUnit \<Rightarrow> string result" where
  "OpType g u = OperatorType g (target_node u)"

definition wrapper_io :: "fusion_env \<Rightarrow> OrtIODef \<Rightarrow> OrtNodeUnitIODef" where
  "wrapper_io fe d = \<lparr>iod_name = io_name d, iod_type = io_type d, iod_shape = io_shape d,
     iod_quant = map_option (fe_unpack fe) (io_quant_param d)\<rparr>"

definition unit_name :: "('g) named_graph_scheme \<Rightarrow> OrtNodeUnit \<Rightarrow> QnnModelWrapper \<Rightarrow> string result \<times> QnnModelWrapper" where
  "unit_name g u s =
     then_s (throwing (Node_GetName g (target_node u)), s) (\<lambda>name s.
     then_s (OpType g u, s) (\<lambda>op_type s.
       let (n, c) = UniqueName_New_node name op_type (Node_GetId g (target_node u)) [] (name_counter s)
       in (Inr n, s\<lparr>name_counter := c\<rparr>)))"

section \<open>Searching the neighbourhood of a unit\<close>

definition GetOnlyChildOfType ::
  "('g) qdq_graph_scheme \<Rightarrow> OrtNodeUnit \<Rightarrow> string list \<Rightarrow> node_unit_map \<Rightarrow> unit_groups \<Rightarrow> OrtNodeUnit option result" where
  "GetOnlyChildOfType g parent child_op_types um gm =
     and_then (throwing (Node_GetOutputs g (target_node parent))) (\<lambda>outputs.
       case outputs of
         [p] \<Rightarrow>
           and_then (nonnull p) (\<lambda>output.
           and_then (throwing (ValueInfo_IsGraphOutput g output)) (\<lambda>is_graph_output.
             if is_graph_output then Inr None
             else and_then (throwing (ValueInfo_GetValueConsumers g output)) (\<lambda>consumers.
               case consumers of
                 [child_node] \<Rightarrow>
                   and_then (OperatorType g child_node) (\<lambda>child_type.
                     if child_type \<notin> set child_op_types then Inr None
                     else case um child_node of
                            None \<Rightarrow> Inr None
                          | Some child \<Rightarrow>
                              Inr (if gm child \<noteq> None then None else if unit_type child \<noteq> SingleNode then None else Some child))
               | _ \<Rightarrow> Inr None)))
       | _ \<Rightarrow> Inr None)"

primrec any_graph_output :: "('g) qdq_graph_scheme \<Rightarrow> valueinfo option list \<Rightarrow> bool result" where
  "any_graph_output g [] = Inr False"
| "any_graph_output g (p # ps) =
     and_then (nonnull p) (\<lambda>v. and_then (throwing (ValueInfo_IsGraphOutput g v)) (\<lambda>b. if b then Inr True else any_graph_output g ps))"

primrec parent_among ::
  "('g) qdq_graph_scheme \<Rightarrow> string list \<Rightarrow> node_unit_map \<Rightarrow> unit_groups \<Rightarrow> valueinfo option list \<Rightarrow> OrtNodeUnit option result" where
  "parent_among g parent_op_types um gm [] = Inr None"
| "parent_among g parent_op_types um gm (p # ps) =
     and_then (nonnull p) (\<lambda>v.
     and_then (throwing (ValueInfo_GetValueProducer g v)) (\<lambda>producer.
       case producer of
         None \<Rightarrow> parent_among g parent_op_types um gm ps
       | Some parent_node \<Rightarrow>
           and_then (throwing (Node_GetOutputs g parent_node)) (\<lambda>outputs.
           and_then (any_graph_output g outputs) (\<lambda>is_graph_output.
             if is_graph_output then Inr None
             else and_then (OperatorType g parent_node) (\<lambda>parent_type.
               if parent_type \<notin> set parent_op_types then parent_among g parent_op_types um gm ps
               else case um parent_node of
                      None \<Rightarrow> Inr None
                    | Some parent \<Rightarrow>
                        Inr (if gm parent \<noteq> None then None else if unit_type parent \<noteq> SingleNode then None else Some parent))))))"

definition GetParentOfType ::
  "('g) qdq_graph_scheme \<Rightarrow> OrtNodeUnit \<Rightarrow> string list \<Rightarrow> node_unit_map \<Rightarrow> unit_groups \<Rightarrow> OrtNodeUnit option result" where
  "GetParentOfType g child parent_op_types um gm =
     and_then (throwing (Node_GetInputs g (target_node child))) (parent_among g parent_op_types um gm)"

primrec first_named :: "('g) qdq_graph_scheme \<Rightarrow> string \<Rightarrow> valueinfo option list \<Rightarrow> valueinfo option result" where
  "first_named g name [] = Inr None"
| "first_named g name (p # ps) =
     and_then (nonnull p) (\<lambda>v. and_then (throwing (GetValueInfoName g v)) (\<lambda>n. if n = name then Inr (Some v) else first_named g name ps))"

primrec node_with_output :: "('g) qdq_graph_scheme \<Rightarrow> string \<Rightarrow> node list \<Rightarrow> node option result" where
  "node_with_output g name [] = Inr None"
| "node_with_output g name (n # ns) =
     and_then (throwing (Node_GetOutputs g n)) (\<lambda>outputs.
     and_then (first_named g name outputs) (\<lambda>v. if v \<noteq> None then Inr (Some n) else node_with_output g name ns))"

definition GetOnlyChildOfOutput ::
  "('g) qdq_graph_scheme \<Rightarrow> OrtNodeUnit \<Rightarrow> OrtIODef \<Rightarrow> node_unit_map \<Rightarrow> unit_groups \<Rightarrow> OrtNodeUnit option result" where
  "GetOnlyChildOfOutput g u output um gm =
     and_then (node_with_output g (io_name output) (GetAllNodesInGroup u)) (\<lambda>p.
       case p of
         None \<Rightarrow> Inr None
       | Some parent_node \<Rightarrow>
           and_then (throwing (Node_GetOutputs g parent_node)) (\<lambda>outputs.
           and_then (any_graph_output g outputs) (\<lambda>is_graph_output.
             if is_graph_output then Inr None
             else and_then (first_named g (io_name output) outputs) (\<lambda>found.
               case found of
                 None \<Rightarrow> Inr None
               | Some v \<Rightarrow>
                   and_then (throwing (ValueInfo_GetValueConsumers g v)) (\<lambda>consumers.
                     case consumers of
                       [child_node] \<Rightarrow>
                         Inr (case um child_node of None \<Rightarrow> None | Some child \<Rightarrow> if gm child \<noteq> None then None else Some child)
                     | _ \<Rightarrow> Inr None)))))"

primrec all_of_type :: "('g) qdq_graph_scheme \<Rightarrow> string \<Rightarrow> node_unit_map \<Rightarrow> node list \<Rightarrow> bool result" where
  "all_of_type g op_type um [] = Inr True"
| "all_of_type g op_type um (c # cs) =
     (case um c of
        None \<Rightarrow> Inr False
      | Some u \<Rightarrow> and_then (OpType g u) (\<lambda>t. if t \<noteq> op_type \<or> unit_type u \<noteq> SingleNode then Inr False else all_of_type g op_type um cs))"

definition ConsumersAreAllOfType ::
  "('g) qdq_graph_scheme \<Rightarrow> valueinfo option \<Rightarrow> string \<Rightarrow> node_unit_map \<Rightarrow> bool result" where
  "ConsumersAreAllOfType g p op_type um =
     and_then (nonnull p) (\<lambda>v.
     and_then (throwing (ValueInfo_IsGraphOutput g v)) (\<lambda>is_graph_output.
       if is_graph_output then Inr False
       else and_then (throwing (ValueInfo_GetValueConsumers g v)) (all_of_type g op_type um)))"

section \<open>HardSigmoid and Mul\<close>

definition req_alpha :: real where "req_alpha = 11184811 / 2 ^ 26"
definition req_beta :: real where "req_beta = 1 / 2"

text \<open>\<open>std::abs(x - r) > eps\<close>: false when \<open>x\<close> is NaN.\<close>

definition f_far :: "fval \<Rightarrow> real \<Rightarrow> real \<Rightarrow> bool" where
  "f_far x r eps = (case x of Num a \<Rightarrow> \<bar>a - r\<bar> > eps | NaN \<Rightarrow> False | _ \<Rightarrow> True)"

definition HardSigmoidMul_CreateOrValidateOnQnn ::
  "('g) named_graph_scheme \<Rightarrow> fusion_env \<Rightarrow> OrtNodeUnit \<Rightarrow> OrtNodeUnit \<Rightarrow> bool \<Rightarrow> QnnModelWrapper \<Rightarrow> unit result \<times> QnnModelWrapper" where
  "HardSigmoidMul_CreateOrValidateOnQnn g fe hardsigmoid mul validate s =
     then_s (unit_name g hardsigmoid s) (\<lambda>node_name s.
     then_s (and_then (unit_io g hardsigmoid) (\<lambda>io. vec_at (fst io) 0), s) (\<lambda>input_def s.
     then_s (and_then (unit_io g mul) (\<lambda>io. vec_at (snd io) 0), s) (\<lambda>output_def s.
     then_s (MakeTensorWrapper_io (fe_model fe) (wrapper_io fe input_def) s) (\<lambda>input_tensor s.
     then_s (MakeTensorWrapper_io (fe_model fe) (wrapper_io fe output_def) s) (\<lambda>output_tensor s.
       let operation_param = QnnParamWrapper_scalar (Node_GetId g (target_node hardsigmoid)) node_name ''operation''
             (Scalar_UInt32 (HARD_SWISH fe))
       in if validate then
            (and_then (QnnOpConfigWrapper_new node_name QTI_AISW ''ElementWiseNeuron'' [qnn_tensor input_tensor]
                [qnn_tensor output_tensor] [qnn_param operation_param]) (ValidateQnnNode (fe_model fe)), s)
          else
            then_s (AddParamWrapper operation_param s) (\<lambda>_ s.
            then_s (AddTensorWrapper (fe_model fe) input_tensor s) (\<lambda>_ s.
            then_s (AddTensorWrapper (fe_model fe) output_tensor s) (\<lambda>_ s.
              CreateQnnNode (fe_model fe) node_name QTI_AISW ''ElementWiseNeuron'' [io_name input_def] [io_name output_def]
                [pw_tensor_name operation_param] validate s))))))))"

definition same_root_input :: "('g) qdq_graph_scheme \<Rightarrow> OrtNodeUnit \<Rightarrow> OrtNodeUnit \<Rightarrow> bool result" where
  "same_root_input g hardsigmoid mul =
     and_then (unit_io g hardsigmoid) (\<lambda>(hs_inputs, _).
     and_then (vec_at hs_inputs 0) (\<lambda>root.
     and_then (unit_io g mul) (\<lambda>(mul_inputs, _).
     and_then (vec_at mul_inputs 0) (\<lambda>a.
       if io_name a = io_name root then Inr True
       else and_then (vec_at mul_inputs 1) (\<lambda>b. Inr (io_name b = io_name root))))))"

definition HardSigmoidMul_TryFusion :: "('g) named_graph_scheme \<Rightarrow> fusion_env \<Rightarrow> fusion" where
  "HardSigmoidMul_TryFusion g fe hardsigmoid um gm s =
     then_s (OpType g hardsigmoid, s) (\<lambda>op_type s.
       if op_type \<noteq> ''HardSigmoid'' \<or> unit_type hardsigmoid \<noteq> SingleNode then (Inr None, s)
       else
         (let alpha = Attr_float g (target_node hardsigmoid) ''alpha'' (Num (13421773 / 2 ^ 26));
              beta = Attr_float g (target_node hardsigmoid) ''beta'' (Num (1 / 2))
          in if f_far alpha req_alpha (req_alpha / 2 ^ 23) \<or> f_far beta req_beta (req_beta / 2 ^ 23) then (Inr None, s)
             else
               then_s (GetOnlyChildOfType g hardsigmoid [''Mul''] um gm, s) (\<lambda>child s.
                 case child of
                   None \<Rightarrow> (Inr None, s)
                 | Some mul \<Rightarrow>
                     then_s (same_root_input g hardsigmoid mul, s) (\<lambda>same s.
                       if \<not> same then (Inr None, s)
                       else then_s (succeeded (HardSigmoidMul_CreateOrValidateOnQnn g fe hardsigmoid mul True s)) (\<lambda>ok s.
                              (Inr (if ok then Some \<lparr>group_type = ''HardSigmoidMulFusion'', group_units = [hardsigmoid, mul],
                                                     group_target_unit = hardsigmoid\<rparr> else None), s))))))"

section \<open>Cast and Q\<close>

definition IsQnnConvertInputSupported :: "Qnn_DataType_t \<Rightarrow> bool" where
  "IsQnnConvertInputSupported data_type \<longleftrightarrow> data_type \<in> set
     [QNN_DATATYPE_FLOAT_16, QNN_DATATYPE_FLOAT_32, QNN_DATATYPE_BOOL_8, QNN_DATATYPE_UINT_8, QNN_DATATYPE_UFIXED_POINT_8,
      QNN_DATATYPE_SFIXED_POINT_8, QNN_DATATYPE_UFIXED_POINT_16, QNN_DATATYPE_SFIXED_POINT_16]"

definition add_io_tensor :: "fusion_env \<Rightarrow> OrtIODef \<Rightarrow> QnnModelWrapper \<Rightarrow> unit result \<times> QnnModelWrapper" where
  "add_io_tensor fe d s =
     then_s (GetTensorInfo (fe_model fe) (wrapper_io fe d) s) (\<lambda>info s.
     then_s (MakeTensorWrapper (fe_model fe) info (io_name d) s) (\<lambda>tensor s. AddTensorWrapper (fe_model fe) tensor s))"

definition CastLoneQ_CreateOrValidateOnQnn ::
  "('g) named_graph_scheme \<Rightarrow> fusion_env \<Rightarrow> OrtNodeUnit \<Rightarrow> OrtNodeUnit \<Rightarrow> bool \<Rightarrow> QnnModelWrapper \<Rightarrow> unit result \<times> QnnModelWrapper" where
  "CastLoneQ_CreateOrValidateOnQnn g fe cast quantize_linear validate s =
     then_s (and_then (unit_io g cast) (\<lambda>io. vec_at (fst io) 0), s) (\<lambda>input_def s.
     then_s (if IsQnnTensorWrapperExist s (io_name input_def) then (Inr (), s) else add_io_tensor fe input_def s) (\<lambda>_ s.
     then_s (and_then (unit_io g quantize_linear) (\<lambda>io. vec_at (snd io) 0), s) (\<lambda>output_def s.
     then_s (add_io_tensor fe output_def s) (\<lambda>_ s.
     then_s (throwing (Node_GetName g (target_node cast)), s) (\<lambda>name s.
       CreateQnnNode (fe_model fe) (name @ ''_ort_qnn_ep_convert'') QTI_AISW ''Convert'' [io_name input_def] [io_name output_def] []
         validate s)))))"

definition CastLoneQ_TryFusion :: "('g) named_graph_scheme \<Rightarrow> fusion_env \<Rightarrow> fusion" where
  "CastLoneQ_TryFusion g fe cast um gm s =
     then_s (OpType g cast, s) (\<lambda>op_type s.
       if op_type \<noteq> ''Cast'' \<or> unit_type cast \<noteq> SingleNode then (Inr None, s)
       else
         then_s (GetOnlyChildOfType g cast [''QuantizeLinear''] um gm, s) (\<lambda>quantize_linear s.
         then_s (GetParentOfType g cast [''DequantizeLinear''] um gm, s) (\<lambda>dequantize_linear s.
           case quantize_linear of
             None \<Rightarrow> (Inr None, s)
           | Some q \<Rightarrow>
               (if dequantize_linear \<noteq> None then (Inr None, s)
                else
                  then_s (and_then (unit_io g cast) (\<lambda>io. vec_at (fst io) 0), s) (\<lambda>input_def s.
                    if IsConstantInput (fe_model fe) s (io_name input_def) then (Inr None, s)
                    else
                      (case GetTensorInfo (fe_model fe) (wrapper_io fe input_def) s of
                         (Inl (Status_Fail _), s) \<Rightarrow> (Inr None, s)
                       | (Inl e, s) \<Rightarrow> (Inl e, s)
                       | (Inr info, s) \<Rightarrow>
                           (if \<not> IsQnnConvertInputSupported (ti_data_type info) then (Inr None, s)
                            else then_s (succeeded (CastLoneQ_CreateOrValidateOnQnn g fe cast q True s)) (\<lambda>ok s.
                                   (Inr (if ok then Some \<lparr>group_type = ''CastLoneQFusion'', group_units = [cast, q],
                                                          group_target_unit = cast\<rparr> else None), s)))))))))"

section \<open>DynamicQuantizeLinear and DQ\<close>

definition is_float32 :: "fusion_env \<Rightarrow> OrtIODef \<Rightarrow> QnnModelWrapper \<Rightarrow> bool result \<times> QnnModelWrapper" where
  "is_float32 fe d s =
     (case GetTensorInfo (fe_model fe) (wrapper_io fe d) s of
        (Inl (Status_Fail _), s) \<Rightarrow> (Inr False, s)
      | (Inl e, s) \<Rightarrow> (Inl e, s)
      | (Inr info, s) \<Rightarrow> (Inr (ti_data_type info = QNN_DATATYPE_FLOAT_32), s))"

definition only_consumer :: "('g) qdq_graph_scheme \<Rightarrow> valueinfo option \<Rightarrow> OrtNodeUnit \<Rightarrow> node_unit_map \<Rightarrow> bool result" where
  "only_consumer g p u um =
     and_then (nonnull p) (\<lambda>v.
     and_then (throwing (ValueInfo_GetValueConsumers g v)) (\<lambda>consumers.
       Inr (case consumers of [c] \<Rightarrow> um c = Some u | _ \<Rightarrow> False)))"

definition named_as :: "('g) qdq_graph_scheme \<Rightarrow> valueinfo option \<Rightarrow> OrtIODef \<Rightarrow> bool result" where
  "named_as g p d =
     (case p of None \<Rightarrow> Inr False | Some v \<Rightarrow> and_then (throwing (GetValueInfoName g v)) (\<lambda>n. Inr (n = io_name d)))"

definition DqlDq_outputs_ok ::
  "('g) qdq_graph_scheme \<Rightarrow> OrtNodeUnit \<Rightarrow> node_unit_map \<Rightarrow> bool result" where
  "DqlDq_outputs_ok g dql um =
     and_then (throwing (Node_GetOutputs g (target_node dql))) (\<lambda>dql_outs.
       if length dql_outs \<noteq> 3 then Inr False
       else check_then (ConsumersAreAllOfType g (dql_outs ! 0) ''DequantizeLinear'' um)
           (check_then (ConsumersAreAllOfType g (dql_outs ! 1) ''DequantizeLinear'' um)
              (ConsumersAreAllOfType g (dql_outs ! 2) ''DequantizeLinear'' um)))"

definition DqlDq_parameters_ok ::
  "('g) qdq_graph_scheme \<Rightarrow> OrtNodeUnit \<Rightarrow> OrtIODef list \<Rightarrow> OrtNodeUnit \<Rightarrow> node_unit_map \<Rightarrow> bool result" where
  "DqlDq_parameters_ok g dql dql_outputs dq um =
     and_then (throwing (Node_GetOutputs g (target_node dql))) (\<lambda>dql_outs.
     and_then (unit_io g dq) (\<lambda>(dq_inputs, dq_outputs).
       check_then (only_consumer g (dql_outs ! 1) dq um)
         (check_then (only_consumer g (dql_outs ! 2) dq um)
            (if length dq_inputs \<noteq> 1 \<or> length dq_outputs \<noteq> 1 then Inr False
             else if io_name (dq_inputs ! 0) \<noteq> io_name (dql_outputs ! 0) then Inr False
             else case io_quant_param (dq_inputs ! 0) of
                    None \<Rightarrow> Inr False
                  | Some quant_param \<Rightarrow>
                      check_then (named_as g (quant_scale quant_param) (dql_outputs ! 1))
                        (named_as g (quant_zero_point quant_param) (dql_outputs ! 2))))))"

definition DqlDq_CreateOrValidateOnQnn ::
  "('g) named_graph_scheme \<Rightarrow> fusion_env \<Rightarrow> OrtNodeUnit \<Rightarrow> OrtIODef \<Rightarrow> OrtIODef \<Rightarrow> bool \<Rightarrow> QnnModelWrapper
   \<Rightarrow> unit result \<times> QnnModelWrapper" where
  "DqlDq_CreateOrValidateOnQnn g fe dql input_def output_def validate s =
     then_s (GetTensorInfo (fe_model fe) (wrapper_io fe input_def) s) (\<lambda>info s.
       let shape = ti_shape info; rank = length shape; env = fe_model fe
       in if rank < 1 then (Inl (Status_Fail ''DQL input must have rank >= 1''), s)
          else
            then_s (unit_name g dql s) (\<lambda>node_name s.
            then_s (new_tensor env (io_name input_def) (if IsGraphInput env (io_name input_def) then QNN_TENSOR_TYPE_APP_WRITE
                else QNN_TENSOR_TYPE_NATIVE) QNN_DATATYPE_FLOAT_32 QnnQuantParamsWrapper_new shape [] s) (\<lambda>in_tw s.
            then_s (new_tensor env (io_name output_def) (if IsGraphOutput env (io_name output_def) then QNN_TENSOR_TYPE_APP_READ
                else QNN_TENSOR_TYPE_NATIVE) QNN_DATATYPE_FLOAT_32 QnnQuantParamsWrapper_new shape [] s) (\<lambda>out_tw s.
            then_s (QnnParamWrapper_u32 (Node_GetId g (target_node dql)) node_name ''perm'' [rank] (map of_nat [0..<rank]) False, s)
              (\<lambda>perm_param s.
                if validate then
                  (and_then (QnnOpConfigWrapper_new node_name QTI_AISW ''Transpose'' [qnn_tensor in_tw] [qnn_tensor out_tw]
                      [qnn_param perm_param]) (ValidateQnnNode env), s)
                else
                  then_s (if IsQnnTensorWrapperExist s (io_name input_def) then (Inr (), s) else AddTensorWrapper env in_tw s) (\<lambda>_ s.
                  then_s (AddTensorWrapper env out_tw s) (\<lambda>_ s.
                  then_s (case AddParamWrapper perm_param s of (Inl (Status_Fail _), s) \<Rightarrow> (Inr (), s) | r \<Rightarrow> r) (\<lambda>_ s.
                    CreateQnnNode env node_name QTI_AISW ''Transpose'' [io_name input_def] [io_name output_def]
                      [pw_tensor_name perm_param] False s))))))))"

definition DqlDq_TryFusion :: "('g) named_graph_scheme \<Rightarrow> fusion_env \<Rightarrow> fusion" where
  "DqlDq_TryFusion g fe dql um gm s =
     then_s (OpType g dql, s) (\<lambda>op_type s.
       if op_type \<noteq> ''DynamicQuantizeLinear'' \<or> unit_type dql \<noteq> SingleNode then (Inr None, s)
       else
         then_s (unit_io g dql, s) (\<lambda>(dql_inputs, dql_outputs) s.
           if length dql_inputs \<noteq> 1 \<or> length dql_outputs \<noteq> 3 then (Inr None, s)
           else
             then_s (is_float32 fe (dql_inputs ! 0) s) (\<lambda>input_ok s. if \<not> input_ok then (Inr None, s) else
             then_s (DqlDq_outputs_ok g dql um, s) (\<lambda>outputs_ok s. if \<not> outputs_ok then (Inr None, s) else
             then_s (GetOnlyChildOfOutput g dql (dql_outputs ! 0) um gm, s) (\<lambda>child s.
               case child of
                 None \<Rightarrow> (Inr None, s)
               | Some dq \<Rightarrow>
                   then_s (OpType g dq, s) (\<lambda>dq_type s.
                     if dq_type \<noteq> ''DequantizeLinear'' \<or> unit_type dq \<noteq> SingleNode then (Inr None, s)
                     else
                       then_s (DqlDq_parameters_ok g dql dql_outputs dq um, s) (\<lambda>parameters_ok s. if \<not> parameters_ok then (Inr None, s) else
                       then_s (unit_io g dq, s) (\<lambda>(_, dq_outputs) s.
                       then_s (is_float32 fe (dq_outputs ! 0) s) (\<lambda>output_ok s. if \<not> output_ok then (Inr None, s) else
                       then_s (succeeded (DqlDq_CreateOrValidateOnQnn g fe dql (dql_inputs ! 0) (dq_outputs ! 0) True s)) (\<lambda>ok s.
                         (Inr (if ok then Some \<lparr>group_type = ''DqlDqFusion'', group_units = [dql, dq], group_target_unit = dql\<rparr>
                               else None), s)))))))))))"

section \<open>Grouping\<close>

text \<open>The table of fusions; \<open>other\<close> gives the functions that are not modelled, by name.\<close>

definition default_fusions :: "('g) named_graph_scheme \<Rightarrow> fusion_env \<Rightarrow> (string \<Rightarrow> fusion) \<Rightarrow> (string \<times> fusion list) list" where
  "default_fusions g fe other =
     [(''DequantizeLinear'', [other ''DQQFusion::TryFusion'']),
      (''DynamicQuantizeLinear'', [DqlDq_TryFusion g fe]),
      (''MatMulInteger'', [other ''DQMatMulIntegerFusion::TryFusion'']),
      (''ConvInteger'', [other ''DQConvIntegerFusion::TryFusion'']),
      (''Gather'', [other ''GatherTransposeReshapeFusion::TryFusion'']),
      (''HardSigmoid'', [HardSigmoidMul_TryFusion g fe]),
      (''MatMul'', [other ''LowPowerBlockQuantizedMatMulFusion::TryFusion'']),
      (''Gemm'', map other [''LowPowerBlockQuantizedGemmFusion::TryFusion'', ''ReshapeGemmFusionGroup::TryFusion4'',
         ''ReshapeGemmFusionGroup::TryFusion3'', ''ReshapeGemmFusionGroup::TryFusion2'']),
      (''Mul'', [other ''ScaleSoftmaxFusion::TryFusion'']),
      (''Cast'', [CastLoneQ_TryFusion g fe]),
      (''Erf'', [other ''GeluFusion::TryFusion'']),
      (''Tanh'', [other ''TanhGeluFusion::TryFusion'']),
      (''ReduceMean'', map other [''LayerNormFusion::TryFusionFull'', ''LayerNormFusion::TryFusionGammaOnly'',
         ''LayerNormFusion::TryFusionCoreOnly'']),
      (''ReduceL2'', [other ''L2NormFusion::TryFusion'']),
      (''Einsum'', [other ''ReshapeEinsumReshapeNodeGroup::TryFusion'']),
      (''Reshape'', map other [''SpaceToDepthFusion::TryFusion'', ''ChannelShuffleFusion::TryFusionFromReshape'',
         ''Rank6ToRank5Fusion::TryFusion'', ''ReshapeTransposeFusion::TryFusion'', ''Rank5ToRank4Fusion::TryFusion'']),
      (''Concat'', [other ''SliceConcatSpaceToDepthFusion::TryFusion'']),
      (''SequenceConstruct'', [other ''SequenceAtFusion::TryFusion'']),
      (''Transpose'', map other [''ChannelShuffleFusion::TryFusion'', ''TransposeReshapeTransposeFusion::TryFusion''])]"

definition registerUDO :: "string \<Rightarrow> fusion \<Rightarrow> (string \<times> fusion list) list \<Rightarrow> (string \<times> fusion list) list" where
  "registerUDO node_type bound_function fusions = assign node_type [bound_function] fusions"

fun try_each ::
  "fusion list \<Rightarrow> OrtNodeUnit \<Rightarrow> node_unit_map \<Rightarrow> unit_groups \<Rightarrow> QnnModelWrapper \<Rightarrow> node_group option result \<times> QnnModelWrapper" where
  "try_each [] u um gm s = (Inr None, s)"
| "try_each (f # fs) u um gm s =
     then_s (f u um gm s) (\<lambda>fused s. if fused \<noteq> None then (Inr fused, s) else try_each fs u um gm s)"

definition TryQnnFusions ::
  "('g) qdq_graph_scheme \<Rightarrow> (string \<times> fusion list) list \<Rightarrow> OrtNodeUnit \<Rightarrow> node_unit_map \<Rightarrow> unit_groups \<Rightarrow> QnnModelWrapper
   \<Rightarrow> node_group option result \<times> QnnModelWrapper" where
  "TryQnnFusions g fusions u um gm s =
     then_s (OpType g u, s) (\<lambda>op_type s.
       if unit_type u \<noteq> SingleNode
          \<and> op_type \<notin> set [''Gather'', ''MatMul'', ''Gemm'', ''Erf'', ''Tanh'', ''Reshape'', ''Concat'']
       then (Inr None, s)
       else case map_of fusions op_type of None \<Rightarrow> (Inr None, s) | Some fs \<Rightarrow> try_each fs u um gm s)"

primrec affinity_accepts :: "('g) qdq_graph_scheme \<Rightarrow> fusion_env \<Rightarrow> OrtNodeUnit list \<Rightarrow> bool result" where
  "affinity_accepts g fe [] = Inr True"
| "affinity_accepts g fe (u # us) =
     and_then (OpType g u) (\<lambda>t.
       if Evaluate (fe_affinity fe) t (qnn_backend_type (fe_model fe)) \<noteq> Inr () then Inr False else affinity_accepts g fe us)"

record grouping =
  qnn_node_groups :: "node_group list"
  node_unit_to_qnn_node_group :: unit_groups
  sorted_node_units :: "OrtNodeUnit list"

definition add_fused_group :: "node_group \<Rightarrow> grouping \<Rightarrow> grouping" where
  "add_fused_group grp k =
     k\<lparr>qnn_node_groups := qnn_node_groups k @ [grp],
       node_unit_to_qnn_node_group :=
         fold (\<lambda>u gm. if gm u = None then gm(u \<mapsto> length (qnn_node_groups k)) else gm) (group_units grp) (node_unit_to_qnn_node_group k)\<rparr>"

definition visit_unit ::
  "('g) qdq_graph_scheme \<Rightarrow> fusion_env \<Rightarrow> (string \<times> fusion list) list \<Rightarrow> node_unit_map \<Rightarrow> OrtNodeUnit \<Rightarrow> grouping \<Rightarrow> QnnModelWrapper
   \<Rightarrow> grouping result \<times> QnnModelWrapper" where
  "visit_unit g fe fusions um u k s =
     (let k = k\<lparr>sorted_node_units := sorted_node_units k @ [u]\<rparr>
      in if node_unit_to_qnn_node_group k u \<noteq> None then (Inr k, s)
         else
           then_s (TryQnnFusions g fusions u um (node_unit_to_qnn_node_group k) s) (\<lambda>fused s.
             case fused of
               None \<Rightarrow> (Inr k, s)
             | Some grp \<Rightarrow>
                 then_s (affinity_accepts g fe (group_units grp), s) (\<lambda>ok s.
                   (Inr (if ok then add_fused_group grp k else k), s))))"

primrec visit_nodes ::
  "('g) qdq_graph_scheme \<Rightarrow> fusion_env \<Rightarrow> (string \<times> fusion list) list \<Rightarrow> node_unit_map \<Rightarrow> node list \<Rightarrow> grouping \<Rightarrow> QnnModelWrapper
   \<Rightarrow> grouping result \<times> QnnModelWrapper" where
  "visit_nodes g fe fusions um [] k s = (Inr k, s)"
| "visit_nodes g fe fusions um (n # ns) k s =
     (case um n of
        None \<Rightarrow> (Inl (Status_Fail ''Could not find NodeUnit for Node.''), s)
      | Some u \<Rightarrow>
          (if n \<noteq> target_node u then visit_nodes g fe fusions um ns k s
           else then_s (visit_unit g fe fusions um u k s) (\<lambda>k s. visit_nodes g fe fusions um ns k s)))"

definition QnnNodeUnitWrapper :: "OrtNodeUnit \<Rightarrow> node_group" where
  "QnnNodeUnitWrapper u = \<lparr>group_type = ''OrtNodeUnit'', group_units = [u], group_target_unit = u\<rparr>"

primrec place_units :: "OrtNodeUnit list \<Rightarrow> node_group list \<times> unit_groups \<times> nat list \<Rightarrow> node_group list \<times> unit_groups \<times> nat list" where
  "place_units [] st = st"
| "place_units (u # us) st =
     (case st of (groups, gm, indices) \<Rightarrow>
        place_units us
          (case gm u of
             Some i \<Rightarrow> (groups, gm, if u = group_target_unit (groups ! i) then indices @ [i] else indices)
           | None \<Rightarrow> (groups @ [QnnNodeUnitWrapper u], gm(u \<mapsto> length groups), indices @ [length groups])))"

definition GetQnnNodeGroupsImpl ::
  "('g) qdq_graph_scheme \<Rightarrow> fusion_env \<Rightarrow> (string \<times> fusion list) list \<Rightarrow> node_unit_map \<Rightarrow> QnnModelWrapper
   \<Rightarrow> (node_group list \<times> nat list) result \<times> QnnModelWrapper" where
  "GetQnnNodeGroupsImpl g fe fusions um s =
     then_s (Graph_GetNodes g, s) (\<lambda>nodes s.
     then_s (visit_nodes g fe fusions um nodes
         \<lparr>qnn_node_groups = [], node_unit_to_qnn_node_group = Map.empty, sorted_node_units = []\<rparr> s) (\<lambda>k s.
       let (groups, gm, indices) = place_units (sorted_node_units k) (qnn_node_groups k, node_unit_to_qnn_node_group k, [])
       in (Inr (groups, indices), s)))"

definition GetQnnNodeGroups ::
  "('g) qdq_graph_scheme \<Rightarrow> fusion_env \<Rightarrow> (string \<times> fusion list) list \<Rightarrow> node_unit_map \<Rightarrow> QnnModelWrapper
   \<Rightarrow> node_group list result \<times> QnnModelWrapper" where
  "GetQnnNodeGroups g fe fusions um s =
     then_s (GetQnnNodeGroupsImpl g fe fusions um s) (\<lambda>(groups, indices) s. (Inr (map (\<lambda>i. groups ! i) indices), s))"

end
