(* ===== verification/Group_Order.thy ===== *)
theory Group_Order
  imports Node_Groups
begin

text \<open>
  What grouping guarantees, given a contract for the fusions: every unit is in exactly one group, no group is lost, and the
  groups come in an order in which every group follows the groups that compute its inputs.
\<close>

section \<open>The contract of a fusion\<close>

text \<open>
  A fused group consists of distinct units of the graph that are in no group yet, and its target is one of them.
\<close>

definition group_ok :: "node_unit_map \<Rightarrow> unit_groups \<Rightarrow> node_group \<Rightarrow> bool" where
  "group_ok um gm grp \<longleftrightarrow>
     distinct (group_units grp) \<and> group_target_unit grp \<in> set (group_units grp)
     \<and> (\<forall>u \<in> set (group_units grp). um (target_node u) = Some u \<and> gm u = None)"

text \<open>
  The order of emission: an edge into the group comes from a unit before the target of the group, and an edge out of the group
  leaves a unit that is not before the target.
\<close>

definition unit_edge :: "('g) qdq_graph_scheme \<Rightarrow> node_unit_map \<Rightarrow> OrtNodeUnit \<Rightarrow> OrtNodeUnit \<Rightarrow> bool" where
  "unit_edge g um u v \<longleftrightarrow> (\<exists>x \<in> set (GetOutputNodes (base g) u). um x = Some v)"

definition group_convex :: "('g) qdq_graph_scheme \<Rightarrow> node_unit_map \<Rightarrow> (node \<Rightarrow> nat) \<Rightarrow> node_group \<Rightarrow> bool" where
  "group_convex g um rank grp \<longleftrightarrow>
     (\<forall>p v. um (target_node p) = Some p \<longrightarrow> p \<notin> set (group_units grp) \<longrightarrow> v \<in> set (group_units grp) \<longrightarrow> unit_edge g um p v \<longrightarrow>
        rank (target_node p) < rank (target_node (group_target_unit grp)))
     \<and> (\<forall>v w. v \<in> set (group_units grp) \<longrightarrow> w \<notin> set (group_units grp) \<longrightarrow> unit_edge g um v w \<longrightarrow>
        rank (target_node (group_target_unit grp)) \<le> rank (target_node v))"

definition fusion_ok :: "('g) qdq_graph_scheme \<Rightarrow> node_unit_map \<Rightarrow> (node \<Rightarrow> nat) \<Rightarrow> fusion \<Rightarrow> bool" where
  "fusion_ok g um rank f \<longleftrightarrow>
     (\<forall>u gm s grp s'. um (target_node u) = Some u \<longrightarrow> gm u = None \<longrightarrow> f u um gm s = (Inr (Some grp), s') \<longrightarrow>
        group_ok um gm grp \<and> group_convex g um rank grp)"

definition table_ok :: "('g) qdq_graph_scheme \<Rightarrow> node_unit_map \<Rightarrow> (node \<Rightarrow> nat) \<Rightarrow> (string \<times> fusion list) list \<Rightarrow> bool" where
  "table_ok g um rank fusions \<longleftrightarrow> (\<forall>(op, fs) \<in> set fusions. \<forall>f \<in> set fs. fusion_ok g um rank f)"

lemma fusion_okD:
  assumes "fusion_ok g um rank f" "um (target_node u) = Some u" "gm u = None" "f u um gm s = (Inr (Some grp), s')"
  shows "group_ok um gm grp \<and> group_convex g um rank grp"
  using assms unfolding fusion_ok_def by blast

lemma try_each_ok:
  assumes "\<forall>f \<in> set fs. fusion_ok g um rank f" "um (target_node u) = Some u" "gm u = None"
    and "try_each fs u um gm s = (Inr (Some grp), s')"
  shows "group_ok um gm grp \<and> group_convex g um rank grp"
  using assms(1,4)
proof (induction fs arbitrary: s)
  case (Cons f fs)
  obtain r s1 where r: "f u um gm s = (r, s1)" by fastforce
  show ?case
  proof (cases r)
    case (Inr fused)
    show ?thesis
    proof (cases fused)
      case None
      then show ?thesis using Cons r Inr by (simp add: then_s_def)
    next
      case (Some x)
      then have "f u um gm s = (Inr (Some grp), s1)" using Cons.prems(2) r Inr by (simp add: then_s_def)
      moreover have "fusion_ok g um rank f" using Cons.prems(1) by simp
      ultimately show ?thesis using fusion_okD [where f = f and u = u and gm = gm and um = um] assms(2,3) by blast
    qed
  qed (use Cons r in \<open>simp add: then_s_def\<close>)
qed simp

lemma TryQnnFusions_ok:
  assumes t: "table_ok g um rank fusions" and u: "um (target_node u) = Some u" "gm u = None"
    and r: "TryQnnFusions g fusions u um gm s = (Inr (Some grp), s')"
  shows "group_ok um gm grp \<and> group_convex g um rank grp"
proof -
  obtain op fs where fs: "map_of fusions op = Some fs" "try_each fs u um gm s = (Inr (Some grp), s')"
    using r by (auto simp: TryQnnFusions_def then_s_def split: sum.splits if_splits option.splits)
  have "\<forall>f \<in> set fs. fusion_ok g um rank f" using t map_of_SomeD [OF fs(1)] by (auto simp: table_ok_def)
  then show ?thesis using try_each_ok u fs(2) by blast
qed

section \<open>Fusing\<close>

text \<open>The invariant of the first loop: the map says exactly in which group a unit is.\<close>

definition grouping_ok :: "('g) qdq_graph_scheme \<Rightarrow> node_unit_map \<Rightarrow> (node \<Rightarrow> nat) \<Rightarrow> node_group list \<Rightarrow> unit_groups \<Rightarrow> bool" where
  "grouping_ok g um rank gs gm \<longleftrightarrow>
     (\<forall>i < length gs. group_ok um Map.empty (gs ! i) \<and> group_convex g um rank (gs ! i))
     \<and> (\<forall>u i. gm u = Some i \<longleftrightarrow> i < length gs \<and> u \<in> set (group_units (gs ! i)))"

lemma fold_insert_new:
  "(\<forall>u \<in> set us. gm u = None) \<Longrightarrow>
     fold (\<lambda>u gm. if gm u = None then gm(u \<mapsto> k) else gm) us gm = (\<lambda>u. if u \<in> set us then Some k else gm u)"
proof (induction us arbitrary: gm)
  case (Cons u us)
  have *: "fold (\<lambda>u gm. if gm u = None then gm(u \<mapsto> k) else gm) us gm' = (\<lambda>u. if gm' u = None \<and> u \<in> set us then Some k else gm' u)"
    for us gm' by (induction us arbitrary: gm') (auto simp: fun_eq_iff)
  show ?case using Cons.prems by (simp add: * fun_eq_iff) auto
qed simp

lemma add_fused_group_ok:
  assumes k: "grouping_ok g um rank (qnn_node_groups k) (node_unit_to_qnn_node_group k)"
    and grp: "group_ok um (node_unit_to_qnn_node_group k) grp" "group_convex g um rank grp"
  shows "grouping_ok g um rank (qnn_node_groups (add_fused_group grp k)) (node_unit_to_qnn_node_group (add_fused_group grp k))"
proof -
  have new: "\<forall>u \<in> set (group_units grp). node_unit_to_qnn_node_group k u = None" using grp(1) by (simp add: group_ok_def)
  have "group_ok um Map.empty grp" using grp(1) by (simp add: group_ok_def)
  moreover have "u \<notin> set (group_units (qnn_node_groups k ! i))" if "u \<in> set (group_units grp)" "i < length (qnn_node_groups k)" for u i
    using new k that unfolding grouping_ok_def by fastforce
  ultimately show ?thesis
    using k grp(2) new unfolding grouping_ok_def add_fused_group_def
    by (auto simp: fold_insert_new nth_append less_Suc_eq)
qed

lemma visit_unit_ok:
  assumes t: "table_ok g um rank fusions" and u: "um (target_node u) = Some u"
    and k: "grouping_ok g um rank (qnn_node_groups k) (node_unit_to_qnn_node_group k)"
    and r: "visit_unit g fe fusions um u k s = (Inr k', s')"
  shows "grouping_ok g um rank (qnn_node_groups k') (node_unit_to_qnn_node_group k') \<and> sorted_node_units k' = sorted_node_units k @ [u]"
proof -
  let ?k = "k\<lparr>sorted_node_units := sorted_node_units k @ [u]\<rparr>"
  have ok: "grouping_ok g um rank (qnn_node_groups ?k) (node_unit_to_qnn_node_group ?k)" using k by simp
  consider "k' = ?k"
    | grp s1 where "node_unit_to_qnn_node_group ?k u = None"
        "TryQnnFusions g fusions u um (node_unit_to_qnn_node_group ?k) s = (Inr (Some grp), s1)" "k' = add_fused_group grp ?k"
  proof (cases "node_unit_to_qnn_node_group ?k u = None")
    case False
    then show ?thesis using r that(1) by (simp add: visit_unit_def)
  next
    case True
    obtain x s1 where x: "TryQnnFusions g fusions u um (node_unit_to_qnn_node_group ?k) s = (x, s1)" by fastforce
    then have r': "then_s (x, s1) (\<lambda>fused s. case fused of None \<Rightarrow> (Inr ?k, s) | Some grp \<Rightarrow>
        then_s (affinity_accepts g fe (group_units grp), s) (\<lambda>ok s. (Inr (if ok then add_fused_group grp ?k else ?k), s))) = (Inr k', s')"
      using r True unfolding visit_unit_def Let_def by simp
    show ?thesis
    proof (cases x)
      case (Inr fused)
      show ?thesis
      proof (cases fused)
        case None
        then show ?thesis using r' Inr that(1) by (simp add: then_s_def)
      next
        case (Some grp)
        show ?thesis
        proof (cases "affinity_accepts g fe (group_units grp)")
          case (Inr ok)
          then have "k' = (if ok then add_fused_group grp ?k else ?k)" using r' \<open>x = Inr fused\<close> Some by (simp add: then_s_def)
          then show ?thesis using that(1) that(2) [OF True] x \<open>x = Inr fused\<close> Some by (cases ok) simp_all
        qed (use r' Inr Some in \<open>simp add: then_s_def\<close>)
      qed
    qed (use r' in \<open>simp add: then_s_def\<close>)
  qed
  then show ?thesis
  proof cases
    case (2 grp s1)
    have "group_ok um (node_unit_to_qnn_node_group ?k) grp" "group_convex g um rank grp"
      using TryQnnFusions_ok [OF t u 2(1,2)] by simp_all
    from add_fused_group_ok [OF ok this] show ?thesis unfolding 2(3) by (simp add: add_fused_group_def)
  qed (use ok in simp)
qed

lemma visit_nodes_ok:
  assumes t: "table_ok g um rank fusions" and um: "\<And>n u. um n = Some u \<Longrightarrow> um (target_node u) = Some u"
  shows "grouping_ok g um rank (qnn_node_groups k) (node_unit_to_qnn_node_group k) \<Longrightarrow>
    visit_nodes g fe fusions um ns k s = (Inr k', s') \<Longrightarrow>
    grouping_ok g um rank (qnn_node_groups k') (node_unit_to_qnn_node_group k')
    \<and> sorted_node_units k' = sorted_node_units k @ map (unit_of um) (unit_targets um ns)"
proof (induction ns arbitrary: k s)
  case (Cons n ns)
  obtain u where u: "um n = Some u" using Cons.prems(2) by (cases "um n") auto
  show ?case
  proof (cases "n = target_node u")
    case False
    then show ?thesis using Cons u by (auto simp: unit_targets_def)
  next
    case True
    obtain k1 s1 where k1: "visit_unit g fe fusions um u k s = (Inr k1, s1)" "visit_nodes g fe fusions um ns k1 s1 = (Inr k', s')"
      using Cons.prems(2) u True by (auto simp: then_s_def split: sum.splits prod.splits)
    have u': "um (target_node u) = Some u" using um [OF u] .
    have 1: "grouping_ok g um rank (qnn_node_groups k1) (node_unit_to_qnn_node_group k1)" "sorted_node_units k1 = sorted_node_units k @ [u]"
      using visit_unit_ok [OF t u' Cons.prems(1) k1(1)] by blast+
    show ?thesis using Cons.IH [OF 1(1) k1(2)] 1(2) u True by (simp add: unit_targets_def unit_of_def)
  qed
qed (simp add: unit_targets_def)

section \<open>Placing\<close>

text \<open>What the second loop emits for a unit.\<close>

definition emitted :: "node_group list \<Rightarrow> unit_groups \<Rightarrow> OrtNodeUnit \<Rightarrow> node_group list" where
  "emitted gs gm u =
     (case gm u of None \<Rightarrow> [QnnNodeUnitWrapper u] | Some i \<Rightarrow> if u = group_target_unit (gs ! i) then [gs ! i] else [])"

lemma place_units_eq:
  assumes "distinct us" "\<forall>u i. gm u = Some i \<longrightarrow> i < length gs" "\<forall>i \<in> set is. i < length gs"
    and "place_units us (gs, gm, is) = (gs', gm', is')"
  shows "map (\<lambda>i. gs' ! i) is' = map (\<lambda>i. gs ! i) is @ concat (map (emitted gs gm) us) \<and> (\<exists>more. gs' = gs @ more)"
  using assms
proof (induction us arbitrary: gs gm "is")
  case (Cons u us)
  show ?case
  proof (cases "gm u")
    case (Some i)
    let ?is = "if u = group_target_unit (gs ! i) then is @ [i] else is"
    have i: "i < length gs" using Cons.prems(2) Some by blast
    have "map (\<lambda>i. gs' ! i) is' = map (\<lambda>i. gs ! i) ?is @ concat (map (emitted gs gm) us) \<and> (\<exists>more. gs' = gs @ more)"
    proof (rule Cons.IH)
      show "distinct us" "\<forall>u i. gm u = Some i \<longrightarrow> i < length gs" using Cons.prems(1,2) by simp_all
      show "\<forall>j \<in> set ?is. j < length gs" using Cons.prems(3) i by simp
      show "place_units us (gs, gm, ?is) = (gs', gm', is')" using Cons.prems(4) Some by simp
    qed
    moreover have "emitted gs gm u = (if u = group_target_unit (gs ! i) then [gs ! i] else [])" by (simp add: emitted_def Some)
    ultimately show ?thesis by (cases "u = group_target_unit (gs ! i)") simp_all
  next
    case None
    let ?gs = "gs @ [QnnNodeUnitWrapper u]" and ?gm = "gm(u \<mapsto> length gs)"
    have IH: "map (\<lambda>i. gs' ! i) is' = map (\<lambda>i. ?gs ! i) (is @ [length gs]) @ concat (map (emitted ?gs ?gm) us) \<and> (\<exists>more. gs' = ?gs @ more)"
    proof (rule Cons.IH)
      show "place_units us (?gs, ?gm, is @ [length gs]) = (gs', gm', is')" using Cons.prems(4) None by simp
      show "distinct us" using Cons.prems(1) by simp
      show "\<forall>v i. ?gm v = Some i \<longrightarrow> i < length ?gs" using Cons.prems(2) by (simp add: less_Suc_eq)
      show "\<forall>i \<in> set (is @ [length gs]). i < length ?gs" using Cons.prems(3) by (simp add: less_Suc_eq)
    qed
    have "emitted ?gs ?gm v = emitted gs gm v" if v: "v \<in> set us" for v
    proof -
      have "v \<noteq> u" using v Cons.prems(1) by auto
      then show ?thesis
      proof (cases "gm v")
        case (Some i)
        have "i < length gs" using Cons.prems(2) Some by blast
        then show ?thesis using Some \<open>v \<noteq> u\<close> by (simp add: emitted_def nth_append)
      qed (simp add: emitted_def)
    qed
    then have es: "map (emitted ?gs ?gm) us = map (emitted gs gm) us" by simp
    have is_eq: "map (\<lambda>i. ?gs ! i) is = map (\<lambda>i. gs ! i) is" using Cons.prems(3) by (simp add: nth_append)
    have "concat (map (emitted gs gm) (u # us)) = QnnNodeUnitWrapper u # concat (map (emitted gs gm) us)"
      by (simp add: emitted_def [of gs gm u] None)
    then show ?thesis using IH unfolding es map_append is_eq by auto
  qed
qed simp

section \<open>The groups\<close>

text \<open>The units in the order in which they are visited.\<close>

definition visited :: "node_unit_map \<Rightarrow> node list \<Rightarrow> OrtNodeUnit list" where
  "visited um ns = map (unit_of um) (unit_targets um ns)"

lemma visited_units:
  assumes "units_cover ns holder um" "distinct ns"
  shows "distinct (visited um ns)" "set (visited um ns) = set holder" "u \<in> set holder \<longleftrightarrow> um (target_node u) = Some u"
    "map target_node (visited um ns) = unit_targets um ns"
proof -
  have t: "target_node (unit_of um n) = n" if "n \<in> set (unit_targets um ns)" for n
    using that by (auto simp: unit_targets_def unit_of_def split: option.splits)
  then show m: "map target_node (visited um ns) = unit_targets um ns" by (simp add: visited_def map_idI)
  have "distinct (unit_targets um ns)" using assms(2) by (simp add: unit_targets_def)
  then show "distinct (visited um ns)" unfolding m [symmetric] distinct_map by blast
  show iff: "u \<in> set holder \<longleftrightarrow> um (target_node u) = Some u" for u
    using assms(1) unfolding units_cover_def by blast
  have "u \<in> set (visited um ns) \<longleftrightarrow> um (target_node u) = Some u" for u
  proof
    assume "u \<in> set (visited um ns)"
    then show "um (target_node u) = Some u" by (auto simp: visited_def unit_targets_def unit_of_def split: option.splits)
  next
    assume u: "um (target_node u) = Some u"
    then have "target_node u \<in> set ns" using assms(1) by (auto simp: units_cover_def)
    then have "target_node u \<in> set (unit_targets um ns)" using u by (simp add: unit_targets_def)
    moreover have "unit_of um (target_node u) = u" using u by (simp add: unit_of_def)
    ultimately show "u \<in> set (visited um ns)" by (force simp: visited_def)
  qed
  then show "set (visited um ns) = set holder" using iff by blast
qed

lemma GetQnnNodeGroups_result:
  assumes c: "units_cover ns holder um" and ns: "Graph_GetNodes g = Inr ns" "distinct ns" and t: "table_ok g um rank fusions"
    and r: "GetQnnNodeGroups g fe fusions um s = (Inr res, s')"
  obtains gs gm where "grouping_ok g um rank gs gm" "res = concat (map (emitted gs gm) (visited um ns))"
proof -
  let ?k0 = "\<lparr>qnn_node_groups = [], node_unit_to_qnn_node_group = Map.empty, sorted_node_units = []\<rparr>"
  obtain k s1 gs' gm' is' where k: "visit_nodes g fe fusions um ns ?k0 s = (Inr k, s1)"
    "place_units (sorted_node_units k) (qnn_node_groups k, node_unit_to_qnn_node_group k, []) = (gs', gm', is')"
    "res = map (\<lambda>i. gs' ! i) is'"
    using r ns(1) by (auto simp: GetQnnNodeGroups_def GetQnnNodeGroupsImpl_def then_s_def split: sum.splits prod.splits)
  have um: "um (target_node u) = Some u" if "um n = Some u" for n u
    using c that visited_units(3) [OF c ns(2)] unfolding units_cover_def by blast
  have "grouping_ok g um rank (qnn_node_groups ?k0) (node_unit_to_qnn_node_group ?k0)" by (simp add: grouping_ok_def)
  from visit_nodes_ok [OF t um this k(1)]
  have ok: "grouping_ok g um rank (qnn_node_groups k) (node_unit_to_qnn_node_group k)" and us: "sorted_node_units k = visited um ns"
    by (simp_all add: visited_def)
  have "map (\<lambda>i. gs' ! i) is' = map (\<lambda>i. qnn_node_groups k ! i) [] @ concat (map (emitted (qnn_node_groups k) (node_unit_to_qnn_node_group k)) (visited um ns))
      \<and> (\<exists>more. gs' = qnn_node_groups k @ more)"
    by (rule place_units_eq [OF visited_units(1) [OF c ns(2)] _ _ k(2) [unfolded us]]) (use ok in \<open>auto simp: grouping_ok_def\<close>)
  then show thesis using that [OF ok] k(3) by simp
qed

lemma distinct_concat_map:
  "distinct us \<Longrightarrow> (\<And>u. u \<in> set us \<Longrightarrow> distinct (E u)) \<Longrightarrow>
     (\<And>u v. u \<in> set us \<Longrightarrow> v \<in> set us \<Longrightarrow> u \<noteq> v \<Longrightarrow> set (E u) \<inter> set (E v) = {}) \<Longrightarrow> distinct (concat (map E us))"
proof (induction us)
  case (Cons u us)
  have "set (E u) \<inter> set (concat (map E us)) = {}"
  proof -
    have "set (E u) \<inter> set (E v) = {}" if "v \<in> set us" for v
      using Cons.prems(1) that by (intro Cons.prems(3)) auto
    then show ?thesis by auto
  qed
  moreover have "distinct (concat (map E us))" using Cons by simp
  ultimately show ?case using Cons.prems(2) [of u] by simp
qed simp

text \<open>The units of what is emitted.\<close>

definition emitted_units :: "node_group list \<Rightarrow> unit_groups \<Rightarrow> OrtNodeUnit \<Rightarrow> OrtNodeUnit list" where
  "emitted_units gs gm u = concat (map group_units (emitted gs gm u))"

lemma emitted_units_eq:
  "emitted_units gs gm u =
     (case gm u of None \<Rightarrow> [u] | Some i \<Rightarrow> if u = group_target_unit (gs ! i) then group_units (gs ! i) else [])"
  by (simp add: emitted_units_def emitted_def QnnNodeUnitWrapper_def split: option.split)

lemma concat_emitted: "concat (map group_units (concat (map (emitted gs gm) us))) = concat (map (emitted_units gs gm) us)"
  by (induction us) (simp_all add: emitted_units_def)

lemma grouping_okD:
  assumes "grouping_ok g um rank gs gm" "gm u = Some i"
  shows "i < length gs" "u \<in> set (group_units (gs ! i))" "distinct (group_units (gs ! i))" "group_target_unit (gs ! i) \<in> set (group_units (gs ! i))"
    "group_convex g um rank (gs ! i)" "gm (group_target_unit (gs ! i)) = Some i"
    "v \<in> set (group_units (gs ! i)) \<Longrightarrow> gm v = Some i \<and> um (target_node v) = Some v"
proof -
  show i: "i < length gs" and u: "u \<in> set (group_units (gs ! i))" using assms unfolding grouping_ok_def by blast+
  have ok: "group_ok um Map.empty (gs ! i)" "group_convex g um rank (gs ! i)" using assms(1) i unfolding grouping_ok_def by blast+
  then show "distinct (group_units (gs ! i))" and t: "group_target_unit (gs ! i) \<in> set (group_units (gs ! i))"
    "group_convex g um rank (gs ! i)" by (simp_all add: group_ok_def)
  have gm: "gm v = Some i" if "v \<in> set (group_units (gs ! i))" for v using assms(1) i that unfolding grouping_ok_def by blast
  then show "gm (group_target_unit (gs ! i)) = Some i" using t by blast
  show "v \<in> set (group_units (gs ! i)) \<Longrightarrow> gm v = Some i \<and> um (target_node v) = Some v" using gm ok(1) by (simp add: group_ok_def)
qed

lemma emitted_cover:
  assumes ok: "grouping_ok g um rank gs gm" and us: "distinct us" "\<And>u. u \<in> set us \<longleftrightarrow> um (target_node u) = Some u"
  shows "distinct (concat (map (emitted_units gs gm) us))" "set (concat (map (emitted_units gs gm) us)) = set us"
proof -
  have mem: "gm x = gm u \<and> (gm u = None \<longrightarrow> x = u) \<and> (\<forall>i. gm u = Some i \<longrightarrow> u = group_target_unit (gs ! i)) \<and> um (target_node x) = Some x"
    if u: "u \<in> set us" and x: "x \<in> set (emitted_units gs gm u)" for u x
  proof (cases "gm u")
    case None
    then show ?thesis using u x us(2) by (simp add: emitted_units_eq)
  next
    case (Some i)
    then have "u = group_target_unit (gs ! i)" "x \<in> set (group_units (gs ! i))" using x by (auto simp: emitted_units_eq split: if_splits)
    then show ?thesis using grouping_okD(7) [OF ok Some] Some by simp
  qed
  show "distinct (concat (map (emitted_units gs gm) us))"
  proof (rule distinct_concat_map [OF us(1)])
    fix u assume "u \<in> set us"
    show "distinct (emitted_units gs gm u)"
      using grouping_okD(3) [OF ok] by (simp add: emitted_units_eq split: option.split)
  next
    fix u v assume uv: "u \<in> set us" "v \<in> set us" "u \<noteq> v"
    show "set (emitted_units gs gm u) \<inter> set (emitted_units gs gm v) = {}"
    proof (rule ccontr)
      assume "\<not> ?thesis"
      then obtain x where x: "x \<in> set (emitted_units gs gm u)" "x \<in> set (emitted_units gs gm v)" by blast
      show False using mem [OF uv(1) x(1)] mem [OF uv(2) x(2)] uv(3) by (cases "gm u") auto
    qed
  qed
  show "set (concat (map (emitted_units gs gm) us)) = set us"
  proof (intro equalityI subsetI)
    fix x assume "x \<in> set (concat (map (emitted_units gs gm) us))"
    then obtain u where "u \<in> set us" "x \<in> set (emitted_units gs gm u)" by auto
    then show "x \<in> set us" using mem us(2) by blast
  next
    fix x assume x: "x \<in> set us"
    show "x \<in> set (concat (map (emitted_units gs gm) us))"
    proof (cases "gm x")
      case None
      then show ?thesis using x by (force simp: emitted_units_eq)
    next
      case (Some i)
      let ?t = "group_target_unit (gs ! i)"
      have "?t \<in> set us" using us(2) grouping_okD(4,7) [OF ok Some] by blast
      moreover have "x \<in> set (emitted_units gs gm ?t)" using grouping_okD(2,6) [OF ok Some] by (simp add: emitted_units_eq)
      ultimately show ?thesis by auto
    qed
  qed
qed

section \<open>The order of the groups\<close>

lemma emitted_targets:
  assumes "grouping_ok g um rank gs gm"
  shows "map group_target_unit (concat (map (emitted gs gm) us)) = filter (\<lambda>u. emitted gs gm u \<noteq> []) us"
proof (induction us)
  case (Cons u us)
  have "map group_target_unit (emitted gs gm u) = (if emitted gs gm u \<noteq> [] then [u] else [])"
    by (auto simp: emitted_def QnnNodeUnitWrapper_def split: option.splits)
  then show ?case using Cons by simp
qed simp

lemma concat_disjoint:
  "distinct (concat xss) \<Longrightarrow> i < length xss \<Longrightarrow> j < length xss \<Longrightarrow> i \<noteq> j \<Longrightarrow> set (xss ! i) \<inter> set (xss ! j) = {}"
proof (induction xss arbitrary: i j)
  case (Cons xs xss)
  have other: "set xs \<inter> set (xss ! k) = {}" if "k < length xss" for k
    using Cons.prems(1) nth_mem [OF that] by fastforce
  have IH: "set (xss ! a) \<inter> set (xss ! b) = {}" if "a < length xss" "b < length xss" "a \<noteq> b" for a b
    using Cons.IH [OF _ that] Cons.prems(1) by simp
  show ?case using Cons.prems(2-4) other IH by (cases i; cases j) (simp_all add: Int_commute)
qed simp

lemma unit_edge_rank:
  assumes t: "topological_rank (base g) um ns rank" and c: "units_cover ns holder um"
    and u: "um (target_node u) = Some u" and e: "unit_edge g um u v"
  shows "rank (target_node u) < rank (target_node v)"
proof -
  obtain x where x: "x \<in> set (GetOutputNodes (base g) u)" "um x = Some v" using e by (auto simp: unit_edge_def)
  have "target_node u \<in> set (unit_targets um ns)" using c u by (auto simp: unit_targets_def units_cover_def)
  moreover have "target_node v \<in> set (downstream (base g) um (target_node u))"
    using x u by (force simp: downstream_def unit_of_def)
  ultimately show ?thesis using t unfolding topological_rank_def by blast
qed

text \<open>A group of one unit satisfies the contract.\<close>

lemma wrapper_convex:
  assumes "topological_rank (base g) um ns rank" "units_cover ns holder um"
  shows "group_convex g um rank (QnnNodeUnitWrapper u)"
  using unit_edge_rank [OF assms] by (auto simp: group_convex_def QnnNodeUnitWrapper_def)

lemma groups_ordered:
  assumes c: "units_cover ns holder um" and ns: "distinct ns" "sorted_wrt (\<lambda>a b. rank a < rank b) ns"
    and t: "topological_rank (base g) um ns rank" and ok: "grouping_ok g um rank gs gm"
    and res: "res = concat (map (emitted gs gm) (visited um ns))"
    and ij: "i < length res" "j < length res" "i \<noteq> j"
    and e: "p \<in> set (group_units (res ! i))" "q \<in> set (group_units (res ! j))" "unit_edge g um p q"
  shows "i < j"
proof -
  let ?T = "\<lambda>i. rank (target_node (group_target_unit (res ! i)))"
  have convex: "group_convex g um rank grp" if grp: "grp \<in> set res" for grp
  proof -
    obtain u where u: "grp \<in> set (emitted gs gm u)" using grp res by auto
    show ?thesis
    proof (cases "gm u")
      case None
      then show ?thesis using u wrapper_convex [OF t c] by (simp add: emitted_def)
    next
      case (Some k)
      then show ?thesis using u grouping_okD(5) [OF ok Some] by (auto simp: emitted_def split: if_splits)
    qed
  qed
  have units: "um (target_node x) = Some x" if "x \<in> set (group_units (res ! k))" "k < length res" for x k
  proof -
    have "x \<in> set (concat (map group_units res))" using that by auto
    then have "x \<in> set (visited um ns)"
      using emitted_cover(2) [OF ok visited_units(1) [OF c ns(1)]] visited_units(2,3) [OF c ns(1)] unfolding res concat_emitted by blast
    then show ?thesis using visited_units(2,3) [OF c ns(1)] by blast
  qed
  have "distinct (concat (map group_units res))"
    using emitted_cover(1) [OF ok visited_units(1) [OF c ns(1)]] visited_units(2,3) [OF c ns(1)] unfolding res concat_emitted by blast
  then have disjoint: "set (group_units (res ! i)) \<inter> set (group_units (res ! j)) = {}" if "i < length res" "j < length res" "i \<noteq> j" for i j
    using concat_disjoint [of "map group_units res" i j] that by simp
  have A: "rank (target_node p) < ?T j"
    using convex [OF nth_mem [OF ij(2)]] units [OF e(1) ij(1)] e disjoint [OF ij] unfolding group_convex_def by blast
  have B: "?T i \<le> rank (target_node p)"
    using convex [OF nth_mem [OF ij(1)]] e disjoint [OF ij] unfolding group_convex_def by blast
  have "sorted_wrt (\<lambda>a b. rank a < rank b) (map target_node (visited um ns))"
    unfolding visited_units(4) [OF c ns(1)] unit_targets_def by (rule sorted_wrt_filter [OF ns(2)])
  then have "sorted_wrt (\<lambda>u v. rank (target_node u) < rank (target_node v)) (map group_target_unit res)"
    unfolding res emitted_targets [OF ok] by (intro sorted_wrt_filter) (simp add: sorted_wrt_map)
  then have "?T j < ?T i" if "j < i" using that ij(1) by (simp add: sorted_wrt_iff_nth_less)
  then show ?thesis using A B ij(3) by (cases "j < i") linarith+
qed

section \<open>Grouping returns\<close>

text \<open>Grouping fails only with the error of a fusion.\<close>

definition fusion_fails :: "('g) qdq_graph_scheme \<Rightarrow> (string \<times> fusion list) list \<Rightarrow> node_unit_map \<Rightarrow> error \<Rightarrow> bool" where
  "fusion_fails g fusions um e \<longleftrightarrow>
     (\<exists>u gm s s'. um (target_node u) = Some u \<and> gm u = None \<and> TryQnnFusions g fusions u um gm s = (Inl e, s'))"

lemma affinity_accepts_ok: "formable g \<Longrightarrow> is_ok (affinity_accepts g fe us)"
  by (induction us) (auto simp: OpType_def intro!: OperatorType_ok)

lemma visit_unit_error:
  assumes f: "formable g" and u: "um (target_node u) = Some u" and r: "visit_unit g fe fusions um u k s = (Inl e, s')"
  shows "fusion_fails g fusions um e"
proof -
  let ?gm = "node_unit_to_qnn_node_group k"
  have n: "?gm u = None" using r by (auto simp: visit_unit_def Let_def split: if_splits)
  obtain x s1 where x: "TryQnnFusions g fusions u um ?gm s = (x, s1)" by fastforce
  show ?thesis
  proof (cases x)
    case (Inl e')
    then show ?thesis using x n u r by (auto simp: fusion_fails_def visit_unit_def Let_def)
  next
    case (Inr fused)
    show ?thesis
    proof (cases fused)
      case None
      then show ?thesis using x Inr n r by (simp add: visit_unit_def Let_def)
    next
      case (Some grp)
      obtain b where "affinity_accepts g fe (group_units grp) = Inr b" using affinity_accepts_ok [OF f] on_fail_ok by blast
      then show ?thesis using x Inr Some n r by (simp add: visit_unit_def Let_def)
    qed
  qed
qed

lemma visit_nodes_error:
  assumes f: "formable g" and um: "\<And>n u. um n = Some u \<Longrightarrow> um (target_node u) = Some u"
  shows "set ns \<subseteq> dom um \<Longrightarrow> visit_nodes g fe fusions um ns k s = (Inl e, s') \<Longrightarrow> fusion_fails g fusions um e"
proof (induction ns arbitrary: k s)
  case (Cons n ns)
  then obtain u where u: "um n = Some u" by auto
  obtain r s1 where r: "visit_unit g fe fusions um u k s = (r, s1)" by fastforce
  show ?case
  proof (cases "n = target_node u")
    case False
    then show ?thesis using Cons u by simp
  next
    case True
    show ?thesis
    proof (cases r)
      case (Inl e')
      then have "visit_unit g fe fusions um u k s = (Inl e, s1)" using r Cons.prems(2) u True by simp
      from f um [OF u] this show ?thesis by (rule visit_unit_error)
    next
      case (Inr k1)
      then show ?thesis using Cons.IH [of k1 s1] Cons.prems r u True by simp
    qed
  qed
qed simp

lemma GetQnnNodeGroups_error:
  assumes f: "formable g" and c: "units_cover ns holder um" and ns: "Graph_GetNodes g = Inr ns" "distinct ns"
    and r: "GetQnnNodeGroups g fe fusions um s = (Inl e, s')"
  shows "fusion_fails g fusions um e"
proof -
  let ?k0 = "\<lparr>qnn_node_groups = [], node_unit_to_qnn_node_group = Map.empty, sorted_node_units = []\<rparr>"
  have um: "um (target_node u) = Some u" if "um n = Some u" for n u
    using c that visited_units(3) [OF c ns(2)] unfolding units_cover_def by blast
  have dom: "set ns \<subseteq> dom um" using c by (simp add: units_cover_def)
  obtain x s1 where x: "visit_nodes g fe fusions um ns ?k0 s = (x, s1)" by fastforce
  have "visit_nodes g fe fusions um ns ?k0 s = (Inl e, s1)"
  proof (cases x)
    case (Inl e')
    then show ?thesis using r x ns(1) by (simp add: GetQnnNodeGroups_def GetQnnNodeGroupsImpl_def)
  next
    case (Inr k)
    obtain groups gm indices where "place_units (sorted_node_units k) (qnn_node_groups k, node_unit_to_qnn_node_group k, []) = (groups, gm, indices)"
      by (metis prod_cases3)
    then show ?thesis using r x Inr ns(1) by (simp add: GetQnnNodeGroups_def GetQnnNodeGroupsImpl_def)
  qed
  then show ?thesis using visit_nodes_error [OF f _ dom] um by blast
qed

lemma groups_cover:
  assumes f: "formable g" and c: "units_cover ns holder um" and ns: "Graph_GetNodes g = Inr ns" "distinct ns"
    and t: "table_ok g um rank fusions" and r: "GetQnnNodeGroups g fe fusions um s = (r, s')"
  shows "case r of Inr res \<Rightarrow> distinct (concat (map group_units res)) \<and> set (concat (map group_units res)) = set holder
    | Inl e \<Rightarrow> fusion_fails g fusions um e"
proof (cases r)
  case (Inl e)
  then show ?thesis using GetQnnNodeGroups_error [OF f c ns] r by simp
next
  case (Inr res)
  with r obtain gs gm where ok: "grouping_ok g um rank gs gm" "res = concat (map (emitted gs gm) (visited um ns))"
    using GetQnnNodeGroups_result [OF c ns t] by blast
  have mem: "u \<in> set (visited um ns) \<longleftrightarrow> um (target_node u) = Some u" for u using visited_units(2,3) [OF c ns(2)] by blast
  show ?thesis
    using emitted_cover [OF ok(1) visited_units(1) [OF c ns(2)] mem] visited_units(2) [OF c ns(2)]
    by (simp add: Inr ok(2) concat_emitted [simplified])
qed

end
