(* ===== verification/Fusion_Laws.thy ===== *)
theory Fusion_Laws
  imports Group_Order
begin

text \<open>
  The modelled fusions satisfy the contract of a fusion: the two units they fuse are free, and fusing them at the place of
  the first keeps the order of the graph.  The fused HardSigmoid and Mul compute the HardSwish they are replaced by.
\<close>

section \<open>Fusing a unit with its only consumer\<close>

lemma single_of_type:
  assumes "graph_ok g ns" "GetAllOrtNodeUnits g = Inr (holder, um)" "u \<in> set holder" "unit_type u = SingleNode"
  obtains n where "n \<in> set ns" "u = single_unit n"
  using assms(1-3) by (cases rule: unit_kind) (use assms(4) that in auto)

lemma output_node:
  assumes "x \<in> set (GetOutputNodes (base g) u)"
  obtains q where "q = output_producer u \<and> x \<notin> set (q_nodes u) \<or> q \<in> set (q_nodes u) \<and> q \<in> set (users g (output_producer u))" "x \<in> set (users g q)"
  using assms unfolding GetOutputNodes_def users_def by (auto split: if_splits)

lemma output_nodeI:
  assumes "q = output_producer u \<and> x \<notin> set (q_nodes u) \<or> q \<in> set (q_nodes u) \<and> q \<in> set (users g (output_producer u))" "x \<in> set (users g q)"
  shows "x \<in> set (GetOutputNodes (base g) u)"
  using assms unfolding GetOutputNodes_def users_def by (auto split: if_splits)

lemma single_unit_outputs: "GetOutputNodes (base g) (single_unit n) = users g n"
  by (simp add: GetOutputNodes_def users_def output_producer_def)

lemma output_producer_in: "output_producer u \<in> set (GetAllNodesInGroup u)" "q \<in> set (q_nodes u) \<Longrightarrow> q \<in> set (GetAllNodesInGroup u)"
  by (auto simp: nodes_satellites satellites_def output_producer_def split: option.splits)

text \<open>
  Two single units, of which the second is the only consumer of the first and reads nothing from a third unit that the first
  does not read from it as well.
\<close>

lemma pair_fusion_ok:
  assumes c: "unit_contract g ns" and u: "GetAllOrtNodeUnits g = Inr (holder, um)" and o: "node_order g ns rank"
    and ab: "single_unit n \<in> set holder" "single_unit m \<in> set holder" "n \<noteq> m" "gm (single_unit n) = None" "gm (single_unit m) = None"
    and users: "set (users g n) = {m}"
    and ins: "\<And>p. p \<in> set ns \<Longrightarrow> m \<in> set (users g p) \<Longrightarrow> p = n \<or> n \<in> set (users g p)"
    and grp: "group_units grp = [single_unit n, single_unit m]" "group_target_unit grp = single_unit n"
  shows "group_ok um gm grp \<and> group_convex g um rank grp"
proof -
  have cover: "units_cover ns holder um" using GetAllOrtNodeUnits_cover [OF unit_contractD(1,3) [OF c] u] .
  have t: "topological_rank (base g) um ns rank" by (rule units_ordered [OF c u o])
  have own: "um x = Some v \<longleftrightarrow> v \<in> set holder \<and> x \<in> set (GetAllNodesInGroup v)" for x v
    using owner [OF c u] cover unfolding units_cover_def by blast
  have nm: "um n = Some (single_unit n)" "um m = Some (single_unit m)" using ab(1,2) by (simp_all add: own)
  have "n \<in> set ns" using nm(1) cover by (auto simp: units_cover_def)
  have ok: "group_ok um gm grp" using ab grp nm by (simp add: group_ok_def single_unit_def)
  have to_m: "unit_edge g um p (single_unit n)"
    if p: "um (target_node p) = Some p" "p \<noteq> single_unit n" "unit_edge g um p (single_unit m)" for p
  proof -
    have ph: "p \<in> set holder" using p(1) by (simp add: own)
    obtain x where x: "x \<in> set (GetOutputNodes (base g) p)" "um x = Some (single_unit m)" using p(3) by (auto simp: unit_edge_def)
    then have "x = m" by (simp add: own)
    from x(1) obtain q where q: "q = output_producer p \<and> x \<notin> set (q_nodes p) \<or> q \<in> set (q_nodes p) \<and> q \<in> set (users g (output_producer p))"
      "x \<in> set (users g q)" by (rule output_node)
    have qp: "q \<in> set (GetAllNodesInGroup p)" using q(1) output_producer_in by blast
    then have "q \<in> set ns" using cover ph unfolding units_cover_def by blast
    moreover have "q \<noteq> n" using qp ph p(2) nm(1) own by (metis option.inject)
    ultimately have n: "n \<in> set (users g q)" using ins q(2) \<open>x = m\<close> by blast
    have "n \<notin> set (q_nodes p)" using own [of n p] ph nm(1) p(2) output_producer_in(2) by fastforce
    then have "n \<in> set (GetOutputNodes (base g) p)" using output_nodeI [of q p n g] q(1) n by blast
    then show ?thesis using nm(1) by (auto simp: unit_edge_def)
  qed
  have "group_convex g um rank grp"
    unfolding group_convex_def grp
  proof (intro conjI allI impI)
    fix p v
    assume p: "um (target_node p) = Some p" "p \<notin> set [single_unit n, single_unit m]" "v \<in> set [single_unit n, single_unit m]"
      "unit_edge g um p v"
    then have "unit_edge g um p (single_unit n)" using to_m [of p] by auto
    then show "rank (target_node p) < rank (target_node (single_unit n))" using unit_edge_rank [OF t cover p(1)] by blast
  next
    fix v w
    assume v: "v \<in> set [single_unit n, single_unit m]" "w \<notin> set [single_unit n, single_unit m]" "unit_edge g um v w"
    have "v \<noteq> single_unit n"
    proof
      assume "v = single_unit n"
      then obtain x where x: "x \<in> set (GetOutputNodes (base g) (single_unit n))" "um x = Some w" using v(3) by (auto simp: unit_edge_def)
      then have "x = m" using users unfolding single_unit_outputs by simp
      then show False using x(2) nm(2) v(2) by simp
    qed
    then have "v = single_unit m" using v(1) by auto
    moreover have "rank n < rank m" using o \<open>n \<in> set ns\<close> users by (auto simp: node_order_def)
    ultimately show "rank (target_node (single_unit n)) \<le> rank (target_node v)" by simp
  qed
  then show ?thesis using ok by blast
qed

section \<open>What the searches find\<close>

lemma throwing_Inr [simp]: "throwing r = Inr x \<longleftrightarrow> r = Inr x"
  by (auto simp: throwing_def split: sum.splits)

lemma then_s_Inr: "then_s r f = (Inr y, s') \<longleftrightarrow> (\<exists>x s1. r = (Inr x, s1) \<and> f x s1 = (Inr y, s'))"
  by (cases r; cases "fst r") auto

lemma succeeded_Inr: "succeeded r = (Inr b, s') \<Longrightarrow> snd r = s'"
  by (cases r; cases "fst r") (auto simp: succeeded_def split: error.splits)

lemma only_child:
  assumes "GetOnlyChildOfType g (single_unit n) types um gm = Inr (Some child)"
  obtains v m where "outs g n = [Some v]" "ValueInfo_IsGraphOutput g v = Inr False" "consumers_of g v = [m]" "op_of g m \<in> set types"
    "um m = Some child" "gm child = None" "unit_type child = SingleNode"
proof -
  obtain outputs where o: "Node_GetOutputs g n = Inr outputs" using assms by (auto simp: GetOnlyChildOfType_def and_then_eq_Inr_iff)
  then obtain v where v: "outputs = [Some v]" "ValueInfo_IsGraphOutput g v = Inr False"
    using assms by (auto simp: GetOnlyChildOfType_def and_then_eq_Inr_iff split: list.splits if_splits)
  obtain consumers where cs: "ValueInfo_GetValueConsumers g v = Inr consumers"
    using assms o v by (auto simp: GetOnlyChildOfType_def nonnull_def throwing_def and_then_eq_Inr_iff split: sum.splits)
  obtain m where m: "consumers = [m]"
    using assms o v cs by (auto simp: GetOnlyChildOfType_def nonnull_def throwing_def split: list.splits)
  obtain t where t: "Node_GetOperatorType g m = Inr t" "t \<in> set types"
    using assms o v cs m by (auto simp: GetOnlyChildOfType_def nonnull_def throwing_def and_then_eq_Inr_iff split: if_splits)
  have "um m = Some child" "gm child = None" "unit_type child = SingleNode"
    using assms o v cs m t by (auto simp: GetOnlyChildOfType_def nonnull_def throwing_def OperatorType_def split: option.splits if_splits)
  moreover have "outs g n = [Some v]" "consumers_of g v = [m]" "op_of g m \<in> set types"
    using o v cs m t by (simp_all add: outs_def consumers_of_def op_of_eq)
  ultimately show thesis using that v(2) by blast
qed

text \<open>The units around a fusion: the first unit, its only consumer, and how they are connected.\<close>

lemma child_unit:
  assumes c: "unit_contract g ns" and u: "GetAllOrtNodeUnits g = Inr (holder, um)" and m: "um m = Some b" "unit_type b = SingleNode"
  shows "b = single_unit m" "single_unit m \<in> set holder" "m \<in> set ns"
proof -
  have cover: "units_cover ns holder um" using GetAllOrtNodeUnits_cover [OF unit_contractD(1,3) [OF c] u] .
  then have b: "b \<in> set holder" "m \<in> set (GetAllNodesInGroup b)" "m \<in> set ns" using m(1) unfolding units_cover_def by blast+
  obtain k where "b = single_unit k" using single_of_type [OF unit_contractD(1) [OF c] u b(1) m(2)] .
  then show "b = single_unit m" "single_unit m \<in> set holder" "m \<in> set ns" using b by simp_all
qed

lemma plain_unit_io:
  assumes "graph_ok g ns" "n \<in> set ns" "op_of g n \<notin> {''QuantizeLinear'', ''DequantizeLinear''}"
  shows "unit_io g (single_unit n) = Inr (map (\<lambda>p. parse_or_none g p None) (ins g n), map (\<lambda>p. parse_or_none g p None) (outs g n))"
  using graph_node [OF assms(1,2)] assms(3) by (auto simp: unit_io_def InitForSingleNode_def)

text \<open>
  What the fusions rely on: values have distinct names, HardSigmoid reads one value, Mul two, and a DQ at most three.
\<close>

definition fusion_contract :: "('g) qdq_graph_scheme \<Rightarrow> node list \<Rightarrow> bool" where
  "fusion_contract g ns \<longleftrightarrow>
     (\<forall>n \<in> set ns. \<forall>m \<in> set ns. \<forall>v w. Some v \<in> set (ins g n) \<union> set (outs g n) \<longrightarrow> Some w \<in> set (ins g m) \<union> set (outs g m) \<longrightarrow>
        GetValueInfoName g v = GetValueInfoName g w \<longrightarrow> v = w)
     \<and> (\<forall>n \<in> set ns.
          (op_of g n = ''HardSigmoid'' \<longrightarrow> (\<exists>x. ins g n = [Some x]))
          \<and> (op_of g n = ''Mul'' \<longrightarrow> (\<exists>x y. ins g n = [Some x, Some y]))
          \<and> (op_of g n = ''DequantizeLinear'' \<longrightarrow> length (ins g n) \<le> 3))"

lemma fusion_contractD:
  assumes "fusion_contract g ns" "n \<in> set ns"
  shows "m \<in> set ns \<Longrightarrow> Some v \<in> set (ins g n) \<union> set (outs g n) \<Longrightarrow> Some w \<in> set (ins g m) \<union> set (outs g m) \<Longrightarrow>
       GetValueInfoName g v = GetValueInfoName g w \<Longrightarrow> v = w"
    "op_of g n = ''HardSigmoid'' \<Longrightarrow> \<exists>x. ins g n = [Some x]"
    "op_of g n = ''Mul'' \<Longrightarrow> \<exists>x y. ins g n = [Some x, Some y]"
    "op_of g n = ''DequantizeLinear'' \<Longrightarrow> length (ins g n) \<le> 3"
  using assms unfolding fusion_contract_def by blast+

lemma parse_name:
  assumes "io_contract g ns" "n \<in> set ns" "Some v \<in> set (ins g n) \<union> set (outs g n)"
  shows "GetValueInfoName g v = Inr (io_name (parse_or_none g (Some v) qp))"
proof -
  obtain d where d: "ParseOrtValueInfo g v qp = Inr d" using io_contractD(1) [OF assms] by (rule Parse_ok)
  then have "GetValueInfoName g v = Inr (io_name d)"
    by (auto simp: ParseOrtValueInfo_def and_then_eq_Inr_iff split: option.splits)
  then show ?thesis using d by (simp add: parse_or_none_def)
qed

lemma consumer_iff:
  assumes "unit_contract g ns" "p \<in> set ns" "m \<in> set ns" "Some v \<in> set (outs g p)"
  shows "m \<in> set (consumers_of g v) \<longleftrightarrow> Some v \<in> set (ins g m)"
proof -
  have "count_list (consumers_of g v) m = count_list (ins g m) (Some v)"
    using unit_contractD(2) [OF assms(1)] assms(2-4) unfolding edges_ok_def by blast
  then show ?thesis by (metis count_list_0_iff)
qed

section \<open>HardSigmoid and Mul\<close>

lemma HardSigmoidMul_matches:
  assumes "HardSigmoidMul_TryFusion g fe u um gm s = (Inr (Some grp), s')"
  obtains mul where "OpType g u = Inr ''HardSigmoid''" "unit_type u = SingleNode"
    "\<not> f_far (Attr_float g (target_node u) ''alpha'' (Num (13421773 / 2 ^ 26))) req_alpha (req_alpha / 2 ^ 23)"
    "\<not> f_far (Attr_float g (target_node u) ''beta'' (Num (1 / 2))) req_beta (req_beta / 2 ^ 23)"
    "GetOnlyChildOfType g u [''Mul''] um gm = Inr (Some mul)" "same_root_input g u mul = Inr True"
    "grp = \<lparr>group_type = ''HardSigmoidMulFusion'', group_units = [u, mul], group_target_unit = u\<rparr>"
  using assms unfolding HardSigmoidMul_TryFusion_def Let_def
  by (auto simp: then_s_Inr split: if_splits option.splits)

text \<open>The Mul multiplies the input of the HardSigmoid with its output.\<close>

lemma HardSigmoidMul_inputs:
  assumes c: "unit_contract g ns" and fc: "fusion_contract g ns" and io: "io_contract g ns" and o: "node_order g ns rank"
    and nm: "n \<in> set ns" "m \<in> set ns" "op_of g n = ''HardSigmoid''" "op_of g m = ''Mul''"
    and v: "outs g n = [Some v]" "consumers_of g v = [m]"
    and r: "same_root_input g (single_unit n) (single_unit m) = Inr True"
  obtains root where "ins g n = [Some root]" "ins g m = [Some root, Some v] \<or> ins g m = [Some v, Some root]"
proof -
  note g = unit_contractD(1) [OF c]
  obtain root where root: "ins g n = [Some root]" using fusion_contractD(2) [OF fc nm(1,3)] by blast
  obtain x y where xy: "ins g m = [Some x, Some y]" using fusion_contractD(3) [OF fc nm(2,4)] by blast
  have "Some v \<in> set (ins g m)" using consumer_iff [OF c nm(1,2), of v] v by simp
  then have "v = x \<or> v = y" using xy by auto
  have "root \<noteq> v"
  proof
    assume "root = v"
    then have "n \<in> set (consumers_of g v)" using consumer_iff [OF c nm(1,1), of v] v(1) root by simp
    then have "n \<in> set (users g n)" using v(1) by (simp add: set_users)
    then show False using o nm(1) by (auto simp: node_order_def)
  qed
  let ?name = "\<lambda>v. io_name (parse_or_none g (Some v) None)"
  have "?name x = ?name root \<or> ?name y = ?name root"
    using r plain_unit_io [OF g nm(1)] plain_unit_io [OF g nm(2)] nm(3,4)
    by (auto simp: same_root_input_def root xy vec_at_def split: if_splits)
  moreover have eq: "w = root" if "?name w = ?name root" "Some w \<in> set (ins g m)" for w
  proof (rule fusion_contractD(1) [OF fc nm(2,1)])
    show "GetValueInfoName g w = GetValueInfoName g root"
      using parse_name [OF io nm(2), of w None] parse_name [OF io nm(1), of root None] that root by simp
  qed (use that(2) root in simp_all)
  ultimately have "x = root \<or> y = root" using xy by auto
  then show thesis using that [OF root] xy \<open>v = x \<or> v = y\<close> \<open>root \<noteq> v\<close> by blast
qed

text \<open>What an accepted fusion has found.\<close>

lemma HardSigmoidMul_pair:
  assumes c: "unit_contract g ns" and fc: "fusion_contract g ns" and io: "io_contract g ns" and o: "node_order g ns rank"
    and u: "GetAllOrtNodeUnits g = Inr (holder, um)" and a: "um (target_node a) = Some a"
    and f: "HardSigmoidMul_TryFusion g fe a um gm s = (Inr (Some grp), s')"
  obtains n m v root where "a = single_unit n" "single_unit n \<in> set holder" "n \<in> set ns"
    "single_unit m \<in> set holder" "m \<in> set ns" "gm (single_unit m) = None"
    "op_of g n = ''HardSigmoid''" "op_of g m = ''Mul''" "outs g n = [Some v]" "consumers_of g v = [m]"
    "ins g n = [Some root]" "ins g m = [Some root, Some v] \<or> ins g m = [Some v, Some root]"
    "group_units grp = [single_unit n, single_unit m]" "group_target_unit grp = single_unit n"
    "\<not> f_far (Attr_float g n ''alpha'' (Num (13421773 / 2 ^ 26))) req_alpha (req_alpha / 2 ^ 23)"
    "\<not> f_far (Attr_float g n ''beta'' (Num (1 / 2))) req_beta (req_beta / 2 ^ 23)"
proof -
  from f obtain mul where h: "OpType g a = Inr ''HardSigmoid''" "unit_type a = SingleNode"
    "GetOnlyChildOfType g a [''Mul''] um gm = Inr (Some mul)" "same_root_input g a mul = Inr True"
    "grp = \<lparr>group_type = ''HardSigmoidMulFusion'', group_units = [a, mul], group_target_unit = a\<rparr>"
    "\<not> f_far (Attr_float g (target_node a) ''alpha'' (Num (13421773 / 2 ^ 26))) req_alpha (req_alpha / 2 ^ 23)"
    "\<not> f_far (Attr_float g (target_node a) ''beta'' (Num (1 / 2))) req_beta (req_beta / 2 ^ 23)"
    by (rule HardSigmoidMul_matches)
  define n where "n = target_node a"
  have n: "a = single_unit n" "single_unit n \<in> set holder" "n \<in> set ns" using child_unit [OF c u a h(2)] by (simp_all add: n_def)
  obtain v m where m: "outs g n = [Some v]" "consumers_of g v = [m]" "op_of g m \<in> set [''Mul'']"
    "um m = Some mul" "gm mul = None" "unit_type mul = SingleNode"
    using h(3) unfolding n(1) by (rule only_child)
  have mu: "mul = single_unit m" "single_unit m \<in> set holder" "m \<in> set ns" using child_unit [OF c u m(4,6)] by simp_all
  have ops: "op_of g n = ''HardSigmoid''" "op_of g m = ''Mul''" using h(1) m(3) n(1) by (simp_all add: OpType_def op_of_eq)
  obtain root where root: "ins g n = [Some root]" "ins g m = [Some root, Some v] \<or> ins g m = [Some v, Some root]"
    by (rule HardSigmoidMul_inputs [OF c fc io o n(3) mu(3) ops m(1,2)]) (use h(4) n(1) mu(1) in simp_all)
  show thesis
    by (rule that [OF n mu(2,3) _ ops m(1,2) root]) (use h(5-7) m(5) n(1) mu(1) in simp_all)
qed

lemma HardSigmoidMul_ok:
  assumes c: "unit_contract g ns" and fc: "fusion_contract g ns" and io: "io_contract g ns" and o: "node_order g ns rank"
    and u: "GetAllOrtNodeUnits g = Inr (holder, um)"
  shows "fusion_ok g um rank (HardSigmoidMul_TryFusion g fe)"
  unfolding fusion_ok_def
proof (intro allI impI)
  fix a gm s grp s'
  assume a: "um (target_node a) = Some a" "gm a = None" and f: "HardSigmoidMul_TryFusion g fe a um gm s = (Inr (Some grp), s')"
  from HardSigmoidMul_pair [OF c fc io o u a(1) f] obtain n m v root where
    n: "a = single_unit n" "single_unit n \<in> set holder" "n \<in> set ns"
    and mu: "single_unit m \<in> set holder" "m \<in> set ns" "gm (single_unit m) = None"
    and ops: "op_of g n = ''HardSigmoid''" "op_of g m = ''Mul''" and m: "outs g n = [Some v]" "consumers_of g v = [m]"
    and root: "ins g n = [Some root]" "ins g m = [Some root, Some v] \<or> ins g m = [Some v, Some root]"
    and grp: "group_units grp = [single_unit n, single_unit m]" "group_target_unit grp = single_unit n"
    by metis
  note g = unit_contractD(1) [OF c]
  show "group_ok um gm grp \<and> group_convex g um rank grp"
  proof (rule pair_fusion_ok [OF c u o n(2) mu(1)])
    show "n \<noteq> m" using ops by auto
    show "gm (single_unit n) = None" "gm (single_unit m) = None" using a(2) n(1) mu(3) by simp_all
    show "set (users g n) = {m}" using m(1,2) by (simp add: set_users)
    show "group_units grp = [single_unit n, single_unit m]" "group_target_unit grp = single_unit n" by (rule grp)+
    fix p assume p: "p \<in> set ns" "m \<in> set (users g p)"
    then obtain w where w: "Some w \<in> set (outs g p)" "m \<in> set (consumers_of g w)" by (auto simp: set_users)
    then have "w = root \<or> w = v" using consumer_iff [OF c p(1) mu(2) w(1)] root(2) by auto
    then show "p = n \<or> n \<in> set (users g p)"
    proof
      assume "w = v"
      then show ?thesis using graph_output(1) [OF g p(1) w(1)] graph_output(1) [OF g n(3), of v] m(1) by simp
    next
      assume "w = root"
      then have "n \<in> set (consumers_of g w)" using consumer_iff [OF c p(1) n(3) w(1)] root(1) by simp
      then show ?thesis using w(1) by (auto simp: set_users)
    qed
  qed
qed

section \<open>Cast and Q\<close>

lemma CastLoneQ_matches:
  assumes "CastLoneQ_TryFusion g fe u um gm s = (Inr (Some grp), s')"
  obtains q where "OpType g u = Inr ''Cast''" "unit_type u = SingleNode"
    "GetOnlyChildOfType g u [''QuantizeLinear''] um gm = Inr (Some q)"
    "grp = \<lparr>group_type = ''CastLoneQFusion'', group_units = [u, q], group_target_unit = u\<rparr>"
proof -
  have op: "OpType g u = Inr ''Cast''" "unit_type u = SingleNode"
    using assms unfolding CastLoneQ_TryFusion_def by (cases "OpType g u"; simp split: if_splits)+
  obtain ql dl where ql: "GetOnlyChildOfType g u [''QuantizeLinear''] um gm = Inr ql" "GetParentOfType g u [''DequantizeLinear''] um gm = Inr dl"
    using assms unfolding CastLoneQ_TryFusion_def by (auto simp: then_s_Inr op)
  then obtain q where q: "ql = Some q" using assms by (cases ql) (auto simp: CastLoneQ_TryFusion_def op)
  have dl: "dl = None" using assms ql q by (cases dl) (auto simp: CastLoneQ_TryFusion_def op)
  obtain d where d: "and_then (unit_io g u) (\<lambda>io. vec_at (fst io) 0) = Inr d"
    using assms ql q dl unfolding CastLoneQ_TryFusion_def by (auto simp: then_s_Inr op)
  obtain r s1 where r: "GetTensorInfo (fe_model fe) (wrapper_io fe d) s = (r, s1)" by fastforce
  have "grp = \<lparr>group_type = ''CastLoneQFusion'', group_units = [u, q], group_target_unit = u\<rparr>"
  proof (cases r)
    case (Inl e)
    then show ?thesis using assms ql q dl d r by (cases e) (auto simp: CastLoneQ_TryFusion_def op split: if_splits)
  next
    case (Inr info)
    then show ?thesis using assms ql q dl d r by (auto simp: CastLoneQ_TryFusion_def op then_s_Inr split: if_splits)
  qed
  then show thesis using that op ql(1) q by simp
qed

lemma CastLoneQ_ok:
  assumes c: "unit_contract g ns" and o: "node_order g ns rank" and u: "GetAllOrtNodeUnits g = Inr (holder, um)"
  shows "fusion_ok g um rank (CastLoneQ_TryFusion g fe)"
  unfolding fusion_ok_def
proof (intro allI impI)
  fix a gm s grp s'
  assume a: "um (target_node a) = Some a" "gm a = None" and f: "CastLoneQ_TryFusion g fe a um gm s = (Inr (Some grp), s')"
  from f obtain q where h: "OpType g a = Inr ''Cast''" "unit_type a = SingleNode"
    "GetOnlyChildOfType g a [''QuantizeLinear''] um gm = Inr (Some q)"
    "grp = \<lparr>group_type = ''CastLoneQFusion'', group_units = [a, q], group_target_unit = a\<rparr>"
    by (rule CastLoneQ_matches)
  define n where "n = target_node a"
  have n: "a = single_unit n" "single_unit n \<in> set holder" "n \<in> set ns" using child_unit [OF c u a(1) h(2)] by (simp_all add: n_def)
  obtain v m where m: "outs g n = [Some v]" "consumers_of g v = [m]" "op_of g m \<in> set [''QuantizeLinear'']"
    "um m = Some q" "gm q = None" "unit_type q = SingleNode"
    using h(3) unfolding n(1) by (rule only_child)
  have mu: "q = single_unit m" "single_unit m \<in> set holder" "m \<in> set ns" using child_unit [OF c u m(4,6)] by simp_all
  have ops: "op_of g n = ''Cast''" "op_of g m = ''QuantizeLinear''" using h(1) m(3) n(1) by (simp_all add: OpType_def op_of_eq)
  have users: "set (users g n) = {m}" using m(1,2) by (simp add: set_users)
  have "count_edges (base g) m \<le> 1" using unit_contractD(5) [OF c mu(3)] ops(2) by simp
  show "group_ok um gm grp \<and> group_convex g um rank grp"
  proof (rule pair_fusion_ok [OF c u o n(2) mu(2)])
    show "n \<noteq> m" using ops by auto
    show "gm (single_unit n) = None" "gm (single_unit m) = None" using a(2) m(5) n(1) mu(1) by simp_all
    show "set (users g n) = {m}" by (rule users)
    show "group_units grp = [single_unit n, single_unit m]" "group_target_unit grp = single_unit n" using h(4) n(1) mu(1) by simp_all
    fix p assume "p \<in> set ns" "m \<in> set (users g p)"
    then show "p = n \<or> n \<in> set (users g p)"
      using single_pred [OF unit_contractD(1,2) [OF c], of p n m] n(3) users \<open>count_edges (base g) m \<le> 1\<close> by simp
  qed
qed

section \<open>DynamicQuantizeLinear and DQ\<close>

lemma DqlDq_matches:
  assumes "DqlDq_TryFusion g fe u um gm s = (Inr (Some grp), s')"
  obtains es os dq where "OpType g u = Inr ''DynamicQuantizeLinear''" "unit_type u = SingleNode" "unit_io g u = Inr (es, os)" "length os = 3"
    "DqlDq_outputs_ok g u um = Inr True" "GetOnlyChildOfOutput g u (os ! 0) um gm = Inr (Some dq)" "OpType g dq = Inr ''DequantizeLinear''"
    "unit_type dq = SingleNode" "DqlDq_parameters_ok g u os dq um = Inr True"
    "grp = \<lparr>group_type = ''DqlDqFusion'', group_units = [u, dq], group_target_unit = u\<rparr>"
proof -
  have op: "OpType g u = Inr ''DynamicQuantizeLinear''" "unit_type u = SingleNode"
    using assms unfolding DqlDq_TryFusion_def by (cases "OpType g u"; simp split: if_splits)+
  obtain es os where io: "unit_io g u = Inr (es, os)" using assms unfolding DqlDq_TryFusion_def by (auto simp: then_s_Inr op)
  have len: "length es = 1" "length os = 3" using assms unfolding DqlDq_TryFusion_def by (auto simp: op io split: if_splits)
  obtain s1 where 1: "is_float32 fe (es ! 0) s = (Inr True, s1)"
    using assms unfolding DqlDq_TryFusion_def by (auto simp: then_s_Inr op io len split: if_splits)
  have 2: "DqlDq_outputs_ok g u um = Inr True"
    using assms unfolding DqlDq_TryFusion_def by (auto simp: then_s_Inr op io len 1 split: if_splits)
  obtain child where "GetOnlyChildOfOutput g u (os ! 0) um gm = Inr child"
    using assms unfolding DqlDq_TryFusion_def by (auto simp: then_s_Inr op io len 1 2 split: if_splits)
  then obtain dq where 3: "GetOnlyChildOfOutput g u (os ! 0) um gm = Inr (Some dq)"
    using assms unfolding DqlDq_TryFusion_def by (cases child) (auto simp: op io len 1 2)
  have 4: "OpType g dq = Inr ''DequantizeLinear''" "unit_type dq = SingleNode"
    using assms unfolding DqlDq_TryFusion_def by (cases "OpType g dq"; simp add: op io len 1 2 3 split: if_splits)+
  have 5: "DqlDq_parameters_ok g u os dq um = Inr True"
    using assms unfolding DqlDq_TryFusion_def by (auto simp: then_s_Inr op io len 1 2 3 4 split: if_splits)
  have "grp = \<lparr>group_type = ''DqlDqFusion'', group_units = [u, dq], group_target_unit = u\<rparr>"
    using assms unfolding DqlDq_TryFusion_def by (auto simp: then_s_Inr op io len 1 2 3 4 5 split: if_splits)
  then show thesis using that op io len(2) 2 3 4 5 by blast
qed

lemma dq_unit_io:
  assumes f: "formable g" and g: "graph_ok g ns" and m: "m \<in> set ns" "op_of g m = ''DequantizeLinear''"
  obtains x y where "2 \<le> length (ins g m)" "ins g m ! 0 = Some x" "Some x \<in> set (ins g m)"
    "unit_io g (single_unit m) = Inr ([parse_or_none g (Some x) (Some (quant_of g m))], [parse_or_none g (Some y) None])"
proof -
  have "op_of g m \<in> {''QuantizeLinear'', ''DequantizeLinear''}" using m(2) by simp
  with f g m(1) obtain x y where x: "2 \<le> length (ins g m)" "ins g m ! 0 = Some x" "Some x \<in> set (ins g m)" "outs g m \<noteq> []" "outs g m ! 0 = Some y"
    by (rule qdq_values)
  have "0 < length (ins g m)" using x(1) by linarith
  then have "unit_io g (single_unit m) = Inr ([parse_or_none g (Some x) (Some (quant_of g m))], [parse_or_none g (Some y) None])"
    using graph_node [OF g m(1)] quant_param_of_eq [OF x(1)] x(2,4,5) m(2)
    by (simp add: unit_io_def InitForSingleNode_def lone_io_def vec_at_def nonnull_def)
  then show thesis using that x by blast
qed

lemma parse_param:
  assumes "io_contract g ns" "n \<in> set ns" "Some v \<in> set (ins g n) \<union> set (outs g n)"
  shows "io_quant_param (parse_or_none g (Some v) qp) = qp"
proof -
  obtain d where "ParseOrtValueInfo g v qp = Inr d" using io_contractD(1) [OF assms] by (rule Parse_ok)
  then show ?thesis using Parse_param by (simp add: parse_or_none_def)
qed

lemma DqlDq_outputs:
  assumes "DqlDq_outputs_ok g (single_unit n) um = Inr True" "graph_ok g ns" "n \<in> set ns"
  obtains a b c where "outs g n = [Some a, Some b, Some c]"
proof -
  have o: "length (outs g n) = 3" "outs g n ! 0 \<noteq> None" "outs g n ! 1 \<noteq> None" "outs g n ! 2 \<noteq> None"
    using assms(1) graph_node(2) [OF assms(2,3)]
    by (auto simp: DqlDq_outputs_ok_def throwing_def ConsumersAreAllOfType_def and_then_eq_Inr_iff split: if_splits)
  then obtain p q r where "outs g n = [p, q, r]" by (auto simp: numeral_3_eq_3 length_Suc_conv)
  then show thesis using o that by auto
qed

lemma DqlDq_child:
  assumes g: "graph_ok g ns" "n \<in> set ns" and io: "io_contract g ns" and o: "outs g n = Some a # rest"
    and r: "GetOnlyChildOfOutput g (single_unit n) (parse_or_none g (Some a) None) um gm = Inr (Some dq)"
  obtains m where "consumers_of g a = [m]" "um m = Some dq" "gm dq = None"
proof -
  let ?name = "io_name (parse_or_none g (Some a) None)"
  have name: "GetValueInfoName g a = Inr ?name" using parse_name [OF io g(2)] o by simp
  have "Some a \<in> set (outs g n)" using o by simp
  note out = graph_output(2) [OF g this]
  have first: "first_named g ?name (outs g n) = Inr (Some a)" by (simp add: o nonnull_def throwing_def name)
  have owner: "node_with_output g ?name (GetAllNodesInGroup (single_unit n)) = Inr (Some n)"
    using graph_node(2) [OF g] first by (simp add: throwing_def)
  have outs: "throwing (Node_GetOutputs g n) = Inr (outs g n)" using graph_node(2) [OF g] by simp
  have consumers: "throwing (ValueInfo_GetValueConsumers g a) = Inr (consumers_of g a)" using out by simp
  have no: "any_graph_output g (outs g n) = Inr False"
    using r by (auto simp: GetOnlyChildOfOutput_def owner outs and_then_eq_Inr_iff split: if_splits)
  have "(case consumers_of g a of [c] \<Rightarrow> Inr (case um c of None \<Rightarrow> None | Some child \<Rightarrow> if gm child \<noteq> None then None else Some child)
           | _ \<Rightarrow> Inr None) = (Inr (Some dq) :: OrtNodeUnit option result)"
    using r unfolding GetOnlyChildOfOutput_def owner by (simp add: outs no first consumers)
  then show thesis using that by (auto split: list.splits option.splits if_splits)
qed

lemma only_consumer_True:
  assumes "only_consumer g (Some v) u um = Inr True" "graph_ok g ns" "n \<in> set ns" "Some v \<in> set (outs g n)"
  obtains c where "consumers_of g v = [c]" "um c = Some u"
  using assms(1) graph_output(2) [OF assms(2-4)] that
  by (auto simp: only_consumer_def nonnull_def throwing_def split: list.splits)

text \<open>The DQ reads the three outputs of the DynamicQuantizeLinear, in their order.\<close>

lemma DqlDq_inputs:
  assumes c: "unit_contract g ns" and f: "formable g" and fc: "fusion_contract g ns" and io: "io_contract g ns"
    and nm: "n \<in> set ns" "m \<in> set ns" "op_of g m = ''DequantizeLinear''"
    and o: "outs g n = [Some o0, Some o1, Some o2]"
    and p: "DqlDq_parameters_ok g (single_unit n) (map (\<lambda>p. parse_or_none g p None) (outs g n)) (single_unit m) um = Inr True"
  shows "ins g m = [Some o0, Some o1, Some o2]"
    "only_consumer g (Some o1) (single_unit m) um = Inr True" "only_consumer g (Some o2) (single_unit m) um = Inr True"
proof -
  note g = unit_contractD(1) [OF c]
  from f g nm(2,3) obtain x y where x: "2 \<le> length (ins g m)" "ins g m ! 0 = Some x" "Some x \<in> set (ins g m)"
    "unit_io g (single_unit m) = Inr ([parse_or_none g (Some x) (Some (quant_of g m))], [parse_or_none g (Some y) None])"
    by (rule dq_unit_io)
  let ?name = "\<lambda>v. io_name (parse_or_none g (Some v) None)"
  have par: "io_quant_param (parse_or_none g (Some x) (Some (quant_of g m))) = Some (quant_of g m)"
    by (rule parse_param [OF io nm(2)]) (use x(3) in simp)
  have all: "only_consumer g (Some o1) (single_unit m) um = Inr True" "only_consumer g (Some o2) (single_unit m) um = Inr True"
    "io_name (parse_or_none g (Some x) (Some (quant_of g m))) = ?name o0"
    "named_as g (quant_scale (quant_of g m)) (parse_or_none g (Some o1) None) = Inr True"
    "named_as g (quant_zero_point (quant_of g m)) (parse_or_none g (Some o2) None) = Inr True"
    using p graph_node(2) [OF g nm(1)] x(4) par
    by (auto simp: DqlDq_parameters_ok_def throwing_def o split: if_splits)
  then show "only_consumer g (Some o1) (single_unit m) um = Inr True" "only_consumer g (Some o2) (single_unit m) um = Inr True" by simp_all
  have same: "v = w" if "Some v \<in> set (ins g m)" "Some w \<in> set (outs g n)" "GetValueInfoName g v = Inr (?name w)" for v w
  proof (rule fusion_contractD(1) [OF fc nm(2,1)])
    show "GetValueInfoName g v = GetValueInfoName g w" using that(3) parse_name [OF io nm(1), of w None] that(2) by simp
  qed (use that in simp_all)
  have named: "p = Some w" if "named_as g p (parse_or_none g (Some w) None) = Inr True" "p \<in> set (ins g m)" "Some w \<in> set (outs g n)" for p w
  proof (cases p)
    case (Some v)
    then show ?thesis using that same [of v w] by (auto simp: named_as_def throwing_def and_then_eq_Inr_iff split: sum.splits)
  qed (use that(1) in \<open>simp add: named_as_def\<close>)
  have "GetValueInfoName g x = Inr (?name o0)"
    using parse_name [OF io nm(2), of x "Some (quant_of g m)"] x(3) all(3) by simp
  then have 0: "x = o0" using same x(3) o by simp
  have three: "length (ins g m) = 3"
    using all(5) fusion_contractD(4) [OF fc nm(2,3)] x(1) by (auto simp: quant_of_def named_as_def split: if_splits)
  have 1: "ins g m ! 1 = Some o1" by (rule named) (use all(4) three o in \<open>simp_all add: quant_of_def\<close>)
  have 2: "ins g m ! 2 = Some o2" by (rule named) (use all(5) three o in \<open>simp_all add: quant_of_def\<close>)
  show "ins g m = [Some o0, Some o1, Some o2]"
    using three x(2) 0 1 2 by (intro nth_equalityI) (auto simp: less_Suc_eq numeral_3_eq_3 numeral_2_eq_2)
qed

lemma DqlDq_ok:
  assumes c: "unit_contract g ns" and f: "formable g" and fc: "fusion_contract g ns" and io: "io_contract g ns" and o: "node_order g ns rank"
    and u: "GetAllOrtNodeUnits g = Inr (holder, um)"
  shows "fusion_ok g um rank (DqlDq_TryFusion g fe)"
  unfolding fusion_ok_def
proof (intro allI impI)
  fix a gm s grp s'
  assume a: "um (target_node a) = Some a" "gm a = None" and t: "DqlDq_TryFusion g fe a um gm s = (Inr (Some grp), s')"
  note g = unit_contractD(1) [OF c]
  from t obtain es os dq where h: "OpType g a = Inr ''DynamicQuantizeLinear''" "unit_type a = SingleNode" "unit_io g a = Inr (es, os)"
    "DqlDq_outputs_ok g a um = Inr True" "GetOnlyChildOfOutput g a (os ! 0) um gm = Inr (Some dq)" "OpType g dq = Inr ''DequantizeLinear''"
    "unit_type dq = SingleNode" "DqlDq_parameters_ok g a os dq um = Inr True"
    "grp = \<lparr>group_type = ''DqlDqFusion'', group_units = [a, dq], group_target_unit = a\<rparr>"
    by (rule DqlDq_matches)
  define n where "n = target_node a"
  have n: "a = single_unit n" "single_unit n \<in> set holder" "n \<in> set ns" using child_unit [OF c u a(1) h(2)] by (simp_all add: n_def)
  have op_n: "op_of g n = ''DynamicQuantizeLinear''" using h(1) n(1) by (simp add: OpType_def op_of_eq)
  obtain o0 o1 o2 where outs: "outs g n = [Some o0, Some o1, Some o2]" using DqlDq_outputs [OF h(4) [unfolded n(1)] g n(3)] .
  have os: "os = map (\<lambda>p. parse_or_none g p None) (outs g n)" using h(3) plain_unit_io [OF g n(3)] op_n n(1) by simp
  have os0: "os ! 0 = parse_or_none g (Some o0) None" by (simp add: os outs)
  obtain m where m: "consumers_of g o0 = [m]" "um m = Some dq" "gm dq = None"
    using DqlDq_child [OF g n(3) io outs h(5) [unfolded n(1) os0]] .
  have mu: "dq = single_unit m" "single_unit m \<in> set holder" "m \<in> set ns" using child_unit [OF c u m(2) h(7)] by simp_all
  have op_m: "op_of g m = ''DequantizeLinear''" using h(6) mu(1) by (simp add: OpType_def op_of_eq)
  note di = DqlDq_inputs [OF c f fc io n(3) mu(3) op_m outs h(8) [unfolded n(1) mu(1) os]]
  have alone: "consumers_of g w = [m]" if w: "only_consumer g (Some w) (single_unit m) um = Inr True" "Some w \<in> set (outs g n)" for w
  proof -
    obtain k where k: "consumers_of g w = [k]" "um k = Some (single_unit m)" using only_consumer_True [OF w(1) g n(3) w(2)] .
    then show ?thesis using child_unit(1) [OF c u k(2)] by (simp add: single_unit_def)
  qed
  have "consumers_of g o1 = [m]" "consumers_of g o2 = [m]" using alone di(2,3) outs by simp_all
  then have users: "set (users g n) = {m}" using m(1) unfolding users_eq outs by (simp add: map_filter_simps)
  show "group_ok um gm grp \<and> group_convex g um rank grp"
  proof (rule pair_fusion_ok [OF c u o n(2) mu(2)])
    show "n \<noteq> m" using op_n op_m by auto
    show "gm (single_unit n) = None" "gm (single_unit m) = None" using a(2) m(3) n(1) mu(1) by simp_all
    show "set (users g n) = {m}" by (rule users)
    show "group_units grp = [single_unit n, single_unit m]" "group_target_unit grp = single_unit n" using h(9) n(1) mu(1) by simp_all
    fix p assume p: "p \<in> set ns" "m \<in> set (users g p)"
    then obtain w where w: "Some w \<in> set (outs g p)" "m \<in> set (consumers_of g w)" by (auto simp: set_users)
    then have on: "Some w \<in> set (outs g n)" using consumer_iff [OF c p(1) mu(3) w(1)] unfolding di(1) outs by simp
    show "p = n \<or> n \<in> set (users g p)" using graph_output(1) [OF g p(1) w(1)] graph_output(1) [OF g n(3) on] by simp
  qed
qed

section \<open>HardSwish\<close>

text \<open>The operators as ONNX defines them, on real numbers.\<close>

definition hard_sigmoid :: "real \<Rightarrow> real \<Rightarrow> real \<Rightarrow> real" where
  "hard_sigmoid alpha beta x = max 0 (min 1 (alpha * x + beta))"

definition hard_swish :: "real \<Rightarrow> real" where
  "hard_swish x = x * hard_sigmoid (1 / 6) (1 / 2) x"

lemma clamp_close: "\<bar>max 0 (min 1 u) - max 0 (min 1 w)\<bar> \<le> \<bar>u - w :: real\<bar>"
  by (simp add: max_def min_def)

lemma hard_sigmoid_close:
  assumes a: "\<bar>a - 1 / 6\<bar> \<le> 1 / 2 ^ 25" and b: "\<bar>b - 1 / 2\<bar> \<le> 1 / 2 ^ 24"
  shows "\<bar>hard_sigmoid a b x - hard_sigmoid (1 / 6) (1 / 2) x\<bar> \<le> 1 / 2 ^ 22"
proof (cases "\<bar>x\<bar> \<le> 4")
  case True
  have "\<bar>(a * x + b) - (1 / 6 * x + 1 / 2)\<bar> = \<bar>(a - 1 / 6) * x + (b - 1 / 2)\<bar>" by (simp add: algebra_simps)
  also have "\<dots> \<le> \<bar>a - 1 / 6\<bar> * \<bar>x\<bar> + \<bar>b - 1 / 2\<bar>" by (metis abs_mult abs_triangle_ineq)
  also have "\<dots> \<le> 1 / 2 ^ 25 * 4 + 1 / 2 ^ 24" using a b True by (intro add_mono mult_mono) auto
  finally show ?thesis unfolding hard_sigmoid_def using clamp_close [of "a * x + b" "1 / 6 * x + 1 / 2"] by simp
next
  case False
  have ab: "0 < a" "4 / 6 - 1 / 100 \<le> a * 4" "1 / 2 - 1 / 100 \<le> b" "b \<le> 1 / 2 + 1 / 100"
  proof -
    have "\<bar>a - 1 / 6\<bar> \<le> 1 / 1000" "\<bar>b - 1 / 2\<bar> \<le> 1 / 1000" by (rule order_trans [OF a], simp, rule order_trans [OF b], simp)
    then show "0 < a" "4 / 6 - 1 / 100 \<le> a * 4" "1 / 2 - 1 / 100 \<le> b" "b \<le> 1 / 2 + 1 / 100" by linarith+
  qed
  have big: "x > 4 \<or> x < - 4" using False by auto
  show ?thesis
  proof (cases "x > 0")
    case True
    then have "a * 4 \<le> a * x" using False ab(1) by (intro mult_left_mono) auto
    then have "1 \<le> a * x + b" "1 \<le> 1 / 6 * x + 1 / 2" using ab big True by linarith+
    then show ?thesis by (simp add: hard_sigmoid_def)
  next
    case neg: False
    then have "a * x \<le> a * (- 4)" using False ab(1) by (intro mult_left_mono) auto
    then have "a * x + b \<le> 0" "1 / 6 * x + 1 / 2 \<le> 0" using ab big neg by linarith+
    then show ?thesis by (simp add: hard_sigmoid_def)
  qed
qed

lemma not_far:
  assumes "\<not> f_far v r eps" "v \<noteq> NaN"
  obtains a where "v = Num a" "\<bar>a - r\<bar> \<le> eps"
  using assms by (cases v) (auto simp: f_far_def)

text \<open>The tolerance of the comparison, from the values that the source rounds to single precision.\<close>

lemma required_close:
  "\<bar>a - req_alpha\<bar> \<le> req_alpha / 2 ^ 23 \<Longrightarrow> \<bar>a - 1 / 6\<bar> \<le> 1 / 2 ^ 25" "\<bar>b - req_beta\<bar> \<le> req_beta / 2 ^ 23 \<Longrightarrow> \<bar>b - 1 / 2\<bar> \<le> 1 / 2 ^ 24"
  unfolding req_alpha_def req_beta_def by (simp_all add: field_simps abs_if split: if_splits)

lemma hard_swish_close:
  assumes "\<bar>a - req_alpha\<bar> \<le> req_alpha / 2 ^ 23" "\<bar>b - req_beta\<bar> \<le> req_beta / 2 ^ 23"
  shows "\<bar>x * hard_sigmoid a b x - hard_swish x\<bar> \<le> \<bar>x\<bar> / 2 ^ 22"
proof -
  have "\<bar>x * hard_sigmoid a b x - hard_swish x\<bar> = \<bar>x\<bar> * \<bar>hard_sigmoid a b x - hard_sigmoid (1 / 6) (1 / 2) x\<bar>"
    by (simp add: hard_swish_def abs_mult [symmetric] algebra_simps)
  also have "\<dots> \<le> \<bar>x\<bar> * (1 / 2 ^ 22)"
    using hard_sigmoid_close [OF required_close(1) [OF assms(1)] required_close(2) [OF assms(2)]] by (rule mult_left_mono) simp
  finally show ?thesis by simp
qed

end
