(* ===== verification/Group_Theorems.thy ===== *)
theory Group_Theorems
  imports Fusion_Laws Graph_Correctness
begin

text \<open>
  The properties of node groups, and a small model at which they apply: HardSigmoid, Mul and an operator that stays alone.
\<close>

section \<open>A model with a fusion\<close>

text \<open>Nodes 0 (HardSigmoid), 1 (Mul) and 2; values 10 (input), 11, 12 and 13 (output).\<close>

definition swish :: named_graph where
  "swish =
     \<lparr>Graph_GetNodes = Inr [0, 1, 2], Node_GetId = (\<lambda>n. n),
      Node_GetInputs = (\<lambda>n. Inr (if n = 0 then [Some 10] else if n = 1 then [Some 10, Some 11] else [Some 12])),
      Node_GetOutputs = (\<lambda>n. Inr [Some (n + 11)]),
      ValueInfo_GetValueProducer = (\<lambda>v. Inr (if v = 11 then Some 0 else if v = 12 then Some 1 else if v = 13 then Some 2 else None)),
      ValueInfo_GetValueConsumers = (\<lambda>v. Inr (if v = 10 then [0, 1] else if v = 11 then [1] else if v = 12 then [2] else [])),
      Node_GetEpName = (\<lambda>n. Inr []),
      Node_GetOperatorType = (\<lambda>n. Inr (if n = 0 then ''HardSigmoid'' else if n = 1 then ''Mul'' else ''Custom'')),
      Node_GetDomain = (\<lambda>n. Inr []), Node_GetSinceVersion = (\<lambda>n. Inr 13),
      Node_GetAttributeByName = (\<lambda>n key. if n = 0 \<and> key = ''alpha'' then Some (A_Float (Num req_alpha)) else None),
      GetValueInfoName = (\<lambda>v. Inr (if v = 10 then ''x'' else if v = 11 then ''t'' else if v = 12 then ''u'' else ''y'')),
      ValueInfo_TensorInfo = (\<lambda>v. Inr (Some \<lparr>tensor_elem_type = Inr ONNX_FLOAT, tensor_dims = Inr [2], tensor_has_shape = True\<rparr>)),
      ValueInfo_IsGraphOutput = (\<lambda>v. Inr (v = 13)), ValueInfo_IsConstantInitializer = (\<lambda>v. Inr False),
      Graph_GetInitializers = Inr [], ValueInfo_GetInitializerValue = (\<lambda>v. Inr None),
      float_bits = (\<lambda>w. NaN), double_bits = (\<lambda>w. NaN), Node_GetName = (\<lambda>n. Inr ''n'')\<rparr>"

lemma swish_fields [simp]:
  "Graph_GetNodes swish = Inr [0, 1, 2]" "Node_GetId swish = (\<lambda>n. n)"
  "Node_GetInputs swish n = Inr (if n = 0 then [Some 10] else if n = 1 then [Some 10, Some 11] else [Some 12])"
  "Node_GetOutputs swish n = Inr [Some (n + 11)]"
  "ValueInfo_GetValueProducer swish v = Inr (if v = 11 then Some 0 else if v = 12 then Some 1 else if v = 13 then Some 2 else None)"
  "ValueInfo_GetValueConsumers swish v = Inr (if v = 10 then [0, 1] else if v = 11 then [1] else if v = 12 then [2] else [])"
  "Node_GetOperatorType swish n = Inr (if n = 0 then ''HardSigmoid'' else if n = 1 then ''Mul'' else ''Custom'')"
  "Node_GetDomain swish n = Inr []"
  "Node_GetAttributeByName swish n key = (if n = 0 \<and> key = ''alpha'' then Some (A_Float (Num req_alpha)) else None)"
  "ValueInfo_IsGraphOutput swish v = Inr (v = 13)" "Node_GetName swish n = Inr ''n''"
  "GetValueInfoName swish v = Inr (if v = 10 then ''x'' else if v = 11 then ''t'' else if v = 12 then ''u'' else ''y'')"
  "ValueInfo_TensorInfo swish v = Inr (Some \<lparr>tensor_elem_type = Inr ONNX_FLOAT, tensor_dims = Inr [2], tensor_has_shape = True\<rparr>)"
  "Graph_GetInitializers swish = Inr []"
  by (simp_all add: swish_def)

lemma swish_accessors [simp]:
  "ins swish n = (if n = 0 then [Some 10] else if n = 1 then [Some 10, Some 11] else [Some 12])"
  "outs swish n = [Some (n + 11)]"
  "consumers_of swish v = (if v = 10 then [0, 1] else if v = 11 then [1] else if v = 12 then [2] else [])"
  "op_of swish n = (if n = 0 then ''HardSigmoid'' else if n = 1 then ''Mul'' else ''Custom'')"
  by (simp_all add: ins_def outs_def consumers_of_def op_of_def)

lemma swish_graph_ok: "graph_ok swish [0, 1, 2]"
  by (simp add: graph_ok_def node_ok_def output_ok_def input_ok_def)

lemma swish_edges_ok: "edges_ok swish [0, 1, 2]"
  by (auto simp: edges_ok_def map_filter_simps)

lemma swish_contract: "unit_contract swish [0, 1, 2]"
  using swish_graph_ok swish_edges_ok
  by (simp add: unit_contract_def data_input_first_def users_eq map_filter_simps count_edges_def)

lemma swish_io: "io_contract swish [0, 1, 2]"
  by (simp add: io_contract_def ParseOrtValueInfo_def keeps_floats_def)

lemma swish_fusion_contract: "fusion_contract swish [0, 1, 2]"
  by (auto simp: fusion_contract_def)

lemma swish_order: "node_order swish [0, 1, 2] (\<lambda>n. n)"
  by (simp add: node_order_def users_eq map_filter_simps)


lemma swish_select: "select_node swish 0 = Inr None" "select_node swish 1 = Inr None" "select_node swish 2 = Inr None"
proof -
  have ops: "map_of (InitializeSelectorsMap CreateSelectors) ''HardSigmoid'' = Some ([], Unary)"
    "map_of (InitializeSelectorsMap CreateSelectors) ''Mul'' = Some ([], Binary)"
    "map_of (InitializeSelectorsMap CreateSelectors) ''Custom'' = None"
    by (simp_all add: map_of_selectors CreateSelectors_def any_version_def)
  have extend: "forward_extension swish 0 (Suc 0) = Inr (None, None)" "forward_extension swish 1 (Suc 0) = Inr (None, None)"
    by (simp_all add: forward_extension_def TryFoldRedundantActivation_def TryAbsorbTrailingReshape_def sole_consumer_of_node_def
        GetSingleOutput_def GetSoleNonOutputConsumer_def OperatorType_def del: One_nat_def)
  show "select_node swish 0 = Inr None"
    using ops(1) extend(1)
    by (simp add: select_node_def OperatorType_def selection_domains_def GetOrtQDQSelection_def producer_of_type_def Check_def
        Check_Unary_def CheckQDQNodes_def)
  show "select_node swish 1 = Inr None"
    using ops(2) extend(2)
    by (simp add: select_node_def OperatorType_def selection_domains_def GetOrtQDQSelection_def producer_of_type_def Check_def
        Check_Binary_def CheckQDQNodes_def del: One_nat_def)
  show "select_node swish 2 = Inr None"
    using ops(3) by (simp add: select_node_def OperatorType_def selection_domains_def)
qed

definition swish_units :: node_unit_map where
  "swish_units = (\<lambda>n. if n \<in> {0, 1, 2} then Some (single_unit n) else None)"

lemma swish_formed: "GetAllOrtNodeUnits swish = Inr ([single_unit 0, single_unit 1, single_unit 2], swish_units)"
  by (simp add: GetAllOrtNodeUnits_def GetOrtQDQSelections_def swish_select add_single_unit_def Let_def swish_units_def del: One_nat_def)
    (auto simp: fun_eq_iff)

text \<open>The QNN library accepts every node.\<close>

definition swish_env :: fusion_env where
  "swish_env =
     \<lparr>fe_model = sample_env False,
      fe_unpack = (\<lambda>_. \<lparr>unpacked_scales = Inr [], unpacked_zero_points = None, quant_axis = None, block_size = None, scale_shape = []\<rparr>),
      fe_affinity = [], HARD_SWISH = 3\<rparr>"

lemma swish_new_tensor:
  assumes "n \<noteq> []" "ty \<noteq> QNN_TENSOR_TYPE_STATIC"
  shows "\<exists>tw. new_tensor (sample_env False) n ty QNN_DATATYPE_FLOAT_32 QnnQuantParamsWrapper_new [2] [] s = (Inr tw, s)"
  using assms by (simp add: new_tensor_def QnnTensorWrapper_new_def Copy_new narrowed_def tensor_eval Let_def)

lemma swish_info:
  assumes "branch_graph_scope_stack s = []"
  shows "GetTensorInfo (sample_env False) \<lparr>iod_name = n, iod_type = ONNX_FLOAT, iod_shape = Some [2], iod_quant = None\<rparr> s
       = (Inr \<lparr>ti_shape = [2], ti_data_type = QNN_DATATYPE_FLOAT_32, ti_quant_param = QnnQuantParamsWrapper_new,
               ti_initializer = None, ti_is_initializer = False\<rparr>, s)"
proof -
  have "OnnxDataTypeToQnnDataType ONNX_FLOAT False HTP = Some QNN_DATATYPE_FLOAT_32" by code_simp
  then show ?thesis
    using assms
    by (simp add: GetTensorInfo_def GetOnnxShape_def Init_onnx_def reset_per_channel_def QnnQuantParamsWrapper_new_def
      IsConstantInput_def FindInitializer_def FindInitializerInGraph_def sample_env_def Let_def GetQnnDataType_def)
qed

lemma swish_tensor:
  assumes "n \<noteq> []" "branch_graph_scope_stack s = []" "GetTensorType (sample_env False) s n \<noteq> QNN_TENSOR_TYPE_STATIC"
  shows "\<exists>tw. MakeTensorWrapper_io (sample_env False) \<lparr>iod_name = n, iod_type = ONNX_FLOAT, iod_shape = Some [2], iod_quant = None\<rparr> s
           = (Inr tw, s)"
  using assms swish_new_tensor [OF assms(1,3), of s] by (simp add: MakeTensorWrapper_io_def swish_info initializer_bytes_def)

definition swish_value :: "string \<Rightarrow> OrtIODef" where
  "swish_value name = \<lparr>io_name = name, io_type = ONNX_FLOAT, io_shape = Some [2], io_quant_param = None\<rparr>"

lemma swish_unit_io:
  "unit_io swish (single_unit 0) = Inr ([swish_value ''x''], [swish_value ''t''])"
  "unit_io swish (single_unit 1) = Inr ([swish_value ''x'', swish_value ''t''], [swish_value ''u''])"
  by (simp_all add: unit_io_def InitForSingleNode_def parse_or_none_def ParseOrtValueInfo_def swish_value_def del: One_nat_def)

lemma swish_name: "\<exists>name s'. unit_name swish (single_unit 0) empty_model = (Inr name, s') \<and> branch_graph_scope_stack s' = []
    \<and> model_tensors_map s' = []"
  by (simp add: unit_name_def OpType_def OperatorType_def throwing_def empty_model_def Let_def split: prod.split)

lemma swish_validates:
  "\<exists>s'. HardSigmoidMul_CreateOrValidateOnQnn swish swish_env (single_unit 0) (single_unit 1) True empty_model = (Inr (), s')"
proof -
  obtain name s' where s': "unit_name swish (single_unit 0) empty_model = (Inr name, s')"
    "branch_graph_scope_stack s' = []" "model_tensors_map s' = []"
    using swish_name by blast
  have t: "GetTensorType (sample_env False) s' n \<noteq> QNN_TENSOR_TYPE_STATIC" for n
    using s' by (simp add: GetTensorType_def IsConstantInput_def FindInitializer_def FindInitializerInGraph_def sample_env_def)
  obtain x where x: "MakeTensorWrapper_io (sample_env False) (wrapper_io swish_env (swish_value ''x'')) s' = (Inr x, s')"
    using swish_tensor [OF _ s'(2) t, of "''x''"] by (auto simp: wrapper_io_def swish_value_def)
  obtain y where y: "MakeTensorWrapper_io (sample_env False) (wrapper_io swish_env (swish_value ''u'')) s' = (Inr y, s')"
    using swish_tensor [OF _ s'(2) t, of "''u''"] by (auto simp: wrapper_io_def swish_value_def)
  have m: "fe_model swish_env = sample_env False" by (simp add: swish_env_def)
  have v: "ValidateQnnNode (sample_env False) w = Inr ()" for w
    by (simp add: ValidateQnnNode_def QnnGraphOpValidation_def sample_env_def)
  show ?thesis
    by (simp add: HardSigmoidMul_CreateOrValidateOnQnn_def s'(1) swish_unit_io m x y v QnnOpConfigWrapper_new_def SetNames_def
        SetNums_def SetData_def QNN_OPCONFIG_INIT_def vec_at_def Let_def del: One_nat_def)
qed

definition swish_group :: node_group where
  "swish_group = \<lparr>group_type = ''HardSigmoidMulFusion'', group_units = [single_unit 0, single_unit 1],
     group_target_unit = single_unit 0\<rparr>"

lemma swish_fused:
  "\<exists>s'. HardSigmoidMul_TryFusion swish swish_env (single_unit 0) swish_units Map.empty empty_model = (Inr (Some swish_group), s')"
proof -
  have child: "GetOnlyChildOfType swish (single_unit 0) [''Mul''] swish_units Map.empty = Inr (Some (single_unit 1))"
    by (simp add: GetOnlyChildOfType_def throwing_def nonnull_def OperatorType_def swish_units_def del: One_nat_def)
  have near: "\<not> f_far (Attr_float swish 0 ''alpha'' (Num (13421773 / 2 ^ 26))) req_alpha (req_alpha / 2 ^ 23)"
    "\<not> f_far (Attr_float swish 0 ''beta'' (Num (1 / 2))) req_beta (req_beta / 2 ^ 23)"
    by (simp_all add: Attr_float_def f_far_def req_alpha_def req_beta_def)
  have same: "same_root_input swish (single_unit 0) (single_unit 1) = Inr True"
    by (simp add: same_root_input_def swish_unit_io vec_at_def swish_value_def del: One_nat_def)
  show ?thesis
    using swish_validates near
    by (auto simp: HardSigmoidMul_TryFusion_def OpType_def OperatorType_def child same succeeded_def swish_group_def Let_def
        simp del: One_nat_def)
qed



section \<open>Groups cover the units in the order of the graph\<close>





section \<open>The fused operator\<close>

text \<open>
  C11.  When HardSigmoidMulFusion replaces two units by one HardSwish, the Mul multiplies the output of the HardSigmoid by the
  input of the HardSigmoid, in either order, and the result differs from HardSwish by at most 2^-22 of the input.  Here the
  attributes alpha and beta are not NaN, for which the comparison with the tolerance says nothing.
\<close>

theorem fused_hardsigmoid_is_hardswish:
  fixes g :: named_graph
  assumes "unit_contract g ns" "fusion_contract g ns" "io_contract g ns" "node_order g ns rank"
    and "GetAllOrtNodeUnits g = Inr (holder, um)" "u \<in> set holder"
    and "HardSigmoidMul_TryFusion g fe u um gm s = (Inr (Some grp), s')"
    and "Attr_float g (target_node u) ''alpha'' (Num (13421773 / 2 ^ 26)) \<noteq> NaN" "Attr_float g (target_node u) ''beta'' (Num (1 / 2)) \<noteq> NaN"
  shows "\<exists>m x y alpha beta. group_units grp = [u, single_unit m] \<and> op_of g (target_node u) = ''HardSigmoid'' \<and> op_of g m = ''Mul''
    \<and> ins g (target_node u) = [Some x] \<and> outs g (target_node u) = [Some y]
    \<and> (ins g m = [Some x, Some y] \<or> ins g m = [Some y, Some x])
    \<and> Attr_float g (target_node u) ''alpha'' (Num (13421773 / 2 ^ 26)) = Num alpha
    \<and> Attr_float g (target_node u) ''beta'' (Num (1 / 2)) = Num beta
    \<and> (\<forall>v. \<bar>v * hard_sigmoid alpha beta v - hard_swish v\<bar> \<le> \<bar>v\<bar> / 2 ^ 22)"
proof -
  have a: "um (target_node u) = Some u"
    using GetAllOrtNodeUnits_cover [OF unit_contractD(1,3) [OF assms(1)] assms(5)] assms(6) by (simp add: units_cover_def)
  from HardSigmoidMul_pair [OF assms(1-5) a assms(7)] obtain n m v root where
    n: "u = single_unit n" and ops: "op_of g n = ''HardSigmoid''" "op_of g m = ''Mul''" and v: "outs g n = [Some v]"
    and root: "ins g n = [Some root]" "ins g m = [Some root, Some v] \<or> ins g m = [Some v, Some root]"
    and grp: "group_units grp = [single_unit n, single_unit m]"
    and near: "\<not> f_far (Attr_float g n ''alpha'' (Num (13421773 / 2 ^ 26))) req_alpha (req_alpha / 2 ^ 23)"
    "\<not> f_far (Attr_float g n ''beta'' (Num (1 / 2))) req_beta (req_beta / 2 ^ 23)"
    by metis
  obtain alpha where alpha: "Attr_float g n ''alpha'' (Num (13421773 / 2 ^ 26)) = Num alpha" "\<bar>alpha - req_alpha\<bar> \<le> req_alpha / 2 ^ 23"
    using assms(8) n by (auto intro: not_far [OF near(1)])
  obtain beta where beta: "Attr_float g n ''beta'' (Num (1 / 2)) = Num beta" "\<bar>beta - req_beta\<bar> \<le> req_beta / 2 ^ 23"
    using assms(9) n by (auto intro: not_far [OF near(2)])
  show ?thesis
    using n ops v root grp alpha(1) beta(1) hard_swish_close [OF alpha(2) beta(2)] by (intro exI [of _ m] exI [of _ root] exI [of _ v] exI [of _ alpha] exI [of _ beta]) simp
qed

theorem fused_hardsigmoid_is_hardswish_witness:
  "\<exists>s' m x y alpha beta.
     HardSigmoidMul_TryFusion swish swish_env (single_unit 0) swish_units Map.empty empty_model = (Inr (Some swish_group), s')
     \<and> group_units swish_group = [single_unit 0, single_unit m] \<and> ins swish 0 = [Some x] \<and> outs swish 0 = [Some y]
     \<and> ins swish m = [Some x, Some y]
     \<and> (\<forall>v. \<bar>v * hard_sigmoid alpha beta v - hard_swish v\<bar> \<le> \<bar>v\<bar> / 2 ^ 22)"
proof -
  obtain s' where s': "HardSigmoidMul_TryFusion swish swish_env (single_unit 0) swish_units Map.empty empty_model
      = (Inr (Some swish_group), s')"
    using swish_fused by blast
  have attrs: "Attr_float swish (target_node (single_unit 0)) ''alpha'' (Num (13421773 / 2 ^ 26)) \<noteq> NaN"
    "Attr_float swish (target_node (single_unit 0)) ''beta'' (Num (1 / 2)) \<noteq> NaN"
    by (simp_all add: Attr_float_def)
  have "single_unit 0 \<in> set [single_unit 0, single_unit 1, single_unit 2]" by simp
  from fused_hardsigmoid_is_hardswish [OF swish_contract swish_fusion_contract swish_io swish_order swish_formed this s' attrs]
  obtain m x y alpha beta where r: "group_units swish_group = [single_unit 0, single_unit m]"
    "ins swish (target_node (single_unit 0)) = [Some x]" "outs swish (target_node (single_unit 0)) = [Some y]"
    "ins swish m = [Some x, Some y] \<or> ins swish m = [Some y, Some x]"
    "\<forall>v. \<bar>v * hard_sigmoid alpha beta v - hard_swish v\<bar> \<le> \<bar>v\<bar> / 2 ^ 22"
    by (elim exE conjE)
  have "m = 1" using r(1) by (simp add: swish_group_def single_unit_def)
  moreover have "x = 10" "y = 11" using r(2,3) by simp_all
  ultimately have "ins swish m = [Some x, Some y]" by simp
  with s' r(1,2,3,5) show ?thesis
    by (intro exI [of _ s'] exI [of _ m] exI [of _ x] exI [of _ y] exI [of _ alpha] exI [of _ beta]) (simp del: swish_accessors)
qed

end
