(* ===== verification/Spec2Isabelle.thy ===== *)
theory Spec2Isabelle
  imports Prelude Int_Packing Partition Timer Power_Manager Text_Utils Cache_Compat Qnn_Types Quant_Params Qnn_Tensor Shapes
    Model_Wrapper Graph_Building Graph_Correctness Shared_Memory Memory_Safety Qdq_Selector Qdq_Units Qdq_Hiding Qdq_Folding
    Unit_Edges Unit_Partition Qdq_Total Unit_Io Qdq_Theorems Op_Affinity Node_Groups Group_Order Fusion_Laws Group_Theorems
begin

text \<open>
  A verification library for the QNN execution provider of ONNX Runtime.  All paths below are relative to
  \<open>src/onnxruntime/core/providers/qnn\<close>.

  \<^bold>\<open>The program.\<close>  ONNX Runtime hands the provider a graph.  The provider forms node units, asks for each whether the backend
  supports it, and partitions the supported ones into subgraphs.  Each becomes a QNN graph: its units are grouped, with fusions
  that replace several units by one QNN node, and the model wrapper collects tensors, parameters and ops, then creates them
  through the QNN library.  Compiled contexts are cached with a compatibility
  string.  At run time, memory shared with the accelerator is allocated, registered with a context and released, and the power
  manager votes for clock settings, with a timer thread that releases them.

  \<^bold>\<open>How the model reads.\<close>  A class is a record, an enumeration or tagged union a datatype, a method a function on the record.
  A call that returns an \<open>Ort::Status\<close> has a \<open>result\<close>; \<open>Status_Fail\<close> is an error status, \<open>Thrown\<close> an exception and
  \<open>Undefined_Behaviour\<close> a step outside the language.  A failing call keeps the changes it already made, so stateful operations
  return the result and the state.  The QNN library, the rpcmem library and ONNX Runtime are arguments: records of functions
  that may depend on the whole history of calls.  What a theorem needs of them is a named hypothesis of that theorem.

  \<^bold>\<open>Theories.\<close>

  \<^item> \<open>Prelude\<close>: results, loops over indices, association lists, word facts.
  \<^item> \<open>Int_Packing\<close>: \<open>common/int4.h\<close>, \<open>common/int2.h\<close>.  Packing and unpacking are inverse and \<open>SetElem\<close> changes one element.
  \<^item> \<open>Partition\<close>: \<open>qnn_ep_partition_utils.cc\<close> and the node-unit queries of \<open>ort_api.cc\<close>.  The groups cover the supported
    units, contracting them leaves an acyclic graph, and the loop ends on every well-formed graph.
  \<^item> \<open>Qdq_Selector\<close>: \<open>builder/qdq_node_group_selector.cc\<close>, the selectors that group an operator with its DequantizeLinear and
    QuantizeLinear nodes, and the formation of the node units.  \<open>Qdq_Units\<close> shows that the units cover the graph,
    \<open>Qdq_Hiding\<close> that no value inside a quantized unit is read outside it, \<open>Qdq_Folding\<close> that a folded activation cannot be
    observed, \<open>Qdq_Total\<close> that forming the units never fails.  \<open>Unit_Edges\<close> and \<open>Unit_Partition\<close> compose the units with the
    partitioner: the edge counts agree, an order of the nodes orders the units, and partitioning succeeds.
    \<open>Unit_Io\<close> models the inputs and outputs of a unit (\<open>ort_api.cc\<close>) and shows that units are connected by name and carry the
    encodings of their Q and DQ nodes.
    \<open>Qdq_Theorems\<close> states the properties, with a small model and the cases where a selector goes wrong.
  \<^item> \<open>Op_Affinity\<close>: \<open>op_affinity/qnn_op_affinity_map.cc\<close>, operators pinned to a backend.  Which operators a session claims.
  \<^item> \<open>Node_Groups\<close>: \<open>builder/qnn_node_group/qnn_node_group.cc\<close> and the fusions \<open>hardsigmoid_mul_fusion.cc\<close>,
    \<open>cast_lone_q_fusion.cc\<close> and \<open>dql_dq_fusion.cc\<close>.  \<open>Group_Order\<close> shows that the groups hold every unit once, in the order of
    the graph, when every fusion keeps a contract (\<open>fusion_ok\<close>); \<open>Fusion_Laws\<close> that the three fusions keep it, and that the
    fused HardSigmoid is HardSwish.  \<open>Group_Theorems\<close> states the properties and evaluates the grouping of a small model.
    The fusions of the other files are a parameter of the table, with the contract as a hypothesis.  It does not cover integer
    matrix products or convolutions that share one DynamicQuantizeLinear, whose first group takes the shared unit.
  \<^item> \<open>Timer\<close>, \<open>Power_Manager\<close>: \<open>builder/timer.cc\<close>, \<open>builder/qnn_htp_power_config_manager.cc\<close>.  Critical sections of the timer
    thread as a step relation; abort and shutdown return; which votes a timeout makes.
  \<^item> \<open>Text_Utils\<close>, \<open>Cache_Compat\<close>: the string helpers of \<open>builder/qnn_utils.h\<close> and \<open>cache_compatibility/\<close>.  Round trip and
    robustness of the parser, and the exact verdict of the validation.
  \<^item> \<open>Qnn_Types\<close>: the size tables and type mapping of \<open>builder/qnn_utils.cc\<close>.
  \<^item> \<open>Quant_Params\<close>: \<open>builder/qnn_quant_params_wrapper.cc\<close>, with an explicit store of the buffers.  Copies are deep, transposes
    and unsqueezes move the axis correctly, and the error of the block representation is bounded.
  \<^item> \<open>Qnn_Tensor\<close>: the accessors and wrappers of \<open>builder/qnn_def.cc\<close> and \<open>qnn_def.h\<close>.  A static tensor fits its buffer.
  \<^item> \<open>Shapes\<close>: permutations, the reshape workaround and the transposes of \<open>builder/qnn_utils.cc\<close>.  The tiled transpose equals
    the plain one; the weight transposes put each element where the accelerator expects it.
  \<^item> \<open>Model_Wrapper\<close>, \<open>Graph_Building\<close>, \<open>Graph_Correctness\<close>: \<open>builder/qnn_model_wrapper.cc\<close> and \<open>qnn_graph_emitter.cc\<close>.  The
    invariant of a graph under construction, kept by every operation, and the consistency of the composed graph.
  \<^item> \<open>Shared_Memory\<close>, \<open>Memory_Safety\<close>: \<open>qnn_allocator.cc\<close>, \<open>builder/qnn_context_mem_handle_manager.cc\<close> and the contexts of
    \<open>builder/qnn_backend_manager.cc\<close>.  Reachable states over all interleavings of calls; no memory is freed under a handle.

  \<^bold>\<open>Locales.\<close>  \<open>packed_format\<close>, \<open>text_codec\<close>, \<open>list_codec\<close>, \<open>copy_plan\<close> and \<open>graph_placement\<close> are the contracts that several
  operations share.  Each is interpreted on the definitions of the model, and the properties rest on these interpretations.

  \<^bold>\<open>Bounds.\<close>  The only bounded search is \<open>first_free\<close> for a unique node name.  The code tries suffixes from 2 on; with \<open>n\<close> names
  in use one of \<open>n\<close> candidates is free, so the list of \<open>n\<close> candidates loses nothing, which the theorem on names proves.  The
  partitioning loop has no bound: it is a partial function, and its termination is a theorem.  Sizes are \<open>size_t\<close> and wrap or
  throw as in the code.

  \<^bold>\<open>Not modelled.\<close>  Floating point rounding: a float is a real number or not finite.  Log text and diagnostics.  The operator
  builders and the remaining fusions, which translate attributes and patterns and call the modelled operations.  Code whose work is input and output or
  calls into a library: loading of libraries, files and context binaries, profiling, telemetry, Genie, the Windows DX12 path.
\<close>

end
